(* ===== verification/Prelude.thy ===== *)
theory Prelude
  imports
    "HOL-Library.Sublist"
    "HOL-Library.List_Lexorder"
    "HOL-Library.Char_ord"
    "HOL-Library.Product_Lexorder"
begin

text \<open>
  What every component shares: the outcome of a Rust function (\<open>Ok\<close>, \<open>Err\<close> or a panic), the
  parts of \<open>str\<close> the sources use, \<open>PathBuf\<close> as a list of components, and \<open>BTreeMap\<close> as a strictly
  sorted association list behind the locale \<open>ordered_map\<close>.

  A Rust \<open>String\<close> is its UTF-8 byte sequence, a \<^typ>\<open>char list\<close>: \<open>str\<close>'s \<open>Ord\<close> compares bytes,
  which is the lexicographic order of \<open>List_Lexorder\<close> over \<open>Char_ord\<close>.
\<close>

named_theorems outcome_simps "rewriting of outcomes"
named_theorems str_simps "rewriting of the str operations"

section \<open>Outcomes\<close>

text \<open>
  \<open>Result<a, e>\<close>, with a third constructor for \<open>panic!\<close>, \<open>unreachable!\<close> and a failed \<open>expect\<close>:
  the function then returns nothing at all.
\<close>

datatype ('e, 'a) outcome = Ok 'a | Err 'e | Panic

fun obind :: "('e, 'a) outcome \<Rightarrow> ('a \<Rightarrow> ('e, 'b) outcome) \<Rightarrow> ('e, 'b) outcome" where
  "obind (Ok a) f = f a"
| "obind (Err e) f = Err e"
| "obind Panic f = Panic"

fun omap_err :: "('e \<Rightarrow> 'f) \<Rightarrow> ('e, 'a) outcome \<Rightarrow> ('f, 'a) outcome" where
  "omap_err g (Ok a) = Ok a"
| "omap_err g (Err e) = Err (g e)"
| "omap_err g Panic = Panic"

fun expect :: "'a option \<Rightarrow> ('e, 'a) outcome" where
  "expect None = Panic"
| "expect (Some a) = Ok a"

fun ok_or :: "'e \<Rightarrow> 'a option \<Rightarrow> ('e, 'a) outcome" where
  "ok_or e None = Err e"
| "ok_or e (Some a) = Ok a"

fun is_Ok :: "('e, 'a) outcome \<Rightarrow> bool" where
  "is_Ok (Ok _) = True"
| "is_Ok _ = False"

lemma obind_Ok_iff [outcome_simps]:
  "obind m f = Ok b \<longleftrightarrow> (\<exists>a. m = Ok a \<and> f a = Ok b)"
  by (cases m) auto

lemma obind_Err_iff [outcome_simps]:
  "obind m f = Err e \<longleftrightarrow> m = Err e \<or> (\<exists>a. m = Ok a \<and> f a = Err e)"
  by (cases m) auto

lemma obind_Panic_iff [outcome_simps]:
  "obind m f = Panic \<longleftrightarrow> m = Panic \<or> (\<exists>a. m = Ok a \<and> f a = Panic)"
  by (cases m) auto

lemma omap_err_iff [outcome_simps]:
  "omap_err g m = Ok a \<longleftrightarrow> m = Ok a"
  "omap_err g m = Err e' \<longleftrightarrow> (\<exists>e. m = Err e \<and> e' = g e)"
  "omap_err g m = Panic \<longleftrightarrow> m = Panic"
  by (cases m; auto)+

lemma expect_iff [outcome_simps]:
  "expect x = Ok a \<longleftrightarrow> x = Some a"
  "expect x = Panic \<longleftrightarrow> x = None"
  "expect x \<noteq> Err e"
  by (cases x; auto)+

lemma ok_or_iff [outcome_simps]:
  "ok_or e x = Ok a \<longleftrightarrow> x = Some a"
  "ok_or e x = Err e' \<longleftrightarrow> x = None \<and> e' = e"
  "ok_or e x \<noteq> Panic"
  by (cases x; auto)+

lemma is_Ok_iff: "is_Ok m \<longleftrightarrow> (\<exists>a. m = Ok a)"
  by (cases m) auto

text \<open>A \<open>for\<close> loop whose body may return early with an error.\<close>

fun for_each :: "('a \<Rightarrow> ('e, unit) outcome) \<Rightarrow> 'a list \<Rightarrow> ('e, unit) outcome" where
  "for_each f [] = Ok ()"
| "for_each f (x # xs) = obind (f x) (\<lambda>_. for_each f xs)"

fun fold_outcome :: "('s \<Rightarrow> 'a \<Rightarrow> ('e, 's) outcome) \<Rightarrow> 's \<Rightarrow> 'a list \<Rightarrow> ('e, 's) outcome" where
  "fold_outcome f s [] = Ok s"
| "fold_outcome f s (x # xs) = obind (f s x) (\<lambda>s'. fold_outcome f s' xs)"

lemma for_each_Ok_iff [outcome_simps]:
  "for_each f xs = Ok u \<longleftrightarrow> (\<forall>x \<in> set xs. f x = Ok ())"
  by (induction xs) (auto simp: outcome_simps)

lemma for_each_no_panic:
  "(\<And>x. x \<in> set xs \<Longrightarrow> f x \<noteq> Panic) \<Longrightarrow> for_each f xs \<noteq> Panic"
  by (induction xs) (auto simp: outcome_simps)

text \<open>The loop stops at the first element whose body fails.\<close>

lemma for_each_Err_iff:
  "for_each f xs = Err e \<longleftrightarrow>
     (\<exists>ys x zs. xs = ys @ x # zs \<and> (\<forall>y \<in> set ys. f y = Ok ()) \<and> f x = Err e)"
proof (induction xs)
  case Nil
  then show ?case by simp
next
  case (Cons a xs)
  show ?case
  proof (cases "f a")
    case (Ok u)
    have "(\<exists>ys x zs. a # xs = ys @ x # zs \<and> (\<forall>y \<in> set ys. f y = Ok ()) \<and> f x = Err e)
      \<longleftrightarrow> (\<exists>ys x zs. xs = ys @ x # zs \<and> (\<forall>y \<in> set ys. f y = Ok ()) \<and> f x = Err e)"
      (is "?L \<longleftrightarrow> ?R")
    proof
      assume ?L
      then obtain ys x zs where *: "a # xs = ys @ x # zs"
        "\<forall>y \<in> set ys. f y = Ok ()" "f x = Err e" by blast
      with Ok obtain ys' where "ys = a # ys'" by (cases ys) auto
      with * show ?R by auto
    next
      assume ?R
      then obtain ys x zs where "xs = ys @ x # zs"
        "\<forall>y \<in> set ys. f y = Ok ()" "f x = Err e" by blast
      with Ok have "a # xs = (a # ys) @ x # zs"
        "\<forall>y \<in> set (a # ys). f y = Ok ()" "f x = Err e" by auto
      then show ?L by blast
    qed
    with Ok Cons.IH show ?thesis by simp
  next
    case (Err e')
    have "a # xs = [] @ a # xs" by simp
    with Err show ?thesis
      by (auto simp: Cons_eq_append_conv intro: exI [of _ "[]"])
  next
    case Panic
    then show ?thesis
      by (auto simp: Cons_eq_append_conv)
  qed
qed

lemma fold_outcome_append [outcome_simps]:
  "fold_outcome f s (xs @ ys) = obind (fold_outcome f s xs) (\<lambda>s'. fold_outcome f s' ys)"
proof (induction xs arbitrary: s)
  case (Cons x xs)
  then show ?case by (cases "f s x") auto
qed simp

lemma fold_outcome_no_panic:
  "(\<And>s x. x \<in> set xs \<Longrightarrow> f s x \<noteq> Panic) \<Longrightarrow> fold_outcome f s xs \<noteq> Panic"
  by (induction xs arbitrary: s) (auto simp: outcome_simps)

lemma fold_outcome_invariant:
  assumes "fold_outcome f s xs = Ok s'" "P s"
    and "\<And>s x s'. x \<in> set xs \<Longrightarrow> P s \<Longrightarrow> f s x = Ok s' \<Longrightarrow> P s'"
  shows "P s'"
  using assms
proof (induction xs arbitrary: s)
  case (Cons x xs)
  then obtain t where "f s x = Ok t" "fold_outcome f t xs = Ok s'"
    by (auto simp: outcome_simps)
  with Cons show ?case by (metis list.set_intros(1,2))
qed simp

text \<open>The first match of a search, \<open>Iterator::find\<close>.\<close>

lemma find_append: "find P (xs @ ys) = (case find P xs of None \<Rightarrow> find P ys | Some x \<Rightarrow> Some x)"
  by (induction xs) auto

lemma find_SomeD: "find P xs = Some x \<Longrightarrow> x \<in> set xs \<and> P x"
  by (induction xs) (auto split: if_splits)

lemma find_Some_ex: "x \<in> set xs \<Longrightarrow> P x \<Longrightarrow> \<exists>y. find P xs = Some y"
  by (induction xs) auto

section \<open>The \<open>str\<close> operations\<close>

text \<open>\<open>str::split_once\<close> at the first occurrence of a pattern.\<close>

fun split_once :: "string \<Rightarrow> string \<Rightarrow> (string \<times> string) option" where
  "split_once p [] = (if p = [] then Some ([], []) else None)"
| "split_once p (c # cs) =
     (if prefix p (c # cs) then Some ([], drop (length p) (c # cs))
      else map_option (\<lambda>(a, b). (c # a, b)) (split_once p cs))"

lemma split_once_Some: "split_once p s = Some (a, b) \<Longrightarrow> s = a @ p @ b"
proof (induction s arbitrary: a)
  case Nil
  then show ?case by (simp split: if_splits)
next
  case (Cons c cs)
  then show ?case
    by (auto simp: prefix_def split: if_splits)
qed

lemma split_once_None_iff: "split_once p s = None \<longleftrightarrow> \<not> sublist p s"
  by (induction s) (auto simp: sublist_Cons_right)

text \<open>What precedes the separator contains no earlier occurrence of it.\<close>

lemma split_once_first:
  "split_once p s = Some (a, b) \<Longrightarrow> length a' < length a \<Longrightarrow> s \<noteq> a' @ p @ b'"
proof (induction s arbitrary: a a')
  case Nil
  then show ?case by (simp split: if_splits)
next
  case (Cons c cs)
  then obtain a2 where a: "a = c # a2" "split_once p cs = Some (a2, b)" "\<not> prefix p (c # cs)"
    by (auto split: if_splits)
  show ?case
  proof (cases a')
    case Nil
    with a(3) show ?thesis by (auto simp: prefix_def)
  next
    case (Cons d a3)
    with a Cons.prems(2) have "cs \<noteq> a3 @ p @ b'" by (intro Cons.IH [OF a(2)]) simp
    with Cons show ?thesis by simp
  qed
qed

lemma split_once_prefix: "split_once p (p @ s) = Some ([], s)"
proof (cases "p @ s")
  case (Cons c cs)
  then have "prefix p (c # cs)" by (metis prefixI)
  then show ?thesis by (simp add: Cons) (metis Cons append_eq_conv_conj)
qed simp

text \<open>The separator found first is found whatever follows it.\<close>

lemma split_once_replace:
  assumes "split_once p s = Some (a, b)"
  shows "split_once p (a @ p @ t) = Some (a, t)"
  using assms
proof (induction s arbitrary: a)
  case Nil
  then show ?case by (cases t) (auto split: if_splits)
next
  case (Cons c cs)
  show ?case
  proof (cases "prefix p (c # cs)")
    case True
    then have "a = []" using Cons.prems by simp
    then show ?thesis by (simp add: split_once_prefix)
  next
    case False
    then obtain a2 where a: "a = c # a2" "split_once p cs = Some (a2, b)"
      using Cons.prems by (auto split: if_splits)
    have eq: "c # cs = (c # a2 @ p) @ b" using split_once_Some [OF a(2)] by simp
    have "\<not> prefix p (c # a2 @ p)"
      using False prefix_prefix [of p "c # a2 @ p" b] unfolding eq by blast
    then have "\<not> prefix p ((c # a2 @ p) @ t)"
      using prefix_length_prefix [of p "(c # a2 @ p) @ t" "c # a2 @ p"] by auto
    with a Cons.IH [OF a(2)] show ?thesis by simp
  qed
qed

lemma split_once_char:
  "c \<notin> set a \<Longrightarrow> split_once (c # p) (a @ c # p @ b) = Some (a, b)"
proof (induction a)
  case Nil
  then show ?case using split_once_prefix [of "c # p" b] by simp
qed simp

text \<open>\<open>str::rsplit_once\<close> at the last occurrence of a character.\<close>

definition rsplit_once :: "char \<Rightarrow> string \<Rightarrow> (string \<times> string) option" where
  "rsplit_once c s =
     (if c \<in> set s
      then Some (rev (tl (dropWhile (\<lambda>x. x \<noteq> c) (rev s))), rev (takeWhile (\<lambda>x. x \<noteq> c) (rev s)))
      else None)"

lemma rsplit_once_Some:
  assumes "rsplit_once c s = Some (a, b)"
  shows "s = a @ c # b" and "c \<notin> set b"
proof -
  let ?P = "\<lambda>x. x \<noteq> c"
  from assms have c: "c \<in> set s" and a: "a = rev (tl (dropWhile ?P (rev s)))"
    and b: "b = rev (takeWhile ?P (rev s))"
    by (auto simp: rsplit_once_def split: if_splits)
  have ne: "dropWhile ?P (rev s) \<noteq> []" using c by (auto simp: dropWhile_eq_Nil_conv)
  moreover have "hd (dropWhile ?P (rev s)) = c" using hd_dropWhile [OF ne] by simp
  ultimately have "dropWhile ?P (rev s) = c # tl (dropWhile ?P (rev s))"
    by (metis list.collapse)
  then have "rev s = takeWhile ?P (rev s) @ c # tl (dropWhile ?P (rev s))"
    by (metis takeWhile_dropWhile_id)
  then have "rev (rev s) = rev (takeWhile ?P (rev s) @ c # tl (dropWhile ?P (rev s)))"
    by (rule arg_cong)
  then show "s = a @ c # b" by (simp add: a b)
  show "c \<notin> set b" by (auto simp: b dest: set_takeWhileD)
qed

lemma rsplit_once_eq: "c \<notin> set b \<Longrightarrow> rsplit_once c (a @ c # b) = Some (a, b)"
  by (simp add: rsplit_once_def dropWhile_append takeWhile_append takeWhile_eq_all_conv)

lemma rsplit_once_None_iff: "rsplit_once c s = None \<longleftrightarrow> c \<notin> set s"
  by (simp add: rsplit_once_def)

text \<open>\<open>trim_end_matches\<close> for one character.\<close>

definition trim_end :: "char \<Rightarrow> string \<Rightarrow> string" where
  "trim_end c s = rev (dropWhile (\<lambda>x. x = c) (rev s))"

lemma trim_end_decomp: "\<exists>n. s = trim_end c s @ replicate n c"
proof -
  have "rev s = takeWhile (\<lambda>x. x = c) (rev s) @ dropWhile (\<lambda>x. x = c) (rev s)" by simp
  then have "s = rev (dropWhile (\<lambda>x. x = c) (rev s)) @ rev (takeWhile (\<lambda>x. x = c) (rev s))"
    by (metis rev_append rev_rev_ident)
  moreover have "takeWhile (\<lambda>x. x = c) (rev s) =
      replicate (length (takeWhile (\<lambda>x. x = c) (rev s))) c"
    by (rule replicate_eqI [symmetric, OF refl, THEN sym]) (auto dest: set_takeWhileD)
  ultimately show ?thesis unfolding trim_end_def by (metis rev_replicate)
qed

lemma trim_end_idem [simp]: "trim_end c (trim_end c s) = trim_end c s"
  by (simp add: trim_end_def dropWhile_idem)

lemma trim_end_last: "trim_end c s \<noteq> [] \<Longrightarrow> last (trim_end c s) \<noteq> c"
  unfolding trim_end_def by (metis (mono_tags) hd_dropWhile last_rev rev_is_Nil_conv)

lemma trim_end_id: "s = [] \<or> last s \<noteq> c \<Longrightarrow> trim_end c s = s"
  by (cases s rule: rev_cases) (auto simp: trim_end_def)

lemma set_trim_end: "set (trim_end c s) \<subseteq> set s"
  by (auto simp: trim_end_def dest: set_dropWhileD)

lemma prefix_trim_end: "prefix (trim_end c s) s"
  using trim_end_decomp [of s c] by (metis prefixI)

text \<open>\<open>str::split\<close> at a character.\<close>

fun split_on :: "char \<Rightarrow> string \<Rightarrow> string list" where
  "split_on c [] = [[]]"
| "split_on c (x # xs) =
     (if x = c then [] # split_on c xs
      else (case split_on c xs of [] \<Rightarrow> [[x]] | p # ps \<Rightarrow> (x # p) # ps))"

lemma split_on_not_Nil [simp]: "split_on c s \<noteq> []"
  by (cases s) (auto split: list.splits)

lemma split_on_parts: "p \<in> set (split_on c s) \<Longrightarrow> c \<notin> set p"
  by (induction s arbitrary: p) (auto split: if_splits list.splits)

lemma split_on_no_sep: "c \<notin> set s \<Longrightarrow> split_on c s = [s]"
  by (induction s) auto

lemma split_on_append: "c \<notin> set p \<Longrightarrow> split_on c (p @ c # s) = p # split_on c s"
  by (induction p) auto

lemma split_on_subset: "p \<in> set (split_on c s) \<Longrightarrow> set p \<subseteq> set s"
proof (induction s arbitrary: p)
  case (Cons x s)
  have IH: "q \<in> set (split_on c s) \<Longrightarrow> y \<in> set q \<Longrightarrow> y \<in> set s" for q y
    using Cons.IH [of q] by blast
  from Cons.prems show ?case by (cases "split_on c s") (auto split: if_splits intro: IH)
qed simp

text \<open>A separator splits what is on its left and what is on its right independently.\<close>

lemma split_on_app: "split_on c (a @ c # b) = split_on c a @ split_on c b"
  by (induction a) (auto split: list.splits)

text \<open>Character classes; a byte at or above \<open>0x80\<close> belongs to none of them.\<close>

definition is_ascii_digit :: "char \<Rightarrow> bool" where
  "is_ascii_digit c \<longleftrightarrow> 48 \<le> (of_char c :: nat) \<and> (of_char c :: nat) \<le> 57"

definition is_ascii_alphabetic :: "char \<Rightarrow> bool" where
  "is_ascii_alphabetic c \<longleftrightarrow>
     (65 \<le> (of_char c :: nat) \<and> (of_char c :: nat) \<le> 90) \<or>
     (97 \<le> (of_char c :: nat) \<and> (of_char c :: nat) \<le> 122)"

definition is_ascii_alphanumeric :: "char \<Rightarrow> bool" where
  "is_ascii_alphanumeric c \<longleftrightarrow> is_ascii_alphabetic c \<or> is_ascii_digit c"

text \<open>What \<open>String::from_utf8\<close> accepts: no overlong form, no surrogate, nothing above \<open>U+10FFFF\<close>.\<close>

definition byte_in :: "nat \<Rightarrow> nat \<Rightarrow> char \<Rightarrow> bool" where
  "byte_in a b c \<longleftrightarrow> a \<le> (of_char c :: nat) \<and> (of_char c :: nat) \<le> b"

fun utf8_valid :: "string \<Rightarrow> bool" where
  "utf8_valid [] \<longleftrightarrow> True"
| "utf8_valid (a # s) \<longleftrightarrow>
     (if byte_in 0x00 0x7F a then utf8_valid s
      else case s of
        [] \<Rightarrow> False
      | b # s2 \<Rightarrow>
          if byte_in 0xC2 0xDF a then byte_in 0x80 0xBF b \<and> utf8_valid s2
          else case s2 of
            [] \<Rightarrow> False
          | c # s3 \<Rightarrow>
              if byte_in 0xE0 0xEF a
              then byte_in (if a = CHR 0xE0 then 0xA0 else 0x80) (if a = CHR 0xED then 0x9F else 0xBF) b
                \<and> byte_in 0x80 0xBF c \<and> utf8_valid s3
              else case s3 of
                [] \<Rightarrow> False
              | d # s4 \<Rightarrow>
                  byte_in 0xF0 0xF4 a
                \<and> byte_in (if a = CHR 0xF0 then 0x90 else 0x80) (if a = CHR 0xF4 then 0x8F else 0xBF) b
                \<and> byte_in 0x80 0xBF c \<and> byte_in 0x80 0xBF d \<and> utf8_valid s4)"

text \<open>A UTF-8 continuation byte: every other byte starts one \<open>char\<close> of the Rust string.\<close>

definition is_continuation :: "char \<Rightarrow> bool" where
  "is_continuation c \<longleftrightarrow> 128 \<le> (of_char c :: nat) \<and> (of_char c :: nat) < 192"

lemma not_continuation_ascii: "(of_char c :: nat) < 128 \<Longrightarrow> \<not> is_continuation c"
  by (simp add: is_continuation_def)

text \<open>
  The UTF-8 encodings of the characters with the Unicode property \<open>White_Space\<close>, the ones
  \<open>str::trim\<close> and \<open>char::is_whitespace\<close> know.
\<close>

definition unicode_ws :: "string list" where
  "unicode_ws =
     [[CHR 0x09], [CHR 0x0A], [CHR 0x0B], [CHR 0x0C], [CHR 0x0D], [CHR 0x20],
      [CHR 0xC2, CHR 0x85], [CHR 0xC2, CHR 0xA0], [CHR 0xE1, CHR 0x9A, CHR 0x80],
      [CHR 0xE2, CHR 0x80, CHR 0x80], [CHR 0xE2, CHR 0x80, CHR 0x81], [CHR 0xE2, CHR 0x80, CHR 0x82],
      [CHR 0xE2, CHR 0x80, CHR 0x83], [CHR 0xE2, CHR 0x80, CHR 0x84], [CHR 0xE2, CHR 0x80, CHR 0x85],
      [CHR 0xE2, CHR 0x80, CHR 0x86], [CHR 0xE2, CHR 0x80, CHR 0x87], [CHR 0xE2, CHR 0x80, CHR 0x88],
      [CHR 0xE2, CHR 0x80, CHR 0x89], [CHR 0xE2, CHR 0x80, CHR 0x8A], [CHR 0xE2, CHR 0x80, CHR 0xA8],
      [CHR 0xE2, CHR 0x80, CHR 0xA9], [CHR 0xE2, CHR 0x80, CHR 0xAF], [CHR 0xE2, CHR 0x81, CHR 0x9F],
      [CHR 0xE3, CHR 0x80, CHR 0x80]]"

text \<open>Strip leading members of a list of encodings; no member is empty.\<close>

function strip_leading :: "string list \<Rightarrow> string \<Rightarrow> string" where
  "strip_leading ws s =
     (case find (\<lambda>w. w \<noteq> [] \<and> prefix w s) ws of
        None \<Rightarrow> s
      | Some w \<Rightarrow> strip_leading ws (drop (length w) s))"
  by pat_completeness auto
termination
  by (relation "measure (\<lambda>(ws, s). length s)") (auto simp: find_Some_iff prefix_def)

declare strip_leading.simps [simp del]

definition trim_start :: "string \<Rightarrow> string" where
  "trim_start s = strip_leading unicode_ws s"

definition trim_ws_end :: "string \<Rightarrow> string" where
  "trim_ws_end s = rev (strip_leading (map rev unicode_ws) (rev s))"

definition trim :: "string \<Rightarrow> string" where
  "trim s = trim_ws_end (trim_start s)"

lemma strip_leading_id: "\<forall>w \<in> set ws. \<not> prefix w s \<Longrightarrow> strip_leading ws s = s"
  by (subst strip_leading.simps) (auto simp: find_Some_iff split: option.splits)

text \<open>A text that starts and ends with a byte below \<open>0x80\<close> that is no blank is already trimmed.\<close>

definition plain_char :: "char \<Rightarrow> bool" where
  "plain_char c \<longleftrightarrow> 32 < (of_char c :: nat) \<and> (of_char c :: nat) < 128"

lemma plain_not_ws: "plain_char c \<Longrightarrow> w \<in> set unicode_ws \<Longrightarrow> \<not> prefix w (c # s)"
  by (auto simp: unicode_ws_def plain_char_def)

lemma plain_not_ws_rev: "plain_char c \<Longrightarrow> w \<in> set unicode_ws \<Longrightarrow> \<not> prefix (rev w) (c # s)"
  by (auto simp: unicode_ws_def plain_char_def)

lemma trim_plain:
  assumes "s = [] \<or> plain_char (hd s) \<and> plain_char (last s)"
  shows "trim s = s"
proof (cases "s = []")
  case True
  then show ?thesis
    by (simp add: trim_def trim_start_def trim_ws_end_def strip_leading.simps find_None_iff [THEN iffD2])
next
  case False
  then obtain c t where s: "s = c # t" by (cases s) auto
  obtain d u where r: "rev s = d # u" using False by (cases "rev s") auto
  then have "last s = d" by (metis False hd_rev list.sel(1))
  with assms s False have "plain_char c" "plain_char d" by auto
  then have "trim_start s = s" "strip_leading (map rev unicode_ws) (rev s) = rev s"
    unfolding trim_start_def r by (auto simp: s intro!: strip_leading_id dest: plain_not_ws plain_not_ws_rev)
  then show ?thesis by (simp add: trim_def trim_ws_end_def)
qed

lemma set_strip_leading: "set (strip_leading ws s) \<subseteq> set s"
  by (induction ws s rule: strip_leading.induct)
    (subst strip_leading.simps, auto split: option.splits dest: in_set_dropD)

lemma set_trim: "set (trim s) \<subseteq> set s"
  using set_strip_leading [of "map rev unicode_ws" "rev (trim_start s)"] set_strip_leading [of unicode_ws s]
  by (auto simp: trim_def trim_ws_end_def trim_start_def)

lemma digit_plain: "is_ascii_digit c \<Longrightarrow> plain_char c"
  by (simp add: is_ascii_digit_def plain_char_def)

lemma alphabetic_plain: "is_ascii_alphabetic c \<Longrightarrow> plain_char c"
  by (auto simp: is_ascii_alphabetic_def plain_char_def)

text \<open>\<open>u64::from_str\<close>: an optional \<open>+\<close>, then decimal digits, below \<open>2 ^ 64\<close>.\<close>

fun digits_value :: "nat \<Rightarrow> string \<Rightarrow> nat option" where
  "digits_value acc [] = Some acc"
| "digits_value acc (c # cs) =
     (if is_ascii_digit c then digits_value (10 * acc + (of_char c - 48)) cs else None)"

definition parse_u64 :: "string \<Rightarrow> nat option" where
  "parse_u64 s =
     (let ds = (if prefix ''+'' s then tl s else s)
      in if ds = [] then None
         else (case digits_value 0 ds of
                 Some n \<Rightarrow> if n < 2 ^ 64 then Some n else None
               | None \<Rightarrow> None))"

lemma parse_u64_bound: "parse_u64 s = Some n \<Longrightarrow> n < 2 ^ 64"
  by (auto simp: parse_u64_def Let_def split: if_splits option.splits)

text \<open>Decimal notation, as \<open>Display\<close> writes an unsigned integer.\<close>

fun show_nat :: "nat \<Rightarrow> string" where
  "show_nat n =
     (if n < 10 then [char_of (48 + n)] else show_nat (n div 10) @ [char_of (48 + n mod 10)])"

declare show_nat.simps [simp del]

lemma show_nat_not_Nil [simp]: "show_nat n \<noteq> []"
  by (subst show_nat.simps) simp

lemma digit_char: "n < 10 \<Longrightarrow> is_ascii_digit (char_of (48 + n)) \<and> of_char (char_of (48 + n) :: char) = (48 + n :: nat)"
  by (simp add: is_ascii_digit_def)

lemma show_nat_digits: "c \<in> set (show_nat n) \<Longrightarrow> is_ascii_digit c"
proof (induction n rule: show_nat.induct)
  case (1 n)
  then show ?case
    by (cases "n < 10") (auto simp: show_nat.simps [of n] digit_char)
qed

lemma digits_value_append:
  "digits_value acc (xs @ ys) =
     (case digits_value acc xs of None \<Rightarrow> None | Some v \<Rightarrow> digits_value v ys)"
  by (induction acc xs rule: digits_value.induct) auto

lemma digits_value_show_nat: "digits_value 0 (show_nat n) = Some n"
proof (induction n rule: show_nat.induct)
  case (1 n)
  show ?case
  proof (cases "n < 10")
    case True
    then show ?thesis using digit_char [of n] by (simp add: show_nat.simps [of n])
  next
    case False
    then have "digits_value 0 (show_nat (n div 10)) = Some (n div 10)" using "1" by simp
    moreover have "n mod 10 < 10" by simp
    ultimately show ?thesis
      using digit_char [of "n mod 10"] False
      by (simp add: show_nat.simps [of n] digits_value_append)
  qed
qed

lemma parse_u64_show_nat: "n < 2 ^ 64 \<Longrightarrow> parse_u64 (show_nat n) = Some n"
proof -
  assume n: "n < 2 ^ 64"
  obtain c cs where s: "show_nat n = c # cs" by (cases "show_nat n") auto
  then have "is_ascii_digit c" using show_nat_digits [of c n] by simp
  then have "c \<noteq> CHR ''+''" by (auto simp: is_ascii_digit_def)
  then show ?thesis
    using n digits_value_show_nat [of n] unfolding s by (simp add: parse_u64_def)
qed

section \<open>\<open>BTreeMap\<close> and \<open>HashMap\<close>\<close>

text \<open>The contract of a map: what \<open>get\<close> returns after \<open>insert\<close> and \<open>remove\<close>.\<close>

locale map_like =
  fixes empty :: "'m"
    and get :: "'m \<Rightarrow> 'k \<Rightarrow> 'v option"
    and put :: "'k \<Rightarrow> 'v \<Rightarrow> 'm \<Rightarrow> 'm"
    and remove :: "'k \<Rightarrow> 'm \<Rightarrow> 'm"
    and inv :: "'m \<Rightarrow> bool"
  assumes get_empty: "get empty k = None"
    and inv_empty: "inv empty"
    and get_put: "inv m \<Longrightarrow> get (put k v m) = (get m)(k \<mapsto> v)"
    and inv_put: "inv m \<Longrightarrow> inv (put k v m)"
    and get_remove: "inv m \<Longrightarrow> get (remove k m) = (get m)(k := None)"
    and inv_remove: "inv m \<Longrightarrow> inv (remove k m)"
begin

definition put_all :: "('k \<times> 'v) list \<Rightarrow> 'm \<Rightarrow> 'm" where
  "put_all kvs m = fold (\<lambda>(k, v). put k v) kvs m"

lemma put_all_simps [simp]:
  "put_all [] m = m"
  "put_all ((k, v) # kvs) m = put_all kvs (put k v m)"
  by (simp_all add: put_all_def)

lemma inv_put_all: "inv m \<Longrightarrow> inv (put_all kvs m)"
  by (induction kvs arbitrary: m) (simp_all add: inv_put split_paired_all)

lemma get_put_all: "inv m \<Longrightarrow> get (put_all kvs m) k = (get m ++ map_of (rev kvs)) k"
  by (induction kvs arbitrary: m)
    (auto simp: get_put inv_put map_add_def split: option.splits)

text \<open>Inserting the entries of another map: the order they are visited in does not matter.\<close>

lemma get_put_all_distinct:
  assumes "inv m" "distinct (map fst kvs)"
  shows "get (put_all kvs m) k = (case map_of kvs k of None \<Rightarrow> get m k | Some v \<Rightarrow> Some v)"
proof -
  have "map_of (rev kvs) k = map_of kvs k"
    using assms(2) by (intro map_of_eqI [THEN fun_cong]) (auto simp: rev_map [symmetric] map_of_eq_Some_iff)
  with assms(1) show ?thesis
    by (simp add: get_put_all map_add_def)
qed

end

text \<open>\<open>BTreeMap\<close> adds that iteration visits the keys in ascending order.\<close>

locale ordered_map = map_like empty get put remove inv
  for empty :: "'m" and get :: "'m \<Rightarrow> 'k::linorder \<Rightarrow> 'v option" and put remove inv +
  fixes keys :: "'m \<Rightarrow> 'k list"
  assumes keys_dom: "inv m \<Longrightarrow> set (keys m) = dom (get m)"
    and keys_sorted: "inv m \<Longrightarrow> sorted_wrt (<) (keys m)"
begin

lemma keys_determined:
  assumes "inv m" "inv m'" "dom (get m) = dom (get m')"
  shows "keys m = keys m'"
  using assms keys_dom keys_sorted
  by (metis strict_sorted_iff strict_sorted_equal)

lemma mem_keys: "inv m \<Longrightarrow> k \<in> set (keys m) \<longleftrightarrow> get m k \<noteq> None"
  by (auto simp: keys_dom)

lemma keys_put: "inv m \<Longrightarrow> set (keys (put k v m)) = insert k (set (keys m))"
  by (auto simp: keys_dom inv_put get_put)

text \<open>Filling a map from two enumerations of the same entries gives the same iteration order.\<close>

lemma keys_put_all_perm:
  assumes "inv m" "set kvs = set kvs'" "distinct (map fst kvs)" "distinct (map fst kvs')"
  shows "keys (put_all kvs m) = keys (put_all kvs' m)"
proof (rule keys_determined)
  have "map_of kvs = map_of kvs'"
    using assms(2-4) by (metis map_of_inject_set)
  then show "dom (get (put_all kvs m)) = dom (get (put_all kvs' m))"
    using assms by (auto simp: get_put_all_distinct dom_def)
qed (auto intro: assms(1) inv_put_all)

end

text \<open>The model of \<open>BTreeMap\<close>: its entries in ascending order of the keys.\<close>

type_synonym ('k, 'v) btree = "('k \<times> 'v) list"

definition bt_inv :: "('k::linorder, 'v) btree \<Rightarrow> bool" where
  "bt_inv m \<longleftrightarrow> sorted_wrt (<) (map fst m)"

definition bt_get :: "('k, 'v) btree \<Rightarrow> 'k \<Rightarrow> 'v option" where
  "bt_get m k = map_of m k"

fun bt_insert :: "'k::linorder \<Rightarrow> 'v \<Rightarrow> ('k, 'v) btree \<Rightarrow> ('k, 'v) btree" where
  "bt_insert k v [] = [(k, v)]"
| "bt_insert k v ((k', v') # m) =
     (if k < k' then (k, v) # (k', v') # m
      else if k = k' then (k, v) # m
      else (k', v') # bt_insert k v m)"

definition bt_remove :: "'k \<Rightarrow> ('k, 'v) btree \<Rightarrow> ('k, 'v) btree" where
  "bt_remove k m = filter (\<lambda>(k', _). k' \<noteq> k) m"

definition bt_keys :: "('k, 'v) btree \<Rightarrow> 'k list" where
  "bt_keys m = map fst m"

lemma set_bt_insert_keys: "set (map fst (bt_insert k v m)) = insert k (set (map fst m))"
  by (induction k v m rule: bt_insert.induct) auto

lemma bt_insert_memD: "p \<in> set (bt_insert k v m) \<Longrightarrow> p = (k, v) \<or> p \<in> set m"
  by (induction k v m rule: bt_insert.induct) (auto split: if_splits)

lemma bt_get_insert: "bt_get (bt_insert k v m) = (bt_get m)(k \<mapsto> v)"
  unfolding bt_get_def by (induction m) (auto simp: fun_eq_iff)

lemma bt_inv_insert: "bt_inv m \<Longrightarrow> bt_inv (bt_insert k v m)"
  unfolding bt_inv_def
proof (induction m)
  case (Cons p m)
  then have "sorted_wrt (<) (map fst (bt_insert k v m))" by simp
  with Cons.prems show ?case
    by (cases p) (auto dest!: bt_insert_memD)
qed simp

lemma bt_get_remove: "bt_get (bt_remove k m) = (bt_get m)(k := None)"
  unfolding bt_get_def bt_remove_def by (induction m) (auto simp: fun_eq_iff)

lemma bt_inv_remove: "bt_inv m \<Longrightarrow> bt_inv (bt_remove k m)"
  unfolding bt_inv_def bt_remove_def by (induction m) auto

lemma bt_keys_dom: "set (bt_keys m) = dom (bt_get m)"
  by (simp add: bt_keys_def bt_get_def [abs_def] dom_map_of_conv_image_fst)

lemma bt_keys_sorted: "bt_inv m \<Longrightarrow> sorted_wrt (<) (bt_keys m)"
  by (simp add: bt_keys_def bt_inv_def)

interpretation btree: ordered_map "[]" bt_get bt_insert bt_remove bt_inv bt_keys
  by unfold_locales
    (simp_all add: bt_get_insert bt_get_remove bt_inv_insert bt_inv_remove bt_keys_dom
      bt_keys_sorted, simp_all add: bt_inv_def bt_get_def)

lemma bt_get_Some_iff:
  "bt_inv m \<Longrightarrow> bt_get m k = Some v \<longleftrightarrow> (k, v) \<in> set m"
  unfolding bt_inv_def bt_get_def
  by (simp add: strict_sorted_iff)

lemma bt_get_None_iff: "bt_get m k = None \<longleftrightarrow> k \<notin> fst ` set m"
  by (simp add: bt_get_def map_of_eq_None_iff)

text \<open>\<open>HashMap\<close>: the entries in an unspecified order, each key once.\<close>

type_synonym ('k, 'v) hashmap = "('k \<times> 'v) list"

definition hm_inv :: "('k, 'v) hashmap \<Rightarrow> bool" where
  "hm_inv m \<longleftrightarrow> distinct (map fst m)"

definition hm_insert :: "'k \<Rightarrow> 'v \<Rightarrow> ('k, 'v) hashmap \<Rightarrow> ('k, 'v) hashmap" where
  "hm_insert k v m = (k, v) # bt_remove k m"

lemma hm_inv_remove: "hm_inv m \<Longrightarrow> hm_inv (bt_remove k m)"
  unfolding hm_inv_def bt_remove_def by (induction m) auto

interpretation hashmap: map_like "[]" bt_get hm_insert bt_remove hm_inv
proof unfold_locales
  fix m :: "('a, 'b) hashmap" and k :: 'a and v :: 'b
  assume m: "hm_inv m"
  show "bt_get (hm_insert k v m) = (bt_get m)(k \<mapsto> v)"
    using bt_get_remove [of k m] by (auto simp: hm_insert_def bt_get_def fun_eq_iff)
  show "hm_inv (hm_insert k v m)"
    using hm_inv_remove [OF m, of k]
    by (auto simp: hm_insert_def hm_inv_def bt_remove_def)
qed (simp_all add: bt_get_remove hm_inv_remove, simp_all add: hm_inv_def bt_get_def)

text \<open>\<open>entry(k).or_insert(v)\<close>: the first registration wins.\<close>

definition entry_or_insert :: "'k \<Rightarrow> 'v \<Rightarrow> ('k, 'v) hashmap \<Rightarrow> ('k, 'v) hashmap" where
  "entry_or_insert k v m = (if bt_get m k = None then hm_insert k v m else m)"

lemma get_entry_or_insert:
  assumes "hm_inv m"
  shows "bt_get (entry_or_insert k v m) k' =
    (if k' = k then Some (case bt_get m k of None \<Rightarrow> v | Some w \<Rightarrow> w) else bt_get m k')"
  using assms by (auto simp: entry_or_insert_def hashmap.get_put split: option.splits)

lemma inv_entry_or_insert: "hm_inv m \<Longrightarrow> hm_inv (entry_or_insert k v m)"
  by (simp add: entry_or_insert_def hashmap.inv_put)

section \<open>Paths\<close>

text \<open>
  \<open>std::path::Component\<close> in the order its \<open>Ord\<close> declares them. A path is compared, joined and
  prefix-tested by its components, so a path is modelled as the list of them.
\<close>

datatype component = RootDir | CurDir | ParentDir | Normal string

fun component_key :: "component \<Rightarrow> nat \<times> string" where
  "component_key RootDir = (0, [])"
| "component_key CurDir = (1, [])"
| "component_key ParentDir = (2, [])"
| "component_key (Normal s) = (3, s)"

lemma component_key_inject [simp]: "component_key a = component_key b \<longleftrightarrow> a = b"
  by (cases a; cases b) auto

instantiation component :: linorder
begin

definition less_eq_component :: "component \<Rightarrow> component \<Rightarrow> bool" where
  "less_eq_component a b \<longleftrightarrow> component_key a \<le> component_key b"

definition less_component :: "component \<Rightarrow> component \<Rightarrow> bool" where
  "less_component a b \<longleftrightarrow> component_key a < component_key b"

instance
proof
  fix a b c :: component
  show "a < b \<longleftrightarrow> a \<le> b \<and> \<not> b \<le> a"
    by (simp add: less_eq_component_def less_component_def less_le_not_le)
  show "a \<le> a" by (simp add: less_eq_component_def)
  show "a \<le> b \<Longrightarrow> b \<le> c \<Longrightarrow> a \<le> c" by (auto simp: less_eq_component_def)
  show "a \<le> b \<Longrightarrow> b \<le> a \<Longrightarrow> a = b"
    unfolding less_eq_component_def by (metis antisym component_key_inject)
  show "a \<le> b \<or> b \<le> a" by (auto simp: less_eq_component_def)
qed

end

type_synonym path = "component list"

fun component_of :: "string \<Rightarrow> path" where
  "component_of p =
     (if p = [] \<or> p = ''.'' then [] else if p = ''..'' then [ParentDir] else [Normal p])"

text \<open>\<open>Path::components\<close>: a \<open>.\<close> survives only at the start of a relative path.\<close>

definition path_of :: "string \<Rightarrow> path" where
  "path_of s =
     (if prefix ''/'' s then RootDir # concat (map component_of (split_on CHR ''/'' s))
      else (if hd (split_on CHR ''/'' s) = ''.'' then [CurDir]
            else component_of (hd (split_on CHR ''/'' s)))
           @ concat (map component_of (tl (split_on CHR ''/'' s))))"

definition is_absolute :: "path \<Rightarrow> bool" where
  "is_absolute p \<longleftrightarrow> (case p of RootDir # _ \<Rightarrow> True | _ \<Rightarrow> False)"

definition path_join :: "path \<Rightarrow> path \<Rightarrow> path" where
  "path_join a b =
     (if is_absolute b then b
      else if a = [] then b
      else a @ filter (\<lambda>c. c \<noteq> CurDir) b)"

lemma path_join_relative_prefix: "\<not> is_absolute b \<Longrightarrow> a \<noteq> [] \<Longrightarrow> prefix a (path_join a b)"
  by (simp add: path_join_def)

lemma is_absolute_path_of: "is_absolute (path_of s) \<longleftrightarrow> prefix ''/'' s"
proof -
  have root: "RootDir \<notin> set (component_of x)" for x by simp
  let ?ps = "split_on CHR ''/'' s"
  have "RootDir \<notin> set (concat (map component_of (tl ?ps)))"
    and "RootDir \<notin> set (component_of (hd ?ps))"
    using root by (auto simp del: component_of.simps)
  moreover have "RootDir \<notin> set q \<Longrightarrow> \<not> is_absolute q" for q
    by (cases q) (auto simp: is_absolute_def split: component.splits)
  ultimately have "\<not> is_absolute ((if hd ?ps = ''.'' then [CurDir] else component_of (hd ?ps))
      @ concat (map component_of (tl ?ps)))"
    by (simp del: component_of.simps set_concat)
  then show ?thesis
    by (simp add: path_of_def is_absolute_def del: component_of.simps)
qed

lemma path_of_name:
  assumes "CHR ''/'' \<notin> set s" "s \<noteq> []" "s \<noteq> ''.''" "s \<noteq> ''..''"
  shows "path_of s = [Normal s]"
proof -
  have "\<not> prefix ''/'' s" using assms(1,2) by (cases s) auto
  with assms show ?thesis by (simp add: path_of_def split_on_no_sep)
qed

lemma path_join_name: "path_join d [Normal s] = d @ [Normal s]"
  by (simp add: path_join_def is_absolute_def)

end
