(* ===== verification/HostAuth.thy ===== *)
theory HostAuth
  imports Prelude
begin

text \<open>
  \<open>host_auth.rs\<close>: host-keyed credentials. \<open>lookup\<close> finds the credential whose key is the longest
  path-aware prefix of a URL; \<open>canonicalize_url\<close> gives the form of a URL that is stored in
  \<open>akua.lock\<close> and used as a cache key; \<open>url_has_userinfo\<close> detects embedded credentials.
  \<open>b64\<close> stands for the base64 encoder of the \<open>base64\<close> crate.
\<close>

record basic_auth =
  username :: string
  password :: string

type_synonym host_auth_map = "(string, basic_auth) hashmap"

definition to_authorization_header :: "(string \<Rightarrow> string) \<Rightarrow> basic_auth \<Rightarrow> string" where
  "to_authorization_header b64 a = ''Basic '' @ b64 (username a @ '':'' @ password a)"

text \<open>The hand-written \<open>Debug\<close> instance: the password is redacted.\<close>

definition debug_basic_auth :: "(string \<Rightarrow> string) \<Rightarrow> basic_auth \<Rightarrow> string" where
  "debug_basic_auth quote a =
     ''BasicAuth { username: '' @ quote (username a) @ '', password: '' @ quote ''[REDACTED]'' @ '' }''"

definition strip_scheme :: "string \<Rightarrow> string" where
  "strip_scheme url = (case split_once ''://'' url of Some (_, rest) \<Rightarrow> rest | None \<Rightarrow> url)"

text \<open>The part before the first slash, and the rest from that slash on.\<close>

definition authority_part :: "string \<Rightarrow> string" where
  "authority_part s = takeWhile (\<lambda>c. c \<noteq> CHR ''/'') s"

definition path_part :: "string \<Rightarrow> string" where
  "path_part s = dropWhile (\<lambda>c. c \<noteq> CHR ''/'') s"

definition strip_userinfo :: "string \<Rightarrow> string" where
  "strip_userinfo s =
     (case rsplit_once CHR ''@'' (authority_part s) of
        Some (_, host) \<Rightarrow> host @ path_part s
      | None \<Rightarrow> s)"

definition url_has_userinfo :: "string \<Rightarrow> bool" where
  "url_has_userinfo url \<longleftrightarrow> CHR ''@'' \<in> set (authority_part (strip_scheme url))"

definition match_key :: "string \<Rightarrow> string option" where
  "match_key url =
     (let rest = strip_userinfo (strip_scheme url)
      in if rest = [] then None else Some (trim_end CHR ''/'' rest))"

definition prefix_matches :: "string \<Rightarrow> string \<Rightarrow> bool" where
  "prefix_matches key p =
     (if \<not> prefix p key then False
      else if length key = length p then True
      else (let c = key ! length p in c = CHR ''/'' \<or> c = CHR '':''))"

definition by_length_desc :: "string list \<Rightarrow> string list" where
  "by_length_desc ps = sort_key (\<lambda>s. - int (length s)) ps"

definition lookup :: "host_auth_map \<Rightarrow> string \<Rightarrow> basic_auth option" where
  "lookup m url =
     (if m = [] then None
      else case match_key url of
        None \<Rightarrow> None
      | Some key \<Rightarrow>
          (case find (prefix_matches key) (by_length_desc (map fst m)) of
             None \<Rightarrow> None
           | Some p \<Rightarrow> bt_get m p))"

definition is_default_port :: "string \<Rightarrow> string \<Rightarrow> bool" where
  "is_default_port scheme port \<longleftrightarrow>
     (scheme, port) = (''https'', ''443'') \<or> (scheme, port) = (''http'', ''80'')"

definition canon_authority :: "string \<Rightarrow> string \<Rightarrow> string" where
  "canon_authority scheme authority =
     (case rsplit_once CHR '':'' authority of
        Some (host, port) \<Rightarrow> if is_default_port scheme port then host else authority
      | None \<Rightarrow> authority)"

definition trim_url :: "string \<Rightarrow> string" where
  "trim_url s =
     (let out = trim_end CHR ''/'' s;
          out = (if suffix ''.git'' out then take (length out - 4) out else out)
      in trim_end CHR ''/'' out)"

definition canonicalize_url :: "string \<Rightarrow> string" where
  "canonicalize_url url =
     (case split_once ''://'' url of
        None \<Rightarrow> url
      | Some (scheme, after_scheme) \<Rightarrow>
          (let rest = strip_userinfo after_scheme;
               (authority, path) =
                 (case split_once ''/'' rest of
                    Some (a, p) \<Rightarrow> (a, ''/'' @ p)
                  | None \<Rightarrow> (rest, []))
           in trim_url (scheme @ ''://'' @ canon_authority scheme authority @ path)))"

section \<open>Authority and path\<close>

lemma authority_path [simp]: "authority_part s @ path_part s = s"
  by (simp add: authority_part_def path_part_def)

lemma authority_no_slash: "CHR ''/'' \<notin> set (authority_part s)"
  by (auto simp: authority_part_def dest: set_takeWhileD)

lemma path_part_cases: "path_part s = [] \<or> (\<exists>p. path_part s = CHR ''/'' # p)"
  unfolding path_part_def
  by (cases "dropWhile (\<lambda>c. c \<noteq> CHR ''/'') s") (auto dest: dropWhile_eq_Cons_conv [THEN iffD1])

lemma authority_part_append:
  "CHR ''/'' \<notin> set a \<Longrightarrow> authority_part (a @ b) = a @ authority_part b"
  by (induction a) (auto simp: authority_part_def)

lemma path_part_append: "CHR ''/'' \<notin> set a \<Longrightarrow> path_part (a @ b) = path_part b"
  by (induction a) (auto simp: path_part_def)

lemma authority_part_path [simp]: "authority_part (path_part s) = []"
  using path_part_cases [of s] by (auto simp: authority_part_def)

lemma path_part_path [simp]: "path_part (path_part s) = path_part s"
  using path_part_cases [of s] by (auto simp: path_part_def)

lemma split_once_slash:
  "(case split_once ''/'' s of Some (a, p) \<Rightarrow> (a, ''/'' @ p) | None \<Rightarrow> (s, [])) =
     (authority_part s, path_part s)"
proof (cases "path_part s = []")
  case True
  then have a: "authority_part s = s" by (metis append_Nil2 authority_path)
  then have "CHR ''/'' \<notin> set s" by (metis authority_no_slash)
  then have "split_once ''/'' s = None"
    by (auto simp: split_once_None_iff sublist_def)
  with True a show ?thesis by simp
next
  case False
  then obtain p where p: "path_part s = CHR ''/'' # p" using path_part_cases by blast
  then have "s = authority_part s @ CHR ''/'' # [] @ p" by (metis append_Nil authority_path)
  then have "split_once ''/'' s = Some (authority_part s, p)"
    by (metis authority_no_slash split_once_char)
  with p show ?thesis by simp
qed

lemma strip_userinfo_eq:
  "strip_userinfo s = authority_part (strip_userinfo s) @ path_part s"
  "CHR ''@'' \<notin> set (authority_part (strip_userinfo s))"
proof -
  let ?a = "authority_part s"
  have "strip_userinfo s = authority_part (strip_userinfo s) @ path_part s \<and>
    CHR ''@'' \<notin> set (authority_part (strip_userinfo s))"
  proof (cases "rsplit_once CHR ''@'' ?a")
    case None
    then have "CHR ''@'' \<notin> set ?a" by (simp add: rsplit_once_None_iff)
    with None show ?thesis by (simp add: strip_userinfo_def)
  next
    case (Some p)
    obtain u h where p: "p = (u, h)" by (cases p)
    with Some have a: "?a = u @ CHR ''@'' # h" and h: "CHR ''@'' \<notin> set h"
      by (auto dest: rsplit_once_Some)
    have "CHR ''/'' \<notin> set h" using a authority_no_slash [of s] by auto
    with Some p h show ?thesis
      by (simp add: strip_userinfo_def authority_part_append path_part_append)
  qed
  then show "strip_userinfo s = authority_part (strip_userinfo s) @ path_part s"
    "CHR ''@'' \<notin> set (authority_part (strip_userinfo s))" by auto
qed

lemma path_strip_userinfo [simp]: "path_part (strip_userinfo s) = path_part s"
  by (metis authority_no_slash path_part_append path_part_path strip_userinfo_eq(1))

lemma strip_userinfo_credentials:
  assumes "CHR ''/'' \<notin> set u" "CHR ''@'' \<notin> set (authority_part r)"
  shows "strip_userinfo (u @ CHR ''@'' # r) = r"
proof -
  have "CHR ''/'' \<notin> set (u @ [CHR ''@''])" using assms(1) by simp
  then have "authority_part (u @ CHR ''@'' # r) = u @ CHR ''@'' # authority_part r"
    and "path_part (u @ CHR ''@'' # r) = path_part r"
    using authority_part_append [of "u @ [CHR ''@'']" r] path_part_append [of "u @ [CHR ''@'']" r]
    by simp_all
  with assms show ?thesis
    by (simp add: strip_userinfo_def rsplit_once_eq)
qed

lemma strip_userinfo_none: "CHR ''@'' \<notin> set (authority_part r) \<Longrightarrow> strip_userinfo r = r"
  by (simp add: strip_userinfo_def rsplit_once_None_iff [THEN iffD2])

section \<open>Canonical URLs\<close>

lemma canonicalize_url_eq:
  assumes "split_once ''://'' url = Some (scheme, rest)"
  shows "canonicalize_url url =
     trim_url (scheme @ ''://'' @ canon_authority scheme (authority_part (strip_userinfo rest))
       @ path_part rest)"
  using split_once_slash [of "strip_userinfo rest"] unfolding canonicalize_url_def assms
  by (simp only: option.case prod.case Let_def path_strip_userinfo)

lemma canon_authority_prefix: "prefix (canon_authority scheme a) a"
  by (auto simp: canon_authority_def prefix_def split: option.splits dest: rsplit_once_Some)

lemma prefix_trim_url: "prefix (trim_url s) s"
proof -
  let ?o = "trim_end CHR ''/'' s"
  have "prefix (if suffix ''.git'' ?o then take (length ?o - 4) ?o else ?o) ?o"
    by (simp add: take_is_prefix)
  then show ?thesis
    unfolding trim_url_def Let_def
    by (rule prefix_order.trans [OF prefix_order.trans [OF prefix_trim_end] prefix_trim_end])
qed

lemma url_has_userinfo_scheme:
  assumes "split_once ''://'' url = Some (scheme, rest)"
  shows "url_has_userinfo (scheme @ ''://'' @ t) \<longleftrightarrow> CHR ''@'' \<in> set (authority_part t)"
  using split_once_replace [OF assms, of t] by (simp add: url_has_userinfo_def strip_scheme_def)

lemma set_strip_scheme: "set (strip_scheme s) \<subseteq> set s"
  by (auto simp: strip_scheme_def split: option.splits dest!: split_once_Some)

lemma authority_part_prefix: "prefix s t \<Longrightarrow> prefix (authority_part s) (authority_part t)"
  unfolding prefix_def authority_part_def
  by (auto simp: takeWhile_append takeWhile_eq_all_conv [THEN iffD2])

lemma canonicalize_url_clean:
  assumes "split_once ''://'' url = Some (scheme, rest)" "CHR ''@'' \<notin> set scheme"
  shows "\<not> url_has_userinfo (canonicalize_url url)"
proof -
  let ?a = "authority_part (strip_userinfo rest)"
  let ?t = "canon_authority scheme ?a @ path_part rest"
  let ?o = "canonicalize_url url"
  obtain x where x: "?a = canon_authority scheme ?a @ x"
    using canon_authority_prefix by (auto simp: prefix_def)
  have "CHR ''/'' \<notin> set (canon_authority scheme ?a)"
    using authority_no_slash [of "strip_userinfo rest"] x by (metis Un_iff set_append)
  then have t: "authority_part ?t = canon_authority scheme ?a" by (simp add: authority_part_append)
  moreover have "CHR ''@'' \<notin> set (canon_authority scheme ?a)"
    using strip_userinfo_eq(2) [of rest] x by (metis Un_iff set_append)
  ultimately have no_at: "CHR ''@'' \<notin> set (authority_part ?t)" by simp
  have pre: "prefix ?o (scheme @ ''://'' @ ?t)"
    using prefix_trim_url by (simp add: canonicalize_url_eq [OF assms(1)])
  show ?thesis
  proof (cases "prefix (scheme @ ''://'') ?o")
    case True
    then obtain u where u: "?o = (scheme @ ''://'') @ u" by (auto simp: prefix_def)
    with pre have "prefix u ?t" by simp
    then have "prefix (authority_part u) (authority_part ?t)" by (rule authority_part_prefix)
    with no_at have "CHR ''@'' \<notin> set (authority_part u)" by (auto simp: prefix_def)
    then show ?thesis using u url_has_userinfo_scheme [OF assms(1), of u] by simp
  next
    case False
    with pre have "prefix ?o (scheme @ ''://'')"
      by (metis append_assoc prefixI prefix_same_cases)
    then have "set ?o \<subseteq> set (scheme @ ''://'')" by (rule set_mono_prefix)
    then have "CHR ''@'' \<notin> set ?o" using assms(2) by auto
    then show ?thesis
      using set_strip_scheme [of ?o]
      by (auto simp: url_has_userinfo_def authority_part_def dest: set_takeWhileD)
  qed
qed

text \<open>What \<open>trim_url\<close> leaves ends neither in a slash nor, once stripped, changes again.\<close>

lemma trim_url_slash [simp]: "trim_url (s @ ''/'') = trim_url s"
  by (simp add: trim_url_def trim_end_def)

lemma trim_url_fixed: "s = [] \<or> last s \<noteq> CHR ''/'' \<Longrightarrow> \<not> suffix ''.git'' s \<Longrightarrow> trim_url s = s"
  by (simp add: trim_url_def trim_end_id)

lemma trim_url_git:
  assumes "s \<noteq> []" "last s \<noteq> CHR ''/''" "\<not> suffix ''.git'' s"
  shows "trim_url (s @ ''.git'') = trim_url s"
proof -
  have "suffix ''.git'' (s @ ''.git'')" by (rule suffixI [OF refl])
  with assms show ?thesis by (simp add: trim_url_def trim_end_id)
qed

lemma last_trim_url: "trim_url s = [] \<or> last (trim_url s) \<noteq> CHR ''/''"
  using trim_end_last by (auto simp: trim_url_def Let_def)

text \<open>
  C31. The canonical form of a URL, the one written to \<open>akua.lock\<close>, never embeds credentials: for
  every URL \<open>scheme://...\<close> whose scheme has no \<open>@\<close>, \<open>canonicalize_url\<close> has no userinfo.
\<close>

theorem canonicalize_url_no_userinfo:
  assumes "CHR '':'' \<notin> set scheme" "CHR ''@'' \<notin> set scheme"
  shows "\<not> url_has_userinfo (canonicalize_url (scheme @ ''://'' @ rest))"
  using assms split_once_char [of "CHR '':''" scheme "''//''" rest]
  by (intro canonicalize_url_clean [of _ scheme rest]) auto

theorem canonicalize_url_no_userinfo_witness:
  "canonicalize_url ''https://bob:pw@h/a'' = ''https://h/a'' \<and>
   url_has_userinfo ''https://bob:pw@h/a'' \<and>
   \<not> url_has_userinfo (canonicalize_url (''https'' @ ''://'' @ ''bob:pw@h/a''))"
proof -
  have "CHR '':'' \<notin> set ''https''" "CHR ''@'' \<notin> set ''https''" by simp_all
  note canonicalize_url_no_userinfo [OF this, of "''bob:pw@h/a''"]
  moreover have "canonicalize_url ''https://bob:pw@h/a'' = ''https://h/a''"
    "url_has_userinfo ''https://bob:pw@h/a''" by code_simp+
  ultimately show ?thesis by blast
qed

text \<open>
  One repository has one canonical form: credentials in the authority, a trailing slash, a
  trailing \<open>.git\<close> of the path and the default HTTPS port make no difference.
\<close>

theorem canonicalize_url_same_repo:
  assumes "CHR '':'' \<notin> set scheme" "CHR ''/'' \<notin> set user"
    and "CHR ''@'' \<notin> set host" "CHR ''/'' \<notin> set host" "CHR '':'' \<notin> set host"
    and "path = CHR ''/'' # p" "last path \<noteq> CHR ''/''" "\<not> suffix ''.git'' (scheme @ ''://'' @ host @ path)"
  shows "canonicalize_url (scheme @ ''://'' @ user @ ''@'' @ host @ path) =
           canonicalize_url (scheme @ ''://'' @ host @ path)
       \<and> canonicalize_url (scheme @ ''://'' @ host @ path @ ''/'') =
           canonicalize_url (scheme @ ''://'' @ host @ path)
       \<and> canonicalize_url (scheme @ ''://'' @ host @ path @ ''.git'') =
           canonicalize_url (scheme @ ''://'' @ host @ path)
       \<and> canonicalize_url (''https://'' @ host @ '':443'' @ path) =
           canonicalize_url (''https://'' @ host @ path)"
proof -
  have split: "split_once ''://'' (scheme @ ''://'' @ r) = Some (scheme, r)" for r
    using split_once_char [OF assms(1), of "''//''" r] by simp
  have auth: "authority_part (host @ path @ r) = host" "path_part (host @ path @ r) = path @ r" for r
    using assms(4,6) by (simp_all add: authority_part_append path_part_append)
      (simp_all add: authority_part_def path_part_def)
  then have strip: "strip_userinfo (host @ path @ r) = host @ path @ r" for r
    using assms(3) by (simp add: strip_userinfo_none)
  have canon: "canonicalize_url (scheme @ ''://'' @ host @ path @ r) =
      trim_url ((scheme @ ''://'' @ host @ path) @ r)" for r
    using assms(5) canonicalize_url_eq [OF split, of "host @ path @ r"]
    by (simp add: strip auth canon_authority_def rsplit_once_None_iff [THEN iffD2])
  have "strip_userinfo (user @ ''@'' @ host @ path) = host @ path"
    using strip_userinfo_credentials [OF assms(2), of "host @ path"] assms(3) auth(1) [of "[]"] by simp
  moreover have "path_part (user @ ''@'' @ host @ path) = path"
    using path_part_append [of "user @ ''@'' @ host" path] assms by (simp add: path_part_def)
  ultimately have user: "canonicalize_url (scheme @ ''://'' @ user @ ''@'' @ host @ path) =
      canonicalize_url (scheme @ ''://'' @ host @ path)"
    using canonicalize_url_eq [OF split, of "user @ ''@'' @ host @ path"]
      canonicalize_url_eq [OF split, of "host @ path"] strip [of "[]"] auth [of "[]"] by simp
  have https: "split_once ''://'' (''https'' @ ''://'' @ r) = Some (''https'', r)" for r
    using split_once_char [of "CHR '':''" "''https''" "''//''" r] by simp
  have "authority_part (host @ '':443'' @ path) = host @ '':443''"
    and "path_part (host @ '':443'' @ path) = path"
    using authority_part_append [of "host @ '':443''" path] path_part_append [of "host @ '':443''" path]
      assms(4,6) by (simp_all add: authority_part_def path_part_def)
  then have port: "canonicalize_url (''https'' @ ''://'' @ host @ '':443'' @ path) =
      canonicalize_url (''https'' @ ''://'' @ host @ path)"
    using canonicalize_url_eq [OF https, of "host @ '':443'' @ path"]
      canonicalize_url_eq [OF https, of "host @ path"] strip [of "[]"] auth [of "[]"] assms(3,5)
      rsplit_once_eq [of "CHR '':''" "''443''" host]
    by (simp add: strip_userinfo_none canon_authority_def is_default_port_def
        rsplit_once_None_iff [THEN iffD2])
  have "path \<noteq> []" using assms(6) by simp
  then show ?thesis
    using user port canon [of "''/''"] canon [of "''.git''"] canon [of "[]"] assms(7,8)
      trim_url_git [of "scheme @ ''://'' @ host @ path"]
      trim_url_slash [of "scheme @ ''://'' @ host @ path"]
    by simp
qed

theorem canonicalize_url_same_repo_witness:
  "canonicalize_url (''https'' @ ''://'' @ ''u:p'' @ ''@'' @ ''h'' @ ''/a'') =
     canonicalize_url (''https'' @ ''://'' @ ''h'' @ ''/a'')"
  using canonicalize_url_same_repo [of "''https''" "''u:p''" "''h''" "''/a''" "''a''"]
  by (simp add: suffix_def)

text \<open>
  Canonicalisation is stable where it should be: unless the canonical form still ends in
  \<open>.git\<close> or still carries the scheme's default port, canonicalising it again changes nothing.
\<close>

theorem canonicalize_url_idempotent:
  assumes "split_once ''://'' url = Some (scheme, rest)"
    and "\<not> suffix ''.git'' (canonicalize_url url)"
    and "canon_authority scheme (authority_part (strip_scheme (canonicalize_url url))) =
           authority_part (strip_scheme (canonicalize_url url))"
  shows "canonicalize_url (canonicalize_url url) = canonicalize_url url"
proof -
  let ?o = "canonicalize_url url"
  let ?a = "authority_part (strip_userinfo rest)"
  let ?t = "canon_authority scheme ?a @ path_part rest"
  have pre: "prefix ?o (scheme @ ''://'' @ ?t)"
    using prefix_trim_url by (simp add: canonicalize_url_eq [OF assms(1)])
  show ?thesis
  proof (cases "split_once ''://'' ?o")
    case None
    then show ?thesis by (simp add: canonicalize_url_def)
  next
    case (Some x)
    obtain s2 u where x: "x = (s2, u)" by (cases x)
    from pre obtain z where z: "scheme @ ''://'' @ ?t = ?o @ z" by (auto simp: prefix_def)
    have "split_once ''://'' (scheme @ ''://'' @ ?t) = Some (scheme, ?t)"
      by (rule split_once_replace [OF assms(1)])
    moreover have "split_once ''://'' (scheme @ ''://'' @ ?t) = Some (s2, u @ z)"
      using split_once_replace [OF Some [unfolded x], of "u @ z"] split_once_Some [OF Some [unfolded x]] z
      by simp
    ultimately have s2: "s2 = scheme" and t: "?t = u @ z" by auto
    have o: "?o = scheme @ ''://'' @ u" using split_once_Some [OF Some [unfolded x]] s2 by simp
    have "CHR ''@'' \<notin> set (authority_part u)"
    proof -
      obtain y where y: "?a = canon_authority scheme ?a @ y"
        using canon_authority_prefix by (auto simp: prefix_def)
      have "CHR ''/'' \<notin> set (canon_authority scheme ?a)"
        using authority_no_slash [of "strip_userinfo rest"] y by (metis Un_iff set_append)
      then have "authority_part ?t = canon_authority scheme ?a" by (simp add: authority_part_append)
      moreover have "prefix (authority_part u) (authority_part ?t)"
        using t by (intro authority_part_prefix) simp
      ultimately show ?thesis
        using strip_userinfo_eq(2) [of rest] y by (metis Un_iff set_append set_mono_prefix subsetD)
    qed
    then have "canonicalize_url ?o =
        trim_url (scheme @ ''://'' @ canon_authority scheme (authority_part u) @ path_part u)"
      using canonicalize_url_eq [OF Some [unfolded x s2]] by (simp add: strip_userinfo_none)
    also have "\<dots> = trim_url (scheme @ ''://'' @ u)"
      using assms(3) Some x by (simp add: strip_scheme_def)
    also have "\<dots> = ?o"
      using last_trim_url assms(2) canonicalize_url_eq [OF assms(1)] o trim_url_fixed by metis
    finally show ?thesis .
  qed
qed

theorem canonicalize_url_idempotent_witness:
  "canonicalize_url (canonicalize_url ''https://u@h:443/a.git/'') = canonicalize_url ''https://u@h:443/a.git/''"
  by (rule canonicalize_url_idempotent [of _ "''https''" "''u@h:443/a.git/''"]) code_simp+

text \<open>
  The conditions of that stability are needed: a repository path that ends in two \<open>.git\<close>
  suffixes loses one on every pass, so canonicalisation is not idempotent in general.
\<close>

theorem canonicalize_url_not_idempotent:
  "canonicalize_url ''https://h/a.git.git'' = ''https://h/a.git''
   \<and> canonicalize_url ''https://h/a.git'' = ''https://h/a''"
  by code_simp

section \<open>Longest-prefix lookup\<close>

lemma set_by_length_desc [simp]: "set (by_length_desc ps) = set ps"
  by (simp add: by_length_desc_def)

lemma find_sorted_key:
  fixes f :: "'a \<Rightarrow> 'b::linorder"
  assumes "sorted (map f xs)"
  shows "find P xs = Some x \<Longrightarrow> x \<in> set xs \<and> P x \<and> (\<forall>y \<in> set xs. P y \<longrightarrow> f x \<le> f y)"
  using assms by (induction xs) (auto split: if_splits)

lemma find_longest:
  "find P (by_length_desc ps) = Some p \<Longrightarrow>
     p \<in> set ps \<and> P p \<and> (\<forall>q \<in> set ps. P q \<longrightarrow> length q \<le> length p)"
  using find_sorted_key [of "\<lambda>s. - int (length s)" "by_length_desc ps" P p]
  by (auto simp: by_length_desc_def)

lemma prefix_matches_prefix: "prefix_matches key p \<Longrightarrow> prefix p key"
  by (simp add: prefix_matches_def split: if_splits)

lemma prefix_matches_unique:
  "prefix_matches key p \<Longrightarrow> prefix_matches key q \<Longrightarrow> length p = length q \<Longrightarrow> p = q"
  by (auto dest!: prefix_matches_prefix simp: prefix_def)

text \<open>
  \<open>lookup\<close> returns the credential of the longest registered key that is a path-aware prefix
  of the URL, and only that: with several overlapping tenant scopes the most specific one is used.
\<close>

theorem lookup_longest_prefix:
  assumes "hm_inv m"
  shows "lookup m url = Some a \<longleftrightarrow>
    (\<exists>key p. match_key url = Some key \<and> bt_get m p = Some a \<and> prefix_matches key p
       \<and> (\<forall>q. bt_get m q \<noteq> None \<and> prefix_matches key q \<longrightarrow> length q \<le> length p))"
proof (cases "match_key url")
  case None
  then show ?thesis by (simp add: lookup_def)
next
  case (Some key)
  have dom: "q \<in> set (map fst m) \<longleftrightarrow> bt_get m q \<noteq> None" for q
    using bt_get_None_iff [of m q] by auto
  show ?thesis
  proof (cases "find (prefix_matches key) (by_length_desc (map fst m))")
    case None
    then have "\<forall>q. bt_get m q \<noteq> None \<longrightarrow> \<not> prefix_matches key q"
      unfolding dom [symmetric] find_None_iff by auto
    with Some None show ?thesis by (auto simp: lookup_def)
  next
    case (Some p)
    from find_longest [OF this] have p: "bt_get m p \<noteq> None" "prefix_matches key p"
      "\<And>q. bt_get m q \<noteq> None \<Longrightarrow> prefix_matches key q \<Longrightarrow> length q \<le> length p"
      unfolding dom [symmetric] by auto
    have "lookup m url = bt_get m p"
      using Some \<open>match_key url = Some key\<close> p(1) by (auto simp: lookup_def bt_get_def)
    moreover have "q = p" if "bt_get m q = Some a" "prefix_matches key q"
      "\<forall>r. bt_get m r \<noteq> None \<and> prefix_matches key r \<longrightarrow> length r \<le> length q" for q
      using that p by (intro prefix_matches_unique [of key]) (auto intro: le_antisym)
    ultimately show ?thesis
      using p \<open>match_key url = Some key\<close> by auto
  qed
qed

theorem lookup_longest_prefix_witness:
  "lookup [(''h'', \<lparr>username = ''a'', password = ''1''\<rparr>), (''h/org'', \<lparr>username = ''b'', password = ''2''\<rparr>)]
     ''https://h/org/repo'' = Some \<lparr>username = ''b'', password = ''2''\<rparr>"
proof -
  let ?m = "[(''h'', \<lparr>username = ''a'', password = ''1''\<rparr>), (''h/org'', \<lparr>username = ''b'', password = ''2''\<rparr>)]"
  let ?k = "''h/org/repo''"
  have inv: "hm_inv ?m" by (simp add: hm_inv_def)
  have key: "match_key ''https://h/org/repo'' = Some ?k" by code_simp
  have dom: "q = ''h'' \<or> q = ''h/org''" if "bt_get ?m q \<noteq> None" for q
    using that by (auto simp: bt_get_def split: if_splits)
  have "prefix_matches ?k ''h/org''" by code_simp
  then show ?thesis
    unfolding lookup_longest_prefix [OF inv]
    using key dom by (intro exI [of _ ?k] exI [of _ "''h/org''"]) (auto simp: bt_get_def)
qed

text \<open>
  The order in which the hash map enumerates its entries does not influence the result, so
  the credential sent to a host is deterministic.
\<close>

theorem lookup_order_independent:
  assumes "hm_inv m" "hm_inv m'" "set m = set m'"
  shows "lookup m url = lookup m' url"
proof -
  have "bt_get m = bt_get m'"
    using assms by (auto simp: bt_get_def hm_inv_def fun_eq_iff intro: map_of_inject_set [THEN iffD2, THEN fun_cong])
  then have "lookup m url = Some a \<longleftrightarrow> lookup m' url = Some a" for a
    unfolding lookup_longest_prefix [OF assms(1)] lookup_longest_prefix [OF assms(2)] by simp
  then show ?thesis by (metis not_Some_eq)
qed

theorem lookup_order_independent_witness:
  "(let x = \<lparr>username = ''u'', password = ''1''\<rparr>; y = \<lparr>username = ''v'', password = ''2''\<rparr>
    in lookup [(''b'', x), (''b/c'', y)] ''https://b/c'' = lookup [(''b/c'', y), (''b'', x)] ''https://b/c'')"
  unfolding Let_def by (rule lookup_order_independent) (auto simp: hm_inv_def)

end
