(* ===== verification/StdFs.thy ===== *)
theory StdFs
  imports Prelude
begin

text \<open>
  The part of \<open>std::fs\<close> and \<open>std::env\<close> the sources use. A \<open>world\<close> answers what a call would answer:
  a file's text, the canonical form of a path, whether it is a directory. Writing a file is a
  step to a new world. A directory tree, as \<open>read_dir\<close> enumerates it, is the datatype \<open>node\<close>.
\<close>

datatype io_kind = NotFound | OtherKind

record io_error =
  io_kind :: io_kind
  io_msg :: string

text \<open>
  What \<open>read_dir\<close> and \<open>file_type\<close> see: a regular file with its bytes, or one that cannot be opened; a
  directory with its entries in \<open>readdir\<close> order, or one that cannot be listed; or something else (a
  symbolic link, a socket, a fifo).
\<close>

datatype node =
  File string
| BadFile io_error
| Dir "(string \<times> node) list"
| BadDir io_error
| Special

fun is_directory :: "node \<Rightarrow> bool" where
  "is_directory (Dir _) = True"
| "is_directory (BadDir _) = True"
| "is_directory _ = False"

fun is_regular :: "node \<Rightarrow> bool" where
  "is_regular (File _) = True"
| "is_regular (BadFile _) = True"
| "is_regular _ = False"

record world =
  read_to_string :: "path \<Rightarrow> (io_error, string) outcome"
  canonicalize :: "path \<Rightarrow> (io_error, path) outcome"
  metadata_is_dir :: "path \<Rightarrow> (io_error, bool) outcome"
  tree_at :: "path \<Rightarrow> (io_error, node) outcome"
  is_dir :: "path \<Rightarrow> bool"
  is_file :: "path \<Rightarrow> bool"
  exists :: "path \<Rightarrow> bool"
  write_error :: "path \<Rightarrow> io_error option"
  create_dir_error :: "path \<Rightarrow> io_error option"
  rename_error :: "path \<Rightarrow> path \<Rightarrow> io_error option"
  remove_error :: "path \<Rightarrow> io_error option"
  env_var :: "string \<Rightarrow> string option"

text \<open>
  \<open>std::fs::write\<close>: on success the file is there with the new contents and nothing else changes. The answers
  of \<open>tree_at\<close> are kept in step by the calls of \<open>TreeFs\<close> only: what is written here is read back as a file,
  not through a tree.
\<close>

definition fs_write :: "path \<Rightarrow> string \<Rightarrow> world \<Rightarrow> (io_error, world) outcome" where
  "fs_write p body w =
     (case write_error w p of
        Some e \<Rightarrow> Err e
      | None \<Rightarrow> Ok (w\<lparr>read_to_string := (read_to_string w)(p := Ok body),
              exists := (exists w)(p := True), is_file := (is_file w)(p := True)\<rparr>))"

lemma fs_write_read: "fs_write p body w = Ok w' \<Longrightarrow> read_to_string w' p = Ok body"
  by (auto simp: fs_write_def split: option.splits)

lemma fs_write_frame:
  "fs_write p body w = Ok w' \<Longrightarrow> q \<noteq> p \<Longrightarrow> read_to_string w' q = read_to_string w q"
  by (auto simp: fs_write_def split: option.splits)

lemma fs_write_no_panic: "fs_write p body w \<noteq> Panic"
  by (simp add: fs_write_def split: option.splits)

lemma fs_write_exists: "fs_write p body w = Ok w' \<Longrightarrow> exists w' p \<and> is_file w' p"
  by (auto simp: fs_write_def split: option.splits)

text \<open>
  \<open>std::fs::create_dir_all\<close>: the directory and every directory above it are there afterwards; the empty
  path is left alone. A call that fails half-way is taken to have made nothing.
\<close>

definition fs_create_dir_all :: "path \<Rightarrow> world \<Rightarrow> (io_error, world) outcome" where
  "fs_create_dir_all p w =
     (case create_dir_error w p of
        Some e \<Rightarrow> Err e
      | None \<Rightarrow> Ok (w\<lparr>exists := (\<lambda>q. q \<noteq> [] \<and> prefix q p \<or> exists w q),
                     is_dir := (\<lambda>q. q \<noteq> [] \<and> prefix q p \<or> is_dir w q)\<rparr>))"

text \<open>\<open>std::fs::rename\<close> of a file: the target has the contents of the source, which is gone.\<close>

definition not_found :: io_error where
  "not_found = \<lparr>io_kind = NotFound, io_msg = ''No such file or directory (os error 2)''\<rparr>"

definition fs_rename :: "path \<Rightarrow> path \<Rightarrow> world \<Rightarrow> (io_error, world) outcome" where
  "fs_rename a b w =
     (case rename_error w a b of
        Some e \<Rightarrow> Err e
      | None \<Rightarrow>
          if a = b then Ok w
          else Ok (w\<lparr>read_to_string := (read_to_string w)(b := read_to_string w a, a := Err not_found),
                     exists := (exists w)(b := exists w a, a := False),
                     is_file := (is_file w)(b := is_file w a, a := False)\<rparr>))"

text \<open>\<open>Path::parent\<close>: none for a root and the empty path.\<close>

definition parent :: "path \<Rightarrow> path option" where
  "parent p = (if p = [] \<or> last p = RootDir then None else Some (butlast p))"

text \<open>\<open>Path::display\<close>.\<close>

fun show_component :: "component \<Rightarrow> string" where
  "show_component RootDir = []"
| "show_component CurDir = ''.''"
| "show_component ParentDir = ''..''"
| "show_component (Normal s) = s"

fun join_with :: "string \<Rightarrow> string list \<Rightarrow> string" where
  "join_with sep [] = []"
| "join_with sep [x] = x"
| "join_with sep (x # y # ys) = x @ sep @ join_with sep (y # ys)"

definition path_str :: "path \<Rightarrow> string" where
  "path_str p =
     (case p of
        [RootDir] \<Rightarrow> ''/''
      | _ \<Rightarrow> join_with ''/'' (map show_component p))"

text \<open>A world in which every file holds the same text and can be written, used by examples.\<close>

definition text_world :: "string \<Rightarrow> world" where
  "text_world s =
     \<lparr>read_to_string = (\<lambda>_. Ok s), canonicalize = Ok, metadata_is_dir = (\<lambda>_. Ok True),
      tree_at = (\<lambda>_. Ok (Dir [])), is_dir = (\<lambda>_. False), is_file = (\<lambda>_. False),
      exists = (\<lambda>_. True), write_error = (\<lambda>_. None), create_dir_error = (\<lambda>_. None),
      rename_error = (\<lambda>_ _. None), remove_error = (\<lambda>_. None), env_var = (\<lambda>_. None)\<rparr>"

end
