(* ===== verification/Contract.thy ===== *)
theory Contract
  imports StdFs
begin

text \<open>
  \<open>cli_contract/exit.rs\<close>, \<open>error.rs\<close>, \<open>codes.rs\<close>, \<open>agent.rs\<close> and the CLI's
  \<open>contract/args.rs\<close>, \<open>context.rs\<close>, \<open>emit.rs\<close>: the typed exit codes, the structured error, agent
  detection and the resolution of flags and environment into one \<open>context\<close> per invocation.
\<close>

section \<open>Exit codes\<close>

datatype exit_code =
  Success | UserError | SystemError | PolicyDeny | RateLimited | NeedsApproval | Timeout

fun exit_code_num :: "exit_code \<Rightarrow> int" where
  "exit_code_num Success = 0"
| "exit_code_num UserError = 1"
| "exit_code_num SystemError = 2"
| "exit_code_num PolicyDeny = 3"
| "exit_code_num RateLimited = 4"
| "exit_code_num NeedsApproval = 5"
| "exit_code_num Timeout = 6"

fun exit_code_name :: "exit_code \<Rightarrow> string" where
  "exit_code_name Success = ''success''"
| "exit_code_name UserError = ''user-error''"
| "exit_code_name SystemError = ''system-error''"
| "exit_code_name PolicyDeny = ''policy-deny''"
| "exit_code_name RateLimited = ''rate-limited''"
| "exit_code_name NeedsApproval = ''needs-approval''"
| "exit_code_name Timeout = ''timeout''"

definition exit_from_code :: "int \<Rightarrow> exit_code option" where
  "exit_from_code n =
     (if n = 0 then Some Success
      else if n = 1 then Some UserError
      else if n = 2 then Some SystemError
      else if n = 3 then Some PolicyDeny
      else if n = 4 then Some RateLimited
      else if n = 5 then Some NeedsApproval
      else if n = 6 then Some Timeout
      else None)"

definition is_failure :: "exit_code \<Rightarrow> bool" where
  "is_failure c \<longleftrightarrow> c \<noteq> Success"

definition is_retriable :: "exit_code \<Rightarrow> bool" where
  "is_retriable c \<longleftrightarrow> c = RateLimited \<or> c = Timeout"

lemma exit_from_code_num: "exit_from_code (exit_code_num c) = Some c"
  by (cases c) (simp_all add: exit_from_code_def)

lemma exit_code_num_from: "exit_from_code n = Some c \<Longrightarrow> exit_code_num c = n"
  by (auto simp: exit_from_code_def split: if_splits)

lemma exit_code_name_inject: "exit_code_name a = exit_code_name b \<longleftrightarrow> a = b"
  by (cases a; cases b) simp_all

section \<open>Structured errors\<close>

datatype level = Error | Warn

record structured_error =
  level :: level
  code :: string
  message :: string
  err_path :: "string option"
  err_field :: "string option"
  err_line :: "nat option"
  suggestion :: "string option"
  docs :: "string option"
  next_actions :: "string list"

definition error_docs_base :: string where
  "error_docs_base = ''https://cli.akua.dev/errors''"

definition structured_new :: "string \<Rightarrow> string \<Rightarrow> structured_error" where
  "structured_new c m =
     \<lparr>level = Error, code = c, message = m, err_path = None, err_field = None, err_line = None,
      suggestion = None, docs = None, next_actions = []\<rparr>"

definition with_path :: "string \<Rightarrow> structured_error \<Rightarrow> structured_error" where
  "with_path p e = e\<lparr>err_path := Some p\<rparr>"

definition with_field :: "string \<Rightarrow> structured_error \<Rightarrow> structured_error" where
  "with_field f e = e\<lparr>err_field := Some f\<rparr>"

definition with_line :: "nat \<Rightarrow> structured_error \<Rightarrow> structured_error" where
  "with_line n e = e\<lparr>err_line := Some n\<rparr>"

definition with_suggestion :: "string \<Rightarrow> structured_error \<Rightarrow> structured_error" where
  "with_suggestion s e = e\<lparr>suggestion := Some s\<rparr>"

definition with_default_docs :: "structured_error \<Rightarrow> structured_error" where
  "with_default_docs e = e\<lparr>docs := Some (error_docs_base @ ''/'' @ code e)\<rparr>"

definition with_docs :: "string \<Rightarrow> structured_error \<Rightarrow> structured_error" where
  "with_docs d e = e\<lparr>docs := Some d\<rparr>"

definition with_next_action :: "string \<Rightarrow> structured_error \<Rightarrow> structured_error" where
  "with_next_action a e = e\<lparr>next_actions := next_actions e @ [a]\<rparr>"

definition as_warning :: "structured_error \<Rightarrow> structured_error" where
  "as_warning e = e\<lparr>level := Warn\<rparr>"

lemmas structured_defs =
  structured_new_def with_path_def with_field_def with_line_def with_suggestion_def
  with_default_docs_def with_docs_def with_next_action_def as_warning_def

text \<open>The codes of \<open>codes.rs\<close> that the modelled components use.\<close>

definition E_MANIFEST_MISSING :: string where "E_MANIFEST_MISSING = ''E_MANIFEST_MISSING''"
definition E_MANIFEST_PARSE :: string where "E_MANIFEST_PARSE = ''E_MANIFEST_PARSE''"
definition E_LOCK_MISSING :: string where "E_LOCK_MISSING = ''E_LOCK_MISSING''"
definition E_LOCK_PARSE :: string where "E_LOCK_PARSE = ''E_LOCK_PARSE''"
definition E_MANIFEST_GIT_USERINFO :: string where
  "E_MANIFEST_GIT_USERINFO = ''E_MANIFEST_GIT_USERINFO''"
definition E_MANIFEST_HELM_MISSING_CHART :: string where
  "E_MANIFEST_HELM_MISSING_CHART = ''E_MANIFEST_HELM_MISSING_CHART''"
definition E_MANIFEST_HELM_MISSING_VERSION :: string where
  "E_MANIFEST_HELM_MISSING_VERSION = ''E_MANIFEST_HELM_MISSING_VERSION''"
definition E_MANIFEST_HELM_USERINFO :: string where
  "E_MANIFEST_HELM_USERINFO = ''E_MANIFEST_HELM_USERINFO''"
definition E_MANIFEST_HELM_CHART_INVALID :: string where
  "E_MANIFEST_HELM_CHART_INVALID = ''E_MANIFEST_HELM_CHART_INVALID''"
definition E_MANIFEST_OCI_USERINFO :: string where
  "E_MANIFEST_OCI_USERINFO = ''E_MANIFEST_OCI_USERINFO''"
definition E_PATH_ESCAPE :: string where "E_PATH_ESCAPE = ''E_PATH_ESCAPE''"
definition E_IO :: string where "E_IO = ''E_IO''"

lemmas error_codes =
  E_MANIFEST_MISSING_def E_MANIFEST_PARSE_def E_LOCK_MISSING_def E_LOCK_PARSE_def
  E_MANIFEST_GIT_USERINFO_def E_MANIFEST_HELM_MISSING_CHART_def E_MANIFEST_HELM_MISSING_VERSION_def
  E_MANIFEST_HELM_USERINFO_def E_MANIFEST_HELM_CHART_INVALID_def E_MANIFEST_OCI_USERINFO_def
  E_PATH_ESCAPE_def E_IO_def

text \<open>
  The contract every error type of the CLI meets: its structured form names the documented page of
  its own code, and a system failure is never reported as the user's mistake.
\<close>

locale reported_error =
  fixes to_structured :: "'e \<Rightarrow> structured_error"
    and is_system :: "'e \<Rightarrow> bool"
    and exit_of :: "'e \<Rightarrow> exit_code"
  assumes docs_of_code: "docs (to_structured e) = Some (error_docs_base @ ''/'' @ code (to_structured e))"
    and level_error: "level (to_structured e) = Error"
    and system_exit: "is_system e \<Longrightarrow> exit_of e = SystemError"
    and user_exit: "\<not> is_system e \<Longrightarrow> exit_of e = UserError"
begin

lemma exit_cases: "exit_of e = (if is_system e then SystemError else UserError)"
  by (simp add: system_exit user_exit)

lemma exit_is_failure: "is_failure (exit_of e)"
  by (simp add: exit_cases is_failure_def)

lemma never_retriable: "\<not> is_retriable (exit_of e)"
  by (simp add: exit_cases is_retriable_def)

lemma same_code_same_docs:
  "code (to_structured e) = code (to_structured e') \<Longrightarrow> docs (to_structured e) = docs (to_structured e')"
  by (simp add: docs_of_code)

end

section \<open>Agent detection\<close>

datatype agent_source = Agent | ClaudeCode | GeminiCli | CursorCli | AkuaAgent

fun agent_env_var :: "agent_source \<Rightarrow> string" where
  "agent_env_var Agent = ''AGENT''"
| "agent_env_var ClaudeCode = ''CLAUDECODE''"
| "agent_env_var GeminiCli = ''GEMINI_CLI''"
| "agent_env_var CursorCli = ''CURSOR_CLI''"
| "agent_env_var AkuaAgent = ''AKUA_AGENT''"

text \<open>The position of a source in the documented precedence.\<close>

fun agent_rank :: "agent_source \<Rightarrow> nat" where
  "agent_rank Agent = 0"
| "agent_rank ClaudeCode = 1"
| "agent_rank GeminiCli = 2"
| "agent_rank CursorCli = 3"
| "agent_rank AkuaAgent = 4"

record agent_context =
  detected :: bool
  agent_src :: "agent_source option"
  agent_name :: "string option"
  disabled_via_env :: bool

definition agent_none :: agent_context where
  "agent_none = \<lparr>detected = False, agent_src = None, agent_name = None, disabled_via_env = False\<rparr>"

fun first_agent ::
  "(string \<Rightarrow> string option) \<Rightarrow> (agent_source \<times> string) list \<Rightarrow> agent_context"
where
  "first_agent get [] = agent_none"
| "first_agent get ((source, var) # rest) =
     (case get var of
        Some value \<Rightarrow>
          (if value \<noteq> []
           then \<lparr>detected = True, agent_src = Some source, agent_name = Some value,
                 disabled_via_env = False\<rparr>
           else first_agent get rest)
      | None \<Rightarrow> first_agent get rest)"

definition agent_precedence :: "(agent_source \<times> string) list" where
  "agent_precedence =
     [(Agent, ''AGENT''), (ClaudeCode, ''CLAUDECODE''), (GeminiCli, ''GEMINI_CLI''),
      (CursorCli, ''CURSOR_CLI''), (AkuaAgent, ''AKUA_AGENT'')]"

definition from_reader :: "(string \<Rightarrow> string option) \<Rightarrow> (string \<Rightarrow> bool) \<Rightarrow> agent_context" where
  "from_reader get is_set =
     (if is_set ''AKUA_NO_AGENT_DETECT''
      then \<lparr>detected = False, agent_src = None, agent_name = None, disabled_via_env = True\<rparr>
      else first_agent get agent_precedence)"

text \<open>The environment of a process: a value need not be UTF-8.\<close>

datatype os_string = Utf8 string | NotUtf8 string

type_synonym os_env = "string \<Rightarrow> os_string option"

definition std_get :: "os_env \<Rightarrow> string \<Rightarrow> string option" where
  "std_get env k = (case env k of Some (Utf8 s) \<Rightarrow> Some s | _ \<Rightarrow> None)"

definition std_is_set :: "os_env \<Rightarrow> string \<Rightarrow> bool" where
  "std_is_set env k \<longleftrightarrow> env k \<noteq> None"

definition detect :: "os_env \<Rightarrow> agent_context" where
  "detect env = from_reader (std_get env) (std_is_set env)"

text \<open>The trait's default \<open>is_set\<close> delegates to \<open>get\<close>.\<close>

definition default_is_set :: "(string \<Rightarrow> string option) \<Rightarrow> string \<Rightarrow> bool" where
  "default_is_set get k \<longleftrightarrow> get k \<noteq> None"

lemma agent_precedence_split:
  assumes "agent_precedence = ys @ (s, v) # zs"
  shows "v = agent_env_var s" and "agent_rank s' < agent_rank s \<Longrightarrow> (s', agent_env_var s') \<in> set ys"
proof -
  have ys: "ys = take (length ys) agent_precedence" unfolding assms by simp
  have sv: "(s, v) = agent_precedence ! length ys" unfolding assms by simp
  have "length ys < 5" using arg_cong [OF assms, of length] by (simp add: agent_precedence_def)
  then consider "length ys = 0" | "length ys = 1" | "length ys = 2" | "length ys = 3" | "length ys = 4"
    by linarith
  then have "v = agent_env_var s \<and> (agent_rank s' < agent_rank s \<longrightarrow> (s', agent_env_var s') \<in> set ys)"
    by cases (use sv in \<open>cases s'; subst ys; simp add: agent_precedence_def\<close>)+
  then show "v = agent_env_var s"
    and "agent_rank s' < agent_rank s \<Longrightarrow> (s', agent_env_var s') \<in> set ys" by auto
qed

lemma first_agent_detected:
  "detected (first_agent get xs) \<longleftrightarrow> (\<exists>(s, v) \<in> set xs. \<exists>x. get v = Some x \<and> x \<noteq> [])"
  by (induction get xs rule: first_agent.induct) (auto simp: agent_none_def split: option.splits)

lemma first_agent_enabled [simp]: "\<not> disabled_via_env (first_agent get xs)"
  by (induction get xs rule: first_agent.induct) (auto simp: agent_none_def split: option.splits)

lemma first_agent_source:
  "agent_src (first_agent get xs) = Some s \<Longrightarrow>
     \<exists>ys v zs x. xs = ys @ (s, v) # zs \<and> get v = Some x \<and> x \<noteq> []
       \<and> agent_name (first_agent get xs) = Some x
       \<and> (\<forall>(s', v') \<in> set ys. get v' = None \<or> get v' = Some [])"
proof (induction get xs rule: first_agent.induct)
  case (1 get)
  then show ?case by (simp add: agent_none_def)
next
  case (2 get source var rest)
  show ?case
  proof (cases "\<exists>x. get var = Some x \<and> x \<noteq> []")
    case True
    then obtain x where x: "get var = Some x" "x \<noteq> []" by blast
    with "2.prems" have "source = s" by simp
    with x show ?thesis
      by (intro exI [of _ "[]"] exI [of _ var] exI [of _ rest] exI [of _ x]) auto
  next
    case False
    then have v: "get var = None \<or> get var = Some []" by (cases "get var") auto
    then have eq: "first_agent get ((source, var) # rest) = first_agent get rest" by auto
    have "\<exists>ys v zs x. rest = ys @ (s, v) # zs \<and> get v = Some x \<and> x \<noteq> []
       \<and> agent_name (first_agent get rest) = Some x
       \<and> (\<forall>(s', v') \<in> set ys. get v' = None \<or> get v' = Some [])"
      using v "2.IH" "2.prems" eq by (cases "get var") auto
    then obtain ys v' zs x where "rest = ys @ (s, v') # zs" "get v' = Some x" "x \<noteq> []"
      "agent_name (first_agent get rest) = Some x"
      "\<forall>(s', v') \<in> set ys. get v' = None \<or> get v' = Some []" by blast
    with v eq show ?thesis
      by (intro exI [of _ "(source, var) # ys"] exI [of _ v'] exI [of _ zs] exI [of _ x]) auto
  qed
qed

text \<open>The contract of an \<open>EnvReader\<close>: what has a value is set.\<close>

locale env_reader =
  fixes get :: "string \<Rightarrow> string option"
    and is_set :: "string \<Rightarrow> bool"
  assumes get_is_set: "get k = Some v \<Longrightarrow> is_set k"
begin

lemma disabled_iff: "disabled_via_env (from_reader get is_set) \<longleftrightarrow> is_set ''AKUA_NO_AGENT_DETECT''"
  by (simp add: from_reader_def)

lemma detected_iff:
  "detected (from_reader get is_set) \<longleftrightarrow>
     \<not> is_set ''AKUA_NO_AGENT_DETECT'' \<and> (\<exists>s x. get (agent_env_var s) = Some x \<and> x \<noteq> [])"
proof -
  have "(\<exists>(s, v) \<in> set agent_precedence. \<exists>x. get v = Some x \<and> x \<noteq> [])
      \<longleftrightarrow> (\<exists>s x. get (agent_env_var s) = Some x \<and> x \<noteq> [])"
  proof
    show "\<exists>s x. get (agent_env_var s) = Some x \<and> x \<noteq> []"
      if "\<exists>(s, v) \<in> set agent_precedence. \<exists>x. get v = Some x \<and> x \<noteq> []"
      using that unfolding agent_precedence_def
      by (auto intro: exI [of _ Agent] exI [of _ ClaudeCode] exI [of _ GeminiCli]
          exI [of _ CursorCli] exI [of _ AkuaAgent])
  next
    assume "\<exists>s x. get (agent_env_var s) = Some x \<and> x \<noteq> []"
    then obtain s x where "get (agent_env_var s) = Some x" "x \<noteq> []" by blast
    then show "\<exists>(s, v) \<in> set agent_precedence. \<exists>x. get v = Some x \<and> x \<noteq> []"
      by (cases s) (auto simp: agent_precedence_def)
  qed
  then show ?thesis by (simp add: from_reader_def first_agent_detected)
qed

lemma detected_name_set:
  assumes "agent_name (from_reader get is_set) = Some x" "agent_src (from_reader get is_set) = Some s"
  shows "is_set (agent_env_var s) \<and> get (agent_env_var s) = Some x"
proof -
  from assms have "agent_src (first_agent get agent_precedence) = Some s"
    and "agent_name (first_agent get agent_precedence) = Some x"
    by (simp_all add: from_reader_def split: if_splits)
  from first_agent_source [OF this(1)] this(2)
  obtain ys v zs where "agent_precedence = ys @ (s, v) # zs" "get v = Some x" by auto
  then have "\<exists>v. (s, v) \<in> set agent_precedence \<and> get v = Some x"
    by (metis in_set_conv_decomp)
  then have "get (agent_env_var s) = Some x" by (auto simp: agent_precedence_def)
  then show ?thesis using get_is_set by blast
qed

end

interpretation std_env: env_reader "std_get env" "std_is_set env" for env
  by unfold_locales (auto simp: std_get_def std_is_set_def split: option.splits os_string.splits)

interpretation default_env: env_reader get "default_is_set get" for get
  by unfold_locales (simp add: default_is_set_def)

section \<open>The context of an invocation\<close>

datatype output_mode = Text | Json

record universal_args =
  arg_json :: bool
  arg_no_json :: bool
  arg_plan :: bool
  arg_timeout :: "string option"
  arg_idempotency_key :: "string option"
  arg_log :: "string option"
  arg_log_level :: "string option"
  arg_verbose :: bool
  arg_no_color :: bool
  arg_no_progress :: bool
  arg_no_interactive :: bool
  arg_no_agent_mode :: bool

definition default_args :: universal_args where
  "default_args =
     \<lparr>arg_json = False, arg_no_json = False, arg_plan = False, arg_timeout = None,
      arg_idempotency_key = None, arg_log = None, arg_log_level = None, arg_verbose = False,
      arg_no_color = False, arg_no_progress = False, arg_no_interactive = False,
      arg_no_agent_mode = False\<rparr>"

record cli_context =
  ctx_output :: output_mode
  ctx_agent :: agent_context
  ctx_color :: bool
  ctx_progress :: bool
  ctx_interactive :: bool
  ctx_timeout :: "string option"
  ctx_idempotency_key :: "string option"
  ctx_plan :: bool

definition context_resolve :: "universal_args \<Rightarrow> agent_context \<Rightarrow> cli_context" where
  "context_resolve args agent =
     (let effective = (if arg_no_agent_mode args then agent_none else agent);
          output = (if arg_json args then Json
                    else if arg_no_json args then Text
                    else if detected effective then Json
                    else Text);
          active = detected effective
      in \<lparr>ctx_output = output,
          ctx_agent = effective,
          ctx_color = (\<not> arg_no_color args \<and> output = Text \<and> \<not> active),
          ctx_progress = (\<not> arg_no_progress args \<and> output = Text \<and> \<not> active),
          ctx_interactive = (\<not> arg_no_interactive args \<and> \<not> active),
          ctx_timeout = arg_timeout args,
          ctx_idempotency_key = arg_idempotency_key args,
          ctx_plan = arg_plan args\<rparr>)"

definition context_human :: cli_context where
  "context_human = context_resolve default_args agent_none"

definition context_json :: cli_context where
  "context_json = context_resolve (default_args\<lparr>arg_json := True\<rparr>) agent_none"

section \<open>Emission\<close>

text \<open>
  A writer appends to its buffer. \<open>to_json\<close> stands for \<open>serde_json\<close>: \<open>emit_output\<close> gets the
  value's JSON text, \<open>emit_error\<close> the error's.
\<close>

definition emit_json :: "string \<Rightarrow> string \<Rightarrow> string" where
  "emit_json json out = out @ json @ ''\<newline>''"

definition emit_output :: "cli_context \<Rightarrow> string \<Rightarrow> (string \<Rightarrow> string) \<Rightarrow> string \<Rightarrow> string" where
  "emit_output ctx json text out =
     (case ctx_output ctx of Json \<Rightarrow> emit_json json out | Text \<Rightarrow> text out)"

definition format_location :: "string \<Rightarrow> string option \<Rightarrow> nat option \<Rightarrow> string" where
  "format_location p field line =
     (case (field, line) of
        (Some f, Some n) \<Rightarrow> p @ '':'' @ show_nat n @ '' ('' @ f @ '')''
      | (Some f, None) \<Rightarrow> p @ '' ('' @ f @ '')''
      | (None, Some n) \<Rightarrow> p @ '':'' @ show_nat n
      | (None, None) \<Rightarrow> p)"

definition emit_error ::
  "(structured_error \<Rightarrow> string) \<Rightarrow> cli_context \<Rightarrow> structured_error \<Rightarrow> string \<Rightarrow> string"
where
  "emit_error to_json ctx e out =
     (case ctx_output ctx of
        Json \<Rightarrow> out @ to_json e @ ''\<newline>''
      | Text \<Rightarrow>
          out @ ''error['' @ code e @ '']: '' @ message e @ ''\<newline>''
          @ (case err_path e of
               Some p \<Rightarrow> ''  at '' @ format_location p (err_field e) (err_line e) @ ''\<newline>''
             | None \<Rightarrow> [])
          @ (case suggestion e of Some s \<Rightarrow> ''  suggestion: '' @ s @ ''\<newline>'' | None \<Rightarrow> [])
          @ (case docs e of Some d \<Rightarrow> ''  docs: '' @ d @ ''\<newline>'' | None \<Rightarrow> [])
          @ (if next_actions e \<noteq> []
             then ''  next:\<newline>'' @ concat (map (\<lambda>a. ''    - '' @ a @ ''\<newline>'') (next_actions e))
             else []))"

section \<open>Properties\<close>

text \<open>
  Exit codes round-trip: \<open>from_code\<close> inverts \<open>code\<close>, accepts no other number, and the
  number and the stable name both determine the code.
\<close>

theorem exit_code_roundtrip:
  "(exit_from_code n = Some c \<longleftrightarrow> exit_code_num c = n)
   \<and> (exit_from_code n = None \<longleftrightarrow> n < 0 \<or> 6 < n)
   \<and> (exit_code_name c = exit_code_name d \<longleftrightarrow> c = d)"
proof (intro conjI)
  show "exit_from_code n = Some c \<longleftrightarrow> exit_code_num c = n"
    using exit_from_code_num exit_code_num_from by blast
  show "exit_from_code n = None \<longleftrightarrow> n < 0 \<or> 6 < n"
    by (auto simp: exit_from_code_def)
qed (rule exit_code_name_inject)

text \<open>
  Agent detection: an agent is detected exactly when the opt-out variable is not set at all and
  one of the five agent variables holds non-empty UTF-8; the recorded source is the first such
  variable in the documented precedence, and the recorded name is its value.
\<close>

theorem detect_correct:
  "(detected (detect env) \<longleftrightarrow>
      env ''AKUA_NO_AGENT_DETECT'' = None \<and>
      (\<exists>s x. env (agent_env_var s) = Some (Utf8 x) \<and> x \<noteq> []))
   \<and> (agent_src (detect env) = Some s \<longrightarrow>
        (\<exists>x. env (agent_env_var s) = Some (Utf8 x) \<and> x \<noteq> [] \<and> agent_name (detect env) = Some x)
        \<and> (\<forall>s' x. agent_rank s' < agent_rank s \<and> env (agent_env_var s') = Some (Utf8 x) \<longrightarrow> x = []))"
proof (intro conjI impI)
  have get: "std_get env k = Some x \<longleftrightarrow> env k = Some (Utf8 x)" for k x
    by (auto simp: std_get_def split: option.splits os_string.splits)
  show "detected (detect env) \<longleftrightarrow>
      env ''AKUA_NO_AGENT_DETECT'' = None \<and>
      (\<exists>s x. env (agent_env_var s) = Some (Utf8 x) \<and> x \<noteq> [])"
    by (simp add: detect_def std_env.detected_iff get std_is_set_def)
  assume s: "agent_src (detect env) = Some s"
  then have "agent_src (first_agent (std_get env) agent_precedence) = Some s"
    and name: "agent_name (detect env) = agent_name (first_agent (std_get env) agent_precedence)"
    by (auto simp: detect_def from_reader_def split: if_splits)
  from first_agent_source [OF this(1)] obtain ys v zs x where
    p: "agent_precedence = ys @ (s, v) # zs" "std_get env v = Some x" "x \<noteq> []"
    "agent_name (first_agent (std_get env) agent_precedence) = Some x"
    "\<forall>(s', v') \<in> set ys. std_get env v' = None \<or> std_get env v' = Some []" by blast
  have v: "v = agent_env_var s" by (rule agent_precedence_split [OF p(1)])
  then show "\<exists>x. env (agent_env_var s) = Some (Utf8 x) \<and> x \<noteq> [] \<and> agent_name (detect env) = Some x"
    using p name get by auto
  show "\<forall>s' x. agent_rank s' < agent_rank s \<and> env (agent_env_var s') = Some (Utf8 x) \<longrightarrow> x = []"
  proof (intro allI impI)
    fix s' x
    assume "agent_rank s' < agent_rank s \<and> env (agent_env_var s') = Some (Utf8 x)"
    then have "(s', agent_env_var s') \<in> set ys" and "std_get env (agent_env_var s') = Some x"
      using agent_precedence_split(2) [OF p(1)] get by auto
    with p(5) show "x = []" by force
  qed
qed

theorem detect_correct_witness:
  "agent_src (detect (\<lambda>k. if k = ''CLAUDECODE'' then Some (Utf8 ''1'') else None)) = Some ClaudeCode
   \<and> agent_name (detect (\<lambda>k. if k = ''CLAUDECODE'' then Some (Utf8 ''1'') else None)) = Some ''1''"
proof -
  let ?env = "\<lambda>k. if k = ''CLAUDECODE'' then Some (Utf8 ''1'') else None"
  have "agent_src (detect ?env) = Some ClaudeCode" by code_simp
  with detect_correct [of ?env ClaudeCode] show ?thesis by auto
qed

text \<open>
  Flags win over detection: \<open>--json\<close> and \<open>--no-json\<close> decide the output mode whatever the agent
  context says, \<open>--no-agent-mode\<close> makes the context of an agent session equal to a human's, and
  no colour or progress is ever written into JSON or to an agent.
\<close>

theorem context_resolve_flags:
  "(arg_json args \<longrightarrow> ctx_output (context_resolve args agent) = Json)
   \<and> (arg_no_json args \<and> \<not> arg_json args \<longrightarrow> ctx_output (context_resolve args agent) = Text)
   \<and> (arg_no_agent_mode args \<longrightarrow> context_resolve args agent = context_resolve args agent_none)
   \<and> (ctx_color (context_resolve args agent) \<or> ctx_progress (context_resolve args agent) \<longrightarrow>
        ctx_output (context_resolve args agent) = Text
        \<and> \<not> detected (ctx_agent (context_resolve args agent)))
   \<and> (ctx_interactive (context_resolve args agent) \<longrightarrow>
        \<not> detected (ctx_agent (context_resolve args agent)) \<and> \<not> arg_no_interactive args)"
  by (simp add: context_resolve_def Let_def)

theorem context_resolve_flags_witness:
  "context_resolve (default_args\<lparr>arg_no_agent_mode := True\<rparr>)
     \<lparr>detected = True, agent_src = Some Agent, agent_name = Some ''goose'', disabled_via_env = False\<rparr>
   = context_human"
  using context_resolve_flags [of "default_args\<lparr>arg_no_agent_mode := True\<rparr>"
      "\<lparr>detected = True, agent_src = Some Agent, agent_name = Some ''goose'', disabled_via_env = False\<rparr>"]
  by (simp add: context_human_def default_args_def context_resolve_def agent_none_def)

end
