(* ===== verification/Duration.thy ===== *)
theory Duration
  imports Prelude "HOL-Library.Word"
begin

text \<open>
  \<open>duration_parse.rs\<close>: the Go-style durations of \<open>--timeout\<close>. A \<open>Duration\<close> is its number of
  nanoseconds; the multiplications that turn minutes and hours into seconds are those of \<open>u64\<close>. They
  panic when the build has overflow checks (\<open>checks\<close>, the dev profile) and wrap around otherwise (the
  release profiles of \<open>Cargo.toml\<close>). The formatted error texts are the constructors of
  \<open>duration_error\<close>, with the strings they quote.
\<close>

type_synonym u64 = "64 word"

datatype duration_error =
  EmptyDuration
| MissingUnit string
| InvalidNumber string string
| UnknownUnit string string

definition mul_u64 :: "bool \<Rightarrow> u64 \<Rightarrow> u64 \<Rightarrow> ('e, u64) outcome" where
  "mul_u64 checks a b =
     (if checks \<and> 2 ^ 64 \<le> unat a * unat b then Panic else Ok (a * b))"

definition from_secs :: "u64 \<Rightarrow> nat" where
  "from_secs n = unat n * 1000000000"

definition parse_go_duration :: "bool \<Rightarrow> string \<Rightarrow> (duration_error, nat) outcome" where
  "parse_go_duration checks raw =
     (let s = trim raw;
          num = takeWhile (\<lambda>c. \<not> is_ascii_alphabetic c) s;
          unit = dropWhile (\<lambda>c. \<not> is_ascii_alphabetic c) s
      in if s = [] then Err EmptyDuration
         else if unit = [] then Err (MissingUnit s)
         else case parse_u64 num of
             None \<Rightarrow> Err (InvalidNumber num s)
           | Some k \<Rightarrow>
              (let n = (of_nat k :: u64) in
               if unit = ''ns'' then Ok (unat n)
               else if unit = ''us'' \<or> unit = [CHR 0xC2, CHR 0xB5, CHR ''s''] then Ok (unat n * 1000)
               else if unit = ''ms'' then Ok (unat n * 1000000)
               else if unit = ''s'' then Ok (from_secs n)
               else if unit = ''m'' then obind (mul_u64 checks n 60) (\<lambda>m. Ok (from_secs m))
               else if unit = ''h'' then
                 obind (mul_u64 checks n 60) (\<lambda>m. obind (mul_u64 checks m 60) (\<lambda>h. Ok (from_secs h)))
               else Err (UnknownUnit unit s)))"

lemma unat_of_nat_u64: "k < 2 ^ 64 \<Longrightarrow> unat (of_nat k :: u64) = k"
  by (simp add: unat_of_nat take_bit_nat_eq_self)

lemma mul_u64_exact:
  "unat a * unat b < 2 ^ 64 \<Longrightarrow> mul_u64 checks a b = Ok (a * b) \<and> unat (a * b) = unat a * unat b"
  by (simp add: mul_u64_def unat_word_ariths)

lemma mul_u64_wraps: "unat (a * b :: u64) = unat a * unat b mod 2 ^ 64"
  by (simp add: unat_word_ariths)

text \<open>Decimal digits followed by letters are split at the first letter.\<close>

lemma digit_not_alphabetic: "is_ascii_digit c \<Longrightarrow> \<not> is_ascii_alphabetic c"
  by (auto simp: is_ascii_digit_def is_ascii_alphabetic_def)

lemma show_nat_plain: "plain_char (hd (show_nat n))"
  using show_nat_digits [of "hd (show_nat n)" n] by (simp add: digit_plain)

lemma parse_show_nat:
  assumes "k < 2 ^ 64" "u \<noteq> []" "is_ascii_alphabetic (hd u)" "plain_char (last u)"
  shows "trim (show_nat k @ u) = show_nat k @ u"
    and "takeWhile (\<lambda>c. \<not> is_ascii_alphabetic c) (show_nat k @ u) = show_nat k"
    and "dropWhile (\<lambda>c. \<not> is_ascii_alphabetic c) (show_nat k @ u) = u"
    and "parse_u64 (show_nat k) = Some k"
proof -
  have digits: "\<forall>c \<in> set (show_nat k). \<not> is_ascii_alphabetic c"
    using show_nat_digits digit_not_alphabetic by blast
  obtain c t where u: "u = c # t" "is_ascii_alphabetic c" using assms(2,3) by (cases u) auto
  show "trim (show_nat k @ u) = show_nat k @ u"
    using assms(2,4) show_nat_plain [of k] by (intro trim_plain) (simp add: hd_append)
  show "takeWhile (\<lambda>c. \<not> is_ascii_alphabetic c) (show_nat k @ u) = show_nat k"
    using digits u by (simp add: takeWhile_append)
  show "dropWhile (\<lambda>c. \<not> is_ascii_alphabetic c) (show_nat k @ u) = u"
    using digits u by (simp add: dropWhile_append)
  show "parse_u64 (show_nat k) = Some k" by (rule parse_u64_show_nat [OF assms(1)])
qed

text \<open>The units and the nanoseconds one of them is worth.\<close>

definition unit_nanos :: "(string \<times> nat) list" where
  "unit_nanos =
     [(''ns'', 1), (''us'', 1000), (''ms'', 1000000), (''s'', 1000000000),
      (''m'', 60 * 1000000000), (''h'', 3600 * 1000000000)]"

text \<open>
  Every duration in range is read exactly: a decimal number and a unit of the table give that
  many times the unit, in either build profile, unless the seconds exceed a \<open>u64\<close>.
\<close>

theorem parse_go_duration_exact:
  assumes "(u, scale) \<in> set unit_nanos" "k * 3600 < 2 ^ 64"
  shows "parse_go_duration checks (show_nat k @ u) = Ok (k * scale)"
proof -
  have k: "k < 2 ^ 64" using assms(2) by simp
  have u: "u \<noteq> []" "is_ascii_alphabetic (hd u)" "plain_char (last u)"
    using assms(1) by (auto simp: unit_nanos_def is_ascii_alphabetic_def plain_char_def)
  have mul: "mul_u64 checks (of_nat k) 60 = (Ok (of_nat k * 60) :: (duration_error, u64) outcome)
      \<and> unat (of_nat k * 60 :: u64) = unat (of_nat k :: u64) * unat (60 :: u64)"
    using assms(2) k by (intro mul_u64_exact) (simp add: unat_of_nat_u64)
  then have m: "unat (of_nat k * 60 :: u64) = k * 60"
    using k by (simp add: unat_of_nat_u64)
  have "mul_u64 checks (of_nat k * 60) 60 = (Ok (of_nat k * 60 * 60) :: (duration_error, u64) outcome)
      \<and> unat (of_nat k * 60 * 60 :: u64) = unat (of_nat k * 60 :: u64) * unat (60 :: u64)"
    using assms(2) m by (intro mul_u64_exact) simp
  note mul2 = this [unfolded m]
  then have h: "unat (3600 * of_nat k :: u64) = 3600 * k"
    by (simp add: mult.commute)
  show ?thesis
    using assms(1) u(1)
    unfolding parse_go_duration_def Let_def parse_show_nat [OF k u]
    by (auto simp: unit_nanos_def unat_of_nat_u64 [OF k] from_secs_def mul m mul2 h)
qed

theorem parse_go_duration_exact_witness:
  "parse_go_duration True (show_nat 5 @ ''m'') = Ok (5 * (60 * 1000000000))"
  by (rule parse_go_duration_exact) (simp_all add: unit_nanos_def)

text \<open>
  Past the range the profiles differ: with overflow checks a minute count whose seconds do not
  fit a \<open>u64\<close> aborts the process, and in a release build it silently becomes a shorter timeout, the
  seconds modulo \<open>2 ^ 64\<close>.
\<close>

theorem parse_go_duration_overflow:
  assumes "k < 2 ^ 64" "2 ^ 64 \<le> k * 60"
  shows "parse_go_duration True (show_nat k @ ''m'') = Panic
    \<and> parse_go_duration False (show_nat k @ ''m'') = Ok (k * 60 mod 2 ^ 64 * 1000000000)"
proof -
  have u: "''m'' \<noteq> []" "is_ascii_alphabetic (hd ''m'')" "plain_char (last ''m'')"
    by (simp_all add: is_ascii_alphabetic_def plain_char_def)
  show ?thesis
    unfolding parse_go_duration_def Let_def parse_show_nat [OF assms(1) u]
    using assms(2)
    by (simp add: mul_u64_def from_secs_def mul_u64_wraps unat_of_nat_u64 [OF assms(1)])
qed

theorem parse_go_duration_overflow_witness:
  "parse_go_duration False (show_nat 307445734561825861 @ ''m'') = Ok (44 * 1000000000)"
  using parse_go_duration_overflow [of 307445734561825861] by simp

text \<open>
  Nothing is silently coerced: an accepted text is, after trimming, a \<open>u64\<close> followed by exactly
  one of the six units. The arm for the micro sign is never reached, because the split happens at
  the first ASCII letter: a number followed by it is rejected.
\<close>

theorem parse_go_duration_sound:
  "(parse_go_duration checks raw = Ok d \<longrightarrow>
      (\<exists>num u scale k. trim raw = num @ u \<and> parse_u64 num = Some k \<and> (u, scale) \<in> set unit_nanos))
   \<and> (k < 2 ^ 64 \<longrightarrow>
      (\<exists>num s. parse_go_duration checks (show_nat k @ [CHR 0xC2, CHR 0xB5, CHR ''s''])
         = Err (InvalidNumber num s)))"
proof (intro conjI impI)
  let ?P = "\<lambda>c. \<not> is_ascii_alphabetic c"
  assume ok: "parse_go_duration checks raw = Ok d"
  define num u where "num = takeWhile ?P (trim raw)" and "u = dropWhile ?P (trim raw)"
  have split: "trim raw = num @ u" by (simp add: num_def u_def)
  from ok have u: "u \<noteq> []" by (auto simp: parse_go_duration_def Let_def u_def split: if_splits)
  then have "\<not> ?P (hd u)" unfolding u_def by (rule hd_dropWhile)
  then have hd: "hd u \<noteq> CHR 0xC2" by (auto simp: is_ascii_alphabetic_def)
  from ok obtain k where "parse_u64 num = Some k"
    by (auto simp: parse_go_duration_def Let_def num_def split: if_splits option.splits)
  moreover from ok hd have "\<exists>scale. (u, scale) \<in> set unit_nanos"
    by (auto simp: parse_go_duration_def Let_def u_def unit_nanos_def split: if_splits option.splits)
  ultimately show "\<exists>num u scale k. trim raw = num @ u \<and> parse_u64 num = Some k \<and> (u, scale) \<in> set unit_nanos"
    using split by blast
next
  assume k: "k < 2 ^ 64"
  let ?s = "show_nat k @ [CHR 0xC2, CHR 0xB5, CHR ''s'']"
  let ?n = "show_nat k @ [CHR 0xC2, CHR 0xB5]"
  have digits: "\<forall>c \<in> set ?n. \<not> is_ascii_alphabetic c"
    using show_nat_digits digit_not_alphabetic by (auto simp: is_ascii_alphabetic_def)
  have trim: "trim ?s = ?s"
    using show_nat_plain [of k] by (intro trim_plain) (simp add: hd_append plain_char_def)
  have sp: "?s = ?n @ ''s''" by simp
  have s: "is_ascii_alphabetic CHR ''s''" by (simp add: is_ascii_alphabetic_def)
  have "takeWhile (\<lambda>c. \<not> is_ascii_alphabetic c) ?s = ?n"
    "dropWhile (\<lambda>c. \<not> is_ascii_alphabetic c) ?s = ''s''"
    unfolding sp using digits s by (simp_all add: takeWhile_append dropWhile_append)
  moreover have "digits_value 0 ?n = None"
    by (simp add: digits_value_append digits_value_show_nat is_ascii_digit_def)
  moreover have "\<not> prefix ''+'' ?n"
  proof
    assume "prefix ''+'' ?n"
    then have "CHR ''+'' \<in> set (show_nat k)" by (cases "show_nat k") auto
    then show False using show_nat_digits [of "CHR ''+''" k] by (simp add: is_ascii_digit_def)
  qed
  ultimately show "\<exists>num s. parse_go_duration checks ?s = Err (InvalidNumber num s)"
    by (simp add: parse_go_duration_def trim parse_u64_def)
qed

theorem parse_go_duration_sound_witness:
  "\<exists>num s. parse_go_duration True (show_nat 5 @ [CHR 0xC2, CHR 0xB5, CHR ''s'']) = Err (InvalidNumber num s)"
  using parse_go_duration_sound [of True "''1s''" 0 5] by simp

end
