(* ===== verification/Manifest.thy ===== *)
theory Manifest
  imports HostAuth Contract
begin

text \<open>
  \<open>mod_file.rs\<close>: the manifest \<open>akua.toml\<close>. A dependency is a table of optional fields; \<open>validate\<close>
  accepts it when exactly one source is set with what that source needs, and \<open>spec\<close> projects a
  validated one to a typed source (it panics on anything else). \<open>from_toml\<close> and \<open>to_toml\<close> stand for
  the \<open>toml\<close> crate: they map text to the structural record or an error text, and back.
\<close>

section \<open>The data\<close>

record signing_section =
  cosign_public_key :: "string option"
  cosign_private_key :: "string option"

record package_section =
  pkg_name :: string
  pkg_version :: string
  pkg_edition :: string
  strict_signing :: bool

record workspace_section =
  members :: "string list"

record replace =
  replace_path :: string

record dependency =
  dep_oci :: "string option"
  dep_git :: "string option"
  dep_path :: "string option"
  dep_repo :: "string option"
  dep_chart :: "string option"
  dep_version :: "string option"
  dep_tag :: "string option"
  dep_rev :: "string option"
  dep_replace :: "replace option"

record manifest =
  m_package :: package_section
  m_workspace :: "workspace_section option"
  m_signing :: "signing_section option"
  m_dependencies :: "(string, dependency) btree"

datatype dependency_source = SourceOci | SourceGit | SourcePath | SourceHelm

datatype dependency_spec =
  SpecPath string
| SpecOci string string
| SpecGit string "string option" "string option"
| SpecHelm string string string

fun tag_or_rev :: "dependency_spec \<Rightarrow> string option" where
  "tag_or_rev (SpecGit git t r) = (case t of Some x \<Rightarrow> Some x | None \<Rightarrow> r)"
| "tag_or_rev _ = None"

datatype manifest_error =
  ManifestParse string
| ManifestSerialize string
| AmbiguousSource string nat
| OciMissingVersion string
| GitMissingTagOrRev string
| PathHasPin string
| BadEdition string
| BadPackageName string
| GitUrlHasUserInfo string
| HelmMissingChart string
| HelmMissingVersion string
| HelmUrlHasUserInfo string
| HelmChartInvalid string string
| OciUrlHasUserInfo string

fun manifest_error_code :: "manifest_error \<Rightarrow> string" where
  "manifest_error_code (GitUrlHasUserInfo _) = E_MANIFEST_GIT_USERINFO"
| "manifest_error_code (HelmMissingChart _) = E_MANIFEST_HELM_MISSING_CHART"
| "manifest_error_code (HelmMissingVersion _) = E_MANIFEST_HELM_MISSING_VERSION"
| "manifest_error_code (HelmUrlHasUserInfo _) = E_MANIFEST_HELM_USERINFO"
| "manifest_error_code (HelmChartInvalid _ _) = E_MANIFEST_HELM_CHART_INVALID"
| "manifest_error_code (OciUrlHasUserInfo _) = E_MANIFEST_OCI_USERINFO"
| "manifest_error_code _ = E_MANIFEST_PARSE"

datatype manifest_load_error =
  ManifestMissing path
| ManifestIo path io_error
| ManifestBad path manifest_error

text \<open>\<open>show_manifest_error\<close> is the \<open>Display\<close> text of the error, derived by \<open>thiserror\<close>.\<close>

fun manifest_load_to_structured ::
  "(manifest_error \<Rightarrow> string) \<Rightarrow> manifest_load_error \<Rightarrow> structured_error"
where
  "manifest_load_to_structured disp (ManifestMissing p) =
     with_default_docs (with_path (path_str p)
       (structured_new E_MANIFEST_MISSING ''akua.toml not found''))"
| "manifest_load_to_structured disp (ManifestIo p e) =
     with_default_docs (with_path (path_str p) (structured_new E_IO (io_msg e)))"
| "manifest_load_to_structured disp (ManifestBad p e) =
     with_default_docs (with_path (path_str p) (structured_new (manifest_error_code e) (disp e)))"

fun manifest_load_is_system :: "manifest_load_error \<Rightarrow> bool" where
  "manifest_load_is_system (ManifestIo _ _) = True"
| "manifest_load_is_system _ = False"

section \<open>Names\<close>

definition is_path_traversal_chart_name :: "string \<Rightarrow> bool" where
  "is_path_traversal_chart_name chart \<longleftrightarrow>
     CHR ''/'' \<in> set chart \<or> CHR 0x5C \<in> set chart \<or> sublist ''..'' chart"

definition is_valid_package_name :: "string \<Rightarrow> bool" where
  "is_valid_package_name s =
     (case s of
        [] \<Rightarrow> False
      | first # rest \<Rightarrow>
          (if first = CHR ''-'' then False
           else if \<not> (is_ascii_alphanumeric first \<or> first = CHR ''_'') then False
           else list_all (\<lambda>c. is_ascii_alphanumeric c \<or> c = CHR ''_'' \<or> c = CHR ''-'') rest))"

text \<open>
  \<open>chars().map\<close> replaces each character by one underscore, so the continuation bytes of a
  multi-byte character produce nothing of their own.
\<close>

definition kcl_char :: "char \<Rightarrow> string" where
  "kcl_char c =
     (if is_ascii_alphanumeric c \<or> c = CHR ''_'' then [c]
      else if is_continuation c then []
      else ''_'')"

definition kcl_ident :: "string \<Rightarrow> string" where
  "kcl_ident name =
     (let out = concat (map kcl_char name)
      in if out \<noteq> [] \<and> is_ascii_digit (hd out) then CHR ''_'' # out else out)"

section \<open>Validation\<close>

definition source :: "dependency \<Rightarrow> dependency_source option" where
  "source d =
     (case (dep_oci d \<noteq> None, dep_git d \<noteq> None, dep_path d \<noteq> None, dep_repo d \<noteq> None) of
        (True, False, False, False) \<Rightarrow> Some SourceOci
      | (False, True, False, False) \<Rightarrow> Some SourceGit
      | (False, False, True, False) \<Rightarrow> Some SourcePath
      | (False, False, False, True) \<Rightarrow> Some SourceHelm
      | _ \<Rightarrow> None)"

definition source_count :: "dependency \<Rightarrow> nat" where
  "source_count d =
     of_bool (dep_oci d \<noteq> None) + of_bool (dep_git d \<noteq> None)
     + of_bool (dep_path d \<noteq> None) + of_bool (dep_repo d \<noteq> None)"

definition spec :: "dependency \<Rightarrow> ('e, dependency_spec) outcome" where
  "spec d =
     (case (dep_path d, dep_oci d, dep_git d, dep_repo d) of
        (Some declared, None, None, None) \<Rightarrow> Ok (SpecPath declared)
      | (None, Some oci, None, None) \<Rightarrow>
          obind (expect (dep_version d)) (\<lambda>v. Ok (SpecOci oci v))
      | (None, None, Some git, None) \<Rightarrow> Ok (SpecGit git (dep_tag d) (dep_rev d))
      | (None, None, None, Some repo) \<Rightarrow>
          obind (expect (dep_chart d)) (\<lambda>chart.
          obind (expect (dep_version d)) (\<lambda>v. Ok (SpecHelm repo chart v)))
      | _ \<Rightarrow> Panic)"

definition validate_dep :: "string \<Rightarrow> dependency \<Rightarrow> (manifest_error, unit) outcome" where
  "validate_dep name d =
     (case source d of
        None \<Rightarrow> Err (AmbiguousSource name (source_count d))
      | Some SourceOci \<Rightarrow>
          (if dep_version d = None then Err (OciMissingVersion name)
           else obind (expect (dep_oci d)) (\<lambda>url.
             if url_has_userinfo url then Err (OciUrlHasUserInfo name) else Ok ()))
      | Some SourceGit \<Rightarrow>
          (if dep_tag d = None \<and> dep_rev d = None then Err (GitMissingTagOrRev name)
           else obind (expect (dep_git d)) (\<lambda>url.
             if url_has_userinfo url then Err (GitUrlHasUserInfo name) else Ok ()))
      | Some SourcePath \<Rightarrow>
          (if dep_version d \<noteq> None \<or> dep_tag d \<noteq> None \<or> dep_rev d \<noteq> None
           then Err (PathHasPin name) else Ok ())
      | Some SourceHelm \<Rightarrow>
          (if dep_chart d = None then Err (HelmMissingChart name)
           else if dep_version d = None then Err (HelmMissingVersion name)
           else obind (expect (dep_repo d)) (\<lambda>url.
             if url_has_userinfo url then Err (HelmUrlHasUserInfo name)
             else obind (expect (dep_chart d)) (\<lambda>chart.
               if is_path_traversal_chart_name chart then Err (HelmChartInvalid name chart)
               else Ok ()))))"

definition validate_manifest :: "manifest \<Rightarrow> (manifest_error, unit) outcome" where
  "validate_manifest m =
     (if \<not> prefix ''akua.dev/'' (pkg_edition (m_package m))
      then Err (BadEdition (pkg_edition (m_package m)))
      else if \<not> is_valid_package_name (pkg_name (m_package m))
      then Err (BadPackageName (pkg_name (m_package m)))
      else for_each (\<lambda>(name, dep). validate_dep name dep) (m_dependencies m))"

definition parse_manifest ::
  "(string \<Rightarrow> (string, manifest) outcome) \<Rightarrow> string \<Rightarrow> (manifest_error, manifest) outcome"
where
  "parse_manifest from_toml s =
     obind (omap_err ManifestParse (from_toml s)) (\<lambda>m.
     obind (validate_manifest m) (\<lambda>_. Ok m))"

definition load_manifest ::
  "(string \<Rightarrow> (string, manifest) outcome) \<Rightarrow> world \<Rightarrow> path \<Rightarrow> (manifest_load_error, manifest) outcome"
where
  "load_manifest from_toml w workspace =
     (let p = path_join workspace (path_of ''akua.toml'')
      in case read_to_string w p of
           Err e \<Rightarrow> (if io_kind e = NotFound then Err (ManifestMissing p) else Err (ManifestIo p e))
         | Panic \<Rightarrow> Panic
         | Ok content \<Rightarrow> omap_err (ManifestBad p) (parse_manifest from_toml content))"

definition manifest_to_toml ::
  "(manifest \<Rightarrow> (string, string) outcome) \<Rightarrow> manifest \<Rightarrow> (manifest_error, string) outcome"
where
  "manifest_to_toml to_toml m = omap_err ManifestSerialize (to_toml m)"

section \<open>The contract of a dependency\<close>

text \<open>
  What the documentation of the manifest promises about a dependency: exactly one source, with the
  fields that source needs, none it must not have, and no credentials in a URL.
\<close>

definition dep_well_formed :: "dependency \<Rightarrow> bool" where
  "dep_well_formed d \<longleftrightarrow>
     source_count d = 1
     \<and> (\<forall>url \<in> set_option (dep_oci d). dep_version d \<noteq> None \<and> \<not> url_has_userinfo url)
     \<and> (\<forall>url \<in> set_option (dep_git d).
          (dep_tag d \<noteq> None \<or> dep_rev d \<noteq> None) \<and> \<not> url_has_userinfo url)
     \<and> (dep_path d \<noteq> None \<longrightarrow> dep_version d = None \<and> dep_tag d = None \<and> dep_rev d = None)
     \<and> (\<forall>url \<in> set_option (dep_repo d).
          dep_version d \<noteq> None \<and> \<not> url_has_userinfo url
          \<and> (\<exists>chart \<in> set_option (dep_chart d). \<not> is_path_traversal_chart_name chart))"

lemma source_None_iff: "source d = None \<longleftrightarrow> source_count d \<noteq> 1"
  by (auto simp: source_def source_count_def of_bool_def)

lemma source_Some_iff:
  "source d = Some SourceOci \<longleftrightarrow> source_count d = 1 \<and> dep_oci d \<noteq> None"
  "source d = Some SourceGit \<longleftrightarrow> source_count d = 1 \<and> dep_git d \<noteq> None"
  "source d = Some SourcePath \<longleftrightarrow> source_count d = 1 \<and> dep_path d \<noteq> None"
  "source d = Some SourceHelm \<longleftrightarrow> source_count d = 1 \<and> dep_repo d \<noteq> None"
  by (auto simp: source_def source_count_def of_bool_def)

lemma source_count_one_cases:
  assumes "source_count d = 1"
  obtains (oci) u where "dep_oci d = Some u" "dep_git d = None" "dep_path d = None" "dep_repo d = None"
    | (git) u where "dep_oci d = None" "dep_git d = Some u" "dep_path d = None" "dep_repo d = None"
    | (path) u where "dep_oci d = None" "dep_git d = None" "dep_path d = Some u" "dep_repo d = None"
    | (helm) u where "dep_oci d = None" "dep_git d = None" "dep_path d = None" "dep_repo d = Some u"
  using assms
  by (cases "dep_oci d"; cases "dep_git d"; cases "dep_path d"; cases "dep_repo d")
    (simp_all add: source_count_def)

lemma validate_dep_Ok_iff: "validate_dep name d = Ok () \<longleftrightarrow> dep_well_formed d"
proof (cases "source_count d = 1")
  case False
  then have "source d = None" by (simp add: source_None_iff)
  with False show ?thesis by (simp add: validate_dep_def dep_well_formed_def)
next
  case True
  from True show ?thesis
  proof (cases rule: source_count_one_cases)
    case (oci u)
    then have "source d = Some SourceOci" by (simp add: source_def)
    with oci True show ?thesis by (auto simp: validate_dep_def dep_well_formed_def)
  next
    case (git u)
    then have "source d = Some SourceGit" by (simp add: source_def)
    with git True show ?thesis by (auto simp: validate_dep_def dep_well_formed_def)
  next
    case (path u)
    then have "source d = Some SourcePath" by (simp add: source_def)
    with path True show ?thesis by (auto simp: validate_dep_def dep_well_formed_def)
  next
    case (helm u)
    then have "source d = Some SourceHelm" by (simp add: source_def)
    with helm True show ?thesis by (cases "dep_chart d") (auto simp: validate_dep_def dep_well_formed_def)
  qed
qed

lemma validate_dep_no_panic: "validate_dep name d \<noteq> Panic"
proof (cases "source_count d = 1")
  case False
  then have "source d = None" by (simp add: source_None_iff)
  with False show ?thesis by (simp add: validate_dep_def)
next
  case True
  then show ?thesis
    by (cases rule: source_count_one_cases)
      (auto simp: validate_dep_def source_def outcome_simps split: option.splits)
qed

lemma validate_manifest_Ok_iff:
  "validate_manifest m = Ok () \<longleftrightarrow>
     prefix ''akua.dev/'' (pkg_edition (m_package m)) \<and> is_valid_package_name (pkg_name (m_package m))
     \<and> (\<forall>(name, d) \<in> set (m_dependencies m). dep_well_formed d)"
  by (auto simp: validate_manifest_def outcome_simps validate_dep_Ok_iff)

lemma validate_manifest_no_panic: "validate_manifest m \<noteq> Panic"
  using for_each_no_panic [of "m_dependencies m" "\<lambda>(name, dep). validate_dep name dep"]
  by (auto simp: validate_manifest_def validate_dep_no_panic split: prod.splits)

lemma parse_manifest_valid: "parse_manifest from_toml s = Ok m \<Longrightarrow> validate_manifest m = Ok ()"
  by (auto simp: parse_manifest_def outcome_simps)

lemma load_manifest_valid: "load_manifest from_toml w ws = Ok m \<Longrightarrow> validate_manifest m = Ok ()"
  by (auto simp: load_manifest_def Let_def outcome_simps
      split: outcome.splits if_splits dest: parse_manifest_valid)

text \<open>A well-formed dependency projects without a panic, whatever the caller's error type.\<close>

lemma spec_well_formed:
  assumes "dep_well_formed d"
  obtains (path) p where "spec d = Ok (SpecPath p)" "dep_path d = Some p" "dep_oci d = None"
      "dep_git d = None" "dep_repo d = None"
    | (oci) u v where "spec d = Ok (SpecOci u v)" "dep_oci d = Some u" "dep_version d = Some v"
      "\<not> url_has_userinfo u"
    | (git) u where "spec d = Ok (SpecGit u (dep_tag d) (dep_rev d))" "dep_git d = Some u"
      "dep_tag d \<noteq> None \<or> dep_rev d \<noteq> None" "\<not> url_has_userinfo u"
    | (helm) u c v where "spec d = Ok (SpecHelm u c v)" "dep_repo d = Some u" "dep_chart d = Some c"
      "dep_version d = Some v" "\<not> url_has_userinfo u" "\<not> is_path_traversal_chart_name c"
proof -
  note wf = assms [unfolded dep_well_formed_def]
  then have "source_count d = 1" by simp
  then show ?thesis
  proof (cases rule: source_count_one_cases)
    case (oci u)
    with wf obtain v where "dep_version d = Some v" "\<not> url_has_userinfo u" by auto
    with oci show ?thesis by (intro that(2) [of u v]) (simp_all add: spec_def)
  next
    case (git u)
    with wf show ?thesis by (intro that(3) [of u]) (simp_all add: spec_def)
  next
    case (path u)
    with wf show ?thesis by (intro that(1) [of u]) (simp_all add: spec_def)
  next
    case (helm u)
    with wf obtain v c where "dep_version d = Some v" "dep_chart d = Some c"
      "\<not> url_has_userinfo u" "\<not> is_path_traversal_chart_name c" by (auto simp: elem_set)
    with helm show ?thesis by (intro that(4) [of u c v]) (simp_all add: spec_def)
  qed
qed

interpretation manifest_errors: reported_error "manifest_load_to_structured disp"
  manifest_load_is_system "\<lambda>e. if manifest_load_is_system e then SystemError else UserError" for disp
proof unfold_locales
  fix e
  show "docs (manifest_load_to_structured disp e) =
      Some (error_docs_base @ ''/'' @ code (manifest_load_to_structured disp e))"
    by (cases e) (simp_all add: structured_defs)
  show "level (manifest_load_to_structured disp e) = Error"
    by (cases e) (simp_all add: structured_defs)
qed simp_all

section \<open>Names as path components and as KCL identifiers\<close>

lemma path_of_no_slash:
  assumes "CHR ''/'' \<notin> set s"
  shows "path_of s = (if s = ''.'' then [CurDir] else component_of s)"
proof -
  have "split_on CHR ''/'' s = [s]" by (rule split_on_no_sep [OF assms])
  moreover have "\<not> prefix ''/'' s" using assms by (auto simp: prefix_def)
  ultimately show ?thesis by (simp add: path_of_def del: component_of.simps)
qed

lemma chart_name_path:
  assumes "\<not> is_path_traversal_chart_name chart"
  shows "path_of chart \<in> {[], [CurDir], [Normal chart]}"
proof -
  have "CHR ''/'' \<notin> set chart" "chart \<noteq> ''..''"
    using assms by (auto simp: is_path_traversal_chart_name_def)
  then show ?thesis by (simp add: path_of_no_slash)
qed

lemma package_name_chars:
  "is_valid_package_name s \<Longrightarrow>
     c \<in> set s \<Longrightarrow> is_ascii_alphanumeric c \<or> c = CHR ''_'' \<or> c = CHR ''-''"
  by (auto simp: is_valid_package_name_def list_all_iff split: list.splits if_splits)

lemma package_name_path:
  assumes "is_valid_package_name s"
  shows "path_of s = [Normal s]"
proof -
  have "CHR ''/'' \<notin> set s"
    using package_name_chars [OF assms, of "CHR ''/''"]
    by (auto simp: is_ascii_alphanumeric_def is_ascii_alphabetic_def is_ascii_digit_def)
  moreover have "CHR ''.'' \<notin> set s"
    using package_name_chars [OF assms, of "CHR ''.''"]
    by (auto simp: is_ascii_alphanumeric_def is_ascii_alphabetic_def is_ascii_digit_def)
  then have "s \<noteq> ''.''" "s \<noteq> ''..''" by auto
  moreover have "s \<noteq> []" using assms by (auto simp: is_valid_package_name_def)
  ultimately have "s \<noteq> []" "s \<noteq> ''.''" "s \<noteq> ''..''" "CHR ''/'' \<notin> set s" by simp_all
  then show ?thesis by (simp add: path_of_no_slash)
qed

text \<open>A KCL identifier: letters, digits and underscores, not starting with a digit.\<close>

definition is_kcl_identifier :: "string \<Rightarrow> bool" where
  "is_kcl_identifier s \<longleftrightarrow>
     s \<noteq> [] \<and> \<not> is_ascii_digit (hd s)
     \<and> list_all (\<lambda>c. is_ascii_alphanumeric c \<or> c = CHR ''_'') s"

lemma kcl_char_chars: "c \<in> set (kcl_char d) \<Longrightarrow> is_ascii_alphanumeric c \<or> c = CHR ''_''"
  by (auto simp: kcl_char_def split: if_splits)

lemma kcl_char_id: "is_ascii_alphanumeric c \<or> c = CHR ''_'' \<Longrightarrow> kcl_char c = [c]"
  by (auto simp: kcl_char_def)

lemma concat_kcl_char_id:
  "list_all (\<lambda>c. is_ascii_alphanumeric c \<or> c = CHR ''_'') s \<Longrightarrow> concat (map kcl_char s) = s"
  by (induction s) (auto simp: kcl_char_id)

lemma kcl_ident_identifier: "kcl_ident name = [] \<or> is_kcl_identifier (kcl_ident name)"
proof -
  have "list_all (\<lambda>c. is_ascii_alphanumeric c \<or> c = CHR ''_'') (concat (map kcl_char name))"
    by (auto simp: list_all_iff dest: kcl_char_chars)
  then show ?thesis by (auto simp: kcl_ident_def Let_def is_kcl_identifier_def is_ascii_digit_def)
qed

lemma kcl_ident_id: "is_kcl_identifier s \<Longrightarrow> kcl_ident s = s"
  by (simp add: kcl_ident_def is_kcl_identifier_def concat_kcl_char_id)

section \<open>Properties\<close>

text \<open>
  C22. \<open>validate\<close> accepts exactly the manifests with an \<open>akua.dev/\<close> edition, a legal package name, and
  dependencies that each have exactly one source with the fields it needs and no credentials in its URL. It
  never panics. That is less than the format document asks for: the version of the package is never looked
  at, so it need not be semver, and a legal name need not be a KCL identifier.
\<close>

theorem validate_manifest_correct:
  "(validate_manifest m = Ok () \<longleftrightarrow>
      prefix ''akua.dev/'' (pkg_edition (m_package m)) \<and> is_valid_package_name (pkg_name (m_package m))
      \<and> list_all (\<lambda>(name, d). dep_well_formed d) (m_dependencies m))
   \<and> validate_manifest m \<noteq> Panic
   \<and> (\<forall>v. validate_manifest (m\<lparr>m_package := (m_package m)\<lparr>pkg_version := v\<rparr>\<rparr>) = validate_manifest m)
   \<and> is_valid_package_name ''01-hello-webapp'' \<and> \<not> is_kcl_identifier ''01-hello-webapp''"
proof (intro conjI allI)
  show "validate_manifest m = Ok () \<longleftrightarrow>
      prefix ''akua.dev/'' (pkg_edition (m_package m)) \<and> is_valid_package_name (pkg_name (m_package m))
      \<and> list_all (\<lambda>(name, d). dep_well_formed d) (m_dependencies m)"
    using validate_manifest_Ok_iff [of m] by (simp add: list_all_iff)
  show "validate_manifest (m\<lparr>m_package := (m_package m)\<lparr>pkg_version := v\<rparr>\<rparr>) = validate_manifest m" for v
    by (simp add: validate_manifest_def)
  show "is_valid_package_name ''01-hello-webapp''" "\<not> is_kcl_identifier ''01-hello-webapp''" by code_simp+
qed (rule validate_manifest_no_panic)

text \<open>
  After a successful load the typed projection \<open>spec\<close> never panics, and it carries what
  validation promised: an OCI or Helm source with its version, a git source with a tag or a revision.
\<close>

theorem load_manifest_spec_total:
  assumes "load_manifest from_toml w ws = Ok m" "(name, d) \<in> set (m_dependencies m)"
  shows "\<exists>s. (spec d :: (manifest_error, dependency_spec) outcome) = Ok s
    \<and> (source d = Some SourcePath \<longleftrightarrow> (\<exists>p. s = SpecPath p))
    \<and> (source d = Some SourceOci \<longleftrightarrow> (\<exists>u v. s = SpecOci u v))
    \<and> (source d = Some SourceHelm \<longleftrightarrow> (\<exists>u c v. s = SpecHelm u c v))
    \<and> (source d = Some SourceGit \<longleftrightarrow> (\<exists>u t r. s = SpecGit u t r))
    \<and> (source d = Some SourceGit \<longleftrightarrow> tag_or_rev s \<noteq> None)"
proof -
  have wf: "dep_well_formed d"
    using load_manifest_valid [OF assms(1)] assms(2) by (auto simp: validate_manifest_Ok_iff)
  then have one: "source_count d = 1" by (simp add: dep_well_formed_def)
  from wf show ?thesis
    by (cases rule: spec_well_formed [where 'a = manifest_error])
      (use one in \<open>auto simp: source_Some_iff source_count_def split: option.splits\<close>)
qed

text \<open>A manifest with one OCI dependency.\<close>

definition nginx_dep :: dependency where
  "nginx_dep =
     \<lparr>dep_oci = Some ''oci://r/nginx'', dep_git = None, dep_path = None, dep_repo = None,
      dep_chart = None, dep_version = Some ''18.2.0'', dep_tag = None, dep_rev = None,
      dep_replace = None\<rparr>"

definition blog_manifest :: manifest where
  "blog_manifest =
     \<lparr>m_package = \<lparr>pkg_name = ''blog'', pkg_version = ''0.1.0'', pkg_edition = ''akua.dev/v1alpha1'',
        strict_signing = True\<rparr>,
      m_workspace = None, m_signing = None, m_dependencies = [(''nginx'', nginx_dep)]\<rparr>"

lemma load_blog: "load_manifest (\<lambda>_. Ok blog_manifest) (text_world s) ws = Ok blog_manifest"
proof -
  have "validate_manifest blog_manifest = Ok ()" by code_simp
  then show ?thesis by (simp add: load_manifest_def parse_manifest_def text_world_def)
qed

theorem load_manifest_spec_total_witness:
  "\<exists>s. (spec nginx_dep :: (manifest_error, dependency_spec) outcome) = Ok s"
  using load_manifest_spec_total [OF load_blog, of "''nginx''" nginx_dep]
  by (auto simp: blog_manifest_def)

text \<open>
  Errors are reported deterministically: of several offending dependencies it is always the
  alphabetically first whose error is returned; everything before it is well-formed.
\<close>

theorem validate_manifest_first_error:
  assumes "bt_inv (m_dependencies m)"
    and "prefix ''akua.dev/'' (pkg_edition (m_package m))" "is_valid_package_name (pkg_name (m_package m))"
  shows "validate_manifest m = Err e \<longleftrightarrow>
    (\<exists>name d. bt_get (m_dependencies m) name = Some d \<and> validate_dep name d = Err e
      \<and> (\<forall>name' d'. bt_get (m_dependencies m) name' = Some d' \<and> name' < name \<longrightarrow> dep_well_formed d'))"
    (is "_ \<longleftrightarrow> ?R")
proof -
  let ?ds = "m_dependencies m"
  let ?f = "\<lambda>(name, dep). validate_dep name dep"
  have eq: "validate_manifest m = for_each ?f ?ds" using assms by (simp add: validate_manifest_def)
  have get: "bt_get ?ds k = Some v \<longleftrightarrow> (k, v) \<in> set ?ds" for k v
    by (rule bt_get_Some_iff [OF assms(1)])
  have sorted: "sorted_wrt (<) (map fst ?ds)" using assms(1) by (simp add: bt_inv_def)
  show ?thesis
  proof
    assume "validate_manifest m = Err e"
    then obtain ys p zs where p: "?ds = ys @ p # zs" "\<forall>y \<in> set ys. ?f y = Ok ()" "?f p = Err e"
      unfolding eq for_each_Err_iff by blast
    obtain name d where nd: "p = (name, d)" by (cases p)
    have "dep_well_formed d'" if "(name', d') \<in> set ?ds" "name' < name" for name' d'
    proof -
      have "(name', d') \<notin> set zs" "name' \<noteq> name"
        using sorted that(2) unfolding p(1) nd by (auto simp: sorted_wrt_append)
      then have "(name', d') \<in> set ys" using that(1) unfolding p(1) nd by auto
      then show ?thesis using p(2) validate_dep_Ok_iff by fastforce
    qed
    with p nd show ?R unfolding get by (intro exI [of _ name] exI [of _ d]) auto
  next
    assume ?R
    then obtain name d where nd: "(name, d) \<in> set ?ds" "validate_dep name d = Err e"
      "\<And>name' d'. (name', d') \<in> set ?ds \<Longrightarrow> name' < name \<Longrightarrow> dep_well_formed d'"
      unfolding get by blast
    then obtain ys zs where ds: "?ds = ys @ (name, d) # zs" by (meson split_list)
    have "?f y = Ok ()" if "y \<in> set ys" for y
    proof -
      obtain name' d' where y: "y = (name', d')" by (cases y)
      have "name' < name" using sorted that unfolding ds y by (auto simp: sorted_wrt_append)
      then have "dep_well_formed d'" using nd(3) that unfolding ds y by auto
      then show ?thesis using y validate_dep_Ok_iff by simp
    qed
    moreover have "?f (name, d) = Err e" using nd(2) by simp
    ultimately show "validate_manifest m = Err e"
      unfolding eq for_each_Err_iff using ds by blast
  qed
qed

theorem validate_manifest_first_error_witness:
  "validate_manifest (blog_manifest\<lparr>m_dependencies :=
      [(''a'', nginx_dep\<lparr>dep_version := None\<rparr>), (''b'', nginx_dep\<lparr>dep_oci := None\<rparr>)]\<rparr>)
   = Err (OciMissingVersion ''a'')"
proof -
  let ?a = "nginx_dep\<lparr>dep_version := None\<rparr>"
  let ?m = "blog_manifest\<lparr>m_dependencies := [(''a'', ?a), (''b'', nginx_dep\<lparr>dep_oci := None\<rparr>)]\<rparr>"
  have h: "bt_inv (m_dependencies ?m)" "prefix ''akua.dev/'' (pkg_edition (m_package ?m))"
    "is_valid_package_name (pkg_name (m_package ?m))" by code_simp+
  have a: "validate_dep ''a'' ?a = Err (OciMissingVersion ''a'')" by code_simp
  have lt: "\<not> ''b'' < ''a''" "\<not> ''a'' < (''a''::string)" by code_simp+
  show ?thesis
    unfolding validate_manifest_first_error [OF h]
    using a lt by (intro exI [of _ "''a''"] exI [of _ ?a])
      (auto simp: bt_get_def blog_manifest_def split: if_splits)
qed

text \<open>
  What names can do to paths: a validated package name is one plain path component, and the
  chart name of a validated Helm dependency never leaves the directory it is joined to, in
  particular it is never \<open>..\<close> and never absolute.
\<close>

theorem validated_names_stay_inside:
  assumes "validate_manifest m = Ok ()"
  shows "path_of (pkg_name (m_package m)) = [Normal (pkg_name (m_package m))]
    \<and> (\<forall>(name, d) \<in> set (m_dependencies m). \<forall>chart.
         source d = Some SourceHelm \<and> dep_chart d = Some chart \<longrightarrow>
           ParentDir \<notin> set (path_of chart) \<and> \<not> is_absolute (path_of chart)
           \<and> (base \<noteq> [] \<longrightarrow> prefix base (path_join base (path_of chart))))"
proof -
  have "ParentDir \<notin> set (path_of chart) \<and> \<not> is_absolute (path_of chart)
      \<and> (base \<noteq> [] \<longrightarrow> prefix base (path_join base (path_of chart)))"
    if "(name, d) \<in> set (m_dependencies m)" "source d = Some SourceHelm" "dep_chart d = Some chart"
    for name d chart
  proof -
    have "dep_well_formed d" using assms that(1) by (auto simp: validate_manifest_Ok_iff)
    then have "\<not> is_path_traversal_chart_name chart"
      using that(2,3) by (auto simp: source_Some_iff dep_well_formed_def)
    then show ?thesis
      using chart_name_path [of chart] path_join_relative_prefix [of "path_of chart" base]
      by (auto simp: is_absolute_def)
  qed
  then show ?thesis
    using assms by (auto simp: validate_manifest_Ok_iff package_name_path)
qed

theorem validated_names_stay_inside_witness:
  "path_of (pkg_name (m_package blog_manifest)) = [Normal ''blog'']"
proof -
  have "validate_manifest blog_manifest = Ok ()" by code_simp
  from validated_names_stay_inside [OF this] show ?thesis by (simp add: blog_manifest_def)
qed

text \<open>
  \<open>kcl_ident\<close> turns every non-empty package name into a KCL identifier, leaves identifiers alone
  and is idempotent; but it is not injective, so two dependency keys can claim one KCL module.
\<close>

theorem kcl_ident_correct:
  "(is_valid_package_name name \<longrightarrow> is_kcl_identifier (kcl_ident name))
   \<and> (is_kcl_identifier name \<longrightarrow> kcl_ident name = name)
   \<and> kcl_ident (kcl_ident name) = kcl_ident name
   \<and> kcl_ident ''a-b'' = kcl_ident ''a_b''"
proof (intro conjI impI)
  show "is_kcl_identifier (kcl_ident name)" if name: "is_valid_package_name name"
  proof -
    have "kcl_char c \<noteq> []" if "c \<in> set name" for c
      using package_name_chars [OF name that]
      by (auto simp: kcl_char_def is_continuation_def is_ascii_alphanumeric_def is_ascii_alphabetic_def
          is_ascii_digit_def)
    moreover have "name \<noteq> []" using name by (auto simp: is_valid_package_name_def)
    ultimately have "concat (map kcl_char name) \<noteq> []" by (cases name) auto
    then have "kcl_ident name \<noteq> []" by (auto simp: kcl_ident_def Let_def)
    then show ?thesis using kcl_ident_identifier by blast
  qed
  show "is_kcl_identifier name \<Longrightarrow> kcl_ident name = name" by (rule kcl_ident_id)
  show "kcl_ident (kcl_ident name) = kcl_ident name"
    using kcl_ident_identifier [of name] kcl_ident_id by (auto simp: kcl_ident_def)
  show "kcl_ident ''a-b'' = kcl_ident ''a_b''" by code_simp
qed

theorem kcl_ident_correct_witness: "is_kcl_identifier (kcl_ident ''01-foo'') \<and> kcl_ident ''01-foo'' = ''_01_foo''"
proof -
  have "is_valid_package_name ''01-foo''" "kcl_ident ''01-foo'' = ''_01_foo''" by code_simp+
  with kcl_ident_correct [of "''01-foo''"] show ?thesis by simp
qed

end
