(* ===== verification/Lockfile.thy ===== *)
theory Lockfile
  imports Contract "HOL-Library.Multiset"
begin

text \<open>
  \<open>lock_file.rs\<close>: the lockfile \<open>akua.lock\<close>, one entry per resolved artifact. \<open>validate\<close> checks the
  format version, the order and the digests; \<open>sort\<close> is the canonical order; \<open>upsert\<close> replaces or adds
  an entry. Reading the entries through \<open>lock_get\<close> gives the abstract view, a partial map from
  \<open>(name, version)\<close>; the locale \<open>keyed_store\<close> is the contract the resolver relies on. \<open>from_toml\<close> and
  \<open>to_toml\<close> stand for the \<open>toml\<close> crate.
\<close>

section \<open>The data\<close>

record replaced =
  replaced_path :: string

record locked_package =
  lp_name :: string
  lp_version :: string
  lp_source :: string
  lp_digest :: string
  lp_vendor_digest :: "string option"
  lp_signature :: "string option"
  lp_dependencies :: "string list"
  lp_attestation :: "string option"
  lp_replaced :: "replaced option"
  lp_yanked :: "bool option"
  lp_kyverno_source_digest :: "string option"
  lp_converter_version :: "string option"

record akua_lock =
  lock_version :: nat
  packages :: "locked_package list"

definition CURRENT_VERSION :: nat where "CURRENT_VERSION = 1"
definition SHA256_DIGEST_PREFIX :: string where "SHA256_DIGEST_PREFIX = ''sha256:''"
definition GIT_DIGEST_PREFIX :: string where "GIT_DIGEST_PREFIX = ''git:''"
definition VENDORED_LOCK_FALLBACK :: string where "VENDORED_LOCK_FALLBACK = ''vendored''"

definition lp_is_path :: "locked_package \<Rightarrow> bool" where
  "lp_is_path p \<longleftrightarrow> prefix ''path+file://'' (lp_source p)"

definition lp_is_oci :: "locked_package \<Rightarrow> bool" where
  "lp_is_oci p \<longleftrightarrow> prefix ''oci://'' (lp_source p)"

datatype lock_error =
  LockParse string
| LockSerialize string
| VersionMismatch nat nat
| UnsortedPackages string string
| DuplicatePackage string
| BadDigest string

datatype lock_load_error =
  LockMissing path
| LockIo path io_error
| LockBad path lock_error

fun lock_load_to_structured :: "(lock_error \<Rightarrow> string) \<Rightarrow> lock_load_error \<Rightarrow> structured_error" where
  "lock_load_to_structured disp (LockMissing p) =
     with_default_docs (with_path (path_str p)
       (structured_new E_LOCK_MISSING ''akua.lock not found''))"
| "lock_load_to_structured disp (LockIo p e) =
     with_default_docs (with_path (path_str p) (structured_new E_IO (io_msg e)))"
| "lock_load_to_structured disp (LockBad p e) =
     with_default_docs (with_path (path_str p) (structured_new E_LOCK_PARSE (disp e)))"

fun lock_load_is_system :: "lock_load_error \<Rightarrow> bool" where
  "lock_load_is_system (LockIo _ _) = True"
| "lock_load_is_system _ = False"

interpretation lock_errors: reported_error "lock_load_to_structured disp" lock_load_is_system
  "\<lambda>e. if lock_load_is_system e then SystemError else UserError" for disp
proof unfold_locales
  fix e
  show "docs (lock_load_to_structured disp e) =
      Some (error_docs_base @ ''/'' @ code (lock_load_to_structured disp e))"
    by (cases e) (simp_all add: structured_defs)
  show "level (lock_load_to_structured disp e) = Error"
    by (cases e) (simp_all add: structured_defs)
qed simp_all

section \<open>Operations\<close>

fun check_windows :: "locked_package list \<Rightarrow> (lock_error, unit) outcome" where
  "check_windows (a # b # rest) =
     (if lp_name b < lp_name a then Err (UnsortedPackages (lp_name b) (lp_name a))
      else if lp_name a = lp_name b \<and> lp_version a = lp_version b then Err (DuplicatePackage (lp_name a))
      else check_windows (b # rest))"
| "check_windows _ = Ok ()"

definition digest_ok :: "locked_package \<Rightarrow> bool" where
  "digest_ok p \<longleftrightarrow> prefix SHA256_DIGEST_PREFIX (lp_digest p) \<or> prefix GIT_DIGEST_PREFIX (lp_digest p)"

definition validate_lock :: "akua_lock \<Rightarrow> (lock_error, unit) outcome" where
  "validate_lock l =
     (if lock_version l \<noteq> CURRENT_VERSION then Err (VersionMismatch (lock_version l) CURRENT_VERSION)
      else obind (check_windows (packages l)) (\<lambda>_.
        for_each (\<lambda>p. if \<not> digest_ok p then Err (BadDigest (lp_name p)) else Ok ()) (packages l)))"

definition lp_key :: "locked_package \<Rightarrow> string \<times> string" where
  "lp_key p = (lp_name p, lp_version p)"

definition sort_lock :: "akua_lock \<Rightarrow> akua_lock" where
  "sort_lock l = l\<lparr>packages := sort_key lp_key (packages l)\<rparr>"

definition empty_lock :: akua_lock where
  "empty_lock = \<lparr>lock_version = CURRENT_VERSION, packages = []\<rparr>"

definition find_locked :: "akua_lock \<Rightarrow> string \<Rightarrow> locked_package option" where
  "find_locked l name = find (\<lambda>p. lp_name p = name) (packages l)"

fun position :: "('a \<Rightarrow> bool) \<Rightarrow> 'a list \<Rightarrow> nat option" where
  "position P [] = None"
| "position P (x # xs) = (if P x then Some 0 else map_option Suc (position P xs))"

definition find_slot :: "akua_lock \<Rightarrow> string \<Rightarrow> string \<Rightarrow> nat option" where
  "find_slot l name version = position (\<lambda>p. lp_name p = name \<and> lp_version p = version) (packages l)"

text \<open>An index out of range panics.\<close>

definition upsert_at :: "nat option \<Rightarrow> locked_package \<Rightarrow> akua_lock \<Rightarrow> ('e, akua_lock) outcome" where
  "upsert_at slot e l =
     (case slot of
        Some i \<Rightarrow>
          (if i < length (packages l) then Ok (l\<lparr>packages := (packages l)[i := e]\<rparr>) else Panic)
      | None \<Rightarrow> Ok (l\<lparr>packages := packages l @ [e]\<rparr>))"

definition upsert :: "locked_package \<Rightarrow> akua_lock \<Rightarrow> ('e, akua_lock) outcome" where
  "upsert e l = upsert_at (find_slot l (lp_name e) (lp_version e)) e l"

definition parse_lock ::
  "(string \<Rightarrow> (string, akua_lock) outcome) \<Rightarrow> string \<Rightarrow> (lock_error, akua_lock) outcome"
where
  "parse_lock from_toml s =
     obind (omap_err LockParse (from_toml s)) (\<lambda>l. obind (validate_lock l) (\<lambda>_. Ok l))"

definition lock_path :: "path \<Rightarrow> path" where
  "lock_path workspace = path_join workspace (path_of ''akua.lock'')"

definition load_lock ::
  "(string \<Rightarrow> (string, akua_lock) outcome) \<Rightarrow> world \<Rightarrow> path \<Rightarrow> (lock_load_error, akua_lock) outcome"
where
  "load_lock from_toml w workspace =
     (case read_to_string w (lock_path workspace) of
        Err e \<Rightarrow>
          (if io_kind e = NotFound then Err (LockMissing (lock_path workspace))
           else Err (LockIo (lock_path workspace) e))
      | Panic \<Rightarrow> Panic
      | Ok content \<Rightarrow> omap_err (LockBad (lock_path workspace)) (parse_lock from_toml content))"

text \<open>The em dash of the header line is three bytes of UTF-8.\<close>

definition lock_header :: string where
  "lock_header =
     ''# akua.lock '' @ [CHR 0xE2, CHR 0x80, CHR 0x94] @ '' machine-maintained. Never hand-edit.\<newline>''
     @ ''# Regenerated by `akua add`, `akua pull`, `akua publish`, `akua update`.\<newline>\<newline>''"

definition save_lock ::
  "(akua_lock \<Rightarrow> (string, string) outcome) \<Rightarrow> akua_lock \<Rightarrow> path \<Rightarrow> world
     \<Rightarrow> (lock_load_error, world) outcome"
where
  "save_lock to_toml l workspace w =
     (let lock = sort_lock l
      in obind (omap_err (\<lambda>e. LockBad (lock_path workspace) (LockSerialize e)) (to_toml lock)) (\<lambda>body.
         omap_err (LockIo (lock_path workspace)) (fs_write (lock_path workspace) (lock_header @ body) w)))"

section \<open>The abstract view\<close>

definition lock_get :: "akua_lock \<Rightarrow> string \<times> string \<Rightarrow> locked_package option" where
  "lock_get l k = find (\<lambda>p. lp_key p = k) (packages l)"

definition lock_distinct :: "akua_lock \<Rightarrow> bool" where
  "lock_distinct l \<longleftrightarrow> distinct (map lp_key (packages l))"

text \<open>
  The contract of a store with keyed entries: what a lookup returns after an \<open>upsert\<close>, and that the
  canonical form answers every lookup as before.
\<close>

locale keyed_store =
  fixes get :: "'s \<Rightarrow> 'k \<Rightarrow> 'e option"
    and ups :: "'e \<Rightarrow> 's \<Rightarrow> 's"
    and canon :: "'s \<Rightarrow> 's"
    and key :: "'e \<Rightarrow> 'k"
    and inv :: "'s \<Rightarrow> bool"
  assumes get_ups: "get (ups e s) = (get s)(key e \<mapsto> e)"
    and inv_ups: "inv s \<Longrightarrow> inv (ups e s)"
    and get_canon: "get (canon s) = get s"
    and inv_canon: "inv s \<Longrightarrow> inv (canon s)"
    and key_get: "get s k = Some e \<Longrightarrow> key e = k"
begin

lemma get_ups_all: "get (fold ups es s) k = (if k \<in> key ` set es then find (\<lambda>e. key e = k) (rev es) else get s k)"
proof (induction es rule: rev_induct)
  case Nil
  then show ?case by simp
next
  case (snoc e es)
  have "find (\<lambda>e. key e = k) (rev es) = None" if "k \<notin> key ` set es"
    using that by (auto simp: find_None_iff)
  with snoc show ?case by (auto simp: get_ups)
qed

lemma inv_ups_all: "inv s \<Longrightarrow> inv (fold ups es s)"
  by (induction es arbitrary: s) (auto simp: inv_ups)

lemma get_ups_all_distinct:
  assumes "distinct (map key es)" "e \<in> set es"
  shows "get (canon (fold ups es s)) (key e) = Some e"
proof -
  have "find (\<lambda>x. key x = key e) (rev es) = Some e"
  proof -
    from assms(2) obtain x where x: "find (\<lambda>x. key x = key e) (rev es) = Some x"
      using find_Some_ex [of e "rev es" "\<lambda>x. key x = key e"] by auto
    then have "key x = key e" "x \<in> set es" by (auto dest: find_SomeD)
    then have "x = e" using assms by (metis distinct_map inj_onD)
    with x show ?thesis by simp
  qed
  then show ?thesis using assms(2) by (auto simp: get_canon get_ups_all)
qed

lemma get_ups_all_other:
  "k \<notin> key ` set es \<Longrightarrow> get (canon (fold ups es s)) k = get s k"
  by (simp add: get_canon get_ups_all)

lemma ups_all_idem:
  assumes "distinct (map key es)"
  shows "get (fold ups es (fold ups es s)) = get (fold ups es s)"
  by (rule ext) (simp add: get_ups_all)

end

lemma position_Some:
  "position P xs = Some i \<Longrightarrow> i < length xs \<and> P (xs ! i) \<and> (\<forall>j < i. \<not> P (xs ! j))"
  by (induction xs arbitrary: i) (auto split: if_splits simp: less_Suc_eq_0_disj)

lemma position_None_iff: "position P xs = None \<longleftrightarrow> (\<forall>x \<in> set xs. \<not> P x)"
  by (induction xs) auto

lemma find_position: "find P xs = map_option (\<lambda>i. xs ! i) (position P xs)"
  by (induction xs) (auto simp: option.map_comp comp_def)

lemma lp_key_slot: "find_slot l (lp_name e) (lp_version e) = position (\<lambda>p. lp_key p = lp_key e) (packages l)"
  by (simp add: find_slot_def lp_key_def)

text \<open>\<open>upsert\<close> never panics: it is the update below.\<close>

definition upserted :: "locked_package \<Rightarrow> akua_lock \<Rightarrow> akua_lock" where
  "upserted e l =
     (case position (\<lambda>p. lp_key p = lp_key e) (packages l) of
        Some i \<Rightarrow> l\<lparr>packages := (packages l)[i := e]\<rparr>
      | None \<Rightarrow> l\<lparr>packages := packages l @ [e]\<rparr>)"

lemma upsert_Ok: "upsert e l = Ok (upserted e l)"
  by (auto simp: upsert_def upsert_at_def lp_key_slot upserted_def split: option.splits dest: position_Some)

lemma find_update:
  "position (\<lambda>x. f x = f e) xs = Some i \<Longrightarrow>
     find (\<lambda>x. f x = k) (xs[i := e]) = (if k = f e then Some e else find (\<lambda>x. f x = k) xs)"
proof (induction xs arbitrary: i)
  case (Cons a xs)
  then show ?case by (cases "f a = f e"; cases i) auto
qed simp

lemma lock_get_upserted: "lock_get (upserted e l) = (lock_get l)(lp_key e \<mapsto> e)"
proof
  fix k
  let ?P = "\<lambda>p. lp_key p = lp_key e"
  show "lock_get (upserted e l) k = ((lock_get l)(lp_key e \<mapsto> e)) k"
  proof (cases "position ?P (packages l)")
    case None
    then have "\<forall>p \<in> set (packages l). lp_key p \<noteq> lp_key e" by (simp add: position_None_iff)
    then have "find (\<lambda>p. lp_key p = lp_key e) (packages l) = None" by (simp add: find_None_iff)
    then show ?thesis
      using None by (auto simp: upserted_def lock_get_def find_append split: option.splits)
  next
    case (Some i)
    then show ?thesis by (simp add: upserted_def lock_get_def find_update)
  qed
qed

lemma find_sort_key: "find (\<lambda>x. f x = k) (sort_key f xs) = find (\<lambda>x. f x = k) xs"
proof -
  have "find P ys = (case filter P ys of [] \<Rightarrow> None | y # _ \<Rightarrow> Some y)" for P and ys :: "'a list"
    by (induction ys) auto
  then show ?thesis by (simp add: sort_key_stable)
qed

lemma lock_get_sort [simp]: "lock_get (sort_lock l) = lock_get l"
  by (simp add: lock_get_def sort_lock_def find_sort_key fun_eq_iff)

lemma lock_distinct_sort [simp]: "lock_distinct (sort_lock l) \<longleftrightarrow> lock_distinct l"
proof -
  have "mset (map lp_key (sort_key lp_key (packages l))) = mset (map lp_key (packages l))" by simp
  then show ?thesis
    unfolding lock_distinct_def sort_lock_def using mset_eq_imp_distinct_iff by fastforce
qed

lemma lock_distinct_upserted: "lock_distinct l \<Longrightarrow> lock_distinct (upserted e l)"
proof (cases "position (\<lambda>p. lp_key p = lp_key e) (packages l)")
  case None
  assume "lock_distinct l"
  moreover have "lp_key e \<notin> lp_key ` set (packages l)"
    using None by (auto simp: position_None_iff image_iff)
  ultimately show ?thesis using None by (simp add: lock_distinct_def upserted_def)
next
  case (Some i)
  assume d: "lock_distinct l"
  from position_Some [OF Some] have i: "i < length (packages l)" "lp_key (packages l ! i) = lp_key e" by auto
  then have "map lp_key ((packages l)[i := e]) = map lp_key (packages l)"
    by (simp add: map_update) (metis list_update_id nth_map)
  with d Some show ?thesis by (simp add: lock_distinct_def upserted_def)
qed

interpretation lock_store: keyed_store lock_get upserted sort_lock lp_key lock_distinct
  by unfold_locales
    (auto simp: lock_get_upserted lock_distinct_upserted lock_get_def dest: find_SomeD)

lemma lock_version_upserted [simp]: "lock_version (upserted e l) = lock_version l"
  by (simp add: upserted_def split: option.splits)

lemma set_upserted: "set (packages (upserted e l)) \<subseteq> insert e (set (packages l))"
  using set_update_subset_insert by (fastforce simp: upserted_def split: option.splits)

lemma check_windows_Ok_iff:
  "check_windows xs = Ok () \<longleftrightarrow> sorted (map lp_name xs) \<and> distinct_adj (map lp_key xs)"
proof (induction xs rule: check_windows.induct)
  case (1 a b rest)
  have "sorted (map lp_name (a # b # rest)) \<longleftrightarrow> lp_name a \<le> lp_name b \<and> sorted (map lp_name (b # rest))"
    by auto
  with "1.IH" show ?case by (auto simp: lp_key_def not_less)
qed simp_all

lemma validate_lock_Ok_iff:
  "validate_lock l = Ok () \<longleftrightarrow>
     lock_version l = CURRENT_VERSION \<and> sorted (map lp_name (packages l))
     \<and> distinct_adj (map lp_key (packages l)) \<and> (\<forall>p \<in> set (packages l). digest_ok p)"
  by (auto simp: validate_lock_def outcome_simps check_windows_Ok_iff split: if_splits)

lemma check_windows_no_panic: "check_windows xs \<noteq> Panic"
  by (induction xs rule: check_windows.induct) auto

lemma validate_lock_no_panic: "validate_lock l \<noteq> Panic"
  by (auto simp: validate_lock_def outcome_simps check_windows_no_panic
      intro: for_each_no_panic [THEN notE, rotated] split: if_splits)

lemma sorted_key_names: "sorted (map lp_key xs) \<Longrightarrow> sorted (map lp_name xs)"
  by (induction xs) (auto simp: lp_key_def)

lemma sorted_distinct_adj:
  fixes ks :: "'a::linorder list"
  assumes "sorted ks"
  shows "distinct_adj ks \<longleftrightarrow> distinct ks"
  using assms
proof (induction ks rule: induct_list012)
  case (3 x y zs)
  then have xy: "x \<le> y" "sorted (y # zs)" by auto
  then have "x \<notin> set (y # zs)" if "x \<noteq> y" using that by (auto dest: antisym)
  moreover have "distinct_adj (y # zs) \<longleftrightarrow> distinct (y # zs)" by (rule 3(2) [OF xy(2)])
  ultimately show ?case by auto
qed auto

lemma validate_sorted_iff:
  "validate_lock (sort_lock l) = Ok () \<longleftrightarrow>
     lock_version l = CURRENT_VERSION \<and> lock_distinct l \<and> (\<forall>p \<in> set (packages l). digest_ok p)"
proof -
  let ?ps = "packages (sort_lock l)"
  have s: "sorted (map lp_key ?ps)" by (simp add: sort_lock_def)
  then have "distinct_adj (map lp_key ?ps) \<longleftrightarrow> lock_distinct (sort_lock l)"
    by (simp add: sorted_distinct_adj lock_distinct_def)
  moreover have "set ?ps = set (packages l)" by (simp add: sort_lock_def)
  moreover have "lock_version (sort_lock l) = lock_version l" by (simp add: sort_lock_def)
  ultimately show ?thesis
    by (simp add: validate_lock_Ok_iff sorted_key_names [OF s])
qed

lemma sort_lock_canonical:
  assumes "lock_version l = lock_version l'" "mset (packages l) = mset (packages l')" "lock_distinct l"
  shows "sort_lock l = sort_lock l'"
proof -
  have d': "lock_distinct l'"
    using assms(2,3) unfolding lock_distinct_def
    by (metis mset_eq_imp_distinct_iff mset_map)
  have set: "set (packages l) = set (packages l')" using assms(2) by (rule mset_eq_setD)
  have "sort_key lp_key (packages l) = sort_key lp_key (packages l')"
  proof (rule map_sorted_distinct_set_unique [where f = lp_key])
    show "inj_on lp_key (set (sort_key lp_key (packages l)) \<union> set (sort_key lp_key (packages l')))"
      using assms(3) set by (simp add: lock_distinct_def distinct_map)
    show "distinct (map lp_key (sort_key lp_key (packages l)))"
      "distinct (map lp_key (sort_key lp_key (packages l')))"
      using assms(3) d' lock_distinct_sort [of l] lock_distinct_sort [of l']
      by (simp_all add: lock_distinct_def sort_lock_def)
  qed (simp_all add: set)
  with assms(1) show ?thesis by (simp add: sort_lock_def)
qed

section \<open>Properties\<close>

text \<open>
  C23. \<open>validate\<close> accepts exactly the locks at the current format version whose entries are ordered
  by name, whose neighbours differ in name or version, and whose digests all carry a known scheme.
\<close>

theorem validate_lock_correct:
  "(validate_lock l = Ok () \<longleftrightarrow>
      lock_version l = 1 \<and> sorted (map lp_name (packages l)) \<and> distinct_adj (map lp_key (packages l))
      \<and> list_all (\<lambda>p. prefix ''sha256:'' (lp_digest p) \<or> prefix ''git:'' (lp_digest p)) (packages l))
   \<and> validate_lock l \<noteq> Panic"
  using validate_lock_Ok_iff [of l] validate_lock_no_panic [of l]
  by (simp add: list_all_iff digest_ok_def CURRENT_VERSION_def SHA256_DIGEST_PREFIX_def GIT_DIGEST_PREFIX_def)

text \<open>
  Once sorted, \<open>validate\<close> catches every duplicate: the canonical form of a lock is accepted
  exactly when no \<open>(name, version)\<close> occurs twice, and sorting changes neither the entries nor the
  answer to any lookup.
\<close>

theorem sort_lock_validates:
  "(validate_lock (sort_lock l) = Ok () \<longleftrightarrow>
      lock_version l = CURRENT_VERSION \<and> distinct (map lp_key (packages l))
      \<and> list_all digest_ok (packages l))
   \<and> mset (packages (sort_lock l)) = mset (packages l)
   \<and> (lock_get (sort_lock l) = lock_get l)
   \<and> sort_lock (sort_lock l) = sort_lock l"
  using validate_sorted_iff [of l] lock_get_sort [of l]
  by (simp add: lock_distinct_def list_all_iff sort_lock_def sort_key_id_if_sorted)

text \<open>
  C14. Without that sort the uniqueness promised by the format is not enforced: a lock file whose
  versions of one package alternate is accepted although one \<open>(name, version)\<close> is pinned to two
  different digests.
\<close>

definition alternating_lock :: akua_lock where
  "alternating_lock =
     (let p = (\<lambda>v d. \<lparr>lp_name = ''a'', lp_version = v, lp_source = ''oci://r/a'', lp_digest = d,
            lp_vendor_digest = None, lp_signature = None, lp_dependencies = [], lp_attestation = None,
            lp_replaced = None, lp_yanked = None, lp_kyverno_source_digest = None,
            lp_converter_version = None\<rparr>)
      in \<lparr>lock_version = 1,
          packages = [p ''1'' ''sha256:aa'', p ''2'' ''sha256:bb'', p ''1'' ''sha256:cc'']\<rparr>)"

theorem validate_lock_misses_duplicates:
  "validate_lock alternating_lock = Ok () \<and> \<not> distinct (map lp_key (packages alternating_lock))
   \<and> validate_lock (sort_lock alternating_lock) = Err (DuplicatePackage ''a'')"
  by code_simp

text \<open>
  \<open>upsert\<close> is a map update: it never panics, afterwards its key holds the new entry and every
  other key what it held before, and uniqueness of the keys is kept.
\<close>

theorem upsert_correct:
  "\<exists>l'. (upsert e l :: (lock_error, akua_lock) outcome) = Ok l'
     \<and> (lock_get l' = (lock_get l)(lp_key e \<mapsto> e))
     \<and> (distinct (map lp_key (packages l)) \<longrightarrow> distinct (map lp_key (packages l')))
     \<and> lock_version l' = lock_version l"
  using lock_store.get_ups [of e l] lock_store.inv_ups [of l e]
  by (auto simp: upsert_Ok lock_distinct_def)

theorem upsert_correct_witness:
  "\<exists>l'. (upsert (hd (packages alternating_lock)) empty_lock :: (lock_error, akua_lock) outcome) = Ok l'
     \<and> distinct (map lp_key (packages l'))"
  using upsert_correct [of "hd (packages alternating_lock)" empty_lock] by (auto simp: empty_lock_def)

text \<open>
  C24. Saving and loading: when the TOML printer and parser agree on a text that follows the header
  comment, a lock with unique keys, known digests and the current version is read back as its
  canonical form, and two locks with the same entries in any order are saved as the same bytes.
\<close>

theorem save_load_roundtrip:
  assumes "\<And>l body. to_toml l = Ok body \<Longrightarrow> from_toml (lock_header @ body) = Ok l"
    and "save_lock to_toml l ws w = Ok w'"
    and "lock_version l = CURRENT_VERSION" "lock_distinct l" "list_all digest_ok (packages l)"
  shows "load_lock from_toml w' ws = Ok (sort_lock l)
    \<and> (mset (packages l2) = mset (packages l) \<and> lock_version l2 = lock_version l \<longrightarrow>
         save_lock to_toml l2 ws w = save_lock to_toml l ws w)"
proof
  from assms(2) obtain body where body: "to_toml (sort_lock l) = Ok body"
    and wr: "fs_write (lock_path ws) (lock_header @ body) w = Ok w'"
    by (auto simp: save_lock_def Let_def outcome_simps)
  have "read_to_string w' (lock_path ws) = Ok (lock_header @ body)" by (rule fs_write_read [OF wr])
  moreover have "validate_lock (sort_lock l) = Ok ()"
    using assms(3-5) by (simp add: validate_sorted_iff list_all_iff)
  ultimately show "load_lock from_toml w' ws = Ok (sort_lock l)"
    by (simp add: load_lock_def parse_lock_def assms(1) [OF body])
  show "mset (packages l2) = mset (packages l) \<and> lock_version l2 = lock_version l \<longrightarrow>
      save_lock to_toml l2 ws w = save_lock to_toml l ws w"
    using sort_lock_canonical [of l l2] assms(4) by (auto simp: save_lock_def)
qed

definition two_locked :: akua_lock where
  "two_locked = \<lparr>lock_version = 1,
     packages = [(hd (packages alternating_lock))\<lparr>lp_name := ''b''\<rparr>, hd (packages alternating_lock)]\<rparr>"

theorem save_load_roundtrip_witness:
  "\<exists>w'. save_lock (\<lambda>l. if l = sort_lock two_locked then Ok ''body'' else Err ''unsupported'')
        two_locked [] (text_world []) = Ok w'
     \<and> load_lock (\<lambda>_. Ok (sort_lock two_locked)) w' [] = Ok (sort_lock two_locked)"
proof -
  let ?to = "\<lambda>l. if l = sort_lock two_locked then Ok ''body'' else (Err ''unsupported'' :: (string, string) outcome)"
  let ?from = "\<lambda>_::string. (Ok (sort_lock two_locked) :: (string, akua_lock) outcome)"
  have codec: "\<And>l body. ?to l = Ok body \<Longrightarrow> ?from (lock_header @ body) = Ok l"
    by (simp split: if_splits)
  obtain w' where w': "save_lock ?to two_locked [] (text_world []) = Ok w'"
    by (simp add: save_lock_def fs_write_def text_world_def)
  have h: "lock_version two_locked = CURRENT_VERSION" "lock_distinct two_locked"
    "list_all digest_ok (packages two_locked)" by code_simp+
  have "load_lock ?from w' [] = Ok (sort_lock two_locked)"
    by (rule conjunct1 [OF save_load_roundtrip [OF _ w' h]]) (rule codec)
  with w' show ?thesis by blast
qed

end
