(* ===== verification/FileTree.thy ===== *)
theory FileTree
  imports StdFs
begin

text \<open>
  \<open>walk.rs\<close>, the tree walk and content hash of \<open>chart_resolver.rs\<close> and \<open>hex.rs\<close>: enumerating the files
  of a directory tree and hashing them. The walkers differ in the names they skip, the files they
  keep and the errors they tolerate; \<open>walk_tree\<close> has these as parameters. An enumeration returns the
  relative path of a file together with the file itself. \<open>sha256\<close> stands for the hash function of the
  \<open>sha2\<close> crate.
\<close>

section \<open>Walking\<close>

fun concat_ok :: "('e, 'a list) outcome list \<Rightarrow> ('e, 'a list) outcome" where
  "concat_ok [] = Ok []"
| "concat_ok (x # xs) = obind x (\<lambda>a. obind (concat_ok xs) (\<lambda>b. Ok (a @ b)))"

definition not_a_directory :: io_error where
  "not_a_directory = \<lparr>io_kind = OtherKind, io_msg = ''Not a directory (os error 20)''\<rparr>"

fun walk_tree ::
  "(string \<Rightarrow> bool) \<Rightarrow> (string \<Rightarrow> node \<Rightarrow> bool) \<Rightarrow> (io_error \<Rightarrow> bool) \<Rightarrow> path \<Rightarrow> node
     \<Rightarrow> (io_error, (path \<times> node) list) outcome"
where
  "walk_tree skip keep tolerate pre (Dir es) =
     concat_ok (map (\<lambda>(name, n).
       if skip name then Ok []
       else if is_directory n then walk_tree skip keep tolerate (pre @ [Normal name]) n
       else if keep name n then Ok [(pre @ [Normal name], n)]
       else Ok []) es)"
| "walk_tree skip keep tolerate pre (BadDir e) = (if tolerate e then Ok [] else Err e)"
| "walk_tree skip keep tolerate pre _ = Err not_a_directory"

definition should_skip_dir :: "string \<Rightarrow> bool" where
  "should_skip_dir name \<longleftrightarrow>
     prefix ''.'' name
     \<or> name \<in> set [''deploy'', ''rendered'', ''out'', ''target'', ''node_modules'', ''dist'']"

definition walk :: "(string \<Rightarrow> bool) \<Rightarrow> node \<Rightarrow> (io_error, (path \<times> node) list) outcome" where
  "walk keep_file n =
     walk_tree should_skip_dir (\<lambda>name f. is_regular f \<and> keep_file name)
       (\<lambda>e. io_kind e = NotFound) [] n"

definition collect_files :: "(string \<Rightarrow> bool) \<Rightarrow> node \<Rightarrow> (io_error, (path \<times> node) list) outcome" where
  "collect_files keep_file n = obind (walk keep_file n) (\<lambda>out. Ok (sort_key fst out))"

text \<open>The directories of a tree, for the file watcher: the walk never enters a skipped branch.\<close>

fun walk_dirs :: "path \<Rightarrow> node \<Rightarrow> (io_error, path list) outcome" where
  "walk_dirs pre (Dir es) =
     concat_ok (map (\<lambda>(name, n).
       if should_skip_dir name then Ok []
       else if is_directory n
       then obind (walk_dirs (pre @ [Normal name]) n) (\<lambda>ds. Ok ((pre @ [Normal name]) # ds))
       else Ok []) es)"
| "walk_dirs pre (BadDir e) = (if io_kind e = NotFound then Ok [] else Err e)"
| "walk_dirs pre _ = Err not_a_directory"

definition collect_directories :: "path \<Rightarrow> node \<Rightarrow> (io_error, path list) outcome" where
  "collect_directories root n =
     (if is_directory n then obind (walk_dirs root n) (\<lambda>ds. Ok (sort (root # ds))) else Ok [])"

section \<open>What a tree holds at a path\<close>

fun node_at :: "node \<Rightarrow> path \<Rightarrow> node option" where
  "node_at n [] = Some n"
| "node_at (Dir es) (Normal s # p) =
     (case map_of es s of None \<Rightarrow> None | Some n \<Rightarrow> node_at n p)"
| "node_at _ _ = None"

fun wf_node :: "node \<Rightarrow> bool" where
  "wf_node (Dir es) \<longleftrightarrow> distinct (map fst es) \<and> (\<forall>(name, n) \<in> set es. wf_node n)"
| "wf_node _ \<longleftrightarrow> True"

text \<open>The paths a walk reports, and the file there.\<close>

definition visible :: "(string \<Rightarrow> bool) \<Rightarrow> (string \<Rightarrow> node \<Rightarrow> bool) \<Rightarrow> node \<Rightarrow> path \<Rightarrow> node \<Rightarrow> bool" where
  "visible skip keep n p f \<longleftrightarrow>
     (\<exists>names. p = map Normal names \<and> names \<noteq> [] \<and> list_all (\<lambda>s. \<not> skip s) names
        \<and> node_at n p = Some f \<and> \<not> is_directory f \<and> keep (last names) f)"

lemma concat_ok_map_Ok: "concat_ok (map Ok yss) = Ok (concat yss)"
  by (induction yss) auto

lemma concat_ok_mapD:
  assumes "concat_ok (map f xs) = Ok ys"
  shows "ys = concat (map (\<lambda>x. case f x of Ok a \<Rightarrow> a | _ \<Rightarrow> []) xs) \<and> (\<forall>x \<in> set xs. is_Ok (f x))"
  using assms by (induction xs arbitrary: ys) (auto simp: outcome_simps)

text \<open>One entry's contribution to the walk of its directory.\<close>

definition walk_entry ::
  "(string \<Rightarrow> bool) \<Rightarrow> (string \<Rightarrow> node \<Rightarrow> bool) \<Rightarrow> (io_error \<Rightarrow> bool) \<Rightarrow> path \<Rightarrow> string \<times> node
     \<Rightarrow> (io_error, (path \<times> node) list) outcome"
where
  "walk_entry skip keep tolerate pre = (\<lambda>(name, n).
     if skip name then Ok []
     else if is_directory n then walk_tree skip keep tolerate (pre @ [Normal name]) n
     else if keep name n then Ok [(pre @ [Normal name], n)]
     else Ok [])"

lemma walk_tree_Dir:
  "walk_tree skip keep tolerate pre (Dir es) = concat_ok (map (walk_entry skip keep tolerate pre) es)"
  by (simp add: walk_entry_def)

declare walk_tree.simps(1) [simp del]

lemma visible_Nil [simp]: "\<not> visible skip keep n [] f"
  by (simp add: visible_def)

lemma visible_Dir_Cons:
  assumes "distinct (map fst es)"
  shows "visible skip keep (Dir es) (c # p) f \<longleftrightarrow>
    (\<exists>s n. c = Normal s \<and> (s, n) \<in> set es \<and> \<not> skip s
       \<and> (if is_directory n then visible skip keep n p f
          else p = [] \<and> f = n \<and> keep s n))" (is "?L \<longleftrightarrow> ?R")
proof
  assume ?L
  then obtain names where names: "c # p = map Normal names" "list_all (\<lambda>s. \<not> skip s) names"
    "node_at (Dir es) (c # p) = Some f" "\<not> is_directory f" "keep (last names) f"
    using \<open>?L\<close> unfolding visible_def by (elim exE conjE) (rule that)
  then obtain s ns where ns: "names = s # ns" "c = Normal s" "p = map Normal ns" by (cases names) auto
  with names(3) obtain n where n: "map_of es s = Some n" "node_at n p = Some f"
    by (auto split: option.splits)
  then have mem: "(s, n) \<in> set es" by (auto dest: map_of_SomeD)
  have skip: "\<not> skip s" using names(2) ns(1) by simp
  show ?R
  proof (cases "is_directory n")
    case True
    have "ns \<noteq> []"
    proof
      assume "ns = []"
      with n(2) ns(3) have "f = n" by simp
      with True names(4) show False by simp
    qed
    then have "visible skip keep n p f"
      unfolding visible_def using names(2,4,5) n(2) ns(1,3) by (intro exI [of _ ns]) simp
    with True mem skip ns(2) show ?thesis by (intro exI [of _ s] exI [of _ n]) simp
  next
    case False
    then have "p = []" using n(2) ns(3) by (cases n; cases ns) auto
    with n ns names have "f = n" "keep s n" by auto
    with False \<open>p = []\<close> mem skip ns(2) show ?thesis by auto
  qed
next
  assume ?R
  then obtain s n where s: "c = Normal s" "(s, n) \<in> set es" "\<not> skip s"
    "if is_directory n then visible skip keep n p f else p = [] \<and> f = n \<and> keep s n" by blast
  have m: "map_of es s = Some n" using assms s(2) by simp
  show ?L
  proof (cases "is_directory n")
    case True
    with s(4) obtain ns where "p = map Normal ns" "ns \<noteq> []" "list_all (\<lambda>s. \<not> skip s) ns"
      "node_at n p = Some f" "\<not> is_directory f" "keep (last ns) f" by (auto simp: visible_def)
    with s m show ?thesis by (auto simp: visible_def intro!: exI [of _ "s # ns"])
  next
    case False
    with s m show ?thesis by (auto simp: visible_def intro!: exI [of _ "[s]"])
  qed
qed

lemma visible_BadDir [simp]: "\<not> visible skip keep (BadDir e) p f"
  by (cases p) (auto simp: visible_def)

text \<open>
  The walk is correct: it reports exactly the visible files, each once, whatever the enumeration
  order of the directories.
\<close>

lemma walk_tree_correct:
  assumes "wf_node n" "walk_tree skip keep tolerate pre n = Ok xs"
  shows "(q, f) \<in> set xs \<longleftrightarrow> (\<exists>p. q = pre @ p \<and> visible skip keep n p f)"
    and "distinct (map fst xs)"
proof -
  have "(\<forall>q f. (q, f) \<in> set xs \<longleftrightarrow> (\<exists>p. q = pre @ p \<and> visible skip keep n p f)) \<and> distinct (map fst xs)"
    using assms
  proof (induction n arbitrary: pre xs)
    case (Dir es)
    let ?w = "walk_entry skip keep tolerate pre"
    let ?out = "\<lambda>e. case ?w e of Ok a \<Rightarrow> a | _ \<Rightarrow> []"
    from concat_ok_mapD [OF Dir.prems(2) [unfolded walk_tree_Dir]]
    have xs: "xs = concat (map ?out es)" and ok: "\<And>e. e \<in> set es \<Longrightarrow> is_Ok (?w e)" by auto
    have dist: "distinct (map fst es)" and wf: "\<And>s n. (s, n) \<in> set es \<Longrightarrow> wf_node n"
      using Dir.prems(1) by auto
    have entry: "((q, f) \<in> set (?out (s, n)) \<longleftrightarrow>
          (\<exists>p. q = pre @ Normal s # p \<and> \<not> skip s
             \<and> (if is_directory n then visible skip keep n p f else p = [] \<and> f = n \<and> keep s n)))
        \<and> distinct (map fst (?out (s, n)))" if mem: "(s, n) \<in> set es" for s n q f
    proof (cases "skip s \<or> \<not> is_directory n")
      case True
      then show ?thesis by (auto simp: walk_entry_def)
    next
      case False
      with ok [OF mem] obtain ys where
        ys: "walk_tree skip keep tolerate (pre @ [Normal s]) n = Ok ys"
        by (auto simp: walk_entry_def is_Ok_iff)
      from Dir.IH [OF mem _ wf [OF mem] ys] False ys show ?thesis
        by (auto simp: walk_entry_def)
    qed
    have mem: "(q, f) \<in> set xs \<longleftrightarrow> (\<exists>p. q = pre @ p \<and> visible skip keep (Dir es) p f)" for q f
    proof -
      have "(q, f) \<in> set xs \<longleftrightarrow> (\<exists>s n. (s, n) \<in> set es \<and> (q, f) \<in> set (?out (s, n)))"
        unfolding xs by auto
      also have "\<dots> \<longleftrightarrow> (\<exists>s n p. (s, n) \<in> set es \<and> q = pre @ Normal s # p \<and> \<not> skip s
             \<and> (if is_directory n then visible skip keep n p f else p = [] \<and> f = n \<and> keep s n))"
        using entry by blast
      also have "\<dots> \<longleftrightarrow> (\<exists>c p. q = pre @ c # p \<and> visible skip keep (Dir es) (c # p) f)"
        unfolding visible_Dir_Cons [OF dist] by blast
      also have "\<dots> \<longleftrightarrow> (\<exists>p. q = pre @ p \<and> visible skip keep (Dir es) p f)"
        by (metis neq_Nil_conv visible_Nil)
      finally show ?thesis .
    qed
    have "distinct (map fst (concat (map ?out es')))" if "set es' \<subseteq> set es" "distinct (map fst es')" for es'
      using that
    proof (induction es')
      case (Cons e es')
      obtain s n where e: "e = (s, n)" by (cases e)
      have head: "distinct (map fst (?out (s, n)))" using entry [of s n] Cons.prems(1) e by auto
      have "q \<notin> fst ` set (concat (map ?out es'))" if "q \<in> fst ` set (?out (s, n))" for q
      proof
        assume "q \<in> fst ` set (concat (map ?out es'))"
        then obtain e' f' where e': "e' \<in> set es'" "(q, f') \<in> set (?out e')"
          unfolding set_concat set_map by fastforce
        obtain s' n' where "e' = (s', n')" by (cases e')
        with e' have *: "(s', n') \<in> set es'" "(q, f') \<in> set (?out (s', n'))" by simp_all
        from that obtain f where "(q, f) \<in> set (?out (s, n))" unfolding image_iff by fastforce
        with * entry [of s n q f] entry [of s' n' q f'] Cons.prems(1) e have "s = s'" by auto
        with * Cons.prems(2) e show False by force
      qed
      with head Cons e show ?case by (auto simp: disjoint_iff)
    qed simp
    then have "distinct (map fst xs)" using dist unfolding xs by blast
    with mem show ?case by blast
  next
    case (BadDir e)
    then show ?case by (auto split: if_splits)
  qed simp_all
  then show "(q, f) \<in> set xs \<longleftrightarrow> (\<exists>p. q = pre @ p \<and> visible skip keep n p f)"
    "distinct (map fst xs)" by auto
qed

text \<open>A sorted enumeration of distinct paths is determined by what it contains.\<close>

lemma sorted_enumeration_unique:
  assumes "distinct (map fst xs)" "distinct (map fst ys)" "set xs = set ys"
  shows "sort_key fst xs = sort_key fst (ys :: ('a::linorder \<times> 'b) list)"
proof (rule map_sorted_distinct_set_unique [where f = fst])
  show "inj_on fst (set (sort_key fst xs) \<union> set (sort_key fst ys))"
    using assms(1,3) by (simp add: distinct_map)
  show "distinct (map fst (sort_key fst xs))" "distinct (map fst (sort_key fst ys))"
    using assms(1,2) by (simp_all add: distinct_map)
qed (simp_all add: assms(3))

lemma strict_listing_unique:
  assumes "sorted_wrt (<) (map fst xs)" "sorted_wrt (<) (map fst ys)" "set xs = set ys"
  shows "xs = (ys :: ('a::linorder \<times> 'b) list)"
proof -
  have "sort_key fst xs = sort_key fst ys"
    using assms by (intro sorted_enumeration_unique) (simp_all add: strict_sorted_iff)
  moreover have "sort_key fst xs = xs" "sort_key fst ys = ys"
    using assms(1,2) by (auto intro: sort_key_id_if_sorted simp: strict_sorted_iff)
  ultimately show ?thesis by simp
qed

lemma node_at_names: "node_at n p = Some f \<Longrightarrow> \<exists>names. p = map Normal names"
proof (induction n p rule: node_at.induct)
  case (2 es s p)
  then obtain n names where "p = map Normal names" by (auto split: option.splits)
  then show ?case by (intro exI [of _ "s # names"]) simp
qed simp_all

section \<open>The workspace walker\<close>

lemma visible_keepE:
  assumes "visible should_skip_dir (\<lambda>name f. is_regular f \<and> keep_file name) n p f"
  obtains names where "p = map Normal names" "names \<noteq> []" "list_all (\<lambda>s. \<not> should_skip_dir s) names"
    "node_at n p = Some f" "is_regular f" "keep_file (last names)"
  using assms unfolding visible_def by (elim exE conjE) (rule that)

lemma is_regular_not_directory: "is_regular f \<Longrightarrow> \<not> is_directory f"
  by (cases f) auto

text \<open>
  \<open>walk::collect_files\<close> reports exactly the regular files of the tree whose name the caller keeps and
  on whose path no component is hidden, a build output or a package directory; each once, in
  strictly ascending order of the relative path.
\<close>

theorem collect_files_exact:
  assumes "wf_node n" "collect_files keep_file n = Ok xs"
  shows "sorted_wrt (<) (map fst xs)
    \<and> ((p, f) \<in> set xs \<longleftrightarrow>
         (\<exists>names. p = map Normal names \<and> names \<noteq> [] \<and> list_all (\<lambda>s. \<not> should_skip_dir s) names
            \<and> node_at n p = Some f \<and> is_regular f \<and> keep_file (last names)))"
proof -
  from assms(2) obtain ys where ys: "walk keep_file n = Ok ys" and xs: "xs = sort_key fst ys"
    by (auto simp: collect_files_def outcome_simps)
  note correct = walk_tree_correct [OF assms(1) ys [unfolded walk_def]]
  have "sorted_wrt (<) (map fst xs)"
    using correct(2) by (simp add: xs strict_sorted_iff distinct_map)
  moreover have "(p, f) \<in> set xs \<longleftrightarrow>
      visible should_skip_dir (\<lambda>name f. is_regular f \<and> keep_file name) n p f"
    using correct(1) by (simp add: xs)
  ultimately show ?thesis
    by (auto simp: visible_def dest: is_regular_not_directory)
qed

definition sample_tree :: node where
  "sample_tree = Dir
     [(''package.k'', File ''x''), (''out'', Dir [(''stale.yaml'', File ''y'')]),
      (''lib'', Dir [(''b.k'', File ''b''), (''link.k'', Special), (''a.k'', File ''a'')]),
      (''.git'', Dir [(''HEAD.k'', File ''z'')])]"

lemma collect_files_exact_witness:
  "wf_node sample_tree
   \<and> collect_files (\<lambda>s. suffix ''.k'' s) sample_tree =
       Ok [([Normal ''lib'', Normal ''a.k''], File ''a''), ([Normal ''lib'', Normal ''b.k''], File ''b''),
           ([Normal ''package.k''], File ''x'')]
   \<and> ([Normal ''out'', Normal ''stale.yaml''], File ''y'')
        \<notin> set [([Normal ''lib'', Normal ''a.k''], File ''a''), ([Normal ''lib'', Normal ''b.k''], File ''b''),
           ([Normal ''package.k''], File ''x'')]"
proof -
  have wf: "wf_node sample_tree" by code_simp
  have run: "collect_files (\<lambda>s. suffix ''.k'' s) sample_tree =
       Ok [([Normal ''lib'', Normal ''a.k''], File ''a''), ([Normal ''lib'', Normal ''b.k''], File ''b''),
           ([Normal ''package.k''], File ''x'')]" by code_simp
  have "should_skip_dir ''out''" by code_simp
  with wf run collect_files_exact [OF wf run, of "[Normal ''out'', Normal ''stale.yaml'']" "File ''y''"]
  show ?thesis by (auto simp: Cons_eq_map_conv map_eq_Cons_conv)
qed

end
