(* ===== verification/TreeHash.thy ===== *)
theory TreeHash
  imports FileTree
begin

text \<open>
  \<open>hash_dir\<close> of \<open>chart_resolver.rs\<close> and \<open>hex.rs\<close>: the content hash of a directory tree that the lockfile
  pins. \<open>sha256\<close> stands for the hash function of the \<open>sha2\<close> crate; the lemmas are about the stream of
  bytes the hasher absorbs.
\<close>

section \<open>The stream of a tree\<close>

definition hex_digit :: "nat \<Rightarrow> char" where
  "hex_digit d = ''0123456789abcdef'' ! d"

definition hex_encode :: "string \<Rightarrow> string" where
  "hex_encode bytes =
     concat (map (\<lambda>c. [hex_digit (of_char c div 16), hex_digit (of_char c mod 16)]) bytes)"

definition hash_collect_files :: "node \<Rightarrow> (io_error, (path \<times> node) list) outcome" where
  "hash_collect_files n = walk_tree (\<lambda>_. False) (\<lambda>_ f. is_regular f) (\<lambda>_. False) [] n"

text \<open>\<open>u64::saturating_add\<close>.\<close>

definition saturating_add :: "int \<Rightarrow> int \<Rightarrow> int" where
  "saturating_add a b = min (a + b) (2 ^ 64 - 1)"

fun read_file :: "node \<Rightarrow> (io_error, string) outcome" where
  "read_file (File b) = Ok b"
| "read_file (BadFile e) = Err e"
| "read_file _ = Err \<lparr>io_kind = OtherKind, io_msg = ''Is a directory (os error 21)''\<rparr>"

definition hash_update ::
  "string \<times> int \<Rightarrow> path \<times> node \<Rightarrow> (io_error, string \<times> int) outcome"
where
  "hash_update = (\<lambda>(absorbed, size_bytes) (rel, f).
     obind (read_file f) (\<lambda>bytes.
       Ok (absorbed @ path_str rel @ [CHR 0x00] @ bytes @ [CHR 0x0A],
           saturating_add size_bytes (int (length bytes)))))"

definition hash_dir :: "(string \<Rightarrow> string) \<Rightarrow> node \<Rightarrow> (io_error, string \<times> int) outcome" where
  "hash_dir sha256 root =
     obind (hash_collect_files root) (\<lambda>files.
     obind (fold_outcome hash_update ([], 0) (sort_key fst files)) (\<lambda>(absorbed, size_bytes).
     Ok (''sha256:'' @ hex_encode (sha256 absorbed), size_bytes)))"

section \<open>What the stream determines\<close>

text \<open>The bytes absorbed for the readable files, and the bytes counted.\<close>

definition frame :: "path \<times> string \<Rightarrow> string" where
  "frame = (\<lambda>(rel, bytes). path_str rel @ [CHR 0x00] @ bytes @ [CHR 0x0A])"

definition frames :: "(path \<times> string) list \<Rightarrow> string" where
  "frames fs = concat (map frame fs)"

definition total_size :: "(path \<times> string) list \<Rightarrow> int \<Rightarrow> int" where
  "total_size fs sz = fold (\<lambda>(p, b) sz. saturating_add sz (int (length b))) fs sz"

lemma read_file_Ok: "read_file f = Ok b \<longleftrightarrow> f = File b"
  by (cases f) auto

lemma fold_hash_update:
  "fold_outcome hash_update (st, sz) xs = Ok r \<Longrightarrow>
     \<exists>fs. xs = map (apsnd File) fs \<and> r = (st @ frames fs, total_size fs sz)"
proof (induction xs arbitrary: st sz)
  case Nil
  then show ?case by (auto simp: frames_def total_size_def)
next
  case (Cons x xs)
  obtain p f where x: "x = (p, f)" by (cases x)
  with Cons.prems obtain b where b: "f = File b"
    and r: "fold_outcome hash_update (st @ frame (p, b), saturating_add sz (int (length b))) xs = Ok r"
    by (auto simp: hash_update_def outcome_simps read_file_Ok frame_def)
  from Cons.IH [OF r] obtain fs where "xs = map (apsnd File) fs"
    "r = ((st @ frame (p, b)) @ frames fs, total_size fs (saturating_add sz (int (length b))))" by blast
  with x b show ?case
    by (intro exI [of _ "(p, b) # fs"]) (simp add: frames_def total_size_def)
qed

text \<open>The regular files of a tree with their bytes, and the listing the hash is taken of.\<close>

definition file_at :: "node \<Rightarrow> path \<Rightarrow> node \<Rightarrow> bool" where
  "file_at n p f \<longleftrightarrow> visible (\<lambda>_. False) (\<lambda>_ f. is_regular f) n p f"

lemma file_at_iff:
  "file_at n p f \<longleftrightarrow> (\<exists>names. p = map Normal names \<and> names \<noteq> [] \<and> node_at n p = Some f \<and> is_regular f)"
  by (auto simp: file_at_def visible_def list_all_iff dest: is_regular_not_directory)

text \<open>Evaluating the walk of a concrete tree decides what is where in it.\<close>

lemma regular_at_walk:
  assumes "wf_node (Dir es)" "hash_collect_files (Dir es) = Ok xs" "is_regular f"
  shows "node_at (Dir es) p = Some f \<longleftrightarrow> (p, f) \<in> set xs"
proof -
  have "node_at (Dir es) p = Some f \<longleftrightarrow> file_at (Dir es) p f"
  proof (cases "p = []")
    case True
    then show ?thesis using assms(3) by (auto simp: file_at_iff)
  next
    case False
    then have "\<exists>names. p = map Normal names \<and> names \<noteq> []" if "node_at (Dir es) p = Some f"
      using node_at_names [OF that] by fastforce
    then show ?thesis using assms(3) unfolding file_at_iff by blast
  qed
  also have "\<dots> \<longleftrightarrow> (p, f) \<in> set xs"
    using walk_tree_correct(1) [OF assms(1) assms(2) [unfolded hash_collect_files_def]]
    by (simp add: file_at_def)
  finally show ?thesis .
qed

lemma hash_dir_listing:
  assumes "wf_node n" "hash_dir sha256 n = Ok r"
  obtains fs where
    "r = (''sha256:'' @ hex_encode (sha256 (frames fs)), total_size fs 0)"
    "sorted_wrt (<) (map fst fs)"
    "\<And>p f. file_at n p f \<longleftrightarrow> (\<exists>b. f = File b \<and> (p, b) \<in> set fs)"
proof -
  from assms(2) obtain xs st sz where xs: "hash_collect_files n = Ok xs"
    and fold: "fold_outcome hash_update ([], 0) (sort_key fst xs) = Ok (st, sz)"
    and r: "r = (''sha256:'' @ hex_encode (sha256 st), sz)"
    by (auto simp: hash_dir_def outcome_simps)
  from fold_hash_update [OF fold] obtain fs where
    fs: "sort_key fst xs = map (apsnd File) fs" "st = frames fs" "sz = total_size fs 0" by auto
  note correct = walk_tree_correct [OF assms(1) xs [unfolded hash_collect_files_def]]
  have keys: "map fst (sort_key fst xs) = map fst fs" unfolding fs(1) by auto
  have "distinct (map fst (sort_key fst xs))" using correct(2) by (simp add: distinct_map)
  then have "sorted_wrt (<) (map fst fs)"
    unfolding keys [symmetric] by (simp add: strict_sorted_iff)
  moreover have "file_at n p f \<longleftrightarrow> (\<exists>b. f = File b \<and> (p, b) \<in> set fs)" for p f
  proof -
    have "file_at n p f \<longleftrightarrow> (p, f) \<in> set (sort_key fst xs)"
      using correct(1) by (simp add: file_at_def)
    also have "\<dots> \<longleftrightarrow> (\<exists>b. f = File b \<and> (p, b) \<in> set fs)"
      unfolding fs(1) by (force simp: image_iff)
    finally show ?thesis .
  qed
  ultimately show thesis using that r fs by simp
qed

text \<open>
  The content hash depends on the files of the tree only: two trees with the same regular files at
  the same paths, whatever the order \<open>readdir\<close> returns and whatever else they hold (empty directories,
  symbolic links), have the same digest and the same size.
\<close>

theorem hash_dir_deterministic:
  assumes "wf_node n" "wf_node n'"
    and "\<And>p f. is_regular f \<Longrightarrow> node_at n p = Some f \<longleftrightarrow> node_at n' p = Some f"
    and "hash_dir sha256 n = Ok r" "hash_dir sha256 n' = Ok r'"
  shows "r = r'"
proof -
  obtain fs where fs: "r = (''sha256:'' @ hex_encode (sha256 (frames fs)), total_size fs 0)"
    "sorted_wrt (<) (map fst fs)"
    "\<And>p f. file_at n p f \<longleftrightarrow> (\<exists>b. f = File b \<and> (p, b) \<in> set fs)"
    using hash_dir_listing [OF assms(1,4)] by metis
  obtain fs' where fs': "r' = (''sha256:'' @ hex_encode (sha256 (frames fs')), total_size fs' 0)"
    "sorted_wrt (<) (map fst fs')"
    "\<And>p f. file_at n' p f \<longleftrightarrow> (\<exists>b. f = File b \<and> (p, b) \<in> set fs')"
    using hash_dir_listing [OF assms(2,5)] by metis
  have "file_at n p f \<longleftrightarrow> file_at n' p f" for p f
    using assms(3) by (auto simp: file_at_iff)
  then have "set fs = set fs'" using fs(3) fs'(3) by (auto; metis node.inject(1))
  then have "fs = fs'" using fs(2) fs'(2) by (intro strict_listing_unique)
  then show ?thesis using fs(1) fs'(1) by simp
qed

definition listed_tree :: node where
  "listed_tree = Dir
     [(''a'', File ''x''), (''d'', Dir [(''b'', File ''y''), (''link'', Special), (''c'', File ''z'')])]"

definition shuffled_tree :: node where
  "shuffled_tree = Dir
     [(''d'', Dir [(''c'', File ''z''), (''b'', File ''y'')]), (''e'', Dir []), (''a'', File ''x'')]"

lemma hash_dir_deterministic_witness:
  "hash_dir (\<lambda>s. s) listed_tree = hash_dir (\<lambda>s. s) shuffled_tree \<and> is_Ok (hash_dir (\<lambda>s. s) listed_tree)"
proof -
  have ok: "is_Ok (hash_dir (\<lambda>s. s) listed_tree)" "is_Ok (hash_dir (\<lambda>s. s) shuffled_tree)"
    by (code_simp, code_simp)
  have wf: "wf_node listed_tree" "wf_node shuffled_tree" by (code_simp, code_simp)
  have "hash_collect_files listed_tree = Ok
      [([Normal ''a''], File ''x''), ([Normal ''d'', Normal ''b''], File ''y''),
       ([Normal ''d'', Normal ''c''], File ''z'')]"
    "hash_collect_files shuffled_tree = Ok
      [([Normal ''d'', Normal ''c''], File ''z''), ([Normal ''d'', Normal ''b''], File ''y''),
       ([Normal ''a''], File ''x'')]"
    by (code_simp, code_simp)
  then have same: "node_at listed_tree p = Some f \<longleftrightarrow> node_at shuffled_tree p = Some f"
    if "is_regular f" for p f
    using that wf regular_at_walk unfolding listed_tree_def shuffled_tree_def by auto
  obtain r r' where "hash_dir (\<lambda>s. s) listed_tree = Ok r" "hash_dir (\<lambda>s. s) shuffled_tree = Ok r'"
    using ok by (auto simp: is_Ok_iff)
  with hash_dir_deterministic [OF wf same] ok(1) show ?thesis by metis
qed

section \<open>The framing\<close>

text \<open>
  A listing whose names hold no NUL and no newline and whose contents hold no NUL is determined by its
  stream.
\<close>

definition clean_name :: "string \<Rightarrow> bool" where
  "clean_name s \<longleftrightarrow> s \<noteq> [] \<and> CHR ''/'' \<notin> set s \<and> CHR 0x00 \<notin> set s \<and> CHR 0x0A \<notin> set s"

definition clean_file :: "path \<times> string \<Rightarrow> bool" where
  "clean_file = (\<lambda>(p, b).
     (\<exists>names. p = map Normal names \<and> names \<noteq> [] \<and> list_all clean_name names) \<and> CHR 0x00 \<notin> set b)"

lemma set_join_with: "set (join_with sep xs) \<subseteq> set sep \<union> \<Union> (set ` set xs)"
  by (induction sep xs rule: join_with.induct) auto

lemma split_on_join_with:
  "xs \<noteq> [] \<Longrightarrow> list_all (\<lambda>x. c \<notin> set x) xs \<Longrightarrow> split_on c (join_with [c] xs) = xs"
  by (induction "[c]" xs rule: join_with.induct) (auto simp: split_on_append split_on_no_sep)

lemma show_Normal [simp]: "map show_component (map Normal names) = names"
  by (induction names) auto

lemma path_str_Normal: "path_str (map Normal names) = join_with ''/'' names"
  by (cases names) (simp_all add: path_str_def del: map_map list.map_comp split: list.split)

lemma clean_path_str_inject:
  assumes "names \<noteq> []" "list_all clean_name names" "names' \<noteq> []" "list_all clean_name names'"
    and "path_str (map Normal names) = path_str (map Normal names')"
  shows "names = names'"
proof -
  have "list_all (\<lambda>x. CHR ''/'' \<notin> set x) names" "list_all (\<lambda>x. CHR ''/'' \<notin> set x) names'"
    using assms(2,4) by (auto simp: list_all_iff clean_name_def)
  from split_on_join_with [OF assms(1) this(1)] split_on_join_with [OF assms(3) this(2)]
  have "split_on CHR ''/'' (join_with ''/'' names) = names"
    "split_on CHR ''/'' (join_with ''/'' names') = names'" by simp_all
  with assms(5) show ?thesis unfolding path_str_Normal by metis
qed

lemma clean_path_str:
  assumes "list_all clean_name names"
  shows "CHR 0x00 \<notin> set (path_str (map Normal names))" "CHR 0x0A \<notin> set (path_str (map Normal names))"
  using set_join_with [of "''/''" names] assms
  by (auto simp: path_str_Normal list_all_iff clean_name_def subset_iff)

lemma takeWhile_sep: "c \<notin> set a \<Longrightarrow> takeWhile (\<lambda>x. x \<noteq> c) (a @ c # b) = a"
  by (induction a) auto

lemma append_sep_inject:
  assumes "a @ c # b = a' @ c # b'" "c \<notin> set a" "c \<notin> set a'"
  shows "a = a' \<and> b = b'"
proof -
  have "a = a'" using takeWhile_sep [OF assms(2), of b] takeWhile_sep [OF assms(3), of b'] assms(1) by simp
  with assms(1) show ?thesis by simp
qed

lemma append_rsep_inject:
  assumes "a @ c # b = a' @ c # (b' :: string)" "c \<notin> set b" "c \<notin> set b'"
  shows "a = a' \<and> b = b'"
proof -
  have "Some (a, b) = Some (a', b')"
    unfolding rsplit_once_eq [OF assms(2), of a, symmetric] rsplit_once_eq [OF assms(3), of a', symmetric]
    by (rule arg_cong [OF assms(1)])
  then show ?thesis by simp
qed

lemma frames_Cons: "frames ((p, b) # fs) = path_str p @ CHR 0x00 # b @ CHR 0x0A # frames fs"
  by (simp add: frames_def frame_def)

lemma frames_inject:
  "list_all clean_file fs \<Longrightarrow> list_all clean_file fs' \<Longrightarrow> frames fs = frames fs' \<Longrightarrow> fs = fs'"
proof (induction fs arbitrary: fs')
  case Nil
  then show ?case by (cases fs') (auto simp: frames_def frame_def split_paired_all)
next
  case (Cons x fs)
  obtain p b where x: "x = (p, b)" by (cases x)
  from Cons.prems(3) x obtain p' b' gs where fs': "fs' = (p', b') # gs"
    by (cases fs') (auto simp: frames_def frame_def)
  from Cons.prems x fs' obtain ns ns' where
    n: "p = map Normal ns" "ns \<noteq> []" "list_all clean_name ns" "CHR 0x00 \<notin> set b"
    and n': "p' = map Normal ns'" "ns' \<noteq> []" "list_all clean_name ns'" "CHR 0x00 \<notin> set b'"
    by (auto simp: clean_file_def)
  have "path_str p = path_str p' \<and> b @ CHR 0x0A # frames fs = b' @ CHR 0x0A # frames gs"
    using Cons.prems(3) clean_path_str(1) [OF n(3)] clean_path_str(1) [OF n'(3)]
    unfolding x fs' frames_Cons n(1) n'(1) by (intro append_sep_inject)
  then have p: "p = p'" and rest: "b @ CHR 0x0A # frames fs = b' @ CHR 0x0A # frames gs"
    using clean_path_str_inject n n' by auto
  have tail: "b = b' \<and> frames fs = frames gs"
  proof -
    have split: "(frames hs = [] \<and> hs = [] \<and> CHR 0x00 \<notin> set (frames hs)) \<or>
        (\<exists>s t. frames hs = s @ CHR 0x00 # t \<and> CHR 0x00 \<notin> set s \<and> CHR 0x0A \<notin> set s)"
      if "list_all clean_file hs" for hs
    proof (cases hs)
      case (Cons h hs')
      with that obtain q c ms where "h = (q, c)" "q = map Normal ms" "list_all clean_name ms"
        by (cases h) (auto simp: clean_file_def)
      with Cons clean_path_str [of ms] show ?thesis by (auto simp: frames_Cons)
    qed (simp add: frames_def)
    have nul: "b @ CHR 0x0A # s @ CHR 0x00 # t \<noteq> b' @ [CHR 0x0A]" if "CHR 0x00 \<notin> set b'" for b s t b' :: string
    proof
      assume "b @ CHR 0x0A # s @ CHR 0x00 # t = b' @ [CHR 0x0A]"
      then have "CHR 0x00 \<in> set (b' @ [CHR 0x0A])" by (metis in_set_conv_decomp append_assoc append_Cons)
      with that show False by simp
    qed
    from Cons.prems have cl: "list_all clean_file fs" "list_all clean_file gs" using fs' by auto
    consider "frames fs = []" "frames gs = []"
      | s t s' t' where "frames fs = s @ CHR 0x00 # t" "CHR 0x00 \<notin> set s" "CHR 0x0A \<notin> set s"
          "frames gs = s' @ CHR 0x00 # t'" "CHR 0x00 \<notin> set s'" "CHR 0x0A \<notin> set s'"
      | s t where "frames fs = []" "frames gs = s @ CHR 0x00 # t"
      | s t where "frames gs = []" "frames fs = s @ CHR 0x00 # t"
      using split [OF cl(1)] split [OF cl(2)] by metis
    then show ?thesis
    proof cases
      case 2
      have eq: "(b @ CHR 0x0A # s) @ CHR 0x00 # t = (b' @ CHR 0x0A # s') @ CHR 0x00 # t'"
        using rest unfolding 2(1) 2(4) by simp
      have "CHR 0x00 \<notin> set (b @ CHR 0x0A # s)" "CHR 0x00 \<notin> set (b' @ CHR 0x0A # s')"
        using 2(2,5) n(4) n'(4) by simp_all
      from append_sep_inject [OF eq this]
      have "b @ CHR 0x0A # s = b' @ CHR 0x0A # s'" "t = t'" by blast+
      with append_rsep_inject [OF this(1) 2(3,6)] show ?thesis unfolding 2(1) 2(4) by blast
    next
      case 3
      with rest nul [OF n(4), of b' s t] show ?thesis by simp
    next
      case 4
      with rest nul [OF n'(4), of b s t] show ?thesis by simp
    qed (use rest in simp)
  qed
  with Cons p x fs' show ?case by auto
qed

lemma set_hex_encode: "set (hex_encode bytes) \<subseteq> set ''0123456789abcdef''"
proof -
  have "hex_digit (of_char c div 16) \<in> set ''0123456789abcdef''"
    "hex_digit (of_char c mod 16) \<in> set ''0123456789abcdef''" for c :: char
  proof -
    have "(of_char c :: nat) div 16 < 16" using nat_of_char_less_256 [of c] by linarith
    moreover have "(of_char c :: nat) mod 16 < 16" by simp
    moreover have "d < 16 \<Longrightarrow> ''0123456789abcdef'' ! d \<in> set ''0123456789abcdef''" for d :: nat
      by (rule nth_mem) simp
    ultimately show "hex_digit (of_char c div 16) \<in> set ''0123456789abcdef''"
      "hex_digit (of_char c mod 16) \<in> set ''0123456789abcdef''" unfolding hex_digit_def by blast+
  qed
  moreover have "\<exists>c :: char. x = hex_digit (of_char c div 16) \<or> x = hex_digit (of_char c mod 16)"
    if "x \<in> set (hex_encode bytes)" for x
    using that unfolding hex_encode_def by auto
  ultimately show ?thesis by blast
qed

lemma hex_digit_inject: "d < 16 \<Longrightarrow> e < 16 \<Longrightarrow> hex_digit d = hex_digit e \<Longrightarrow> d = e"
proof -
  have "distinct ''0123456789abcdef''" "length ''0123456789abcdef'' = 16" by code_simp+
  then show "d < 16 \<Longrightarrow> e < 16 \<Longrightarrow> hex_digit d = hex_digit e \<Longrightarrow> d = e"
    unfolding hex_digit_def by (metis nth_eq_iff_index_eq)
qed

lemma hex_encode_inject: "hex_encode a = hex_encode b \<Longrightarrow> a = b"
proof (induction a arbitrary: b)
  case Nil
  then show ?case by (cases b) (simp_all add: hex_encode_def)
next
  case (Cons x a)
  then obtain y b' where b: "b = y # b'" by (cases b) (simp_all add: hex_encode_def)
  have lt: "(of_char c :: nat) div 16 < 16" for c :: char
    using nat_of_char_less_256 [of c] by linarith
  from Cons.prems b have "hex_digit (of_char x div 16) = hex_digit (of_char y div 16)"
    "hex_digit (of_char x mod 16) = hex_digit (of_char y mod 16)" "hex_encode a = hex_encode b'"
    by (simp_all add: hex_encode_def)
  with lt [of x] lt [of y] have "(of_char x :: nat) div 16 = of_char y div 16"
    "(of_char x :: nat) mod 16 = of_char y mod 16" "a = b'"
    by (auto intro!: hex_digit_inject Cons.IH)
  then have "(of_char x :: nat) = of_char y" by (metis div_mult_mod_eq)
  with b \<open>a = b'\<close> show ?case by simp
qed

text \<open>
  C29. Two trees whose file names hold no NUL, newline or slash and whose contents hold no NUL have the same
  content hash only if they hold the same files, or the two streams of their framed files, which then differ,
  are a collision of SHA-256.
\<close>

theorem hash_dir_injective:
  assumes "wf_node n" "wf_node n'"
    and "hash_dir sha256 n = Ok (d, sz)" "hash_dir sha256 n' = Ok (d, sz')"
    and clean: "\<And>p b. file_at n p (File b) \<or> file_at n' p (File b) \<Longrightarrow> clean_file (p, b)"
  shows "(\<forall>p f. file_at n p f \<longleftrightarrow> file_at n' p f)
    \<or> (\<exists>fs fs'. (\<forall>p b. (p, b) \<in> set fs \<longleftrightarrow> file_at n p (File b)) \<and> (\<forall>p b. (p, b) \<in> set fs' \<longleftrightarrow> file_at n' p (File b))
        \<and> frames fs \<noteq> frames fs' \<and> sha256 (frames fs) = sha256 (frames fs'))"
proof -
  obtain fs where fs: "(d, sz) = (''sha256:'' @ hex_encode (sha256 (frames fs)), total_size fs 0)"
    "\<And>p f. file_at n p f \<longleftrightarrow> (\<exists>b. f = File b \<and> (p, b) \<in> set fs)"
    using hash_dir_listing [OF assms(1,3)] by metis
  obtain fs' where fs': "(d, sz') = (''sha256:'' @ hex_encode (sha256 (frames fs')), total_size fs' 0)"
    "\<And>p f. file_at n' p f \<longleftrightarrow> (\<exists>b. f = File b \<and> (p, b) \<in> set fs')"
    using hash_dir_listing [OF assms(2,4)] by metis
  have same: "sha256 (frames fs) = sha256 (frames fs')"
    using fs(1) fs'(1) by (auto dest: hex_encode_inject)
  have "list_all clean_file fs" "list_all clean_file fs'"
    unfolding list_all_iff using clean fs(2) fs'(2) by (simp_all add: split_paired_all)
  with frames_inject have "frames fs = frames fs' \<Longrightarrow> fs = fs'" by blast
  then show ?thesis
  proof (cases "frames fs = frames fs'")
    case True
    with \<open>frames fs = frames fs' \<Longrightarrow> fs = fs'\<close> fs(2) fs'(2) show ?thesis by metis
  next
    case False
    with same fs(2) fs'(2) show ?thesis by auto
  qed
qed

lemma hash_dir_injective_witness:
  "is_Ok (hash_dir (\<lambda>s. s) (Dir [(''a'', File ''x'')])) \<and>
   (\<forall>p f. file_at (Dir [(''a'', File ''x'')]) p f \<longleftrightarrow> file_at (Dir [(''a'', File ''x''), (''l'', Special)]) p f)"
proof -
  let ?n = "Dir [(''a'', File ''x'')]" and ?n' = "Dir [(''a'', File ''x''), (''l'', Special)]"
  have ok: "is_Ok (hash_dir (\<lambda>s. s) ?n)" "hash_dir (\<lambda>s. s) ?n = hash_dir (\<lambda>s. s) ?n'"
    by (code_simp, code_simp)
  obtain d sz where r: "hash_dir (\<lambda>s. s) ?n = Ok (d, sz)" "hash_dir (\<lambda>s. s) ?n' = Ok (d, sz)"
    using ok by (auto simp: is_Ok_iff)
  have wf: "wf_node ?n" "wf_node ?n'" by simp_all
  have runs: "hash_collect_files ?n = Ok [([Normal ''a''], File ''x'')]"
    "hash_collect_files ?n' = Ok [([Normal ''a''], File ''x'')]" by (code_simp, code_simp)
  have at: "file_at ?n p f \<longleftrightarrow> (p, f) = ([Normal ''a''], File ''x'')"
    "file_at ?n' p f \<longleftrightarrow> (p, f) = ([Normal ''a''], File ''x'')" for p f
    using walk_tree_correct(1) [OF wf(1) runs(1) [unfolded hash_collect_files_def]]
      walk_tree_correct(1) [OF wf(2) runs(2) [unfolded hash_collect_files_def]]
    by (simp_all add: file_at_def)
  have "clean_name ''a''" by code_simp
  then have "clean_file ([Normal ''a''], ''x'')"
    by (auto simp: clean_file_def intro!: exI [of _ "[''a'']"])
  then have "clean_file (p, b)" if "file_at ?n p (File b) \<or> file_at ?n' p (File b)" for p b
    using that unfolding at by auto
  from hash_dir_injective [OF wf r this] have "\<forall>p f. file_at ?n p f \<longleftrightarrow> file_at ?n' p f" by simp
  with ok(1) show ?thesis by blast
qed

text \<open>
  Without the restriction on the contents the stream is ambiguous: a file holding the bytes that end
  it and begin the next one hashes, under every hash function, as the two files it imitates.
\<close>

theorem hash_dir_framing_ambiguous:
  "hash_dir sha256 (Dir [(''a'', File (''x'' @ [CHR 0x0A, CHR ''b'', CHR 0x00] @ ''y''))])
     = Ok (''sha256:'' @ hex_encode (sha256
         (''a'' @ [CHR 0x00] @ ''x'' @ [CHR 0x0A] @ ''b'' @ [CHR 0x00] @ ''y'' @ [CHR 0x0A])), 5)
   \<and> hash_dir sha256 (Dir [(''a'', File ''x''), (''b'', File ''y'')])
     = Ok (''sha256:'' @ hex_encode (sha256
         (''a'' @ [CHR 0x00] @ ''x'' @ [CHR 0x0A] @ ''b'' @ [CHR 0x00] @ ''y'' @ [CHR 0x0A])), 2)"
proof -
  have "Normal ''a'' < Normal ''b''" by code_simp
  then show ?thesis
    by (simp add: hash_dir_def hash_collect_files_def walk_tree.simps hash_update_def path_str_def
        saturating_add_def)
qed

end
