(* ===== verification/DirDiff.thy ===== *)
theory DirDiff
  imports TreeHash
begin

text \<open>
  \<open>dir_diff.rs\<close>: the structural diff of two directory trees by content hash, on trees and on manifests
  that were hashed elsewhere. The tree walk fills a \<open>BTreeMap\<close> from relative path to file; the source
  keeps the file's size beside it, which nothing reads, where the model keeps the file itself.
\<close>

record file_change =
  fc_path :: path
  fc_before :: string
  fc_after :: string

record dir_diff =
  added :: "path list"
  removed :: "path list"
  changed :: "file_change list"
  unchanged :: "path list"
  skipped :: "path list"

definition is_clean :: "dir_diff \<Rightarrow> bool" where
  "is_clean d \<longleftrightarrow> added d = [] \<and> removed d = [] \<and> changed d = []"

datatype dir_diff_error =
  DiffIo path io_error
| NotDir path

text \<open>\<open>sort\<close> then \<open>dedup\<close> of a vector.\<close>

fun dedup :: "'a list \<Rightarrow> 'a list" where
  "dedup (x # y # zs) = (if x = y then dedup (y # zs) else x # dedup (y # zs))"
| "dedup xs = xs"

definition sort_dedup :: "'a::linorder list \<Rightarrow> 'a list" where
  "sort_dedup xs = dedup (sort xs)"

lemma set_dedup [simp]: "set (dedup xs) = set xs"
  by (induction xs rule: dedup.induct) auto

lemma dedup_strict: "sorted xs \<Longrightarrow> sorted_wrt (<) (dedup xs)"
  by (induction xs rule: dedup.induct) (auto simp: less_le)

lemma sort_dedup_strict: "sorted_wrt (<) (sort_dedup xs)"
  by (simp add: sort_dedup_def dedup_strict)

lemma set_sort_dedup [simp]: "set (sort_dedup xs) = set xs"
  by (simp add: sort_dedup_def)

lemma sort_dedup_cong: "set xs = set ys \<Longrightarrow> sort_dedup xs = sort_dedup ys"
  using sort_dedup_strict [of xs] sort_dedup_strict [of ys] by (intro strict_sorted_equal) simp_all

section \<open>Manifests\<close>

definition empty_diff :: dir_diff where
  "empty_diff = \<lparr>added = [], removed = [], changed = [], unchanged = [], skipped = []\<rparr>"

text \<open>One turn of the loop over the keys of both manifests.\<close>

definition diff_key ::
  "(path, string) btree \<Rightarrow> (path, string) btree \<Rightarrow> dir_diff \<Rightarrow> path \<Rightarrow> (dir_diff_error, dir_diff) outcome"
where
  "diff_key before after d rel =
     (case (bt_get before rel, bt_get after rel) of
        (Some b, Some a) \<Rightarrow>
          (if b = a then Ok (d\<lparr>unchanged := unchanged d @ [rel]\<rparr>)
           else Ok (d\<lparr>changed := changed d @
                  [\<lparr>fc_path = rel, fc_before = ''sha256:'' @ b, fc_after = ''sha256:'' @ a\<rparr>]\<rparr>))
      | (Some _, None) \<Rightarrow> Ok (d\<lparr>removed := removed d @ [rel]\<rparr>)
      | (None, Some _) \<Rightarrow> Ok (d\<lparr>added := added d @ [rel]\<rparr>)
      | (None, None) \<Rightarrow> Panic)"

definition diff_manifests ::
  "(path, string) btree \<Rightarrow> (path, string) btree \<Rightarrow> (dir_diff_error, dir_diff) outcome"
where
  "diff_manifests before after =
     fold_outcome (diff_key before after) empty_diff (sort_dedup (bt_keys before @ bt_keys after))"

section \<open>Trees\<close>

record collect_result =
  files :: "(path, node) btree"
  cr_skipped :: "path list"

lemma fold_outcome_cong [fundef_cong]:
  "xs = ys \<Longrightarrow> s = t \<Longrightarrow> (\<And>s x. x \<in> set ys \<Longrightarrow> f s x = g s x) \<Longrightarrow> fold_outcome f s xs = fold_outcome g t ys"
proof (induction xs arbitrary: ys s t)
  case (Cons x xs)
  then show ?case by (cases "g t x") auto
qed simp

lemma size_Dir_mem: "(s, n) \<in> set es \<Longrightarrow> size n < size (Dir es)"
  by (induction es) auto

function diff_walk ::
  "path \<Rightarrow> path \<Rightarrow> node \<Rightarrow> collect_result \<Rightarrow> (dir_diff_error, collect_result) outcome"
where
  "diff_walk root cursor (Dir es) acc =
     fold_outcome (\<lambda>acc (name, n).
       if is_directory n then diff_walk root (cursor @ [Normal name]) n acc
       else if is_regular n
       then Ok (acc\<lparr>files := bt_insert (cursor @ [Normal name]) n (files acc)\<rparr>)
       else Ok (acc\<lparr>cr_skipped := cr_skipped acc @ [cursor @ [Normal name]]\<rparr>)) acc (sort_key fst es)"
| "diff_walk root cursor (BadDir e) acc = Err (DiffIo (root @ cursor) e)"
| "diff_walk root cursor (File b) acc = Err (DiffIo (root @ cursor) not_a_directory)"
| "diff_walk root cursor (BadFile e) acc = Err (DiffIo (root @ cursor) not_a_directory)"
| "diff_walk root cursor Special acc = Err (DiffIo (root @ cursor) not_a_directory)"
  by pat_completeness auto
termination
  by (relation "measure (\<lambda>(_, _, n, _). size n)") (auto dest: size_Dir_mem)

text \<open>\<open>collect\<close>: \<open>symlink_metadata\<close> of the root, then the walk.\<close>

definition collect :: "world \<Rightarrow> path \<Rightarrow> (dir_diff_error, collect_result) outcome" where
  "collect w root =
     (case tree_at w root of
        Ok n \<Rightarrow>
          if is_directory n then diff_walk root [] n \<lparr>files = [], cr_skipped = []\<rparr>
          else Err (NotDir root)
      | Err e \<Rightarrow> Err (DiffIo root e)
      | Panic \<Rightarrow> Panic)"

definition hash_file :: "(string \<Rightarrow> string) \<Rightarrow> path \<Rightarrow> node \<Rightarrow> (dir_diff_error, string) outcome" where
  "hash_file sha256 path f =
     obind (omap_err (DiffIo path) (read_file f)) (\<lambda>bytes. Ok (hex_encode (sha256 bytes)))"

definition diff_step ::
  "(string \<Rightarrow> string) \<Rightarrow> path \<Rightarrow> path \<Rightarrow> (path, node) btree \<Rightarrow> (path, node) btree \<Rightarrow> dir_diff \<Rightarrow> path
     \<Rightarrow> (dir_diff_error, dir_diff) outcome"
where
  "diff_step sha256 before after before_files after_files d rel =
     (case (bt_get before_files rel, bt_get after_files rel) of
        (Some b, Some a) \<Rightarrow>
          obind (hash_file sha256 (before @ rel) b) (\<lambda>before_hash.
          obind (hash_file sha256 (after @ rel) a) (\<lambda>after_hash.
          if before_hash = after_hash then Ok (d\<lparr>unchanged := unchanged d @ [rel]\<rparr>)
          else Ok (d\<lparr>changed := changed d @
                 [\<lparr>fc_path = rel, fc_before = ''sha256:'' @ before_hash,
                   fc_after = ''sha256:'' @ after_hash\<rparr>]\<rparr>)))
      | (Some _, None) \<Rightarrow> Ok (d\<lparr>removed := removed d @ [rel]\<rparr>)
      | (None, Some _) \<Rightarrow> Ok (d\<lparr>added := added d @ [rel]\<rparr>)
      | (None, None) \<Rightarrow> Panic)"

definition diff :: "(string \<Rightarrow> string) \<Rightarrow> world \<Rightarrow> path \<Rightarrow> path \<Rightarrow> (dir_diff_error, dir_diff) outcome" where
  "diff sha256 w before after =
     obind (collect w before) (\<lambda>b.
     obind (collect w after) (\<lambda>a.
     fold_outcome (diff_step sha256 before after (files b) (files a))
       (empty_diff\<lparr>skipped := sort_dedup (cr_skipped b @ cr_skipped a)\<rparr>)
       (sort_dedup (bt_keys (files b) @ bt_keys (files a)))))"

section \<open>What a manifest diff holds\<close>

definition change_at :: "(path, string) btree \<Rightarrow> (path, string) btree \<Rightarrow> path \<Rightarrow> file_change" where
  "change_at before after rel =
     \<lparr>fc_path = rel, fc_before = ''sha256:'' @ the (bt_get before rel),
      fc_after = ''sha256:'' @ the (bt_get after rel)\<rparr>"

definition in_both :: "('k, 'v) btree \<Rightarrow> ('k, 'v) btree \<Rightarrow> 'k \<Rightarrow> bool" where
  "in_both before after k \<longleftrightarrow> bt_get before k \<noteq> None \<and> bt_get after k \<noteq> None"

lemma fold_diff_key:
  assumes "\<And>k. k \<in> set ks \<Longrightarrow> bt_get b k \<noteq> None \<or> bt_get a k \<noteq> None"
  shows "fold_outcome (diff_key b a) d ks = Ok (d\<lparr>
      added := added d @ filter (\<lambda>k. bt_get b k = None) ks,
      removed := removed d @ filter (\<lambda>k. bt_get a k = None) ks,
      changed := changed d @ map (change_at b a)
        (filter (\<lambda>k. in_both b a k \<and> bt_get b k \<noteq> bt_get a k) ks),
      unchanged := unchanged d @ filter (\<lambda>k. in_both b a k \<and> bt_get b k = bt_get a k) ks\<rparr>)"
  using assms
proof (induction ks arbitrary: d)
  case (Cons k ks)
  have "bt_get b k \<noteq> None \<or> bt_get a k \<noteq> None" by (rule Cons.prems) simp
  with Cons show ?case
    by (cases "bt_get b k"; cases "bt_get a k")
      (simp_all add: diff_key_def in_both_def change_at_def)
qed simp

lemma diff_manifests_cases:
  "\<exists>d. diff_manifests b a = Ok d
    \<and> sorted_wrt (<) (added d) \<and> set (added d) = dom (bt_get a) - dom (bt_get b)
    \<and> sorted_wrt (<) (removed d) \<and> set (removed d) = dom (bt_get b) - dom (bt_get a)
    \<and> sorted_wrt (<) (unchanged d) \<and> set (unchanged d) = {k. \<exists>h. bt_get b k = Some h \<and> bt_get a k = Some h}
    \<and> sorted_wrt (<) (map fc_path (changed d))
    \<and> set (changed d) = {\<lparr>fc_path = k, fc_before = ''sha256:'' @ h, fc_after = ''sha256:'' @ h'\<rparr> | k h h'.
          bt_get b k = Some h \<and> bt_get a k = Some h' \<and> h \<noteq> h'}
    \<and> skipped d = []"
proof -
  let ?ks = "sort_dedup (bt_keys b @ bt_keys a)"
  have ks: "set ?ks = dom (bt_get b) \<union> dom (bt_get a)" by (simp add: bt_keys_dom)
  have sorted: "sorted_wrt (<) (filter P ?ks)" for P
    by (intro sorted_wrt_filter sort_dedup_strict)
  have path: "map fc_path (map (change_at b a) xs) = xs" for xs
    by (induction xs) (simp_all add: change_at_def)
  define d where "d = empty_diff\<lparr>
      added := filter (\<lambda>k. bt_get b k = None) ?ks,
      removed := filter (\<lambda>k. bt_get a k = None) ?ks,
      changed := map (change_at b a) (filter (\<lambda>k. in_both b a k \<and> bt_get b k \<noteq> bt_get a k) ?ks),
      unchanged := filter (\<lambda>k. in_both b a k \<and> bt_get b k = bt_get a k) ?ks\<rparr>"
  have eq: "diff_manifests b a = Ok d"
    unfolding diff_manifests_def d_def using ks
    by (subst fold_diff_key) (auto simp: empty_diff_def)
  have "set (added d) = dom (bt_get a) - dom (bt_get b)"
    "set (removed d) = dom (bt_get b) - dom (bt_get a)"
    using ks by (auto simp: d_def)
  moreover have "set (unchanged d) = {k. \<exists>h. bt_get b k = Some h \<and> bt_get a k = Some h}"
    using ks by (auto simp: d_def in_both_def)
  moreover have "set (changed d) = {\<lparr>fc_path = k, fc_before = ''sha256:'' @ h, fc_after = ''sha256:'' @ h'\<rparr> | k h h'.
          bt_get b k = Some h \<and> bt_get a k = Some h' \<and> h \<noteq> h'}"
    using ks by (auto simp: d_def in_both_def change_at_def image_iff)
  moreover have "map fc_path (changed d) = filter (\<lambda>k. in_both b a k \<and> bt_get b k \<noteq> bt_get a k) ?ks"
    unfolding d_def using path by simp
  moreover have "skipped d = []" by (simp add: d_def empty_diff_def)
  moreover have "sorted_wrt (<) (added d)" "sorted_wrt (<) (removed d)" "sorted_wrt (<) (unchanged d)"
    by (simp_all add: d_def sorted)
  ultimately show ?thesis using eq sorted by auto
qed

text \<open>
  A manifest diff never hits its \<open>unreachable!\<close> arm and is a partition of the paths of the two manifests:
  \<open>added\<close> the paths of the second only, \<open>removed\<close> those of the first only, \<open>changed\<close> those with two
  different hashes (reported with the prefix), \<open>unchanged\<close> those with one; each list ascending.
\<close>

theorem diff_manifests_partition:
  "\<exists>d. diff_manifests b a = Ok d
    \<and> sorted_wrt (<) (added d) \<and> set (added d) = dom (bt_get a) - dom (bt_get b)
    \<and> sorted_wrt (<) (removed d) \<and> set (removed d) = dom (bt_get b) - dom (bt_get a)
    \<and> sorted_wrt (<) (unchanged d) \<and> set (unchanged d) = {k. \<exists>h. bt_get b k = Some h \<and> bt_get a k = Some h}
    \<and> sorted_wrt (<) (map fc_path (changed d))
    \<and> set (changed d) = {\<lparr>fc_path = k, fc_before = ''sha256:'' @ h, fc_after = ''sha256:'' @ h'\<rparr> | k h h'.
          bt_get b k = Some h \<and> bt_get a k = Some h' \<and> h \<noteq> h'}
    \<and> skipped d = []"
  by (rule diff_manifests_cases)

lemma clean_iff:
  assumes "diff_manifests b a = Ok d"
  shows "is_clean d \<longleftrightarrow> bt_get b = bt_get a"
proof -
  from diff_manifests_cases [of b a] assms have d:
    "set (added d) = dom (bt_get a) - dom (bt_get b)" "set (removed d) = dom (bt_get b) - dom (bt_get a)"
    "set (changed d) = {\<lparr>fc_path = k, fc_before = ''sha256:'' @ h, fc_after = ''sha256:'' @ h'\<rparr> | k h h'.
          bt_get b k = Some h \<and> bt_get a k = Some h' \<and> h \<noteq> h'}" by auto
  have doms: "set (added d) = {} \<and> set (removed d) = {} \<longleftrightarrow> dom (bt_get b) = dom (bt_get a)"
    unfolding d(1,2) by blast
  have chg: "set (changed d) = {} \<longleftrightarrow>
      (\<forall>k h h'. bt_get b k = Some h \<longrightarrow> bt_get a k = Some h' \<longrightarrow> h = h')"
    unfolding d(3) by auto
  have "is_clean d \<longleftrightarrow> dom (bt_get b) = dom (bt_get a)
      \<and> (\<forall>k h h'. bt_get b k = Some h \<longrightarrow> bt_get a k = Some h' \<longrightarrow> h = h')"
    using doms chg unfolding is_clean_def set_empty conj_assoc [symmetric] by (simp only:)
  also have "\<dots> \<longleftrightarrow> bt_get b = bt_get a"
    (is "?L \<longleftrightarrow> ?R")
  proof
    assume L: ?L
    have "bt_get b k = bt_get a k" for k
    proof (cases "bt_get b k")
      case None
      then have "k \<notin> dom (bt_get b)" by (simp add: domIff)
      with L have "k \<notin> dom (bt_get a)" by simp
      with None show ?thesis by (simp add: domIff)
    next
      case (Some h)
      then have "k \<in> dom (bt_get b)" by (rule domI)
      with L have "k \<in> dom (bt_get a)" by simp
      then obtain h' where h': "bt_get a k = Some h'" by (auto simp: dom_def)
      from conjunct2 [OF L, THEN spec, THEN spec, THEN spec, THEN mp, THEN mp, OF Some h'] Some h'
      show ?thesis by simp
    qed
    then show ?R by (simp add: fun_eq_iff)
  qed simp
  finally show ?thesis .
qed

lemma option_eqI: "(\<And>v. x = Some v \<longleftrightarrow> y = Some v) \<Longrightarrow> x = y"
  by (cases x; cases y) auto

section \<open>What the tree walk collects\<close>

fun add_entry :: "path \<times> node \<Rightarrow> collect_result \<Rightarrow> collect_result" where
  "add_entry (p, f) acc =
     (if is_regular f then acc\<lparr>files := bt_insert p f (files acc)\<rparr>
      else acc\<lparr>cr_skipped := cr_skipped acc @ [p]\<rparr>)"

text \<open>The walk of \<open>walk.rs\<close> that keeps every entry that is not a directory.\<close>

abbreviation every_entry :: "path \<Rightarrow> string \<times> node \<Rightarrow> (io_error, (path \<times> node) list) outcome" where
  "every_entry \<equiv> walk_entry (\<lambda>_. False) (\<lambda>_ _. True) (\<lambda>_. False)"

definition entry_list :: "path \<Rightarrow> string \<times> node \<Rightarrow> (path \<times> node) list" where
  "entry_list cursor e = (case every_entry cursor e of Ok ys \<Rightarrow> ys | _ \<Rightarrow> [])"

lemma fold_entries:
  assumes "fold_outcome step acc es = Ok acc'"
    and "\<And>e a a'. e \<in> set es \<Longrightarrow> step a e = Ok a' \<Longrightarrow>
           is_Ok (every_entry cursor e) \<and> (\<exists>xs. a' = fold add_entry xs a \<and> set xs = set (entry_list cursor e))"
  shows "(\<forall>e \<in> set es. is_Ok (every_entry cursor e)) \<and>
    (\<exists>xs. acc' = fold add_entry xs acc \<and> set xs = (\<Union>e \<in> set es. set (entry_list cursor e)))"
  using assms
proof (induction es arbitrary: acc)
  case Nil
  then show ?case by (auto intro: exI [of _ "[]"])
next
  case (Cons e es)
  then obtain a where a: "step acc e = Ok a" "fold_outcome step a es = Ok acc'"
    by (auto simp: outcome_simps)
  from Cons.prems(2) [OF _ a(1)] obtain xs where
    xs: "is_Ok (every_entry cursor e)" "a = fold add_entry xs acc" "set xs = set (entry_list cursor e)"
    by auto
  from Cons.IH [OF a(2)] Cons.prems(2) obtain zs where
    zs: "\<forall>e \<in> set es. is_Ok (every_entry cursor e)" "acc' = fold add_entry zs a"
      "set zs = (\<Union>e \<in> set es. set (entry_list cursor e))"
    by (metis (no_types, lifting) list.set_intros(2))
  show ?case using xs zs by (auto intro!: exI [of _ "xs @ zs"])
qed

lemma concat_ok_all_Ok:
  "(\<forall>x \<in> set xs. is_Ok (f x)) \<Longrightarrow>
     concat_ok (map f xs) = Ok (concat (map (\<lambda>x. case f x of Ok a \<Rightarrow> a | _ \<Rightarrow> []) xs))"
  by (induction xs) (auto simp: is_Ok_iff)

lemma diff_walk_collects:
  assumes "diff_walk root cursor n acc = Ok acc'"
  shows "\<exists>xs ys. walk_tree (\<lambda>_. False) (\<lambda>_ _. True) (\<lambda>_. False) cursor n = Ok ys
    \<and> set xs = set ys \<and> acc' = fold add_entry xs acc"
  using assms
proof (induction n arbitrary: cursor acc acc')
  case (Dir es)
  let ?step = "\<lambda>acc (name, n).
       if is_directory n then diff_walk root (cursor @ [Normal name]) n acc
       else if is_regular n
       then Ok (acc\<lparr>files := bt_insert (cursor @ [Normal name]) n (files acc)\<rparr>)
       else Ok (acc\<lparr>cr_skipped := cr_skipped acc @ [cursor @ [Normal name]]\<rparr>)"
  have fold: "fold_outcome ?step acc (sort_key fst es) = Ok acc'" using Dir.prems by simp
  have step: "is_Ok (every_entry cursor e) \<and> (\<exists>xs. a' = fold add_entry xs a \<and> set xs = set (entry_list cursor e))"
    if e: "e \<in> set (sort_key fst es)" and a: "?step a e = Ok a'" for e a a'
  proof -
    obtain name n where nm: "e = (name, n)" by (cases e)
    show ?thesis
    proof (cases "is_directory n")
      case True
      with a nm have walk: "diff_walk root (cursor @ [Normal name]) n a = Ok a'" by simp
      have "(name, n) \<in> set es" "n \<in> Basic_BNFs.snds (name, n)" using e nm by simp_all
      from Dir.IH [OF this walk] obtain xs ys where
        "walk_tree (\<lambda>_. False) (\<lambda>_ _. True) (\<lambda>_. False) (cursor @ [Normal name]) n = Ok ys"
        "set xs = set ys" "a' = fold add_entry xs a" by blast
      with True nm show ?thesis by (auto simp: walk_entry_def entry_list_def)
    next
      case False
      with a nm have "a' = fold add_entry [(cursor @ [Normal name], n)] a"
        by (auto split: if_splits)
      with False nm show ?thesis
        by (auto simp: walk_entry_def entry_list_def intro!: exI [of _ "[(cursor @ [Normal name], n)]"])
    qed
  qed
  from fold_entries [OF fold step] obtain xs where
    ok: "\<forall>e \<in> set es. is_Ok (every_entry cursor e)" and acc: "acc' = fold add_entry xs acc"
    and xs: "set xs = (\<Union>e \<in> set es. set (entry_list cursor e))" by auto
  have "walk_tree (\<lambda>_. False) (\<lambda>_ _. True) (\<lambda>_. False) cursor (Dir es) = Ok (concat (map (entry_list cursor) es))"
    unfolding walk_tree_Dir concat_ok_all_Ok [OF ok] entry_list_def by simp
  with acc xs show ?case by (intro exI [of _ xs] exI [of _ "concat (map (entry_list cursor) es)"]) auto
qed simp_all

lemma files_fold_add_entry:
  "files (fold add_entry xs acc) = btree.put_all (filter (\<lambda>(p, f). is_regular f) xs) (files acc)"
  by (induction xs arbitrary: acc) (auto simp: split_paired_all)

lemma skipped_fold_add_entry:
  "cr_skipped (fold add_entry xs acc) = cr_skipped acc @ map fst (filter (\<lambda>(p, f). \<not> is_regular f) xs)"
  by (induction xs arbitrary: acc) (auto simp: split_paired_all)

lemma map_of_functional:
  "(\<And>k v v'. (k, v) \<in> set xs \<Longrightarrow> (k, v') \<in> set xs \<Longrightarrow> v = v') \<Longrightarrow> map_of xs k = Some v \<longleftrightarrow> (k, v) \<in> set xs"
proof (induction xs)
  case (Cons x xs)
  obtain k' v' where x: "x = (k', v')" by (cases x)
  have IH: "map_of xs k = Some v \<longleftrightarrow> (k, v) \<in> set xs"
    by (rule Cons.IH) (meson Cons.prems list.set_intros(2))
  show ?case
  proof (cases "k = k'")
    case True
    then show ?thesis using Cons.prems [of k v' v] x by auto
  qed (use IH x in auto)
qed simp

definition special_at :: "node \<Rightarrow> path \<Rightarrow> bool" where
  "special_at n p \<longleftrightarrow> p \<noteq> [] \<and> node_at n p = Some Special"

lemma not_dir_cases: "\<not> is_directory f \<Longrightarrow> is_regular f \<or> f = Special"
  by (cases f) auto

text \<open>\<open>collect\<close> finds the regular files and the special entries of the tree.\<close>

lemma collect_exact:
  assumes "collect w root = Ok r" "tree_at w root = Ok n" "wf_node n"
  shows "bt_inv (files r)" "bt_get (files r) p = Some f \<longleftrightarrow> file_at n p f"
    "p \<in> set (cr_skipped r) \<longleftrightarrow> special_at n p"
proof -
  from assms(1,2) have walk: "diff_walk root [] n \<lparr>files = [], cr_skipped = []\<rparr> = Ok r"
    by (auto simp: collect_def split: if_splits)
  from diff_walk_collects [OF walk] obtain xs ys where
    ys: "walk_tree (\<lambda>_. False) (\<lambda>_ _. True) (\<lambda>_. False) [] n = Ok ys"
    and xs: "set xs = set ys" and r: "r = fold add_entry xs \<lparr>files = [], cr_skipped = []\<rparr>" by blast
  note correct = walk_tree_correct [OF assms(3) ys]
  have vis: "(p, f) \<in> set xs \<longleftrightarrow> p \<noteq> [] \<and> node_at n p = Some f \<and> \<not> is_directory f" for p f
    unfolding xs using correct(1) node_at_names [of n p f]
    by (auto simp: visible_def list_all_iff)
  show "bt_inv (files r)"
    unfolding r files_fold_add_entry by (rule btree.inv_put_all) (simp add: bt_inv_def)
  let ?reg = "filter (\<lambda>(p, f). is_regular f) xs"
  have "map_of (rev ?reg) p = Some f \<longleftrightarrow> (p, f) \<in> set (rev ?reg)" for p f
    by (rule map_of_functional) (auto simp: vis)
  then show "bt_get (files r) p = Some f \<longleftrightarrow> file_at n p f"
    unfolding r files_fold_add_entry
    using node_at_names [of n p f]
    by (subst btree.get_put_all)
      (auto simp: bt_inv_def bt_get_def vis file_at_iff map_add_Some_iff dest: is_regular_not_directory)
  show "p \<in> set (cr_skipped r) \<longleftrightarrow> special_at n p"
    unfolding r skipped_fold_add_entry special_at_def
    using not_dir_cases by (auto simp: vis image_iff)
qed

section \<open>The tree diff refines the manifest diff\<close>

text \<open>The manifest a caller without a filesystem would have hashed for these files.\<close>

definition manifest_of :: "(string \<Rightarrow> string) \<Rightarrow> (path, node) btree \<Rightarrow> (path, string) btree" where
  "manifest_of sha256 fs =
     map (apsnd (\<lambda>f. case f of File bytes \<Rightarrow> hex_encode (sha256 bytes) | _ \<Rightarrow> [])) fs"

lemma manifest_of_get:
  "bt_get (manifest_of sha256 fs) p =
     map_option (\<lambda>f. case f of File bytes \<Rightarrow> hex_encode (sha256 bytes) | _ \<Rightarrow> []) (bt_get fs p)"
  by (induction fs) (auto simp: manifest_of_def bt_get_def)

lemma manifest_of_keys [simp]: "bt_keys (manifest_of sha256 fs) = bt_keys fs"
  by (simp add: manifest_of_def bt_keys_def)

lemma diff_step_refines:
  assumes "diff_step sha256 before after b a d rel = Ok d'"
  shows "diff_key (manifest_of sha256 b) (manifest_of sha256 a) (d\<lparr>skipped := []\<rparr>) rel = Ok (d'\<lparr>skipped := []\<rparr>)
    \<and> skipped d' = skipped d"
proof (cases "bt_get b rel"; cases "bt_get a rel")
  fix f g
  assume fg: "bt_get b rel = Some f" "bt_get a rel = Some g"
  with assms obtain bs cs where bc: "f = File bs" "g = File cs"
    by (auto simp: diff_step_def hash_file_def outcome_simps read_file_Ok)
  show ?thesis
    using assms fg bc
    by (cases "hex_encode (sha256 bs) = hex_encode (sha256 cs)")
      (auto simp: diff_step_def diff_key_def manifest_of_get hash_file_def)
qed (use assms in \<open>auto simp: diff_step_def diff_key_def manifest_of_get\<close>)

lemma fold_outcome_all: "fold_outcome f s xs = Ok t \<Longrightarrow> x \<in> set xs \<Longrightarrow> \<exists>s1 s2. f s1 x = Ok s2"
  by (induction xs arbitrary: s) (auto simp: outcome_simps)

lemma diff_step_readable:
  assumes "diff_step sha256 before after b a d rel = Ok d'" "bt_get b rel = Some f" "bt_get a rel = Some g"
  shows "\<exists>bs cs. f = File bs \<and> g = File cs"
  using assms by (auto simp: diff_step_def hash_file_def outcome_simps read_file_Ok)

lemma diff_fold_refines:
  "fold_outcome (diff_step sha256 before after b a) d ks = Ok d' \<Longrightarrow>
     fold_outcome (diff_key (manifest_of sha256 b) (manifest_of sha256 a)) (d\<lparr>skipped := []\<rparr>) ks
       = Ok (d'\<lparr>skipped := []\<rparr>) \<and> skipped d' = skipped d"
proof (induction ks arbitrary: d)
  case (Cons k ks)
  then obtain d1 where d1: "diff_step sha256 before after b a d k = Ok d1"
    "fold_outcome (diff_step sha256 before after b a) d1 ks = Ok d'" by (auto simp: outcome_simps)
  from diff_step_refines [OF d1(1)] Cons.IH [OF d1(2)] show ?case by simp
qed simp

lemma diff_collected:
  assumes "diff sha256 w before after = Ok d"
  obtains b a where "collect w before = Ok b" "collect w after = Ok a"
    "fold_outcome (diff_step sha256 before after (files b) (files a))
       (empty_diff\<lparr>skipped := sort_dedup (cr_skipped b @ cr_skipped a)\<rparr>)
       (sort_dedup (bt_keys (files b) @ bt_keys (files a))) = Ok d"
    "diff_manifests (manifest_of sha256 (files b)) (manifest_of sha256 (files a)) = Ok (d\<lparr>skipped := []\<rparr>)"
    "skipped d = sort_dedup (cr_skipped b @ cr_skipped a)"
proof -
  from assms(1) obtain b a where c: "collect w before = Ok b" "collect w after = Ok a"
    and fold: "fold_outcome (diff_step sha256 before after (files b) (files a))
       (empty_diff\<lparr>skipped := sort_dedup (cr_skipped b @ cr_skipped a)\<rparr>)
       (sort_dedup (bt_keys (files b) @ bt_keys (files a))) = Ok d"
    by (auto simp: diff_def outcome_simps)
  from diff_fold_refines [OF fold] have
    "fold_outcome (diff_key (manifest_of sha256 (files b)) (manifest_of sha256 (files a))) empty_diff
       (sort_dedup (bt_keys (files b) @ bt_keys (files a))) = Ok (d\<lparr>skipped := []\<rparr>)"
    and sk: "skipped d = sort_dedup (cr_skipped b @ cr_skipped a)"
    by (auto simp: empty_diff_def)
  then show thesis using that c fold by (simp add: diff_manifests_def)
qed

text \<open>
  C30. The diff of two trees is the diff of their hash manifests: when \<open>diff\<close> returns, \<open>diff_manifests\<close> on
  the manifests of the collected files returns the same four lists, and \<open>skipped\<close> lists the entries of
  either tree that are neither file nor directory.
\<close>

theorem diff_refines_manifests:
  assumes "diff sha256 w before after = Ok d"
    and "tree_at w before = Ok nb" "wf_node nb" "tree_at w after = Ok na" "wf_node na"
  shows "\<exists>b a. collect w before = Ok b \<and> collect w after = Ok a
    \<and> diff_manifests (manifest_of sha256 (files b)) (manifest_of sha256 (files a)) = Ok (d\<lparr>skipped := []\<rparr>)
    \<and> sorted_wrt (<) (skipped d) \<and> set (skipped d) = {p. special_at nb p \<or> special_at na p}"
proof -
  obtain b a where c: "collect w before = Ok b" "collect w after = Ok a"
    and m: "diff_manifests (manifest_of sha256 (files b)) (manifest_of sha256 (files a)) = Ok (d\<lparr>skipped := []\<rparr>)"
    and sk: "skipped d = sort_dedup (cr_skipped b @ cr_skipped a)"
    using diff_collected [OF assms(1)] by metis
  have "set (skipped d) = {p. special_at nb p \<or> special_at na p}"
    using collect_exact(3) [OF c(1) assms(2,3)] collect_exact(3) [OF c(2) assms(4,5)]
    by (auto simp: sk)
  then show ?thesis using c m sk sort_dedup_strict by metis
qed

definition diff_world :: world where
  "diff_world = (text_world [])\<lparr>tree_at := (\<lambda>p.
     if p = [Normal ''before''] then Ok (Dir [(''b'', File ''2''), (''a'', File ''1''), (''l'', Special)])
     else Ok (Dir [(''a'', File ''1''), (''b'', File ''3''), (''c'', File ''4'')]))\<rparr>"

definition sample_diff :: dir_diff where
  "sample_diff =
     \<lparr>added = [[Normal ''c'']], removed = [],
      changed = [\<lparr>fc_path = [Normal ''b''], fc_before = ''sha256:32'', fc_after = ''sha256:33''\<rparr>],
      unchanged = [[Normal ''a'']], skipped = [[Normal ''l'']]\<rparr>"

lemma diff_refines_manifests_witness:
  "diff (\<lambda>s. s) diff_world [Normal ''before''] [Normal ''after''] = Ok sample_diff \<and>
   (\<exists>b a. diff_manifests b a = Ok (sample_diff\<lparr>skipped := []\<rparr>))"
proof -
  let ?nb = "Dir [(''b'', File ''2''), (''a'', File ''1''), (''l'', Special)]"
  let ?na = "Dir [(''a'', File ''1''), (''b'', File ''3''), (''c'', File ''4'')]"
  have run: "diff (\<lambda>s. s) diff_world [Normal ''before''] [Normal ''after''] = Ok sample_diff"
    by code_simp
  have at: "tree_at diff_world [Normal ''before''] = Ok ?nb" "wf_node ?nb"
    "tree_at diff_world [Normal ''after''] = Ok ?na" "wf_node ?na"
    by (simp_all add: diff_world_def)
  from diff_refines_manifests [OF run at] run show ?thesis by blast
qed

text \<open>
  \<open>is_clean\<close> means what \<open>akua diff\<close> reports with it: a clean diff of two trees, short of a collision of
  SHA-256, has the same regular files with the same contents on both sides; and two trees with the same
  regular files have a clean diff.
\<close>

theorem diff_is_clean:
  assumes "diff sha256 w before after = Ok d"
    and "tree_at w before = Ok nb" "wf_node nb" "tree_at w after = Ok na" "wf_node na"
  shows "((\<forall>p f. file_at nb p f \<longleftrightarrow> file_at na p f) \<longrightarrow> is_clean d)
    \<and> (is_clean d \<longrightarrow> (\<forall>p f. file_at nb p f \<longleftrightarrow> file_at na p f) \<or> (\<exists>s s'. s \<noteq> s' \<and> sha256 s = sha256 s'))"
proof -
  obtain b a where c: "collect w before = Ok b" "collect w after = Ok a"
    and fold: "fold_outcome (diff_step sha256 before after (files b) (files a))
       (empty_diff\<lparr>skipped := sort_dedup (cr_skipped b @ cr_skipped a)\<rparr>)
       (sort_dedup (bt_keys (files b) @ bt_keys (files a))) = Ok d"
    and m: "diff_manifests (manifest_of sha256 (files b)) (manifest_of sha256 (files a)) = Ok (d\<lparr>skipped := []\<rparr>)"
    using diff_collected [OF assms(1)] by metis
  note atb = collect_exact(2) [OF c(1) assms(2,3)] and ata = collect_exact(2) [OF c(2) assms(4,5)]
  let ?mb = "manifest_of sha256 (files b)" and ?ma = "manifest_of sha256 (files a)"
  have readable: "\<exists>bs cs. f = File bs \<and> g = File cs"
    if fg: "bt_get (files b) p = Some f" "bt_get (files a) p = Some g" for p f g
  proof -
    have "p \<in> set (sort_dedup (bt_keys (files b) @ bt_keys (files a)))"
      using fg by (auto simp: bt_keys_dom)
    from fold_outcome_all [OF fold this] diff_step_readable [OF _ fg] show ?thesis by blast
  qed
  have clean: "is_clean d \<longleftrightarrow> bt_get ?mb = bt_get ?ma"
    using clean_iff [OF m] by (simp add: is_clean_def)
  have eq: "(\<forall>p f. file_at nb p f \<longleftrightarrow> file_at na p f) \<longleftrightarrow> bt_get (files b) = bt_get (files a)"
    unfolding atb [symmetric] ata [symmetric] by (auto simp: fun_eq_iff intro: option_eqI)
  have "bt_get (files b) p = bt_get (files a) p"
    if "bt_get ?mb = bt_get ?ma" "\<nexists>s s'. s \<noteq> s' \<and> sha256 s = sha256 s'" for p
  proof (cases "bt_get (files b) p"; cases "bt_get (files a) p")
    fix f g
    assume fg: "bt_get (files b) p = Some f" "bt_get (files a) p = Some g"
    with readable obtain bs cs where bc: "f = File bs" "g = File cs" by blast
    with fun_cong [OF that(1), of p] fg have "sha256 bs = sha256 cs"
      by (auto simp: manifest_of_get dest: hex_encode_inject)
    with that(2) bc fg show ?thesis by metis
  qed (use fun_cong [OF that(1), of p] in \<open>auto simp: manifest_of_get\<close>)
  with clean eq show ?thesis by (auto simp: fun_eq_iff manifest_of_get)
qed

definition clean_world :: world where
  "clean_world = (text_world [])\<lparr>tree_at := (\<lambda>p.
     if p = [Normal ''before''] then Ok (Dir [(''b'', File ''2''), (''a'', File ''1''), (''l'', Special)])
     else Ok (Dir [(''a'', File ''1''), (''e'', Dir []), (''b'', File ''2'')]))\<rparr>"

lemma diff_is_clean_witness:
  "\<forall>p f. file_at (Dir [(''b'', File ''2''), (''a'', File ''1''), (''l'', Special)]) p f
   \<longleftrightarrow> file_at (Dir [(''a'', File ''1''), (''e'', Dir []), (''b'', File ''2'')]) p f"
proof -
  obtain d where run: "diff (\<lambda>s. s) clean_world [Normal ''before''] [Normal ''after''] = Ok d"
    and clean: "is_clean d"
  proof -
    have "case diff (\<lambda>s. s) clean_world [Normal ''before''] [Normal ''after''] of
        Ok d \<Rightarrow> is_clean d | _ \<Rightarrow> False" by code_simp
    then show thesis using that by (auto split: outcome.splits)
  qed
  let ?nb = "Dir [(''b'', File ''2''), (''a'', File ''1''), (''l'', Special)]"
  let ?na = "Dir [(''a'', File ''1''), (''e'', Dir []), (''b'', File ''2'')]"
  have at: "tree_at clean_world [Normal ''before''] = Ok ?nb" "wf_node ?nb"
    "tree_at clean_world [Normal ''after''] = Ok ?na" "wf_node ?na"
    by (simp_all add: clean_world_def)
  from diff_is_clean [OF run at] clean show ?thesis by blast
qed

end
