(* ===== verification/OciAuth.thy ===== *)
theory OciAuth
  imports StdFs
begin

text \<open>
  \<open>oci_auth.rs\<close>: registry credentials from akua's own \<open>auth.toml\<close> and docker's \<open>config.json\<close>. The
  parsers of the \<open>toml\<close> and \<open>serde_json\<close> crates and the base64 codec are the record \<open>codecs\<close>. The
  locale \<open>first_wins\<close> is the contract of a store filled from a preferred source and a fallback.
\<close>

section \<open>The data\<close>

datatype credentials = Basic string string | Bearer string

type_synonym creds_store = "(string, credentials) hashmap"

record akua_auth_entry =
  ae_username :: "string option"
  ae_password :: "string option"
  ae_token :: "string option"

record akua_auth_file =
  registries :: "(string, akua_auth_entry) btree"

record docker_auth_entry =
  de_auth :: "string option"
  de_username :: "string option"
  de_password :: "string option"

record docker_config =
  auths :: "(string, docker_auth_entry) hashmap option"

datatype parse_backend = Toml string | Json string

datatype auth_load_error =
  AuthIo path io_error
| AuthParse path parse_backend

record codecs =
  auth_from_toml :: "string \<Rightarrow> (string, akua_auth_file) outcome"
  auth_to_toml :: "akua_auth_file \<Rightarrow> (string, string) outcome"
  docker_from_json :: "string \<Rightarrow> (string, docker_config) outcome"
  b64_encode :: "string \<Rightarrow> string"
  b64_decode :: "string \<Rightarrow> string option"

fun credentials_header :: "codecs \<Rightarrow> credentials \<Rightarrow> string" where
  "credentials_header cs (Basic u p) = ''Basic '' @ b64_encode cs (u @ '':'' @ p)"
| "credentials_header cs (Bearer t) = ''Bearer '' @ t"

definition for_registry :: "creds_store \<Rightarrow> string \<Rightarrow> credentials option" where
  "for_registry store registry = bt_get store registry"

fun from_credentials :: "credentials \<Rightarrow> akua_auth_entry" where
  "from_credentials (Basic u p) = \<lparr>ae_username = Some u, ae_password = Some p, ae_token = None\<rparr>"
| "from_credentials (Bearer t) = \<lparr>ae_username = None, ae_password = None, ae_token = Some t\<rparr>"

text \<open>\<open>unwrap_or_default\<close> of an optional string.\<close>

fun or_default :: "string option \<Rightarrow> string" where
  "or_default None = []"
| "or_default (Some s) = s"

definition akua_into_credentials :: "akua_auth_entry \<Rightarrow> credentials" where
  "akua_into_credentials e =
     (case ae_token e of
        Some t \<Rightarrow> Bearer t
      | None \<Rightarrow> Basic (or_default (ae_username e)) (or_default (ae_password e)))"

definition docker_into_credentials :: "codecs \<Rightarrow> docker_auth_entry \<Rightarrow> credentials option" where
  "docker_into_credentials cs e =
     (let verbatim = (case (de_username e, de_password e) of
                        (Some u, Some p) \<Rightarrow> Some (Basic u p)
                      | _ \<Rightarrow> None)
      in case de_auth e of
           None \<Rightarrow> verbatim
         | Some b64 \<Rightarrow>
             (case b64_decode cs (trim b64) of
                None \<Rightarrow> verbatim
              | Some decoded \<Rightarrow>
                  if \<not> utf8_valid decoded then verbatim
                  else case split_once '':'' decoded of
                    Some (u, p) \<Rightarrow> Some (Basic u p)
                  | None \<Rightarrow> verbatim))"

section \<open>Where the files are\<close>

definition env_nonempty :: "world \<Rightarrow> string \<Rightarrow> string option" where
  "env_nonempty w v = (case env_var w v of Some s \<Rightarrow> (if s = [] then None else Some s) | None \<Rightarrow> None)"

definition akua_auth_path :: "world \<Rightarrow> path option" where
  "akua_auth_path w =
     (case env_nonempty w ''XDG_CONFIG_HOME'' of
        Some xdg \<Rightarrow> Some (path_join (path_of xdg) (path_of ''akua/auth.toml''))
      | None \<Rightarrow> map_option (\<lambda>home. path_join (path_of home) (path_of ''.config/akua/auth.toml''))
          (env_nonempty w ''HOME''))"

definition docker_config_path :: "world \<Rightarrow> path option" where
  "docker_config_path w =
     (case env_nonempty w ''DOCKER_CONFIG'' of
        Some dc \<Rightarrow> Some (path_join (path_of dc) (path_of ''config.json''))
      | None \<Rightarrow> map_option (\<lambda>home. path_join (path_of home) (path_of ''.docker/config.json''))
          (env_nonempty w ''HOME''))"

section \<open>Loading\<close>

definition merge_akua_auth ::
  "codecs \<Rightarrow> world \<Rightarrow> path \<Rightarrow> creds_store \<Rightarrow> (auth_load_error, creds_store) outcome"
where
  "merge_akua_auth cs w p store =
     (case read_to_string w p of
        Err e \<Rightarrow> (if io_kind e = NotFound then Ok store else Err (AuthIo p e))
      | Panic \<Rightarrow> Panic
      | Ok body \<Rightarrow>
          obind (omap_err (\<lambda>e. AuthParse p (Toml e)) (auth_from_toml cs body)) (\<lambda>parsed.
          Ok (fold (\<lambda>(registry, entry). entry_or_insert registry (akua_into_credentials entry))
                (registries parsed) store)))"

definition merge_docker_config ::
  "codecs \<Rightarrow> world \<Rightarrow> path \<Rightarrow> creds_store \<Rightarrow> (auth_load_error, creds_store) outcome"
where
  "merge_docker_config cs w p store =
     (case read_to_string w p of
        Err e \<Rightarrow> (if io_kind e = NotFound then Ok store else Err (AuthIo p e))
      | Panic \<Rightarrow> Panic
      | Ok body \<Rightarrow>
          obind (omap_err (\<lambda>e. AuthParse p (Json e)) (docker_from_json cs body)) (\<lambda>parsed.
          Ok (fold (\<lambda>(registry, entry) s.
                (case docker_into_credentials cs entry of
                   Some creds \<Rightarrow> entry_or_insert registry creds s
                 | None \<Rightarrow> s))
                (case auths parsed of Some a \<Rightarrow> a | None \<Rightarrow> []) store)))"

definition load_creds :: "codecs \<Rightarrow> world \<Rightarrow> (auth_load_error, creds_store) outcome" where
  "load_creds cs w =
     obind (case akua_auth_path w of Some p \<Rightarrow> merge_akua_auth cs w p [] | None \<Rightarrow> Ok []) (\<lambda>store.
       case docker_config_path w of Some p \<Rightarrow> merge_docker_config cs w p store | None \<Rightarrow> Ok store)"

section \<open>Listing and writing\<close>

record registry_summary =
  rs_registry :: string
  rs_source :: string
  rs_auth_kind :: string

record source_presence =
  in_akua :: bool
  in_docker :: bool
  sp_auth_kind :: string

definition auth_read_string :: "world \<Rightarrow> path \<Rightarrow> (auth_load_error, string) outcome" where
  "auth_read_string w p = omap_err (AuthIo p) (read_to_string w p)"

definition note_akua ::
  "string \<times> akua_auth_entry \<Rightarrow> (string, source_presence) btree \<Rightarrow> (string, source_presence) btree"
where
  "note_akua = (\<lambda>(registry, entry) m.
     (let kind = (if ae_token entry = None then ''basic'' else ''bearer'')
      in case bt_get m registry of
           Some p \<Rightarrow> bt_insert registry (p\<lparr>in_akua := True, sp_auth_kind := kind\<rparr>) m
         | None \<Rightarrow> bt_insert registry \<lparr>in_akua = True, in_docker = False, sp_auth_kind = kind\<rparr> m))"

definition note_docker ::
  "string \<times> docker_auth_entry \<Rightarrow> (string, source_presence) btree \<Rightarrow> (string, source_presence) btree"
where
  "note_docker = (\<lambda>(registry, _) m.
     (case bt_get m registry of
        Some p \<Rightarrow> bt_insert registry (p\<lparr>in_docker := True\<rparr>) m
      | None \<Rightarrow> bt_insert registry \<lparr>in_akua = False, in_docker = True, sp_auth_kind = ''basic''\<rparr> m))"

definition summary_of :: "string \<times> source_presence \<Rightarrow> (auth_load_error, registry_summary) outcome" where
  "summary_of = (\<lambda>(registry, p).
     (let mk = (\<lambda>s. Ok \<lparr>rs_registry = registry, rs_source = s, rs_auth_kind = sp_auth_kind p\<rparr>)
      in if in_akua p \<and> in_docker p then mk ''both''
         else if in_akua p then mk ''akua''
         else if in_docker p then mk ''docker''
         else Panic))"

fun map_outcome :: "('a \<Rightarrow> ('e, 'b) outcome) \<Rightarrow> 'a list \<Rightarrow> ('e, 'b list) outcome" where
  "map_outcome f [] = Ok []"
| "map_outcome f (x # xs) = obind (f x) (\<lambda>y. obind (map_outcome f xs) (\<lambda>ys. Ok (y # ys)))"

definition list_sources :: "codecs \<Rightarrow> world \<Rightarrow> (auth_load_error, registry_summary list) outcome" where
  "list_sources cs w =
     obind (case akua_auth_path w of
          Some p \<Rightarrow>
            if exists w p
            then obind (auth_read_string w p) (\<lambda>body.
                 obind (omap_err (\<lambda>e. AuthParse p (Toml e)) (auth_from_toml cs body)) (\<lambda>parsed.
                 Ok (fold note_akua (registries parsed) [])))
            else Ok []
        | None \<Rightarrow> Ok []) (\<lambda>by_registry.
     obind (case docker_config_path w of
          Some p \<Rightarrow>
            if exists w p
            then obind (auth_read_string w p) (\<lambda>body.
                 obind (omap_err (\<lambda>e. AuthParse p (Json e)) (docker_from_json cs body)) (\<lambda>parsed.
                 Ok (fold note_docker (case auths parsed of Some a \<Rightarrow> a | None \<Rightarrow> []) by_registry)))
            else Ok by_registry
        | None \<Rightarrow> Ok by_registry) (\<lambda>by_registry.
     map_outcome summary_of by_registry))"

definition load_file :: "codecs \<Rightarrow> world \<Rightarrow> path \<Rightarrow> (auth_load_error, akua_auth_file) outcome" where
  "load_file cs w p =
     (if \<not> exists w p then Ok \<lparr>registries = []\<rparr>
      else obind (auth_read_string w p) (\<lambda>body.
           omap_err (\<lambda>e. AuthParse p (Toml e)) (auth_from_toml cs body)))"

text \<open>\<open>Path::with_extension\<close> for a non-empty extension.\<close>

definition file_stem :: "string \<Rightarrow> string" where
  "file_stem s =
     (case rsplit_once CHR ''.'' s of Some (a, _) \<Rightarrow> (if a = [] then s else a) | None \<Rightarrow> s)"

definition with_extension :: "path \<Rightarrow> string \<Rightarrow> path" where
  "with_extension p ext =
     (if p = [] then p
      else case last p of
        Normal s \<Rightarrow> butlast p @ [Normal (file_stem s @ ''.'' @ ext)]
      | _ \<Rightarrow> p)"

definition write_file ::
  "codecs \<Rightarrow> path \<Rightarrow> akua_auth_file \<Rightarrow> world \<Rightarrow> (auth_load_error, world) outcome"
where
  "write_file cs p file w =
     obind (case parent p of
          Some d \<Rightarrow> (if d = [] then Ok w else omap_err (AuthIo d) (fs_create_dir_all d w))
        | None \<Rightarrow> Ok w) (\<lambda>w.
     obind (omap_err (\<lambda>e. AuthIo p \<lparr>io_kind = OtherKind, io_msg = e\<rparr>) (auth_to_toml cs file)) (\<lambda>body.
     let tmp = with_extension p ''toml.tmp''
     in obind (omap_err (AuthIo tmp) (fs_write tmp body w)) (\<lambda>w.
        omap_err (AuthIo p) (fs_rename tmp p w))))"

definition upsert_entry ::
  "codecs \<Rightarrow> path \<Rightarrow> string \<Rightarrow> credentials \<Rightarrow> world \<Rightarrow> (auth_load_error, world) outcome"
where
  "upsert_entry cs p registry creds w =
     obind (load_file cs w p) (\<lambda>file.
       write_file cs p
         (file\<lparr>registries := bt_insert registry (from_credentials creds) (registries file)\<rparr>) w)"

definition remove_entry ::
  "codecs \<Rightarrow> path \<Rightarrow> string \<Rightarrow> world \<Rightarrow> (auth_load_error, bool \<times> world) outcome"
where
  "remove_entry cs p registry w =
     obind (load_file cs w p) (\<lambda>file.
       let removed = (bt_get (registries file) registry \<noteq> None);
           file = file\<lparr>registries := bt_remove registry (registries file)\<rparr>
       in if removed then obind (write_file cs p file w) (\<lambda>w. Ok (True, w)) else Ok (False, w))"

section \<open>Precedence\<close>

text \<open>A store in which an entry that is already there is never replaced.\<close>

locale first_wins =
  fixes get :: "'s \<Rightarrow> 'k \<Rightarrow> 'v option"
    and offer :: "'k \<Rightarrow> 'v \<Rightarrow> 's \<Rightarrow> 's"
    and inv :: "'s \<Rightarrow> bool"
  assumes get_offer: "inv s \<Longrightarrow> get (offer k v s) =
      (\<lambda>k'. if k' = k then Some (case get s k of None \<Rightarrow> v | Some u \<Rightarrow> u) else get s k')"
    and inv_offer: "inv s \<Longrightarrow> inv (offer k v s)"
begin

lemma inv_offers: "inv s \<Longrightarrow> inv (fold (\<lambda>(k, e). offer k (f e)) kvs s)"
  by (induction kvs arbitrary: s) (auto simp: inv_offer)

lemma get_offers:
  "inv s \<Longrightarrow> get (fold (\<lambda>(k, e). offer k (f e)) kvs s) k =
     (case get s k of Some u \<Rightarrow> Some u | None \<Rightarrow> map_option f (map_of kvs k))"
  by (induction kvs arbitrary: s) (auto simp: inv_offer get_offer split: option.splits)

text \<open>Entries that yield nothing are passed over.\<close>

lemma get_partial_offers:
  assumes "inv s" "distinct (map fst kvs)"
  shows "get (fold (\<lambda>(k, e) s. case f e of Some v \<Rightarrow> offer k v s | None \<Rightarrow> s) kvs s) k =
     (case get s k of Some u \<Rightarrow> Some u | None \<Rightarrow> Option.bind (map_of kvs k) f)"
  using assms
proof (induction kvs arbitrary: s)
  case (Cons kv kvs)
  obtain k' e where kv: "kv = (k', e)" by (cases kv)
  have none: "map_of kvs k' = None" using Cons.prems(2) kv by (simp add: map_of_eq_None_iff)
  from Cons kv none show ?case
    by (cases "f e") (auto simp: inv_offer get_offer split: option.splits)
qed (simp split: option.splits)

end

interpretation creds: first_wins bt_get entry_or_insert hm_inv
  by unfold_locales (simp_all add: fun_eq_iff get_entry_or_insert inv_entry_or_insert)

text \<open>What the two files say, where they can be read.\<close>

definition akua_entries :: "codecs \<Rightarrow> world \<Rightarrow> (string, akua_auth_entry) btree" where
  "akua_entries cs w =
     (case akua_auth_path w of
        None \<Rightarrow> []
      | Some p \<Rightarrow> (case obind (omap_err (\<lambda>_. []) (read_to_string w p)) (auth_from_toml cs) of
          Ok f \<Rightarrow> registries f | _ \<Rightarrow> []))"

definition docker_entries :: "codecs \<Rightarrow> world \<Rightarrow> (string, docker_auth_entry) hashmap" where
  "docker_entries cs w =
     (case docker_config_path w of
        None \<Rightarrow> []
      | Some p \<Rightarrow> (case obind (omap_err (\<lambda>_. []) (read_to_string w p)) (docker_from_json cs) of
          Ok f \<Rightarrow> (case auths f of Some a \<Rightarrow> a | None \<Rightarrow> []) | _ \<Rightarrow> []))"

lemma load_creds_store:
  assumes "load_creds cs w = Ok store"
  shows "store = fold (\<lambda>(k, e) s. case docker_into_credentials cs e of
            Some v \<Rightarrow> entry_or_insert k v s | None \<Rightarrow> s) (docker_entries cs w)
          (fold (\<lambda>(k, e). entry_or_insert k (akua_into_credentials e)) (akua_entries cs w) [])"
proof -
  from assms obtain s1 where
    s1: "(case akua_auth_path w of Some p \<Rightarrow> merge_akua_auth cs w p [] | None \<Rightarrow> Ok []) = Ok s1"
    and st: "(case docker_config_path w of Some p \<Rightarrow> merge_docker_config cs w p s1 | None \<Rightarrow> Ok s1) = Ok store"
    by (auto simp: load_creds_def outcome_simps)
  have "s1 = fold (\<lambda>(k, e). entry_or_insert k (akua_into_credentials e)) (akua_entries cs w) []"
    using s1 by (auto simp: merge_akua_auth_def akua_entries_def outcome_simps
        split: option.splits outcome.splits if_splits)
  with st show ?thesis
    by (auto simp: merge_docker_config_def docker_entries_def outcome_simps
        split: option.splits outcome.splits if_splits)
qed

text \<open>
  The credentials for a registry are those of \<open>auth.toml\<close> when it names the registry, whatever docker's
  file says; otherwise those of docker's entry, if it yields any; otherwise none.
\<close>

theorem load_creds_precedence:
  assumes "load_creds cs w = Ok store" "hm_inv (docker_entries cs w)"
  shows "for_registry store r =
    (case bt_get (akua_entries cs w) r of
       Some e \<Rightarrow> Some (akua_into_credentials e)
     | None \<Rightarrow> Option.bind (bt_get (docker_entries cs w) r) (docker_into_credentials cs))"
proof -
  have inv: "hm_inv (fold (\<lambda>(k, e). entry_or_insert k (akua_into_credentials e)) (akua_entries cs w) [])"
    by (rule creds.inv_offers) (simp add: hm_inv_def)
  have "hm_inv []" by (simp add: hm_inv_def)
  note akua = creds.get_offers [OF this, of akua_into_credentials "akua_entries cs w" r]
  note docker = creds.get_partial_offers [OF inv assms(2) [unfolded hm_inv_def], of "docker_into_credentials cs" r]
  show ?thesis
    unfolding for_registry_def load_creds_store [OF assms(1)] docker akua
    by (simp add: bt_get_def split: option.split)
qed

definition test_codecs :: codecs where
  "test_codecs =
     \<lparr>auth_from_toml = (\<lambda>s.
        if s = ''akua'' then Ok \<lparr>registries =
          [(''ghcr.io'', \<lparr>ae_username = Some ''u'', ae_password = Some ''p'', ae_token = Some ''tok''\<rparr>)]\<rparr>
        else if s = ''written'' then Ok \<lparr>registries =
          [(''ghcr.io'', from_credentials (Basic ''a'' ''b''))]\<rparr>
        else Err ''expected a table''),
      auth_to_toml = (\<lambda>f.
        if f = \<lparr>registries = [(''ghcr.io'', from_credentials (Basic ''a'' ''b''))]\<rparr> then Ok ''written''
        else Err ''unsupported''),
      docker_from_json = (\<lambda>_. Ok \<lparr>auths = Some
        [(''quay.io'', \<lparr>de_auth = Some ''dTpwOnE='', de_username = None, de_password = None\<rparr>),
         (''ghcr.io'', \<lparr>de_auth = None, de_username = Some ''d'', de_password = Some ''e''\<rparr>)]\<rparr>),
      b64_encode = (\<lambda>s. s),
      b64_decode = (\<lambda>s. if s = ''dTpwOnE='' then Some ''u:p:q'' else None)\<rparr>"

definition auth_world :: world where
  "auth_world = (text_world ''akua'')\<lparr>env_var := (\<lambda>v. if v = ''HOME'' then Some ''/root'' else None)\<rparr>"

lemma load_creds_precedence_witness:
  "(case load_creds test_codecs auth_world of
      Ok store \<Rightarrow> for_registry store ''ghcr.io'' = Some (Bearer ''tok'')
        \<and> for_registry store ''quay.io'' = Some (Basic ''u'' ''p:q'') \<and> for_registry store ''x'' = None
    | _ \<Rightarrow> False)"
proof -
  have "is_Ok (load_creds test_codecs auth_world)" by code_simp
  then obtain store where s: "load_creds test_codecs auth_world = Ok store" by (auto simp: is_Ok_iff)
  have inv: "hm_inv (docker_entries test_codecs auth_world)" by code_simp
  have e: "bt_get (akua_entries test_codecs auth_world) ''ghcr.io'' =
        Some \<lparr>ae_username = Some ''u'', ae_password = Some ''p'', ae_token = Some ''tok''\<rparr>"
    "bt_get (akua_entries test_codecs auth_world) ''quay.io'' = None"
    "bt_get (akua_entries test_codecs auth_world) ''x'' = None"
    "bt_get (docker_entries test_codecs auth_world) ''x'' = None"
    "Option.bind (bt_get (docker_entries test_codecs auth_world) ''quay.io'') (docker_into_credentials test_codecs)
       = Some (Basic ''u'' ''p:q'')"
    by (code_simp, code_simp, code_simp, code_simp, code_simp)
  show ?thesis
    unfolding s by (simp add: load_creds_precedence [OF s inv] e akua_into_credentials_def)
qed

section \<open>Writing\<close>

lemma file_stem_ext: "file_stem s @ ''.'' @ ''toml.tmp'' \<noteq> s"
proof
  assume eq: "file_stem s @ ''.'' @ ''toml.tmp'' = s"
  show False
  proof (cases "rsplit_once CHR ''.'' s")
    case None
    with eq show False by (simp add: file_stem_def)
  next
    case (Some ab)
    obtain a b where ab: "ab = (a, b)" by (cases ab)
    from rsplit_once_Some [OF Some [unfolded ab]] have s: "s = a @ CHR ''.'' # b" "CHR ''.'' \<notin> set b" .
    from eq Some ab have "a \<noteq> []" by (auto simp: file_stem_def)
    with eq Some ab s(1) have "a @ ''.'' @ ''toml.tmp'' = a @ CHR ''.'' # b" by (simp add: file_stem_def)
    then have "b = ''toml.tmp''" by simp
    with s(2) show False by simp
  qed
qed

lemma with_extension_neq:
  assumes "last p = Normal s" "p \<noteq> []"
  shows "with_extension p ''toml.tmp'' \<noteq> p"
proof
  assume "with_extension p ''toml.tmp'' = p"
  with assms have "last (butlast p @ [Normal (file_stem s @ ''.'' @ ''toml.tmp'')]) = last p"
    by (simp add: with_extension_def)
  with assms file_stem_ext [of s] show False by simp
qed

text \<open>A write that succeeds leaves the file with the serialized contents and nothing at the temporary path.\<close>

lemma write_file_Ok:
  assumes "write_file cs p file w = Ok w'" "last p = Normal s" "p \<noteq> []"
  obtains body where "auth_to_toml cs file = Ok body" "read_to_string w' p = Ok body" "exists w' p"
    "\<not> exists w' (with_extension p ''toml.tmp'')"
    "\<And>q. q \<noteq> p \<Longrightarrow> q \<noteq> with_extension p ''toml.tmp'' \<Longrightarrow> read_to_string w' q = read_to_string w q"
proof -
  from assms(1) obtain w1 body w2 where
    w1: "(case parent p of Some d \<Rightarrow> (if d = [] then Ok w else omap_err (AuthIo d) (fs_create_dir_all d w))
        | None \<Rightarrow> Ok w) = Ok w1"
    and body: "auth_to_toml cs file = Ok body"
    and w2: "fs_write (with_extension p ''toml.tmp'') body w1 = Ok w2"
    and w': "fs_rename (with_extension p ''toml.tmp'') p w2 = Ok w'"
    by (auto simp: write_file_def Let_def outcome_simps)
  have r1: "read_to_string w1 = read_to_string w"
    using w1 by (auto simp: fs_create_dir_all_def outcome_simps split: option.splits if_splits)
  from w' with_extension_neq [OF assms(2,3)]
  have "read_to_string w' = (read_to_string w2)(p := read_to_string w2 (with_extension p ''toml.tmp''),
        with_extension p ''toml.tmp'' := Err not_found)"
    "exists w' = (exists w2)(p := exists w2 (with_extension p ''toml.tmp''), with_extension p ''toml.tmp'' := False)"
    by (auto simp: fs_rename_def split: option.splits)
  with with_extension_neq [OF assms(2,3)] fs_write_read [OF w2] fs_write_exists [OF w2] fs_write_frame [OF w2]
    r1 body show thesis by (intro that [of body]) auto
qed

lemma credentials_roundtrip [simp]: "akua_into_credentials (from_credentials c) = c"
  by (cases c) (simp_all add: akua_into_credentials_def)

lemma load_file_written:
  assumes "write_file cs p file w = Ok w'" "last p = Normal s" "p \<noteq> []"
    and codec: "\<forall>f body. auth_to_toml cs f = Ok body \<longrightarrow> auth_from_toml cs body = Ok f"
  shows "load_file cs w' p = Ok file"
proof -
  obtain body where body: "auth_to_toml cs file = Ok body" "read_to_string w' p = Ok body" "exists w' p"
    using write_file_Ok [OF assms(1-3)] by blast
  with codec show ?thesis by (simp add: load_file_def auth_read_string_def)
qed

lemma upsert_then_load:
  assumes u: "upsert_entry cs p r c w = Ok w'" and p: "last p = Normal s" "p \<noteq> []"
    and codec: "\<forall>f body. auth_to_toml cs f = Ok body \<longrightarrow> auth_from_toml cs body = Ok f"
    and load: "load_file cs w p = Ok f"
  shows "load_file cs w' p = Ok (f\<lparr>registries := bt_insert r (from_credentials c) (registries f)\<rparr>)"
    and "\<not> exists w' (with_extension p ''toml.tmp'')"
    and "q \<noteq> p \<Longrightarrow> q \<noteq> with_extension p ''toml.tmp'' \<Longrightarrow> read_to_string w' q = read_to_string w q"
proof -
  let ?f = "f\<lparr>registries := bt_insert r (from_credentials c) (registries f)\<rparr>"
  from u load have wr: "write_file cs p ?f w = Ok w'" by (simp add: upsert_entry_def)
  show "load_file cs w' p = Ok ?f" by (rule load_file_written [OF wr p codec])
  show "\<not> exists w' (with_extension p ''toml.tmp'')"
    and "q \<noteq> p \<Longrightarrow> q \<noteq> with_extension p ''toml.tmp'' \<Longrightarrow> read_to_string w' q = read_to_string w q"
    by (rule write_file_Ok [OF wr p], simp)+
qed

lemma remove_then_load:
  assumes rm: "remove_entry cs p r w = Ok (b, w')" and p: "last p = Normal s" "p \<noteq> []"
    and codec: "\<forall>f body. auth_to_toml cs f = Ok body \<longrightarrow> auth_from_toml cs body = Ok f"
    and load: "load_file cs w p = Ok f"
  shows "b \<longleftrightarrow> bt_get (registries f) r \<noteq> None"
    and "\<exists>f'. load_file cs w' p = Ok f' \<and> bt_get (registries f') = (bt_get (registries f))(r := None)"
proof -
  let ?f = "f\<lparr>registries := bt_remove r (registries f)\<rparr>"
  show b: "b \<longleftrightarrow> bt_get (registries f) r \<noteq> None"
    using rm load by (auto simp: remove_entry_def Let_def outcome_simps split: if_splits)
  show "\<exists>f'. load_file cs w' p = Ok f' \<and> bt_get (registries f') = (bt_get (registries f))(r := None)"
  proof (cases "bt_get (registries f) r")
    case None
    with rm load have "w' = w" by (auto simp: remove_entry_def Let_def)
    moreover have "bt_get (registries f) = (bt_get (registries f))(r := None)" using None by auto
    ultimately show ?thesis using load by blast
  next
    case (Some e)
    with rm load have wr: "write_file cs p ?f w = Ok w'"
      by (auto simp: remove_entry_def Let_def outcome_simps)
    from load_file_written [OF wr p codec] have "load_file cs w' p = Ok ?f" .
    then show ?thesis by (intro exI [of _ ?f]) (simp add: bt_get_remove)
  qed
qed

text \<open>
  Writing credentials and reading them back: after \<open>upsert_entry\<close> the file gives exactly the new
  credentials for the registry and what it gave before for every other, nothing is left at the
  temporary path and no other file has changed; after \<open>remove_entry\<close> it gives none for that registry
  and what it gave before for every other.
\<close>

theorem upsert_entry_roundtrip:
  assumes codec: "\<forall>f body. auth_to_toml cs f = Ok body \<longrightarrow> auth_from_toml cs body = Ok f"
    and p: "last p = Normal s" "p \<noteq> []"
    and load: "load_file cs w p = Ok f"
  shows "(\<forall>w'. upsert_entry cs p r c w = Ok w' \<longrightarrow>
        (\<exists>f'. load_file cs w' p = Ok f'
          \<and> (\<forall>r'. map_option akua_into_credentials (bt_get (registries f') r') =
              (if r' = r then Some c else map_option akua_into_credentials (bt_get (registries f) r'))))
        \<and> \<not> exists w' (with_extension p ''toml.tmp'')
        \<and> (\<forall>q. q \<noteq> p \<longrightarrow> q \<noteq> with_extension p ''toml.tmp'' \<longrightarrow> read_to_string w' q = read_to_string w q))
    \<and> (\<forall>b w'. remove_entry cs p r w = Ok (b, w') \<longrightarrow>
        (b \<longleftrightarrow> bt_get (registries f) r \<noteq> None)
        \<and> (\<exists>f'. load_file cs w' p = Ok f' \<and> bt_get (registries f') = (bt_get (registries f))(r := None)))"
proof (intro conjI allI impI)
  fix w' assume u: "upsert_entry cs p r c w = Ok w'"
  note up = upsert_then_load [OF u p codec load]
  show "\<exists>f'. load_file cs w' p = Ok f'
      \<and> (\<forall>r'. map_option akua_into_credentials (bt_get (registries f') r') =
          (if r' = r then Some c else map_option akua_into_credentials (bt_get (registries f) r')))"
    by (intro exI [of _ "f\<lparr>registries := bt_insert r (from_credentials c) (registries f)\<rparr>"])
      (simp add: up(1) bt_get_insert)
  show "\<not> exists w' (with_extension p ''toml.tmp'')" by (rule up(2))
  show "q \<noteq> p \<Longrightarrow> q \<noteq> with_extension p ''toml.tmp'' \<Longrightarrow> read_to_string w' q = read_to_string w q" for q
    by (rule up(3))
next
  fix b w' assume rm: "remove_entry cs p r w = Ok (b, w')"
  show "b \<longleftrightarrow> bt_get (registries f) r \<noteq> None"
    and "\<exists>f'. load_file cs w' p = Ok f' \<and> bt_get (registries f') = (bt_get (registries f))(r := None)"
    by (rule remove_then_load [OF rm p codec load])+
qed

definition written_file :: akua_auth_file where
  "written_file = \<lparr>registries = [(''ghcr.io'', from_credentials (Basic ''a'' ''b''))]\<rparr>"

definition no_file_world :: world where
  "no_file_world = (text_world [])\<lparr>exists := (\<lambda>_. False)\<rparr>"

lemma upsert_entry_roundtrip_witness:
  "\<exists>w' f'. upsert_entry test_codecs [RootDir, Normal ''auth.toml''] ''ghcr.io'' (Basic ''a'' ''b'') no_file_world = Ok w'
     \<and> load_file test_codecs w' [RootDir, Normal ''auth.toml''] = Ok f'
     \<and> map_option akua_into_credentials (bt_get (registries f') ''ghcr.io'') = Some (Basic ''a'' ''b'')"
proof -
  let ?p = "[RootDir, Normal ''auth.toml'']" and ?f = "\<lparr>registries = []\<rparr> :: akua_auth_file"
  have codec: "\<forall>f body. auth_to_toml test_codecs f = Ok body \<longrightarrow> auth_from_toml test_codecs body = Ok f"
    by (auto simp: test_codecs_def split: if_splits)
  have load: "load_file test_codecs no_file_world ?p = Ok ?f"
    by (simp add: load_file_def no_file_world_def)
  have "is_Ok (upsert_entry test_codecs ?p ''ghcr.io'' (Basic ''a'' ''b'') no_file_world)" by code_simp
  then obtain w' where up: "upsert_entry test_codecs ?p ''ghcr.io'' (Basic ''a'' ''b'') no_file_world = Ok w'"
    by (auto simp: is_Ok_iff)
  have "last ?p = Normal ''auth.toml''" "?p \<noteq> []" by simp_all
  from upsert_entry_roundtrip [OF codec this load, THEN conjunct1, THEN spec, THEN mp, OF up]
  obtain f' where f': "load_file test_codecs w' ?p = Ok f'"
    "\<forall>r'. map_option akua_into_credentials (bt_get (registries f') r') =
       (if r' = ''ghcr.io'' then Some (Basic ''a'' ''b'')
        else map_option akua_into_credentials (bt_get (registries ?f) r'))" by (elim conjE exE) (rule that)
  from f'(2) [THEN spec, of "''ghcr.io''"] f'(1) up show ?thesis by (intro exI conjI) simp_all
qed

end
