(* ===== verification/OciTransport.thy ===== *)
theory OciTransport
  imports OciAuth
begin

text \<open>
  \<open>oci_transport.rs\<close>: references, the bearer-challenge dance and the capped reads of the registry
  client. The HTTP client of the \<open>reqwest\<close> crate is the parameter \<open>server\<close>: the answer to a request,
  which may depend on the requests sent before. The state of a call is the log of the requests sent so
  far and the token cache; every function returns the new state, on errors too.
\<close>

definition MAX_MANIFEST_BYTES :: nat where "MAX_MANIFEST_BYTES = 32 * 1024 * 1024"
definition MAX_BLOB_BYTES :: nat where "MAX_BLOB_BYTES = 1024 * 1024 * 1024"
definition MAX_ERROR_BODY_CHARS :: nat where "MAX_ERROR_BODY_CHARS = 300"

record oci_ref =
  ref_registry :: string
  ref_repository :: string

datatype transport_error =
  BadRef string
| TransportHttp string string
| TransportStatus string nat string
| AuthRequired string
| ResponseTooLarge string nat "nat option"
| BodyRead string io_error

section \<open>References\<close>

definition registry_host :: "string \<Rightarrow> string" where
  "registry_host registry =
     (case registry of
        c # rest \<Rightarrow>
          if c = CHR ''['' then hd (split_on CHR '']'' rest)
          else if length (filter (\<lambda>x. x = CHR '':'') registry) = 1 then hd (split_on CHR '':'' registry)
          else registry
      | [] \<Rightarrow> registry)"

definition registry_scheme :: "string \<Rightarrow> string" where
  "registry_scheme registry =
     (if registry_host registry \<in> set [''localhost'', ''127.0.0.1'', ''::1''] then ''http'' else ''https'')"

definition strip_prefix :: "string \<Rightarrow> string \<Rightarrow> string option" where
  "strip_prefix p s = (if prefix p s then Some (drop (length p) s) else None)"

definition parse_ref :: "string \<Rightarrow> (transport_error, oci_ref) outcome" where
  "parse_ref s =
     obind (ok_or (BadRef s) (strip_prefix ''oci://'' s)) (\<lambda>rest.
     obind (ok_or (BadRef s) (split_once ''/'' rest)) (\<lambda>(registry, repository).
     if registry = [] \<or> repository = [] then Err (BadRef s)
     else Ok \<lparr>ref_registry = registry, ref_repository = repository\<rparr>))"

section \<open>Requests and responses\<close>

record request =
  rq_url :: string
  rq_query :: "(string \<times> string) list"
  rq_accept :: "string list"
  rq_auth :: "string option"

text \<open>The body is the bytes the stream delivers and the error it then ends with, if any.\<close>

record response =
  rs_status :: nat
  rs_www_authenticate :: "string option"
  rs_content_length :: "nat option"
  rs_body :: "string \<times> io_error option"

type_synonym server = "request list \<Rightarrow> request \<Rightarrow> (string, response) outcome"

record net =
  sent :: "request list"
  token :: "string option"

definition get :: "string \<Rightarrow> request" where
  "get url = \<lparr>rq_url = url, rq_query = [], rq_accept = [], rq_auth = None\<rparr>"

definition bearer_auth :: "string \<Rightarrow> request \<Rightarrow> request" where
  "bearer_auth t r = r\<lparr>rq_auth := Some (''Bearer '' @ t)\<rparr>"

definition send :: "server \<Rightarrow> request \<Rightarrow> net \<Rightarrow> (transport_error, response) outcome \<times> net" where
  "send server r n =
     (omap_err (TransportHttp (rq_url r)) (server (sent n) r), n\<lparr>sent := sent n @ [r]\<rparr>)"

definition is_success :: "nat \<Rightarrow> bool" where
  "is_success status \<longleftrightarrow> 200 \<le> status \<and> status < 300"

text \<open>\<open>body.chars().take(n)\<close>: bytes up to the start of the character after the last one taken.\<close>

fun take_chars :: "nat \<Rightarrow> string \<Rightarrow> string" where
  "take_chars n [] = []"
| "take_chars n (c # s) =
     (if is_continuation c then c # take_chars n s
      else case n of 0 \<Rightarrow> [] | Suc m \<Rightarrow> c # take_chars m s)"

definition truncate_error_body :: "string \<Rightarrow> string" where
  "truncate_error_body body = take_chars MAX_ERROR_BODY_CHARS body"

text \<open>\<open>resp.text().unwrap_or_default()\<close>.\<close>

definition body_text :: "response \<Rightarrow> string" where
  "body_text resp = (case rs_body resp of (b, None) \<Rightarrow> b | (_, Some _) \<Rightarrow> [])"

definition declared_too_large :: "response \<Rightarrow> nat \<Rightarrow> nat option" where
  "declared_too_large resp max_bytes =
     (case rs_content_length resp of
        Some declared \<Rightarrow> if declared > max_bytes then Some declared else None
      | None \<Rightarrow> None)"

text \<open>\<open>take(max + 1)\<close> stops the stream before an error that lies beyond.\<close>

definition read_body_capped :: "response \<Rightarrow> string \<Rightarrow> nat \<Rightarrow> (transport_error, string) outcome" where
  "read_body_capped resp url max_bytes =
     (case declared_too_large resp max_bytes of
        Some declared \<Rightarrow> Err (ResponseTooLarge url max_bytes (Some declared))
      | None \<Rightarrow>
          (case rs_body resp of (stream, ending) \<Rightarrow>
             let buf = take (max_bytes + 1) stream
             in case (if length stream \<le> max_bytes then ending else None) of
                  Some e \<Rightarrow> Err (BodyRead url e)
                | None \<Rightarrow>
                    if length buf > max_bytes then Err (ResponseTooLarge url max_bytes None)
                    else Ok buf))"

definition ensure_ok :: "response \<Rightarrow> string \<Rightarrow> nat \<Rightarrow> (transport_error, string) outcome" where
  "ensure_ok resp url max_bytes =
     (if \<not> is_success (rs_status resp)
      then Err (TransportStatus url (rs_status resp) (truncate_error_body (body_text resp)))
      else read_body_capped resp url max_bytes)"

section \<open>The bearer challenge\<close>

record bearer_challenge =
  realm :: string
  service :: "string option"
  scope :: "string option"

definition trim_matches :: "char \<Rightarrow> string \<Rightarrow> string" where
  "trim_matches c s = trim_end c (dropWhile (\<lambda>x. x = c) s)"

definition challenge_part :: "bearer_challenge \<Rightarrow> string \<Rightarrow> bearer_challenge option" where
  "challenge_part out part =
     (case split_once ''='' (trim part) of
        None \<Rightarrow> None
      | Some (k, v) \<Rightarrow>
          (let v = trim_matches CHR 0x22 (trim v); k = trim k
           in Some (if k = ''realm'' then out\<lparr>realm := v\<rparr>
                    else if k = ''service'' then out\<lparr>service := Some v\<rparr>
                    else if k = ''scope'' then out\<lparr>scope := Some v\<rparr>
                    else out)))"

fun challenge_parts :: "bearer_challenge \<Rightarrow> string list \<Rightarrow> bearer_challenge option" where
  "challenge_parts out [] = Some out"
| "challenge_parts out (p # ps) =
     (case challenge_part out p of None \<Rightarrow> None | Some out \<Rightarrow> challenge_parts out ps)"

definition challenge_from_resp :: "response \<Rightarrow> bearer_challenge option" where
  "challenge_from_resp resp =
     (case rs_www_authenticate resp of
        None \<Rightarrow> None
      | Some hdr \<Rightarrow>
          (case strip_prefix ''Bearer '' hdr of
             None \<Rightarrow> None
           | Some rest \<Rightarrow>
               (case challenge_parts \<lparr>realm = [], service = None, scope = None\<rparr> (split_on CHR '','' rest) of
                  None \<Rightarrow> None
                | Some out \<Rightarrow> (if realm out = [] then None else Some out))))"

section \<open>The calls\<close>

text \<open>Sequencing calls that thread a state, the client's log here, also past an error.\<close>

definition nbind ::
  "('s \<Rightarrow> ('e, 'a) outcome \<times> 's) \<Rightarrow> ('a \<Rightarrow> 's \<Rightarrow> ('e, 'b) outcome \<times> 's)
     \<Rightarrow> 's \<Rightarrow> ('e, 'b) outcome \<times> 's"
where
  "nbind m f n = (case m n of
       (Ok a, n) \<Rightarrow> f a n | (Err e, n) \<Rightarrow> (Err e, n) | (Panic, n) \<Rightarrow> (Panic, n))"

definition nret :: "('e, 'a) outcome \<Rightarrow> 's \<Rightarrow> ('e, 'a) outcome \<times> 's" where
  "nret r n = (r, n)"

text \<open>\<open>json_token\<close> is what \<open>serde_json\<close> reads of a token response: \<open>token\<close> and \<open>access_token\<close>.\<close>

type_synonym json_token = "string \<Rightarrow> (string, string \<times> string) outcome"

definition token_query :: "bearer_challenge \<Rightarrow> (string \<times> string) list" where
  "token_query c =
     (case service c of Some s \<Rightarrow> [(''service'', s)] | None \<Rightarrow> [])
     @ (case scope c of Some s \<Rightarrow> [(''scope'', s)] | None \<Rightarrow> [])"

definition fetch_token ::
  "codecs \<Rightarrow> server \<Rightarrow> json_token \<Rightarrow> bearer_challenge \<Rightarrow> credentials option
     \<Rightarrow> net \<Rightarrow> (transport_error, string) outcome \<times> net"
where
  "fetch_token cs server json_token challenge creds =
     nbind (send server
       ((get (realm challenge))\<lparr>rq_auth := map_option (credentials_header cs) creds,
                                rq_query := token_query challenge\<rparr>)) (\<lambda>resp.
     if \<not> is_success (rs_status resp)
     then nret (Err (TransportStatus (realm challenge) (rs_status resp) (body_text resp)))
     else nbind (nret (omap_err (TransportHttp (realm challenge))
             (case rs_body resp of
                (b, None) \<Rightarrow> json_token b | (_, Some e) \<Rightarrow> Err (io_msg e)))) (\<lambda>(tok, access_token).
          let tok = (if tok \<noteq> [] then tok else access_token)
          in nret (if tok = []
                   then Err (AuthRequired (case service challenge of Some s \<Rightarrow> s | None \<Rightarrow> realm challenge))
                   else Ok tok)))"

definition apply_bearer :: "credentials option \<Rightarrow> net \<Rightarrow> request \<Rightarrow> request" where
  "apply_bearer creds n r =
     (case token n of
        Some tok \<Rightarrow> bearer_auth tok r
      | None \<Rightarrow> (case creds of Some (Bearer tok) \<Rightarrow> bearer_auth tok r | _ \<Rightarrow> r))"

definition set_token :: "string \<Rightarrow> net \<Rightarrow> ('e, unit) outcome \<times> net" where
  "set_token t n = (Ok (), n\<lparr>token := Some t\<rparr>)"

definition get_with_auth_capped ::
  "codecs \<Rightarrow> server \<Rightarrow> json_token \<Rightarrow> string \<Rightarrow> string \<Rightarrow> credentials option \<Rightarrow> nat \<Rightarrow> string list
     \<Rightarrow> net \<Rightarrow> (transport_error, string) outcome \<times> net"
where
  "get_with_auth_capped cs server json_token url registry creds max_bytes accept n =
     (let req = (get url)\<lparr>rq_accept := accept\<rparr>
      in nbind (send server (apply_bearer creds n req)) (\<lambda>resp.
         if rs_status resp \<noteq> 401 then nret (ensure_ok resp url max_bytes)
         else case challenge_from_resp resp of
           None \<Rightarrow> nret (Err (AuthRequired registry))
         | Some challenge \<Rightarrow>
             nbind (fetch_token cs server json_token challenge creds) (\<lambda>tok.
             nbind (set_token tok) (\<lambda>_.
             nbind (send server (bearer_auth tok req)) (\<lambda>retry.
             if rs_status retry = 401 then nret (Err (AuthRequired registry))
             else nret (ensure_ok retry url max_bytes))))) n)"

definition get_with_auth ::
  "codecs \<Rightarrow> server \<Rightarrow> json_token \<Rightarrow> string \<Rightarrow> string \<Rightarrow> credentials option \<Rightarrow> string list
     \<Rightarrow> net \<Rightarrow> (transport_error, string) outcome \<times> net"
where
  "get_with_auth cs server json_token url registry creds accept =
     get_with_auth_capped cs server json_token url registry creds MAX_BLOB_BYTES accept"

section \<open>Bounds\<close>

lemma read_body_capped_Ok:
  "read_body_capped resp url m = Ok b \<Longrightarrow>
     length b \<le> m \<and> rs_body resp = (b, None) \<and> (\<forall>d. rs_content_length resp = Some d \<longrightarrow> d \<le> m)"
  by (auto simp: read_body_capped_def declared_too_large_def Let_def
      split: option.splits prod.splits if_splits)

lemma ensure_ok_Ok:
  "ensure_ok resp url m = Ok b \<Longrightarrow> is_success (rs_status resp) \<and> length b \<le> m
     \<and> rs_body resp = (b, None) \<and> (\<forall>d. rs_content_length resp = Some d \<longrightarrow> d \<le> m)"
  by (auto simp: ensure_ok_def dest: read_body_capped_Ok split: if_splits)

lemma nbind_Ok [outcome_simps]:
  "nbind m f n = (Ok b, n') \<longleftrightarrow> (\<exists>a n1. m n = (Ok a, n1) \<and> f a n1 = (Ok b, n'))"
  by (auto simp: nbind_def split: prod.splits outcome.splits)

lemma send_Ok [outcome_simps]:
  "send server r n = (Ok resp, n') \<longleftrightarrow> server (sent n) r = Ok resp \<and> n' = n\<lparr>sent := sent n @ [r]\<rparr>"
  by (auto simp: send_def outcome_simps)

lemma apply_bearer_simps [simp]:
  "rq_url (apply_bearer creds n r) = rq_url r" "rq_query (apply_bearer creds n r) = rq_query r"
  "rq_url (bearer_auth t r) = rq_url r" "rq_query (bearer_auth t r) = rq_query r"
  by (auto simp: apply_bearer_def bearer_auth_def split: option.splits credentials.splits)

text \<open>
  C33. A registry cannot make the client hold more than the ceiling: a body that \<open>get_with_auth_capped\<close>
  returns has at most \<open>max_bytes\<close> bytes and is the whole stream of a response whose status is a
  success and which did not declare a larger body.
\<close>

theorem capped_read_bounded:
  assumes "get_with_auth_capped cs server jt url registry creds m accept n = (Ok b, n')"
  shows "length b \<le> m \<and> (\<exists>h r resp. server h r = Ok resp \<and> rq_url r = url
    \<and> is_success (rs_status resp) \<and> rs_body resp = (b, None)
    \<and> (\<forall>d. rs_content_length resp = Some d \<longrightarrow> d \<le> m))"
proof -
  let ?req = "(get url)\<lparr>rq_accept := accept\<rparr>"
  from assms obtain r resp h where ok: "ensure_ok resp url m = Ok b" "server h r = Ok resp" "rq_url r = url"
    unfolding get_with_auth_capped_def Let_def
    by (auto simp: outcome_simps nret_def get_def split: if_splits option.splits)
  from ensure_ok_Ok [OF ok(1)] ok(2,3) show ?thesis by blast
qed

definition ok_response :: "string \<Rightarrow> response" where
  "ok_response b = \<lparr>rs_status = 200, rs_www_authenticate = None, rs_content_length = None, rs_body = (b, None)\<rparr>"

definition challenge_response :: "string \<Rightarrow> response" where
  "challenge_response h =
     \<lparr>rs_status = 401, rs_www_authenticate = Some h, rs_content_length = None, rs_body = ([], None)\<rparr>"

text \<open>A registry that asks for a token first.\<close>

definition token_server :: server where
  "token_server h r =
     (if rq_url r = ''https://auth'' then Ok (ok_response ''T'')
      else if rq_auth r = Some ''Bearer T'' then Ok (ok_response ''body'')
      else Ok (challenge_response (''Bearer realm='' @ [CHR 0x22] @ ''https://auth'' @ [CHR 0x22])))"

definition fresh_net :: net where
  "fresh_net = \<lparr>sent = [], token = None\<rparr>"

lemma capped_read_bounded_witness:
  "length ''body'' \<le> 4 \<and> (\<exists>h r resp. token_server h r = Ok resp \<and> rq_url r = ''https://r/v2/x/blobs/y''
    \<and> is_success (rs_status resp) \<and> rs_body resp = (''body'', None)
    \<and> (\<forall>d. rs_content_length resp = Some d \<longrightarrow> d \<le> 4))"
proof -
  have "fst (get_with_auth_capped test_codecs token_server (\<lambda>b. Ok (b, [])) ''https://r/v2/x/blobs/y'' ''r''
      (Some (Basic ''u'' ''p'')) 4 [] fresh_net) = Ok ''body''" by code_simp
  then obtain n' where "get_with_auth_capped test_codecs token_server (\<lambda>b. Ok (b, []))
      ''https://r/v2/x/blobs/y'' ''r'' (Some (Basic ''u'' ''p'')) 4 [] fresh_net = (Ok ''body'', n')"
    by (metis prod.collapse)
  from capped_read_bounded [OF this] show ?thesis .
qed

section \<open>Where credentials go\<close>

lemma nbind_sent:
  "snd (nbind m f n) = (case m n of (Ok a, n1) \<Rightarrow> snd (f a n1) | (_, n1) \<Rightarrow> n1)"
  by (auto simp: nbind_def split: prod.splits outcome.splits)

text \<open>A request to the registry: the URL asked for, at most a bearer token, no query.\<close>

definition registry_request :: "string \<Rightarrow> request \<Rightarrow> bool" where
  "registry_request url r \<longleftrightarrow>
     rq_url r = url \<and> rq_query r = [] \<and> (\<forall>a. rq_auth r = Some a \<longrightarrow> prefix ''Bearer '' a)"

text \<open>A token request: to the realm a 401 named, with the credentials.\<close>

definition token_request :: "codecs \<Rightarrow> credentials option \<Rightarrow> request \<Rightarrow> bool" where
  "token_request cs creds r \<longleftrightarrow>
     (\<exists>resp c. rs_status resp = 401 \<and> challenge_from_resp resp = Some c
        \<and> rq_url r = realm c \<and> rq_query r = token_query c
        \<and> rq_auth r = map_option (credentials_header cs) creds)"

lemma bearer_registry_request:
  "registry_request url (bearer_auth t ((get url)\<lparr>rq_accept := accept\<rparr>))"
  by (simp add: registry_request_def bearer_auth_def get_def)

lemma apply_bearer_registry_request:
  "registry_request url (apply_bearer creds n ((get url)\<lparr>rq_accept := accept\<rparr>))"
  by (auto simp: registry_request_def apply_bearer_def bearer_auth_def get_def
      split: option.splits credentials.splits)

lemma fetch_token_sent:
  "\<exists>r. sent (snd (fetch_token cs server jt c creds n)) = sent n @ [r]
     \<and> rq_url r = realm c \<and> rq_query r = token_query c \<and> rq_auth r = map_option (credentials_header cs) creds"
  by (auto simp: fetch_token_def nbind_sent send_def nret_def get_def nbind_def Let_def
      split: outcome.splits prod.splits)

text \<open>
  Whatever the server answers and however the call ends, it sends at most three requests: the
  request itself, without Basic credentials; after a 401 one to the realm of the challenge, which alone
  carries the credentials as they are; and the retry with the token.
\<close>

theorem get_with_auth_requests:
  "\<exists>reqs. sent (snd (get_with_auth_capped cs server jt url registry creds m accept n)) = sent n @ reqs
     \<and> (\<exists>r. reqs = [r] \<and> registry_request url r
        \<or> (\<exists>t. reqs = [r, t] \<and> registry_request url r \<and> token_request cs creds t)
        \<or> (\<exists>t r'. reqs = [r, t, r'] \<and> registry_request url r \<and> token_request cs creds t \<and> registry_request url r'))"
proof -
  let ?req = "(get url)\<lparr>rq_accept := accept\<rparr>"
  let ?r = "apply_bearer creds n ?req"
  let ?n1 = "n\<lparr>sent := sent n @ [?r]\<rparr>"
  let ?out = "get_with_auth_capped cs server jt url registry creds m accept n"
  have first: "registry_request url ?r" by (rule apply_bearer_registry_request)
  show ?thesis
  proof (cases "\<exists>resp c. server (sent n) ?r = Ok resp \<and> rs_status resp = 401 \<and> challenge_from_resp resp = Some c")
    case False
    then have "sent (snd ?out) = sent n @ [?r]"
      unfolding get_with_auth_capped_def Let_def
      by (auto simp: nbind_sent send_def nret_def omap_err_iff split: outcome.splits option.splits)
    then show ?thesis using first by (intro exI [of _ "[?r]"]) simp
  next
    case True
    then obtain resp c where c: "server (sent n) ?r = Ok resp" "rs_status resp = 401"
      "challenge_from_resp resp = Some c" by blast
    obtain t where t: "sent (snd (fetch_token cs server jt c creds ?n1)) = (sent n @ [?r]) @ [t]"
      "token_request cs creds t"
      using fetch_token_sent [of cs server jt c creds ?n1] c by (auto simp: token_request_def)
    show ?thesis
    proof (cases "fst (fetch_token cs server jt c creds ?n1)")
      case (Ok tok)
      then obtain n2 where n2: "fetch_token cs server jt c creds ?n1 = (Ok tok, n2)"
        "sent n2 = (sent n @ [?r]) @ [t]" using t(1) by (metis prod.collapse)
      have "sent (snd ?out) = sent n @ [?r, t, bearer_auth tok ?req]"
        unfolding get_with_auth_capped_def Let_def
        using c n2
        by (auto simp: nbind_sent send_def nret_def set_token_def split: outcome.splits)
      then show ?thesis
        using first t(2) bearer_registry_request [of url tok accept]
        by (intro exI [of _ "[?r, t, bearer_auth tok ?req]"]) simp
    next
      case (Err e)
      then obtain n2 where n2: "fetch_token cs server jt c creds ?n1 = (Err e, n2)"
        "sent n2 = (sent n @ [?r]) @ [t]" using t(1) by (metis prod.collapse)
      have "sent (snd ?out) = sent n @ [?r, t]"
        unfolding get_with_auth_capped_def Let_def
        using c n2 by (auto simp: nbind_sent send_def nret_def)
      then show ?thesis using first t(2) by (intro exI [of _ "[?r, t]"]) simp
    next
      case Panic
      then obtain n2 where n2: "fetch_token cs server jt c creds ?n1 = (Panic, n2)"
        "sent n2 = (sent n @ [?r]) @ [t]" using t(1) by (metis prod.collapse)
      have "sent (snd ?out) = sent n @ [?r, t]"
        unfolding get_with_auth_capped_def Let_def
        using c n2 by (auto simp: nbind_sent send_def nret_def)
      then show ?thesis using first t(2) by (intro exI [of _ "[?r, t]"]) simp
    qed
  qed
qed

section \<open>Which challenges are understood\<close>

definition quoted :: "string \<Rightarrow> string" where
  "quoted v = [CHR 0x22] @ v @ [CHR 0x22]"

definition challenge_header :: "string \<Rightarrow> string \<Rightarrow> string \<Rightarrow> string" where
  "challenge_header r s c =
     ''Bearer realm='' @ quoted r @ '',service='' @ quoted s @ '',scope='' @ quoted c"

definition plain_value :: "string \<Rightarrow> bool" where
  "plain_value v \<longleftrightarrow> CHR '','' \<notin> set v \<and> CHR 0x22 \<notin> set v"

lemma trim_quoted: "plain_char c \<Longrightarrow> trim (c # k @ quoted v) = c # k @ quoted v"
  by (rule trim_plain) (simp add: quoted_def plain_char_def)

lemma trim_matches_quoted:
  assumes "CHR 0x22 \<notin> set v"
  shows "trim_matches CHR 0x22 (trim (quoted v)) = v"
proof -
  have "trim (quoted v) = quoted v" by (rule trim_plain) (simp add: quoted_def plain_char_def)
  moreover have "dropWhile (\<lambda>x. x = CHR 0x22) (v @ [CHR 0x22]) = (if v = [] then [] else v @ [CHR 0x22])"
    using assms by (cases v) auto
  moreover have "trim_end CHR 0x22 (v @ [CHR 0x22]) = v"
    using assms by (cases v rule: rev_cases) (auto simp: trim_end_def)
  ultimately show ?thesis
    by (simp add: trim_matches_def quoted_def trim_end_def split: if_splits)
qed

lemma challenge_part_quoted:
  assumes "CHR 0x22 \<notin> set v"
  shows "challenge_part out (''realm='' @ quoted v) = Some (out\<lparr>realm := v\<rparr>)"
    "challenge_part out (''service='' @ quoted v) = Some (out\<lparr>service := Some v\<rparr>)"
    "challenge_part out (''scope='' @ quoted v) = Some (out\<lparr>scope := Some v\<rparr>)"
proof -
  have plain: "plain_char CHR ''r''" "plain_char CHR ''s''" by (simp_all add: plain_char_def)
  have k: "trim ''realm'' = ''realm''" "trim ''service'' = ''service''" "trim ''scope'' = ''scope''"
    by (code_simp, code_simp, code_simp)
  note t = trim_quoted [OF plain(1), of "''ealm=''" v] trim_quoted [OF plain(2), of "''ervice=''" v]
    trim_quoted [OF plain(2), of "''cope=''" v]
  have "split_once ''='' (''realm='' @ quoted v) = Some (''realm'', quoted v)"
    "split_once ''='' (''service='' @ quoted v) = Some (''service'', quoted v)"
    "split_once ''='' (''scope='' @ quoted v) = Some (''scope'', quoted v)" by simp_all
  then show "challenge_part out (''realm='' @ quoted v) = Some (out\<lparr>realm := v\<rparr>)"
    "challenge_part out (''service='' @ quoted v) = Some (out\<lparr>service := Some v\<rparr>)"
    "challenge_part out (''scope='' @ quoted v) = Some (out\<lparr>scope := Some v\<rparr>)"
    using t k trim_matches_quoted [OF assms] by (simp_all add: challenge_part_def)
qed

lemma challenge_header_rest:
  "strip_prefix ''Bearer '' (challenge_header r s c) =
     Some (''realm='' @ quoted r @ '',service='' @ quoted s @ '',scope='' @ quoted c)"
  by (simp add: strip_prefix_def challenge_header_def)

lemma challenge_parts_append:
  "challenge_parts out (ps @ qs) =
     (case challenge_parts out ps of None \<Rightarrow> None | Some out \<Rightarrow> challenge_parts out qs)"
  by (induction out ps rule: challenge_parts.induct) (auto split: option.splits)

lemma challenge_parts_no_eq:
  assumes "p \<in> set ps" "CHR ''='' \<notin> set p"
  shows "challenge_parts out ps = None"
proof -
  have sub: "set (trim p) \<subseteq> set p" by (rule set_trim)
  have "\<not> sublist ''='' (trim p)"
  proof
    assume "sublist ''='' (trim p)"
    then have "CHR ''='' \<in> set (trim p)" by (auto simp: sublist_def)
    with sub assms(2) show False by blast
  qed
  then have "split_once ''='' (trim p) = None" by (simp add: split_once_None_iff)
  then have none: "challenge_part out p = None" for out by (simp add: challenge_part_def)
  from assms(1) obtain xs ys where "ps = xs @ p # ys" by (meson split_list)
  then show ?thesis by (simp add: challenge_parts_append none split: option.splits)
qed

lemma split_comma3:
  assumes "CHR '','' \<notin> set a" "CHR '','' \<notin> set b"
  shows "split_on CHR '','' (a @ '','' @ b @ '','' @ c) = a # b # split_on CHR '','' c"
  using split_on_append [OF assms(1), of "b @ '','' @ c"] split_on_append [OF assms(2), of c] by simp

text \<open>
  A challenge is read as sent when no value holds a comma or a quote. But the parser splits at every
  comma, quoted or not: a challenge whose scope lists two actions, \<open>pull,push\<close>, is rejected as a whole,
  and the call fails with \<open>AuthRequired\<close> before any credential is tried.
\<close>

theorem challenge_parsing:
  assumes "plain_value r" "plain_value s"
  shows "(r \<noteq> [] \<and> plain_value c \<longrightarrow>
        challenge_from_resp (challenge_response (challenge_header r s c))
          = Some \<lparr>realm = r, service = Some s, scope = Some c\<rparr>)
    \<and> (CHR ''='' \<notin> set y \<longrightarrow>
        challenge_from_resp (challenge_response (challenge_header r s (x @ '','' @ y))) = None)"
proof -
  let ?rest = "\<lambda>c. ''realm='' @ quoted r @ '',service='' @ quoted s @ '',scope='' @ quoted c"
  have parts: "split_on CHR '','' (?rest c) =
      (''realm='' @ quoted r) # (''service='' @ quoted s) # split_on CHR '','' (''scope='' @ quoted c)" for c
    using split_comma3 [of "''realm='' @ quoted r" "''service='' @ quoted s" "''scope='' @ quoted c"] assms
    by (simp add: plain_value_def quoted_def)
  have "challenge_from_resp (challenge_response (challenge_header r s c))
      = Some \<lparr>realm = r, service = Some s, scope = Some c\<rparr>" if "r \<noteq> []" "plain_value c"
  proof -
    have one: "split_on CHR '','' (''scope='' @ quoted c) = [''scope='' @ quoted c]"
      using that(2) by (intro split_on_no_sep) (simp add: plain_value_def quoted_def)
    have q: "CHR 0x22 \<notin> set r" "CHR 0x22 \<notin> set s" "CHR 0x22 \<notin> set c"
      using assms that(2) by (simp_all add: plain_value_def)
    show ?thesis
      unfolding challenge_from_resp_def challenge_response_def response.select_convs option.case
        challenge_header_rest parts one challenge_parts.simps
        challenge_part_quoted(1) [OF q(1)] challenge_part_quoted(2) [OF q(2)] challenge_part_quoted(3) [OF q(3)]
      using that(1) by simp
  qed
  moreover have "challenge_from_resp (challenge_response (challenge_header r s (x @ '','' @ y))) = None"
    if y: "CHR ''='' \<notin> set y"
  proof -
    have eq: "''scope='' @ quoted (x @ '','' @ y) = (''scope='' @ [CHR 0x22] @ x) @ CHR '','' # (y @ [CHR 0x22])"
      by (simp add: quoted_def)
    let ?q = "hd (split_on CHR '','' (y @ [CHR 0x22]))"
    have q: "?q \<in> set (split_on CHR '','' (y @ [CHR 0x22]))" by simp
    from split_on_subset [OF q] y have "CHR ''='' \<notin> set ?q" by auto
    with q have "\<exists>p \<in> set (split_on CHR '','' (''scope='' @ quoted (x @ '','' @ y))). CHR ''='' \<notin> set p"
      unfolding eq split_on_app by auto
    then obtain p where p: "p \<in> set (split_on CHR '','' (''scope='' @ quoted (x @ '','' @ y)))" "CHR ''='' \<notin> set p"
      by blast
    then have "p \<in> set (split_on CHR '','' (?rest (x @ '','' @ y)))" unfolding parts by simp
    from challenge_parts_no_eq [OF this p(2)] show ?thesis
      by (simp only: challenge_from_resp_def challenge_response_def response.select_convs option.case
          challenge_header_rest)
  qed
  ultimately show ?thesis by blast
qed

definition push_scope :: string where
  "push_scope = ''repository:acme/app:pull,push''"

lemma challenge_parsing_witness:
  "challenge_from_resp (challenge_response (challenge_header ''https://ghcr.io/token'' ''ghcr.io'' push_scope)) = None
   \<and> challenge_from_resp (challenge_response
        (challenge_header ''https://ghcr.io/token'' ''ghcr.io'' ''repository:acme/app:pull''))
      = Some \<lparr>realm = ''https://ghcr.io/token'', service = Some ''ghcr.io'',
              scope = Some ''repository:acme/app:pull''\<rparr>"
proof -
  have plain: "plain_value ''https://ghcr.io/token''" "plain_value ''ghcr.io''"
    "plain_value ''repository:acme/app:pull''" by (code_simp, code_simp, code_simp)
  have "push_scope = ''repository:acme/app:pull'' @ '','' @ ''push''" by (simp add: push_scope_def)
  with challenge_parsing [OF plain(1,2), of "''repository:acme/app:pull''" "''push''" "''repository:acme/app:pull''"]
    plain(3) show ?thesis by simp
qed

end
