(* ===== verification/Fetch.thy ===== *)
theory Fetch
  imports TreeHash HostAuth OciTransport Cosign
begin

text \<open>
  What the fetchers share: the kind of a package, reading directories of the cache, and the contract
  \<open>pinned_fetcher\<close> that the resolver relies on: with a digest pinned in \<open>akua.lock\<close>, a fetch that
  succeeds returns that digest.
\<close>

datatype package_kind = HelmChart | KclModule

locale pinned_fetcher =
  fixes fetch :: "'req \<Rightarrow> string option \<Rightarrow> ('e, 'a) outcome"
    and digest_of :: "'a \<Rightarrow> string"
  assumes pinned: "fetch r (Some d) = Ok a \<Longrightarrow> digest_of a = d"
begin

text \<open>The digest recorded by a first, unpinned fetch is the digest of every later one.\<close>

lemma refetch:
  "fetch r None = Ok a \<Longrightarrow> fetch r' (Some (digest_of a)) = Ok b \<Longrightarrow> digest_of b = digest_of a"
  by (rule pinned)

text \<open>Two fetches pinned alike return alike, from whatever place.\<close>

lemma pinned_agree:
  "fetch r (Some d) = Ok a \<Longrightarrow> fetch r' (Some d) = Ok b \<Longrightarrow> digest_of a = digest_of b"
  using pinned by metis

end

definition fs_read_dir :: "world \<Rightarrow> path \<Rightarrow> (io_error, (string \<times> node) list) outcome" where
  "fs_read_dir w p =
     obind (tree_at w p) (\<lambda>n. case n of
       Dir es \<Rightarrow> Ok es | BadDir e \<Rightarrow> Err e | _ \<Rightarrow> Err not_a_directory)"

definition child :: "path \<Rightarrow> string \<Rightarrow> path" where
  "child d name = path_join d [Normal name]"

definition nmap_err :: "('e \<Rightarrow> 'f) \<Rightarrow> ('s \<Rightarrow> ('e, 'a) outcome \<times> 's) \<Rightarrow> 's \<Rightarrow> ('f, 'a) outcome \<times> 's" where
  "nmap_err g m n = (case m n of (r, n') \<Rightarrow> (omap_err g r, n'))"

lemma nmap_err_Ok [outcome_simps]: "nmap_err g m n = (Ok a, n') \<longleftrightarrow> m n = (Ok a, n')"
  by (auto simp: nmap_err_def outcome_simps split: prod.splits)

lemma nret_Ok [outcome_simps]: "nret r n = (Ok a, n') \<longleftrightarrow> r = Ok a \<and> n' = n"
  by (auto simp: nret_def)

text \<open>
  Sequencing steps whose result is \<open>None\<close> where a bound is reached: a step that fails ends the run in the
  state it left.
\<close>

definition rbind ::
  "('s \<Rightarrow> (('e, 'a) outcome \<times> 's) option) \<Rightarrow> ('a \<Rightarrow> 's \<Rightarrow> (('e, 'b) outcome \<times> 's) option)
     \<Rightarrow> 's \<Rightarrow> (('e, 'b) outcome \<times> 's) option"
where
  "rbind m f s =
     (case m s of
        None \<Rightarrow> None
      | Some (Ok a, s') \<Rightarrow> f a s'
      | Some (Err e, s') \<Rightarrow> Some (Err e, s')
      | Some (Panic, s') \<Rightarrow> Some (Panic, s'))"

definition rpure :: "('e, 'a) outcome \<Rightarrow> 's \<Rightarrow> (('e, 'a) outcome \<times> 's) option" where
  "rpure r s = Some (r, s)"

lemma rbind_Ok [outcome_simps]:
  "rbind m f s = Some (Ok b, s') \<longleftrightarrow> (\<exists>a s1. m s = Some (Ok a, s1) \<and> f a s1 = Some (Ok b, s'))"
  by (auto simp: rbind_def split: option.splits prod.splits outcome.splits)

lemma rpure_Ok [outcome_simps]: "rpure r s = Some (Ok a, s') \<longleftrightarrow> r = Ok a \<and> s' = s"
  by (auto simp: rpure_def)

end
