(* ===== verification/OciFetcher.thy ===== *)
theory OciFetcher
  imports Fetch
begin

text \<open>
  \<open>oci_fetcher.rs\<close>: pulling a package from an OCI registry into the content-addressed cache. The record
  \<open>oci_env\<close> holds the collaborators: the HTTP client (\<open>server\<close>), the JSON readers of \<open>serde_json\<close>, SHA-256,
  the signature primitive, and \<open>extract_layer\<close>, which unpacks a layer into a cache directory (the \<open>tar\<close>,
  \<open>flate2\<close> and \<open>tempfile\<close> crates behind \<open>extract_blob\<close>).
\<close>

section \<open>The data\<close>

definition HELM_CHART_LAYER_MEDIA_TYPE :: string where
  "HELM_CHART_LAYER_MEDIA_TYPE = ''application/vnd.cncf.helm.chart.content.v1.tar+gzip''"
definition AKUA_PACKAGE_LAYER_MEDIA_TYPE :: string where
  "AKUA_PACKAGE_LAYER_MEDIA_TYPE = ''application/vnd.akua.package.content.v1.tar+gzip''"
definition KCL_LAYER_MEDIA_TYPE :: string where
  "KCL_LAYER_MEDIA_TYPE = ''application/vnd.oci.image.layer.v1.tar''"
definition COSIGN_SIG_LAYER_MEDIA_TYPE :: string where
  "COSIGN_SIG_LAYER_MEDIA_TYPE = ''application/vnd.dev.cosign.simplesigning.v1+json''"
definition COSIGN_SIGNATURE_ANNOTATION :: string where
  "COSIGN_SIGNATURE_ANNOTATION = ''dev.cosignproject.cosign/signature''"

definition KCL_PACKAGE_ANNOTATION_KEYS :: "string list" where
  "KCL_PACKAGE_ANNOTATION_KEYS =
     [''org.kcllang.package.name'', ''org.kclpkg.package.name'', ''dev.akua.package.name'']"

definition OCI_MANIFEST_MEDIA_TYPES :: "string list" where
  "OCI_MANIFEST_MEDIA_TYPES =
     [''application/vnd.oci.image.manifest.v1+json'',
      ''application/vnd.docker.distribution.manifest.v2+json'']"

datatype archive_format = GzipTar | PlainTar

record oci_artifact =
  root_dir :: path
  blob_digest :: string
  oci_kind :: package_kind

record oci_layer =
  media_type :: string
  layer_digest :: string
  layer_size :: nat

record oci_manifest =
  layers :: "oci_layer list"
  annotations :: "(string, string) btree"

record cosign_sig_layer =
  sig_media_type :: string
  sig_digest :: string
  sig_annotations :: "(string, string) hashmap"

record detected_layer =
  detected_kind :: package_kind
  detected_layer :: oci_layer
  detected_format :: archive_format

datatype oci_fetch_error =
  Transport transport_error
| OciAuthRequired string
| AuthConfig string
| CosignVerify string string cosign_error
| CosignSignatureMissing string string string string
| NoChartLayer string string
| ManifestDigestMismatch string string
| LockDigestMismatch string string string string
| OciIo path io_error
| ManifestParse string
| Extract string

record ('vk, 'sk, 'sg) oci_env =
  env_codecs :: codecs
  env_client :: "(string, unit) outcome"
  env_server :: server
  env_json_token :: json_token
  env_sha256 :: "string \<Rightarrow> string"
  manifest_of_json :: "string \<Rightarrow> (string, oci_manifest) outcome"
  sig_layers_of_json :: "string \<Rightarrow> (string, cosign_sig_layer list) outcome"
  env_crypto :: "('vk, 'sk, 'sg) crypto"
  show_fetch_error :: "oci_fetch_error \<Rightarrow> string"
  extract_layer :: "archive_format \<Rightarrow> string \<Rightarrow> path \<Rightarrow> world \<Rightarrow> (oci_fetch_error, world) outcome"

text \<open>The HTTP client is the crate's; building it may fail.\<close>

definition build_client :: "('vk, 'sk, 'sg) oci_env \<Rightarrow> (transport_error, unit) outcome" where
  "build_client env = omap_err (TransportHttp ''<client-construction>'') (env_client env)"

section \<open>What a manifest and a directory hold\<close>

definition find_layer :: "string \<Rightarrow> oci_manifest \<Rightarrow> oci_layer option" where
  "find_layer t m = find (\<lambda>l. media_type l = t) (layers m)"

definition detect_package :: "oci_manifest \<Rightarrow> detected_layer option" where
  "detect_package m =
     (case find_layer HELM_CHART_LAYER_MEDIA_TYPE m of
        Some l \<Rightarrow> Some \<lparr>detected_kind = HelmChart, detected_layer = l, detected_format = GzipTar\<rparr>
      | None \<Rightarrow>
     (case find_layer AKUA_PACKAGE_LAYER_MEDIA_TYPE m of
        Some l \<Rightarrow> Some \<lparr>detected_kind = KclModule, detected_layer = l, detected_format = GzipTar\<rparr>
      | None \<Rightarrow>
          if list_ex (\<lambda>k. bt_get (annotations m) k \<noteq> None) KCL_PACKAGE_ANNOTATION_KEYS
          then (case find_layer KCL_LAYER_MEDIA_TYPE m of
                  Some l \<Rightarrow> Some \<lparr>detected_kind = KclModule, detected_layer = l, detected_format = PlainTar\<rparr>
                | None \<Rightarrow> None)
          else None))"

definition detect_kind_at :: "world \<Rightarrow> path \<Rightarrow> string list \<Rightarrow> package_kind \<Rightarrow> package_kind option" where
  "detect_kind_at w dir markers kind =
     (let all_present = (\<lambda>d. list_all (\<lambda>m. is_file w (child d m)) markers)
      in if all_present dir then Some kind
         else case fs_read_dir w dir of
           Ok es \<Rightarrow>
             (case find (\<lambda>(name, n). is_directory n \<and> all_present (child dir name)) es of
                Some _ \<Rightarrow> Some kind | None \<Rightarrow> None)
         | _ \<Rightarrow> None)"

definition detect_kind :: "world \<Rightarrow> path \<Rightarrow> package_kind option" where
  "detect_kind w dir =
     (case detect_kind_at w dir [''Chart.yaml''] HelmChart of
        Some k \<Rightarrow> Some k
      | None \<Rightarrow>
          (case detect_kind_at w dir [''kcl.mod''] KclModule of
             Some k \<Rightarrow> Some k
           | None \<Rightarrow> detect_kind_at w dir [''akua.toml'', ''package.k''] KclModule))"

section \<open>The cache\<close>

definition oci_cache_dir_for :: "path \<Rightarrow> string \<Rightarrow> path" where
  "oci_cache_dir_for root digest =
     (let hex = (case strip_prefix ''sha256:'' digest of Some h \<Rightarrow> h | None \<Rightarrow> digest)
      in path_join (path_join root (path_of ''sha256'')) (path_of hex))"

fun root_markers :: "package_kind \<Rightarrow> string list" where
  "root_markers HelmChart = [''Chart.yaml'']"
| "root_markers KclModule = [''kcl.mod'', ''package.k'']"

definition find_package_root :: "world \<Rightarrow> path \<Rightarrow> package_kind \<Rightarrow> (oci_fetch_error, path) outcome" where
  "find_package_root w cache_dir kind =
     (let markers = root_markers kind;
          has_marker = (\<lambda>d. list_ex (\<lambda>m. is_file w (child d m)) markers)
      in if has_marker cache_dir then Ok cache_dir
         else obind (omap_err (OciIo cache_dir) (fs_read_dir w cache_dir)) (\<lambda>es.
           case find (\<lambda>(name, _). is_dir w (child cache_dir name) \<and> has_marker (child cache_dir name)) es of
             Some (name, _) \<Rightarrow> Ok (child cache_dir name)
           | None \<Rightarrow> Err (Extract (''no '' @ join_with '' or '' markers @ '' found under '' @ path_str cache_dir))))"

definition oci_fetch_from_cache :: "world \<Rightarrow> path \<Rightarrow> string \<Rightarrow> oci_artifact option" where
  "oci_fetch_from_cache w cache_root digest =
     (let cached = oci_cache_dir_for cache_root digest
      in case detect_kind w cached of
           None \<Rightarrow> None
         | Some kind \<Rightarrow>
             (case find_package_root w cached kind of
                Ok d \<Rightarrow> Some \<lparr>root_dir = d, blob_digest = digest, oci_kind = kind\<rparr>
              | _ \<Rightarrow> None))"

section \<open>The registry\<close>

definition get_manifest ::
  "('vk, 'sk, 'sg) oci_env \<Rightarrow> string \<Rightarrow> string \<Rightarrow> credentials option \<Rightarrow> net
     \<Rightarrow> (oci_fetch_error, string) outcome \<times> net"
where
  "get_manifest env url registry creds =
     nmap_err Transport (get_with_auth_capped (env_codecs env) (env_server env) (env_json_token env)
       url registry creds MAX_MANIFEST_BYTES OCI_MANIFEST_MEDIA_TYPES)"

definition get_blob ::
  "('vk, 'sk, 'sg) oci_env \<Rightarrow> string \<Rightarrow> string \<Rightarrow> credentials option \<Rightarrow> net
     \<Rightarrow> (oci_fetch_error, string) outcome \<times> net"
where
  "get_blob env url registry creds =
     nmap_err Transport (get_with_auth_capped (env_codecs env) (env_server env) (env_json_token env)
       url registry creds MAX_BLOB_BYTES [])"

definition registry_url :: "oci_ref \<Rightarrow> string \<Rightarrow> string \<Rightarrow> string" where
  "registry_url r what item =
     registry_scheme (ref_registry r) @ ''://'' @ ref_registry r @ ''/v2/'' @ ref_repository r
       @ ''/'' @ what @ ''/'' @ item"

definition digest_of_bytes :: "('vk, 'sk, 'sg) oci_env \<Rightarrow> string \<Rightarrow> string" where
  "digest_of_bytes env bytes = ''sha256:'' @ hex_encode (env_sha256 env bytes)"

definition sig_tag_of :: "string \<Rightarrow> string" where
  "sig_tag_of manifest_digest =
     ''sha256-'' @ (case strip_prefix ''sha256:'' manifest_digest of Some h \<Rightarrow> h | None \<Rightarrow> manifest_digest)
       @ ''.sig''"

definition verify_cosign_signature ::
  "('vk, 'sk, 'sg) oci_env \<Rightarrow> oci_ref \<Rightarrow> string \<Rightarrow> string \<Rightarrow> credentials option \<Rightarrow> net
     \<Rightarrow> (oci_fetch_error, unit) outcome \<times> net"
where
  "verify_cosign_signature env parsed manifest_digest public_key_pem creds =
     (let sig_tag = sig_tag_of manifest_digest;
          oci_ref = ''oci://'' @ ref_registry parsed @ ''/'' @ ref_repository parsed;
          missing = CosignSignatureMissing oci_ref manifest_digest sig_tag
      in nbind (nmap_err (\<lambda>e. missing (show_fetch_error env e))
              (get_manifest env (registry_url parsed ''manifests'' sig_tag) (ref_registry parsed) creds)) (\<lambda>sig_manifest_bytes.
         nbind (nret (omap_err (\<lambda>e. missing (''manifest parse: '' @ e))
              (sig_layers_of_json env sig_manifest_bytes))) (\<lambda>sig_layers.
         nbind (nret (ok_or (missing (''no layer with media type '' @ COSIGN_SIG_LAYER_MEDIA_TYPE))
              (find (\<lambda>l. sig_media_type l = COSIGN_SIG_LAYER_MEDIA_TYPE) sig_layers))) (\<lambda>sig_layer.
         nbind (nret (ok_or (missing (''layer missing `'' @ COSIGN_SIGNATURE_ANNOTATION @ ''` annotation''))
              (bt_get (sig_annotations sig_layer) COSIGN_SIGNATURE_ANNOTATION))) (\<lambda>signature_b64.
         nbind (nmap_err (\<lambda>e. missing (''payload blob: '' @ show_fetch_error env e))
              (get_blob env (registry_url parsed ''blobs'' (sig_digest sig_layer)) (ref_registry parsed) creds)) (\<lambda>payload_bytes.
         nret (omap_err (CosignVerify oci_ref manifest_digest)
              (verify_keyed (env_crypto env) public_key_pem payload_bytes signature_b64 manifest_digest))))))))"

record oci_fetch_opts =
  expected_digest :: "string option"
  fo_creds :: creds_store
  fo_cosign_key :: "string option"

text \<open>What is done with the pulled blob: both digest checks, then the extraction into the cache.\<close>

definition store_blob ::
  "('vk, 'sk, 'sg) oci_env \<Rightarrow> string \<Rightarrow> string \<Rightarrow> path \<Rightarrow> oci_fetch_opts \<Rightarrow> detected_layer \<Rightarrow> string \<Rightarrow> world
     \<Rightarrow> (oci_fetch_error, oci_artifact \<times> world) outcome"
where
  "store_blob env oci_ref version cache_root opts detected blob_bytes w =
     (let actual_digest = digest_of_bytes env blob_bytes;
          declared = layer_digest (detected_layer detected)
      in if actual_digest \<noteq> declared then Err (ManifestDigestMismatch actual_digest declared)
         else if expected_digest opts \<noteq> None \<and> expected_digest opts \<noteq> Some actual_digest
         then Err (LockDigestMismatch oci_ref version actual_digest (the (expected_digest opts)))
         else let target = oci_cache_dir_for cache_root actual_digest
              in obind (extract_layer env (detected_format detected) blob_bytes target w) (\<lambda>w.
                 obind (find_package_root w target (detected_kind detected)) (\<lambda>d.
                 Ok (\<lparr>root_dir = d, blob_digest = actual_digest,
                     oci_kind = detected_kind detected\<rparr>, w))))"

text \<open>The part past the cache: manifest, signature, blob, digests, extraction.\<close>

definition oci_pull ::
  "('vk, 'sk, 'sg) oci_env \<Rightarrow> string \<Rightarrow> string \<Rightarrow> oci_ref \<Rightarrow> path \<Rightarrow> oci_fetch_opts \<Rightarrow> world \<Rightarrow> net
     \<Rightarrow> (oci_fetch_error, oci_artifact \<times> world) outcome \<times> net"
where
  "oci_pull env oci_ref version parsed cache_root opts w =
     (let creds = for_registry (fo_creds opts) (ref_registry parsed)
      in nbind (nret (omap_err Transport (build_client env))) (\<lambda>_.
         nbind (get_manifest env (registry_url parsed ''manifests'' version) (ref_registry parsed) creds) (\<lambda>manifest_bytes.
         nbind (nret (omap_err ManifestParse (manifest_of_json env manifest_bytes))) (\<lambda>manifest.
         nbind (case fo_cosign_key opts of
              Some pem \<Rightarrow> verify_cosign_signature env parsed (digest_of_bytes env manifest_bytes) pem creds
            | None \<Rightarrow> nret (Ok ())) (\<lambda>_.
         nbind (nret (ok_or (NoChartLayer oci_ref version) (detect_package manifest))) (\<lambda>detected.
         let layer = detected_layer detected;
             blob_url = registry_url parsed ''blobs'' (layer_digest layer)
         in if layer_size layer > MAX_BLOB_BYTES
            then nret (Err (Transport (ResponseTooLarge blob_url MAX_BLOB_BYTES (Some (layer_size layer)))))
            else nbind (get_blob env blob_url (ref_registry parsed) creds) (\<lambda>blob_bytes.
              nret (store_blob env oci_ref version cache_root opts detected blob_bytes w))))))))"

definition oci_fetch_with_opts ::
  "('vk, 'sk, 'sg) oci_env \<Rightarrow> string \<Rightarrow> string \<Rightarrow> path \<Rightarrow> oci_fetch_opts \<Rightarrow> world \<Rightarrow> net
     \<Rightarrow> (oci_fetch_error, oci_artifact \<times> world) outcome \<times> net"
where
  "oci_fetch_with_opts env oci_ref version cache_root opts w n =
     nbind (nret (omap_err Transport (parse_ref oci_ref))) (\<lambda>parsed.
       case (case expected_digest opts of
               Some digest \<Rightarrow> map_option (\<lambda>k. (digest, k)) (detect_kind w (oci_cache_dir_for cache_root digest))
             | None \<Rightarrow> None) of
         Some (digest, kind) \<Rightarrow>
           nret (obind (find_package_root w (oci_cache_dir_for cache_root digest) kind) (\<lambda>d.
             Ok (\<lparr>root_dir = d, blob_digest = digest, oci_kind = kind\<rparr>, w)))
       | None \<Rightarrow> oci_pull env oci_ref version parsed cache_root opts w) (n\<lparr>token := None\<rparr>)"

definition oci_fetch ::
  "('vk, 'sk, 'sg) oci_env \<Rightarrow> (auth_load_error \<Rightarrow> string) \<Rightarrow> string \<Rightarrow> string \<Rightarrow> path \<Rightarrow> string option
     \<Rightarrow> world \<Rightarrow> net \<Rightarrow> (oci_fetch_error, oci_artifact \<times> world) outcome \<times> net"
where
  "oci_fetch env show_auth oci_ref version cache_root expected w =
     nbind (nret (omap_err (\<lambda>e. AuthConfig (show_auth e)) (load_creds (env_codecs env) w))) (\<lambda>creds.
     oci_fetch_with_opts env oci_ref version cache_root
       \<lparr>expected_digest = expected, fo_creds = creds, fo_cosign_key = None\<rparr> w)"

section \<open>What a fetch guarantees\<close>

text \<open>What has been checked when a layer was pulled.\<close>

definition pulled_ok ::
  "('vk, 'sk, 'sg) oci_env \<Rightarrow> path \<Rightarrow> oci_fetch_opts \<Rightarrow> world \<Rightarrow> oci_artifact \<Rightarrow> world \<Rightarrow> bool"
where
  "pulled_ok env cache_root opts w a w' \<longleftrightarrow>
     (\<exists>manifest_bytes manifest blob detected.
        manifest_of_json env manifest_bytes = Ok manifest
      \<and> detect_package manifest = Some detected
      \<and> layer_digest (detected_layer detected) = blob_digest a
      \<and> blob_digest a = digest_of_bytes env blob \<and> length blob \<le> MAX_BLOB_BYTES
      \<and> oci_kind a = detected_kind detected
      \<and> extract_layer env (detected_format detected) blob (oci_cache_dir_for cache_root (blob_digest a)) w = Ok w'
      \<and> find_package_root w' (oci_cache_dir_for cache_root (blob_digest a)) (oci_kind a) = Ok (root_dir a)
      \<and> (\<forall>pem. fo_cosign_key opts = Some pem \<longrightarrow>
           (\<exists>payload sig_b64. verify_keyed (env_crypto env) pem payload sig_b64
              (digest_of_bytes env manifest_bytes) = Ok ())))"

lemma get_with_auth_capped_length:
  "get_with_auth_capped cs server jt url registry creds m accept n = (Ok b, n') \<Longrightarrow> length b \<le> m"
  unfolding get_with_auth_capped_def Let_def
  by (auto simp: outcome_simps dest: ensure_ok_Ok split: if_splits option.splits)

lemma verify_cosign_signature_Ok:
  "verify_cosign_signature env parsed digest pem creds n = (Ok u, n') \<Longrightarrow>
     \<exists>payload sig_b64. verify_keyed (env_crypto env) pem payload sig_b64 digest = Ok ()"
  by (auto simp: verify_cosign_signature_def Let_def outcome_simps)

lemma store_blob_Ok:
  assumes "store_blob env oci_ref version cache_root opts det blob w = Ok (a, w')"
  shows "layer_digest (detected_layer det) = blob_digest a" "blob_digest a = digest_of_bytes env blob"
    "oci_kind a = detected_kind det"
    "extract_layer env (detected_format det) blob (oci_cache_dir_for cache_root (blob_digest a)) w = Ok w'"
    "find_package_root w' (oci_cache_dir_for cache_root (blob_digest a)) (oci_kind a) = Ok (root_dir a)"
    "expected_digest opts = Some d \<Longrightarrow> blob_digest a = d"
  using assms by (auto simp: store_blob_def Let_def outcome_simps split: if_splits)

lemma oci_pull_Ok:
  assumes "oci_pull env oci_ref version parsed cache_root opts w n = (Ok (a, w'), n')"
  shows "pulled_ok env cache_root opts w a w' \<and> (\<forall>d. expected_digest opts = Some d \<longrightarrow> blob_digest a = d)"
proof -
  let ?creds = "for_registry (fo_creds opts) (ref_registry parsed)"
  obtain mb m det blob n1 n2 n3 n4 where
    m: "manifest_of_json env mb = Ok m"
    and sig: "(case fo_cosign_key opts of
        Some pem \<Rightarrow> verify_cosign_signature env parsed (digest_of_bytes env mb) pem ?creds
      | None \<Rightarrow> nret (Ok ())) n1 = (Ok (), n2)"
    and det: "detect_package m = Some det"
    and blob: "get_blob env (registry_url parsed ''blobs'' (layer_digest (detected_layer det)))
        (ref_registry parsed) ?creds n3 = (Ok blob, n4)"
    and store: "store_blob env oci_ref version cache_root opts det blob w = Ok (a, w')"
  proof -
    from assms show thesis
      unfolding oci_pull_def Let_def nbind_Ok nret_Ok omap_err_iff ok_or_iff
      by (elim exE conjE, split if_splits) (simp_all add: outcome_simps, metis that)
  qed
  from blob have "length blob \<le> MAX_BLOB_BYTES"
    by (auto simp: get_blob_def outcome_simps dest: get_with_auth_capped_length)
  moreover have "\<forall>pem. fo_cosign_key opts = Some pem \<longrightarrow>
      (\<exists>payload sig_b64. verify_keyed (env_crypto env) pem payload sig_b64 (digest_of_bytes env mb) = Ok ())"
    using sig by (auto dest: verify_cosign_signature_Ok)
  ultimately have "pulled_ok env cache_root opts w a w'"
    unfolding pulled_ok_def using m det store_blob_Ok(1-5) [OF store] by blast
  then show ?thesis using store_blob_Ok(6) [OF store] by blast
qed

text \<open>The cache entry that answers a pinned fetch, if it is there.\<close>

definition cache_hit :: "world \<Rightarrow> path \<Rightarrow> string option \<Rightarrow> (string \<times> package_kind) option" where
  "cache_hit w cache_root expected =
     (case expected of
        Some digest \<Rightarrow> map_option (\<lambda>k. (digest, k)) (detect_kind w (oci_cache_dir_for cache_root digest))
      | None \<Rightarrow> None)"

lemma oci_fetch_with_opts_cases:
  assumes "oci_fetch_with_opts env oci_ref version cache_root opts w n = (Ok (a, w'), n')"
  obtains (hit) d k where "expected_digest opts = Some d" "cache_hit w cache_root (Some d) = Some (d, k)"
      "find_package_root w (oci_cache_dir_for cache_root d) k = Ok (root_dir a)"
      "blob_digest a = d" "oci_kind a = k" "w' = w" "sent n' = sent n"
  | (pull) parsed where "cache_hit w cache_root (expected_digest opts) = None" "parse_ref oci_ref = Ok parsed"
      "oci_pull env oci_ref version parsed cache_root opts w (n\<lparr>token := None\<rparr>) = (Ok (a, w'), n')"
proof -
  from assms obtain parsed where parsed: "parse_ref oci_ref = Ok parsed"
    and rest: "(case cache_hit w cache_root (expected_digest opts) of
         Some (digest, kind) \<Rightarrow>
           nret (obind (find_package_root w (oci_cache_dir_for cache_root digest) kind) (\<lambda>d.
             Ok (\<lparr>root_dir = d, blob_digest = digest, oci_kind = kind\<rparr>, w)))
       | None \<Rightarrow> oci_pull env oci_ref version parsed cache_root opts w) (n\<lparr>token := None\<rparr>) = (Ok (a, w'), n')"
    unfolding oci_fetch_with_opts_def cache_hit_def by (auto simp: outcome_simps)
  show thesis
  proof (cases "cache_hit w cache_root (expected_digest opts)")
    case None
    with rest parsed pull show thesis by simp
  next
    case (Some dk)
    then obtain d k where dk: "dk = (d, k)" "expected_digest opts = Some d"
      by (auto simp: cache_hit_def split: option.splits)
    with Some rest hit show thesis by (auto simp: outcome_simps)
  qed
qed

text \<open>
  C11. What \<open>fetch_with_opts\<close> returns has been checked. With a digest pinned it returns that digest. Either
  the cache held it, and then nothing was sent and nothing changed; or the layer was pulled, its
  SHA-256 is the digest the manifest declares and the digest returned, it was within the size limit, it
  is what was unpacked at the cache directory of that digest, and if a key is configured the digest of
  the manifest is signed with it.
\<close>

theorem oci_fetch_checked:
  assumes "oci_fetch_with_opts env oci_ref version cache_root opts w n = (Ok (a, w'), n')"
  shows "(\<forall>d. expected_digest opts = Some d \<longrightarrow> blob_digest a = d)
    \<and> (if cache_hit w cache_root (expected_digest opts) = None then pulled_ok env cache_root opts w a w'
       else w' = w \<and> sent n' = sent n
         \<and> find_package_root w (oci_cache_dir_for cache_root (blob_digest a)) (oci_kind a) = Ok (root_dir a))"
  using assms
proof (cases rule: oci_fetch_with_opts_cases)
  case (hit d k)
  then show ?thesis by simp
next
  case (pull parsed)
  from oci_pull_Ok [OF pull(3)] pull(1) show ?thesis by simp
qed

text \<open>
  The signature is not part of a cached fetch: when the cache holds the pinned digest, the call returns
  the same artifact under any configured key, or none, without sending a request. A cache filled by a
  caller that does not verify is not verified later.
\<close>

theorem cosign_skipped_on_cache_hit:
  assumes "cache_hit w cache_root (expected_digest opts) = Some dk"
  shows "oci_fetch_with_opts env oci_ref version cache_root (opts\<lparr>fo_cosign_key := key\<rparr>) w n
      = oci_fetch_with_opts env oci_ref version cache_root opts w n
    \<and> sent (snd (oci_fetch_with_opts env oci_ref version cache_root opts w n)) = sent n"
proof -
  have "(case expected_digest opts of
               Some digest \<Rightarrow> map_option (\<lambda>k. (digest, k)) (detect_kind w (oci_cache_dir_for cache_root digest))
             | None \<Rightarrow> None) = Some dk"
    using assms by (simp add: cache_hit_def)
  then show ?thesis
    unfolding oci_fetch_with_opts_def
    by (auto simp: nbind_def nret_def split: outcome.splits prod.splits)
qed

text \<open>The fetch as a function of the pinned digest alone.\<close>

definition oci_pinned_fetch ::
  "('vk, 'sk, 'sg) oci_env \<Rightarrow> string \<times> string \<times> path \<times> oci_fetch_opts \<times> world \<times> net \<Rightarrow> string option
     \<Rightarrow> (oci_fetch_error, oci_artifact \<times> world) outcome"
where
  "oci_pinned_fetch env = (\<lambda>(oci_ref, version, cache_root, opts, w, n) d.
     fst (oci_fetch_with_opts env oci_ref version cache_root (opts\<lparr>expected_digest := d\<rparr>) w n))"

interpretation oci_pin: pinned_fetcher "oci_pinned_fetch env" "\<lambda>(a, w'). blob_digest a" for env
proof
  fix r d a
  assume fetched: "oci_pinned_fetch env r (Some d) = Ok a"
  obtain oci_ref version cache_root opts w n where r: "r = (oci_ref, version, cache_root, opts, w, n)"
    by (cases r)
  obtain x w' where a: "a = (x, w')" by (cases a)
  from fetched obtain n' where "oci_fetch_with_opts env oci_ref version cache_root
      (opts\<lparr>expected_digest := Some d\<rparr>) w n = (Ok (x, w'), n')"
    by (auto simp: r a oci_pinned_fetch_def fst_def split: prod.splits)
  then show "(case a of (a, w') \<Rightarrow> blob_digest a) = d"
    by (cases rule: oci_fetch_with_opts_cases) (auto simp: a dest: oci_pull_Ok)
qed

section \<open>Where the cache directory of a digest is\<close>

text \<open>
  A digest of the form the fetchers write has its directory inside the cache; but a digest from an
  edited lock, which \<open>validate\<close> checks for its prefix only, can name any directory: the rest of it is
  joined as a path, and an absolute one replaces the cache root.
\<close>

theorem cache_dir_of_digest:
  assumes "cache_root \<noteq> []"
  shows "oci_cache_dir_for cache_root (digest_of_bytes env blob) =
      (let hex = hex_encode (env_sha256 env blob)
       in if hex = [] then cache_root @ [Normal ''sha256''] else cache_root @ [Normal ''sha256'', Normal hex])
    \<and> oci_cache_dir_for cache_root (''sha256:/'' @ target) = path_of (CHR ''/'' # target)"
proof -
  let ?hex = "hex_encode (env_sha256 env blob)"
  have digits: "set ?hex \<subseteq> set ''0123456789abcdef''" by (rule set_hex_encode)
  then have "CHR ''/'' \<notin> set ?hex" "CHR ''.'' \<notin> set ?hex" by auto
  then have "?hex \<noteq> [] \<Longrightarrow> path_of ?hex = [Normal ?hex]" by (intro path_of_name) auto
  moreover have "path_of ''sha256'' = [Normal ''sha256'']" by (rule path_of_name) simp_all
  moreover have "path_of [] = []" by code_simp
  moreover have "is_absolute (path_of (CHR ''/'' # target))" by (simp add: is_absolute_path_of)
  ultimately show ?thesis
    using assms
    by (auto simp: oci_cache_dir_for_def digest_of_bytes_def strip_prefix_def path_join_def is_absolute_def Let_def)
qed

section \<open>Examples\<close>

text \<open>A registry with one chart, whose blob is \<open>x\<close>, under the identity as hash function.\<close>

definition toy_oci_env :: "(unit, unit, string) oci_env" where
  "toy_oci_env =
     \<lparr>env_codecs = test_codecs, env_client = Ok (), env_server = (\<lambda>_ _. Ok (ok_response ''x'')),
      env_json_token = (\<lambda>b. Ok (b, [])), env_sha256 = (\<lambda>s. s),
      manifest_of_json = (\<lambda>_. Ok \<lparr>layers =
        [\<lparr>media_type = HELM_CHART_LAYER_MEDIA_TYPE, layer_digest = ''sha256:78'', layer_size = 1\<rparr>],
        annotations = []\<rparr>),
      sig_layers_of_json = (\<lambda>_. Err []), env_crypto = toy_crypto, show_fetch_error = (\<lambda>_. []),
      extract_layer = (\<lambda>_ _ _ w. Ok (w\<lparr>is_file := (\<lambda>_. True)\<rparr>))\<rparr>"

definition toy_opts :: "string option \<Rightarrow> oci_fetch_opts" where
  "toy_opts d = \<lparr>expected_digest = d, fo_creds = [], fo_cosign_key = None\<rparr>"

definition toy_cache :: path where
  "toy_cache = [RootDir, Normal ''cache'']"

definition toy_artifact :: oci_artifact where
  "toy_artifact = \<lparr>root_dir = [RootDir, Normal ''cache'', Normal ''sha256'', Normal ''78''],
     blob_digest = ''sha256:78'', oci_kind = HelmChart\<rparr>"

lemma oci_fetch_checked_witness:
  "\<exists>w'. pulled_ok toy_oci_env toy_cache (toy_opts (Some ''sha256:78'')) (text_world []) toy_artifact w'
     \<and> blob_digest toy_artifact = ''sha256:78''"
proof -
  let ?run = "oci_fetch_with_opts toy_oci_env ''oci://ghcr.io/acme/app'' ''1.0.0'' toy_cache
      (toy_opts (Some ''sha256:78'')) (text_world []) fresh_net"
  have miss: "cache_hit (text_world []) toy_cache (expected_digest (toy_opts (Some ''sha256:78''))) = None"
    by code_simp
  have ref: "parse_ref ''oci://ghcr.io/acme/app'' = Ok \<lparr>ref_registry = ''ghcr.io'', ref_repository = ''acme/app''\<rparr>"
    by code_simp
  have get: "get_with_auth_capped test_codecs (\<lambda>_ _. Ok (ok_response ''x'')) jt url registry creds m accept n
      = (Ok ''x'', n\<lparr>sent := sent n @ [apply_bearer creds n ((get url)\<lparr>rq_accept := accept\<rparr>)]\<rparr>)"
    if "1 \<le> m" for jt url registry creds m accept n
    using that by (simp add: get_with_auth_capped_def nbind_def send_def nret_def ensure_ok_def ok_response_def
        is_success_def read_body_capped_def declared_too_large_def)
  have bound: "1 \<le> MAX_BLOB_BYTES" "1 \<le> MAX_MANIFEST_BYTES"
    by (simp_all add: MAX_BLOB_BYTES_def MAX_MANIFEST_BYTES_def)
  have digest: "digest_of_bytes toy_oci_env ''x'' = ''sha256:78''" by code_simp
  have store: "case store_blob toy_oci_env ''oci://ghcr.io/acme/app'' ''1.0.0'' toy_cache (toy_opts (Some ''sha256:78''))
      \<lparr>detected_kind = HelmChart, detected_layer = \<lparr>media_type = HELM_CHART_LAYER_MEDIA_TYPE,
        layer_digest = ''sha256:78'', layer_size = 1\<rparr>, detected_format = GzipTar\<rparr> ''x'' (text_world []) of
      Ok (a, w') \<Rightarrow> a = toy_artifact | _ \<Rightarrow> False" by code_simp
  have env: "env_client toy_oci_env = Ok ()" "env_codecs toy_oci_env = test_codecs" "env_server toy_oci_env = (\<lambda>_ _. Ok (ok_response ''x''))"
    "manifest_of_json toy_oci_env b = Ok \<lparr>layers =
        [\<lparr>media_type = HELM_CHART_LAYER_MEDIA_TYPE, layer_digest = ''sha256:78'', layer_size = 1\<rparr>],
        annotations = []\<rparr>" for b by (simp_all add: toy_oci_env_def)
  have opts: "fo_cosign_key (toy_opts d) = None" "fo_creds (toy_opts d) = []" for d
    by (simp_all add: toy_opts_def)
  have "case fst ?run of Ok (a, w') \<Rightarrow> a = toy_artifact | _ \<Rightarrow> False"
    unfolding oci_fetch_with_opts_def ref
    using miss [unfolded cache_hit_def] store bound
    by (simp add: nbind_def nret_def nmap_err_def oci_pull_def build_client_def Let_def get_manifest_def get_blob_def
        env get opts detect_package_def find_layer_def)
  then obtain w' n' where run: "?run = (Ok (toy_artifact, w'), n')"
    by (cases ?run) (auto split: outcome.splits)
  have "cache_hit (text_world []) toy_cache (Some ''sha256:78'') = None" by code_simp
  with oci_fetch_checked [OF run] have "pulled_ok toy_oci_env toy_cache (toy_opts (Some ''sha256:78'')) (text_world []) toy_artifact w'"
    "blob_digest toy_artifact = ''sha256:78''" by (simp_all add: toy_opts_def)
  then show ?thesis by blast
qed

definition cached_world :: world where
  "cached_world = (text_world [])\<lparr>is_file := (\<lambda>p. p = [RootDir, Normal ''cache'', Normal ''sha256'', Normal ''78'', Normal ''Chart.yaml''])\<rparr>"

text \<open>The environment knows no signature at all, yet a fetch with a key succeeds.\<close>

lemma cosign_skipped_on_cache_hit_witness:
  "is_Ok (fst (oci_fetch_with_opts toy_oci_env ''oci://ghcr.io/acme/app'' ''1.0.0'' toy_cache
      ((toy_opts (Some ''sha256:78''))\<lparr>fo_cosign_key := Some ''pem''\<rparr>) cached_world fresh_net))"
proof -
  have "cache_hit cached_world toy_cache (expected_digest (toy_opts (Some ''sha256:78''))) = Some (''sha256:78'', HelmChart)"
    by code_simp
  note skipped = cosign_skipped_on_cache_hit [OF this, THEN conjunct1,
      of toy_oci_env "''oci://ghcr.io/acme/app''" "''1.0.0''" "Some ''pem''" fresh_net]
  show ?thesis unfolding skipped by code_simp
qed

lemma cache_dir_of_digest_witness:
  "oci_cache_dir_for toy_cache (''sha256:/'' @ ''etc/chart'') = [RootDir, Normal ''etc'', Normal ''chart'']"
proof -
  have ne: "toy_cache \<noteq> []" by (simp add: toy_cache_def)
  have "path_of (CHR ''/'' # ''etc/chart'') = [RootDir, Normal ''etc'', Normal ''chart'']" by code_simp
  with cache_dir_of_digest [OF ne, THEN conjunct2, of "''etc/chart''"] show ?thesis by simp
qed

end
