(* ===== verification/HelmRepo.thy ===== *)
theory HelmRepo
  imports Fetch
begin

text \<open>
  \<open>helm_repo_fetcher.rs\<close>: charts from a classic Helm repository. The record \<open>helm_env\<close> holds the HTTP client,
  the base64 encoder, SHA-256, the YAML reader of the index, the \<open>semver\<close> crate (versions of a linear
  order, requirements that match them) and \<open>unpack_tgz\<close>, which unpacks a chart archive into a directory
  (the \<open>tar\<close> and \<open>flate2\<close> crates behind \<open>unpack_tgz_capped\<close>).
\<close>

definition MAX_INDEX_BYTES :: nat where "MAX_INDEX_BYTES = 32 * 1024 * 1024"
definition MAX_TARBALL_BYTES :: nat where "MAX_TARBALL_BYTES = 1024 * 1024 * 1024"

record index_entry =
  ie_version :: string
  ie_urls :: "string list"

record repo_index =
  entries :: "(string, index_entry list) btree"

datatype helm_error =
  IndexParse string
| ChartNotFound string
| NoMatchingVersion string string string
| NoUrl string string
| BadRequirement string string
| HelmHttp string string
| SchemeDowngrade string string
| HelmResponseTooLarge string nat
| DecompressionLimit string nat
| DigestMismatch string string string
| OfflineCacheMiss string
| HelmIo path io_error

record fetched =
  fetched_root :: path
  fetched_digest :: string
  fetched_version :: string

record ('v, 'r) helm_env =
  helm_client :: "(string, unit) outcome"
  helm_server :: server
  helm_b64 :: "string \<Rightarrow> string"
  helm_sha256 :: "string \<Rightarrow> string"
  index_of_yaml :: "string \<Rightarrow> (string, repo_index) outcome"
  parse_semver :: "string \<Rightarrow> 'v option"
  show_semver :: "'v \<Rightarrow> string"
  parse_req :: "string \<Rightarrow> (string, 'r) outcome"
  req_matches :: "'r \<Rightarrow> 'v \<Rightarrow> bool"
  unpack_tgz :: "string \<Rightarrow> path \<Rightarrow> string \<Rightarrow> world \<Rightarrow> (helm_error, world) outcome"
  show_status :: "nat \<Rightarrow> string"

section \<open>Choosing a version\<close>

definition parse_index :: "('v, 'r) helm_env \<Rightarrow> string \<Rightarrow> (helm_error, repo_index) outcome" where
  "parse_index env bytes = omap_err IndexParse (index_of_yaml env bytes)"

definition strip_v :: "string \<Rightarrow> string" where
  "strip_v s = (case strip_prefix ''v'' s of Some r \<Rightarrow> r | None \<Rightarrow> s)"

definition parse_version_req :: "('v, 'r) helm_env \<Rightarrow> string \<Rightarrow> (helm_error, 'r) outcome" where
  "parse_version_req env version_req =
     (let trimmed = trim version_req;
          normalized = strip_v trimmed;
          req = (if parse_semver env normalized \<noteq> None then CHR ''='' # normalized else trimmed)
      in omap_err (BadRequirement version_req) (parse_req env req))"

definition better ::
  "('v::linorder, 'r) helm_env \<Rightarrow> 'r \<Rightarrow> index_entry \<Rightarrow> ('v \<times> index_entry) option \<Rightarrow> ('v \<times> index_entry) option"
where
  "better env req entry best =
     (case parse_semver env (strip_v (ie_version entry)) of
        None \<Rightarrow> best
      | Some ver \<Rightarrow>
          if \<not> req_matches env req ver then best
          else (case best of
                  Some (b, _) \<Rightarrow> (if ver > b then Some (ver, entry) else best)
                | None \<Rightarrow> Some (ver, entry)))"

definition select_version ::
  "('v::linorder, 'r) helm_env \<Rightarrow> repo_index \<Rightarrow> string \<Rightarrow> string \<Rightarrow> (helm_error, string \<times> string) outcome"
where
  "select_version env index chart version_req =
     obind (ok_or (ChartNotFound chart) (bt_get (entries index) chart)) (\<lambda>es.
     obind (parse_version_req env version_req) (\<lambda>req.
     obind (ok_or (NoMatchingVersion chart version_req (join_with '', '' (sort (map ie_version es))))
              (fold (better env req) es None)) (\<lambda>(ver, entry).
     case ie_urls entry of
       url # _ \<Rightarrow> Ok (show_semver env ver, url)
     | [] \<Rightarrow> Err (NoUrl chart (show_semver env ver)))))"

section \<open>URLs and the cache\<close>

definition trim_start_char :: "char \<Rightarrow> string \<Rightarrow> string" where
  "trim_start_char c s = dropWhile (\<lambda>x. x = c) s"

definition resolve_tarball_url :: "string \<Rightarrow> string \<Rightarrow> string \<Rightarrow> (helm_error, string) outcome" where
  "resolve_tarball_url repo url chart =
     (if prefix ''https://'' url then Ok url
      else if prefix ''http://'' url
      then if prefix ''https://'' repo then Err (SchemeDowngrade chart url) else Ok url
      else Ok (trim_end CHR ''/'' repo @ ''/'' @ trim_start_char CHR ''/'' url))"

text \<open>\<open>trim_start_matches\<close> strips the prefix as often as it is there.\<close>

function trim_start_matches :: "string \<Rightarrow> string \<Rightarrow> string" where
  "trim_start_matches p s =
     (if p \<noteq> [] \<and> prefix p s then trim_start_matches p (drop (length p) s) else s)"
  by pat_completeness auto
termination
  by (relation "measure (\<lambda>(p, s). length s)") (auto simp: prefix_def)

declare trim_start_matches.simps [simp del]

definition helm_cache_dir_for :: "path \<Rightarrow> string \<Rightarrow> path" where
  "helm_cache_dir_for cache_root digest =
     path_join cache_root (path_of (trim_start_matches ''sha256:'' digest))"

definition helm_digest :: "('v, 'r) helm_env \<Rightarrow> string \<Rightarrow> string" where
  "helm_digest env tgz = ''sha256:'' @ hex_encode (helm_sha256 env tgz)"

definition extract_and_hash ::
  "('v, 'r) helm_env \<Rightarrow> string \<Rightarrow> path \<Rightarrow> string \<Rightarrow> world \<Rightarrow> (helm_error, fetched \<times> world) outcome"
where
  "extract_and_hash env tgz cache_root chart_dir_name w =
     (let digest = helm_digest env tgz;
          dest = helm_cache_dir_for cache_root digest;
          root = path_join dest (path_of chart_dir_name)
      in obind (if \<not> is_file w (child root ''Chart.yaml'')
                then unpack_tgz env tgz dest chart_dir_name w else Ok w) (\<lambda>w.
         Ok (\<lparr>fetched_root = root, fetched_digest = digest, fetched_version = []\<rparr>, w)))"

definition helm_fetch_from_cache :: "world \<Rightarrow> path \<Rightarrow> string \<Rightarrow> string \<Rightarrow> fetched option" where
  "helm_fetch_from_cache w cache_root digest chart_dir_name =
     (let dest = helm_cache_dir_for cache_root digest;
          named = path_join dest (path_of chart_dir_name);
          found = (\<lambda>root. Some \<lparr>fetched_root = root, fetched_digest = digest, fetched_version = []\<rparr>)
      in if is_file w (child named ''Chart.yaml'') then found named
         else if is_file w (child dest ''Chart.yaml'') then found dest
         else None)"

section \<open>Fetching\<close>

record helm_fetch_opts =
  helm_expected :: "string option"
  helm_auth :: "host_auth_map option"

definition http_get ::
  "('v, 'r) helm_env \<Rightarrow> string \<Rightarrow> host_auth_map option \<Rightarrow> nat \<Rightarrow> net \<Rightarrow> (helm_error, string) outcome \<times> net"
where
  "http_get env url auth max_bytes =
     (let creds = (case auth of Some m \<Rightarrow> lookup m url | None \<Rightarrow> None);
          req = (get url)\<lparr>rq_auth := map_option (to_authorization_header (helm_b64 env)) creds\<rparr>
      in nbind (nmap_err (\<lambda>e. case e of TransportHttp u d \<Rightarrow> HelmHttp u d | _ \<Rightarrow> HelmHttp url [])
            (send (helm_server env) req)) (\<lambda>resp.
         nret (if \<not> is_success (rs_status resp)
               then Err (HelmHttp url (''HTTP '' @ show_status env (rs_status resp)))
               else case declared_too_large resp max_bytes of
                 Some _ \<Rightarrow> Err (HelmResponseTooLarge url max_bytes)
               | None \<Rightarrow>
                   (case rs_body resp of (stream, ending) \<Rightarrow>
                      let buf = take (max_bytes + 1) stream
                      in case (if length stream \<le> max_bytes then ending else None) of
                           Some e \<Rightarrow> Err (HelmHttp url (io_msg e))
                         | None \<Rightarrow>
                             if length buf > max_bytes then Err (HelmResponseTooLarge url max_bytes)
                             else Ok buf))))"

definition keep_tarball ::
  "('v, 'r) helm_env \<Rightarrow> string \<Rightarrow> string \<Rightarrow> string \<Rightarrow> path \<Rightarrow> helm_fetch_opts \<Rightarrow> world
     \<Rightarrow> (helm_error, fetched \<times> world) outcome"
where
  "keep_tarball env chart version tgz cache_root opts w =
     (let digest = helm_digest env tgz
      in if helm_expected opts \<noteq> None \<and> helm_expected opts \<noteq> Some digest
         then Err (DigestMismatch chart (the (helm_expected opts)) digest)
         else obind (extract_and_hash env tgz cache_root chart w) (\<lambda>(f, w).
              Ok (f\<lparr>fetched_version := version\<rparr>, w)))"

definition helm_fetch ::
  "('v::linorder, 'r) helm_env \<Rightarrow> string \<Rightarrow> string \<Rightarrow> string \<Rightarrow> path \<Rightarrow> helm_fetch_opts \<Rightarrow> world \<Rightarrow> net
     \<Rightarrow> (helm_error, fetched \<times> world) outcome \<times> net"
where
  "helm_fetch env repo chart version_req cache_root opts w =
     nbind (nret (omap_err (HelmHttp repo) (helm_client env))) (\<lambda>_.
     nbind (http_get env (trim_end CHR ''/'' repo @ ''/index.yaml'') (helm_auth opts) MAX_INDEX_BYTES) (\<lambda>index_bytes.
     nbind (nret (parse_index env index_bytes)) (\<lambda>index.
     nbind (nret (select_version env index chart version_req)) (\<lambda>(version, tgz_url).
     nbind (nret (resolve_tarball_url repo tgz_url chart)) (\<lambda>abs_url.
     nbind (http_get env abs_url (helm_auth opts) MAX_TARBALL_BYTES) (\<lambda>tgz.
     nret (keep_tarball env chart version tgz cache_root opts w)))))))"

section \<open>The chosen version is the highest that matches\<close>

definition candidate :: "('v::linorder, 'r) helm_env \<Rightarrow> 'r \<Rightarrow> index_entry \<Rightarrow> 'v \<Rightarrow> bool" where
  "candidate env req e v \<longleftrightarrow> parse_semver env (strip_v (ie_version e)) = Some v \<and> req_matches env req v"

definition best_of :: "('v::linorder, 'r) helm_env \<Rightarrow> 'r \<Rightarrow> index_entry list \<Rightarrow> ('v \<times> index_entry) option \<Rightarrow> bool" where
  "best_of env req es best \<longleftrightarrow>
     (case best of
        None \<Rightarrow> \<forall>e \<in> set es. \<forall>v. \<not> candidate env req e v
      | Some (b, entry) \<Rightarrow> entry \<in> set es \<and> candidate env req entry b
          \<and> (\<forall>e \<in> set es. \<forall>v. candidate env req e v \<longrightarrow> v \<le> b))"

lemma best_of_better: "best_of env req es best \<Longrightarrow> best_of env req (es @ [e]) (better env req e best)"
  by (cases "parse_semver env (strip_v (ie_version e))")
    (force simp: best_of_def better_def candidate_def split: option.splits)+

lemma best_of_fold: "best_of env req es (fold (better env req) es None)"
proof (induction es rule: rev_induct)
  case Nil
  then show ?case by (simp add: best_of_def)
next
  case (snoc e es)
  from best_of_better [OF this, of e] show ?case by simp
qed

text \<open>
  \<open>select_version\<close> returns the highest published version that parses (after one leading \<open>v\<close>) and
  satisfies the requirement, with the first URL of its entry; when it reports \<open>NoMatchingVersion\<close> no
  published version does. Entries that do not parse never abort the choice.
\<close>

theorem select_version_highest:
  assumes "bt_get (entries index) chart = Some es" "parse_version_req env version_req = Ok req"
  shows "(case select_version env index chart version_req of
      Ok (version, url) \<Rightarrow>
        (\<exists>e \<in> set es. \<exists>v. candidate env req e v \<and> version = show_semver env v
           \<and> (\<exists>us. ie_urls e = url # us) \<and> (\<forall>e' \<in> set es. \<forall>v'. candidate env req e' v' \<longrightarrow> v' \<le> v))
    | Err (NoMatchingVersion c r available) \<Rightarrow> \<forall>e \<in> set es. \<forall>v. \<not> candidate env req e v
    | Err (NoUrl c version) \<Rightarrow> \<exists>e \<in> set es. \<exists>v. candidate env req e v \<and> ie_urls e = []
    | _ \<Rightarrow> False)"
proof (cases "fold (better env req) es None")
  case None
  with best_of_fold [of env req es] assms show ?thesis by (simp add: select_version_def best_of_def)
next
  case (Some vb)
  obtain v e where ve: "vb = (v, e)" by (cases vb)
  with Some best_of_fold [of env req es] have b: "e \<in> set es" "candidate env req e v"
    "\<forall>e \<in> set es. \<forall>v'. candidate env req e v' \<longrightarrow> v' \<le> v" by (auto simp: best_of_def)
  show ?thesis
  proof (cases "ie_urls e")
    case Nil
    with Some ve assms b show ?thesis by (auto simp: select_version_def)
  next
    case (Cons url us)
    then have "select_version env index chart version_req = Ok (show_semver env v, url)"
      using Some ve assms by (simp add: select_version_def)
    with b Cons show ?thesis by auto
  qed
qed

definition toy_entries :: "index_entry list" where
  "toy_entries =
     [\<lparr>ie_version = ''v2'', ie_urls = [''a.tgz'']\<rparr>, \<lparr>ie_version = ''x'', ie_urls = []\<rparr>,
      \<lparr>ie_version = ''5'', ie_urls = [''b.tgz'', ''c.tgz'']\<rparr>, \<lparr>ie_version = ''9'', ie_urls = [''d.tgz'']\<rparr>]"

definition toy_index :: repo_index where
  "toy_index = \<lparr>entries = [(''web'', toy_entries)]\<rparr>"

definition toy_helm_env :: "(nat, nat) helm_env" where
  "toy_helm_env =
     \<lparr>helm_client = Ok (), helm_server = (\<lambda>_ _. Ok (ok_response ''t'')), helm_b64 = (\<lambda>s. s), helm_sha256 = (\<lambda>s. s),
      index_of_yaml = (\<lambda>_. Ok toy_index), parse_semver = digits_value 0, show_semver = show_nat,
      parse_req = (\<lambda>s. case digits_value 0 (tl s) of Some n \<Rightarrow> Ok n | None \<Rightarrow> Err s),
      req_matches = (\<lambda>r v. v \<le> r), unpack_tgz = (\<lambda>_ _ _ w. Ok w), show_status = show_nat\<rparr>"

lemma select_version_highest_witness:
  "\<exists>e \<in> set toy_entries. \<exists>v.
     candidate toy_helm_env 8 e v \<and> ''5'' = show_semver toy_helm_env v \<and> (\<exists>us. ie_urls e = ''b.tgz'' # us)
     \<and> (\<forall>e' \<in> set toy_entries. \<forall>v'. candidate toy_helm_env 8 e' v' \<longrightarrow> v' \<le> v)"
proof -
  have es: "bt_get (entries toy_index) ''web'' = Some toy_entries"
    by (simp add: toy_index_def bt_get_def)
  have req: "parse_version_req toy_helm_env ''<8'' = Ok 8" by code_simp
  have run: "select_version toy_helm_env toy_index ''web'' ''<8'' = Ok (''5'', ''b.tgz'')" by code_simp
  show ?thesis
    using select_version_highest [OF es req] unfolding run by (simp only: outcome.case prod.case)
qed

section \<open>What a fetch guarantees\<close>

lemma trim_end_https: "prefix ''https://'' repo \<Longrightarrow> prefix ''https:'' (trim_end CHR ''/'' repo)"
proof -
  assume "prefix ''https://'' repo"
  then obtain r where r: "repo = ''https://'' @ r" by (auto simp: prefix_def)
  obtain k where "repo = trim_end CHR ''/'' repo @ replicate k CHR ''/''"
    using trim_end_decomp [of repo "CHR ''/''"] by blast
  show ?thesis
  proof (cases "length ''https:'' \<le> length (trim_end CHR ''/'' repo)")
    case True
    have "prefix ''https:'' repo" by (simp add: r)
    from prefix_length_prefix [OF this prefix_trim_end True] show ?thesis .
  next
    case False
    let ?t = "trim_end CHR ''/'' repo"
    have short: "length ?t \<le> 5" using False by simp
    have len: "length repo = length ?t + k"
      by (metis \<open>repo = trim_end CHR ''/'' repo @ replicate k CHR ''/''\<close> length_append length_replicate)
    have "8 \<le> length repo" by (simp add: r)
    with len short have "5 - length ?t < k" by linarith
    then have "(?t @ replicate k CHR ''/'') ! 5 = CHR ''/''" using short by (simp add: nth_append)
    then have "repo ! 5 = CHR ''/''" using \<open>repo = ?t @ replicate k CHR ''/''\<close> by metis
    moreover have "repo ! 5 = CHR '':''" by (simp add: r)
    ultimately show ?thesis by simp
  qed
qed

lemma resolve_tarball_url_https:
  assumes "resolve_tarball_url repo url chart = Ok abs_url" "prefix ''https://'' repo"
  shows "prefix ''https:'' abs_url"
proof -
  have "prefix ''https:'' u" if "prefix ''https://'' u" for u
    using that by (auto simp: prefix_def)
  with assms trim_end_https [OF assms(2)] show ?thesis
    by (auto simp: resolve_tarball_url_def split: if_splits)
qed

lemma http_get_length:
  "http_get env url auth m n = (Ok b, n') \<Longrightarrow> length b \<le> m"
  by (auto simp: http_get_def outcome_simps Let_def split: if_splits option.splits prod.splits)

lemma extract_and_hash_Ok:
  "extract_and_hash env tgz root chart w = Ok (f, w') \<Longrightarrow> fetched_digest f = helm_digest env tgz"
  by (auto simp: extract_and_hash_def Let_def outcome_simps split: if_splits)

text \<open>
  A chart that \<open>fetch\<close> returns is the archive that was downloaded: its digest is the SHA-256 of at most
  \<open>MAX_TARBALL_BYTES\<close> bytes and is the pinned one when one is pinned; and from a repository at an
  \<open>https\<close> URL the archive was downloaded over \<open>https\<close>, whatever the index says.
\<close>

theorem helm_fetch_checked:
  assumes "helm_fetch env repo chart req cache_root opts w n = (Ok (f, w'), n')"
  shows "(\<forall>d. helm_expected opts = Some d \<longrightarrow> fetched_digest f = d)
    \<and> (\<exists>url tgz n1 n2. http_get env url (helm_auth opts) MAX_TARBALL_BYTES n1 = (Ok tgz, n2)
        \<and> length tgz \<le> MAX_TARBALL_BYTES \<and> fetched_digest f = helm_digest env tgz
        \<and> (prefix ''https://'' repo \<longrightarrow> prefix ''https:'' url))"
proof -
  obtain url tgz n1 n2 tgz_url version where
    url: "resolve_tarball_url repo tgz_url chart = Ok url"
    and tgz: "http_get env url (helm_auth opts) MAX_TARBALL_BYTES n1 = (Ok tgz, n2)"
    and keep: "keep_tarball env chart version tgz cache_root opts w = Ok (f, w')"
    using assms unfolding helm_fetch_def nbind_Ok nret_Ok by (auto simp: outcome_simps)
  from keep have "fetched_digest f = helm_digest env tgz"
    and pin: "\<not> (helm_expected opts \<noteq> None \<and> helm_expected opts \<noteq> Some (helm_digest env tgz))"
    by (auto simp: keep_tarball_def Let_def outcome_simps dest: extract_and_hash_Ok split: if_splits)
  with pin tgz http_get_length [OF tgz] resolve_tarball_url_https [OF url] show ?thesis by auto
qed

lemma helm_fetch_checked_witness:
  "\<exists>f w' n'. helm_fetch toy_helm_env ''https://charts.example.com/'' ''web'' ''<8'' [RootDir]
      \<lparr>helm_expected = Some ''sha256:74'', helm_auth = None\<rparr> (text_world []) fresh_net = (Ok (f, w'), n')
    \<and> fetched_digest f = ''sha256:74''"
proof -
  let ?opts = "\<lparr>helm_expected = Some ''sha256:74'', helm_auth = None\<rparr>"
  have get: "\<exists>n'. http_get toy_helm_env url None m n = (Ok ''t'', n')" if "1 \<le> m" for url m n
    using that by (simp add: http_get_def nbind_def send_def nret_def nmap_err_def toy_helm_env_def ok_response_def
        is_success_def declared_too_large_def get_def)
  have bounds: "1 \<le> MAX_INDEX_BYTES" "1 \<le> MAX_TARBALL_BYTES"
    by (simp_all add: MAX_INDEX_BYTES_def MAX_TARBALL_BYTES_def)
  have sel: "select_version toy_helm_env toy_index ''web'' ''<8'' = Ok (''5'', ''b.tgz'')" by code_simp
  have "is_Ok (keep_tarball toy_helm_env ''web'' ''5'' ''t'' [RootDir] ?opts (text_world []))" by code_simp
  then obtain f w' where keep: "keep_tarball toy_helm_env ''web'' ''5'' ''t'' [RootDir] ?opts (text_world []) = Ok (f, w')"
    by (auto simp: is_Ok_iff)
  obtain n1 where n1: "http_get toy_helm_env (trim_end CHR ''/'' ''https://charts.example.com/'' @ ''/index.yaml'')
      None MAX_INDEX_BYTES fresh_net = (Ok ''t'', n1)" using get [OF bounds(1)] by blast
  obtain u where u: "resolve_tarball_url ''https://charts.example.com/'' ''b.tgz'' ''web'' = Ok u"
    by (simp add: resolve_tarball_url_def)
  obtain n2 where n2: "http_get toy_helm_env u None MAX_TARBALL_BYTES n1 = (Ok ''t'', n2)"
    using get [OF bounds(2)] by blast
  have env: "helm_client toy_helm_env = Ok ()" "parse_index toy_helm_env ''t'' = Ok toy_index"
    by (simp_all add: toy_helm_env_def parse_index_def)
  have run: "helm_fetch toy_helm_env ''https://charts.example.com/'' ''web'' ''<8'' [RootDir] ?opts (text_world []) fresh_net
      = (Ok (f, w'), n2)"
    unfolding helm_fetch_def nbind_def nret_def helm_fetch_opts.select_convs env n1 sel
    by (simp add: n1 env sel u n2 keep)
  from helm_fetch_checked [OF run, THEN conjunct1] have "fetched_digest f = ''sha256:74''" by simp
  with run show ?thesis by blast
qed

text \<open>The fetch as a function of the pinned digest alone.\<close>

definition helm_pinned_fetch ::
  "('v::linorder, 'r) helm_env \<Rightarrow> string \<times> string \<times> string \<times> path \<times> helm_fetch_opts \<times> world \<times> net \<Rightarrow> string option
     \<Rightarrow> (helm_error, fetched \<times> world) outcome"
where
  "helm_pinned_fetch env = (\<lambda>(repo, chart, req, cache_root, opts, w, n) d.
     fst (helm_fetch env repo chart req cache_root (opts\<lparr>helm_expected := d\<rparr>) w n))"

lemma keep_tarball_pinned:
  "keep_tarball env chart version tgz root opts w = Ok (f, w') \<Longrightarrow> helm_expected opts = Some d \<Longrightarrow> fetched_digest f = d"
  by (auto simp: keep_tarball_def Let_def outcome_simps dest: extract_and_hash_Ok split: if_splits)

interpretation helm_pin: pinned_fetcher "helm_pinned_fetch env" "\<lambda>(f, w'). fetched_digest f" for env
proof
  fix r d a
  assume fetched: "helm_pinned_fetch env r (Some d) = Ok a"
  obtain repo chart req root opts w n where r: "r = (repo, chart, req, root, opts, w, n)" by (cases r)
  obtain f w' where a: "a = (f, w')" by (cases a)
  from fetched obtain n' where "helm_fetch env repo chart req root (opts\<lparr>helm_expected := Some d\<rparr>) w n = (Ok (f, w'), n')"
    by (auto simp: r a helm_pinned_fetch_def fst_def split: prod.splits)
  then obtain version tgz where
    "keep_tarball env chart version tgz root (opts\<lparr>helm_expected := Some d\<rparr>) w = Ok (f, w')"
    unfolding helm_fetch_def nbind_Ok nret_Ok by (auto simp: outcome_simps)
  then show "(case a of (f, w') \<Rightarrow> fetched_digest f) = d"
    by (auto simp: a dest: keep_tarball_pinned)
qed

end
