(* ===== verification/GitFetcher.thy ===== *)
theory GitFetcher
  imports Fetch
begin

text \<open>
  \<open>git_fetcher.rs\<close>: charts from a git repository: the cached bare clone, its refresh, the resolution of a
  tag or commit and the checkout of the tree. The record \<open>gix\<close> holds what the \<open>gix\<close> crate does: opening,
  cloning and refreshing a repository and reading its objects and references. The checkout writes files
  one by one, so its result carries the world on errors too.
\<close>

section \<open>The data\<close>

datatype ref_spec = Tag string | Rev string

fun label :: "ref_spec \<Rightarrow> string" where
  "label (Tag s) = s"
| "label (Rev s) = s"

record fetched_repo =
  chart_dir :: path
  commit_sha :: string

datatype git_error =
  BadUrl string
| Clone string string
| Refresh string string
| RefNotFound string string
| ResolveRef string string string
| Checkout string path string
| GitIo path io_error
| LockCommitMismatch string string string string

datatype entry_kind = TreeEntry | BlobEntry | OtherEntry

datatype git_object =
  Blob string
| Tree "(entry_kind \<times> string \<times> string) list"
| CorruptTree string
| Commit string
| OtherObject

record 'r gix =
  open_repo :: "path \<Rightarrow> world \<Rightarrow> (string, 'r) outcome"
  clone_repo :: "string \<Rightarrow> path \<Rightarrow> host_auth_map option \<Rightarrow> world \<Rightarrow> (string, 'r \<times> world) outcome"
  refresh_repo :: "'r \<Rightarrow> string \<Rightarrow> host_auth_map option \<Rightarrow> (string, 'r) outcome"
  oid_from_hex :: "string \<Rightarrow> (string, string) outcome"
  find_object :: "'r \<Rightarrow> string \<Rightarrow> (string, git_object) outcome"
  object_data :: "git_object \<Rightarrow> string"
  show_utf8_error :: "string \<Rightarrow> string"
  find_reference :: "'r \<Rightarrow> string \<Rightarrow> (string, (string, string) outcome) outcome"

section \<open>The bare clone\<close>

text \<open>As in \<open>kcl_char\<close>: one underscore for each character outside the class.\<close>

definition bare_char :: "char \<Rightarrow> string" where
  "bare_char c =
     (if is_ascii_alphanumeric c \<or> c \<in> set ''-_.'' then [c]
      else if is_continuation c then [] else ''_'')"

definition bare_repo_path :: "path \<Rightarrow> string \<Rightarrow> path" where
  "bare_repo_path cache_root url =
     path_join (path_join cache_root (path_of ''repos''))
       (path_of (concat (map bare_char url) @ ''.git''))"

definition open_bare :: "'r gix \<Rightarrow> path \<Rightarrow> string \<Rightarrow> world \<Rightarrow> (git_error, 'r) outcome" where
  "open_bare g p url w =
     omap_err (\<lambda>e. Clone url (''opening cached bare `'' @ path_str p @ ''`: '' @ e)) (open_repo g p w)"

definition clone_bare ::
  "'r gix \<Rightarrow> string \<Rightarrow> path \<Rightarrow> host_auth_map option \<Rightarrow> world \<Rightarrow> (git_error, 'r \<times> world) outcome"
where
  "clone_bare g url dest auth w =
     obind (case parent dest of
          Some p \<Rightarrow> omap_err (GitIo p) (fs_create_dir_all p w)
        | None \<Rightarrow> Ok w) (\<lambda>w.
     omap_err (Clone url) (clone_repo g url dest auth w))"

definition refresh_bare :: "'r gix \<Rightarrow> 'r \<Rightarrow> string \<Rightarrow> host_auth_map option \<Rightarrow> (git_error, 'r) outcome" where
  "refresh_bare g repo url auth = omap_err (Refresh url) (refresh_repo g repo url auth)"

fun resolve_ref :: "'r gix \<Rightarrow> 'r \<Rightarrow> string \<Rightarrow> ref_spec \<Rightarrow> (git_error, string) outcome" where
  "resolve_ref g repo url (Rev hex) =
     obind (omap_err (\<lambda>e. ResolveRef url hex (''rev must be a 40-char sha1 hex: '' @ e)) (oid_from_hex g hex)) (\<lambda>oid.
     obind (omap_err (\<lambda>_. RefNotFound url hex) (find_object g repo oid)) (\<lambda>_. Ok oid))"
| "resolve_ref g repo url (Tag tag) =
     obind (omap_err (\<lambda>_. RefNotFound url tag) (find_reference g repo (''refs/tags/'' @ tag))) (\<lambda>peeled.
     omap_err (ResolveRef url tag) peeled)"

section \<open>The checkout\<close>

definition is_safe_component :: "string \<Rightarrow> bool" where
  "is_safe_component name \<longleftrightarrow>
     name \<noteq> [] \<and> name \<noteq> ''.'' \<and> name \<noteq> ''..''
     \<and> CHR ''/'' \<notin> set name \<and> CHR 0x5C \<notin> set name
     \<and> (case path_of name of [Normal _] \<Rightarrow> True | _ \<Rightarrow> False)"

text \<open>
  \<open>write_tree\<close> with a bound on the depth of the trees; \<open>None\<close> when the bound is reached. A non-UTF-8 or
  unsafe name stops it with an error text.
\<close>

fun write_entries ::
  "(string \<Rightarrow> path \<Rightarrow> world \<Rightarrow> ((string, unit) outcome \<times> world) option) \<Rightarrow> 'r gix \<Rightarrow> 'r \<Rightarrow> string \<Rightarrow> path
     \<Rightarrow> (entry_kind \<times> string \<times> string) list \<Rightarrow> world \<Rightarrow> ((string, unit) outcome \<times> world) option"
where
  "write_entries sub g repo tree_id dest [] w = Some (Ok (), w)"
| "write_entries sub g repo tree_id dest ((kind, name, oid) # es) w =
     (if \<not> utf8_valid name
      then Some (Err (''non-utf8 filename in `'' @ tree_id @ ''`: '' @ show_utf8_error g name), w)
      else if \<not> is_safe_component name
      then Some (Err (''unsafe tree-entry name `'' @ name @ ''` in `'' @ tree_id
                      @ ''` (must be a single normal path component)''), w)
      else let target = path_join dest (path_of name) in
        case kind of
          TreeEntry \<Rightarrow>
            (case fs_create_dir_all target w of
               Err e \<Rightarrow> Some (Err (''mkdir '' @ path_str target @ '': '' @ io_msg e), w)
             | Panic \<Rightarrow> Some (Panic, w)
             | Ok w \<Rightarrow>
                 (case sub oid target w of
                    Some (Ok _, w) \<Rightarrow> write_entries sub g repo tree_id dest es w
                  | r \<Rightarrow> r))
        | BlobEntry \<Rightarrow>
            (case find_object g repo oid of
               Ok object \<Rightarrow>
                 (case fs_write target (object_data g object) w of
                    Ok w \<Rightarrow> write_entries sub g repo tree_id dest es w
                  | Err e \<Rightarrow> Some (Err (''write '' @ path_str target @ '': '' @ io_msg e), w)
                  | Panic \<Rightarrow> Some (Panic, w))
             | Err e \<Rightarrow> Some (Err (''find blob `'' @ oid @ ''`: '' @ e), w)
             | Panic \<Rightarrow> Some (Panic, w))
        | OtherEntry \<Rightarrow> write_entries sub g repo tree_id dest es w)"

fun write_tree ::
  "nat \<Rightarrow> 'r gix \<Rightarrow> 'r \<Rightarrow> string \<Rightarrow> path \<Rightarrow> world \<Rightarrow> ((string, unit) outcome \<times> world) option"
where
  "write_tree 0 g repo tree_id dest w = None"
| "write_tree (Suc depth) g repo tree_id dest w =
     (case find_object g repo tree_id of
        Err e \<Rightarrow> Some (Err (''find tree `'' @ tree_id @ ''`: '' @ e), w)
      | Panic \<Rightarrow> Some (Panic, w)
      | Ok (Tree es) \<Rightarrow> write_entries (write_tree depth g repo) g repo tree_id dest es w
      | Ok (CorruptTree e) \<Rightarrow> Some (Err (''decode tree: '' @ e), w)
      | Ok _ \<Rightarrow> Some (Err (''object `'' @ tree_id @ ''` is not a tree''), w))"

definition sentinel :: string where
  "sentinel = ''.git-checkout-done''"

definition materialize_checkout ::
  "nat \<Rightarrow> 'r gix \<Rightarrow> 'r \<Rightarrow> string \<Rightarrow> path \<Rightarrow> ref_spec \<Rightarrow> world \<Rightarrow> ((git_error, unit) outcome \<times> world) option"
where
  "materialize_checkout depth g repo sha dest spec w =
     (case fs_create_dir_all dest w of
        Err e \<Rightarrow> Some (Err (GitIo dest e), w)
      | Panic \<Rightarrow> Some (Panic, w)
      | Ok w \<Rightarrow>
          (case obind (omap_err (\<lambda>e. Checkout sha dest (''hex parse: '' @ e)) (oid_from_hex g sha)) (\<lambda>oid.
                omap_err (Checkout sha dest) (find_object g repo oid)) of
             Err e \<Rightarrow> Some (Err e, w)
           | Panic \<Rightarrow> Some (Panic, w)
           | Ok (Commit tree_id) \<Rightarrow>
               (case write_tree depth g repo tree_id dest w of
                  None \<Rightarrow> None
                | Some (Err detail, w) \<Rightarrow> Some (Err (Checkout sha dest detail), w)
                | Some (Panic, w) \<Rightarrow> Some (Panic, w)
                | Some (Ok _, w) \<Rightarrow>
                    (case fs_write (child dest sentinel)
                        (''akua git_fetcher v1\<newline>commit='' @ sha @ ''\<newline>ref='' @ label spec @ ''\<newline>'') w of
                       Ok w \<Rightarrow> Some (Ok (), w)
                     | Err e \<Rightarrow> Some (Err (GitIo dest e), w)
                     | Panic \<Rightarrow> Some (Panic, w)))
           | Ok _ \<Rightarrow> Some (Err (Checkout sha dest ''object is not a commit''), w)))"

section \<open>Fetching\<close>

text \<open>The repository, whether it is fresh, and the world after opening or cloning.\<close>

definition obtain_bare ::
  "'r gix \<Rightarrow> string \<Rightarrow> path \<Rightarrow> host_auth_map option \<Rightarrow> world \<Rightarrow> (git_error, 'r \<times> bool \<times> world) outcome"
where
  "obtain_bare g url bare_path auth w =
     (if is_file w (child bare_path ''HEAD'')
      then obind (open_bare g bare_path url w) (\<lambda>repo. Ok (repo, False, w))
      else obind (clone_bare g url bare_path auth w) (\<lambda>(repo, w). Ok (repo, True, w)))"

definition is_RefNotFound :: "(git_error, string) outcome \<Rightarrow> bool" where
  "is_RefNotFound r = (case r of Err (RefNotFound _ _) \<Rightarrow> True | _ \<Rightarrow> False)"

definition resolve_commit ::
  "'r gix \<Rightarrow> string \<Rightarrow> ref_spec \<Rightarrow> string option \<Rightarrow> host_auth_map option \<Rightarrow> 'r \<Rightarrow> bool
     \<Rightarrow> (git_error, string \<times> 'r) outcome"
where
  "resolve_commit g url spec expected_commit auth repo refreshed =
     obind (if is_RefNotFound (resolve_ref g repo url spec) \<and> \<not> refreshed
            then obind (refresh_bare g repo url auth) (\<lambda>repo.
                 obind (resolve_ref g repo url spec) (\<lambda>c. Ok (c, repo)))
            else obind (resolve_ref g repo url spec) (\<lambda>c. Ok (c, repo))) (\<lambda>(commit, repo).
     case expected_commit of
       None \<Rightarrow> Ok (commit, repo)
     | Some expected \<Rightarrow>
         obind (if commit \<noteq> expected \<and> \<not> refreshed
                then obind (refresh_bare g repo url auth) (\<lambda>repo.
                     obind (resolve_ref g repo url spec) (\<lambda>c. Ok (c, repo)))
                else Ok (commit, repo)) (\<lambda>(commit, repo).
         if commit \<noteq> expected then Err (LockCommitMismatch url (label spec) commit expected)
         else Ok (commit, repo)))"

definition checkout_dir :: "path \<Rightarrow> string \<Rightarrow> path" where
  "checkout_dir cache_root commit = path_join (path_join cache_root (path_of ''checkouts'')) (path_of commit)"

definition git_fetch ::
  "nat \<Rightarrow> 'r gix \<Rightarrow> string \<Rightarrow> ref_spec \<Rightarrow> path \<Rightarrow> string option \<Rightarrow> host_auth_map option \<Rightarrow> world
     \<Rightarrow> (git_error, fetched_repo \<times> world) outcome option"
where
  "git_fetch depth g url spec cache_root expected_commit auth w =
     (case obind (obtain_bare g url (bare_repo_path cache_root (canonicalize_url url)) auth w) (\<lambda>(repo, refreshed, w).
           obind (resolve_commit g url spec expected_commit auth repo refreshed) (\<lambda>(commit, repo).
           Ok (commit, repo, w))) of
        Err e \<Rightarrow> Some (Err e)
      | Panic \<Rightarrow> Some Panic
      | Ok (commit, repo, w) \<Rightarrow>
          (let dir = checkout_dir cache_root commit; done = \<lparr>chart_dir = dir, commit_sha = commit\<rparr>
           in if exists w (child dir sentinel) then Some (Ok (done, w))
              else case materialize_checkout depth g repo commit dir spec w of
                None \<Rightarrow> None
              | Some (Ok _, w) \<Rightarrow> Some (Ok (done, w))
              | Some (Err e, _) \<Rightarrow> Some (Err e)
              | Some (Panic, _) \<Rightarrow> Some Panic))"

definition git_fetch_from_cache :: "world \<Rightarrow> path \<Rightarrow> string \<Rightarrow> fetched_repo option" where
  "git_fetch_from_cache w cache_root expected_commit =
     (let dir = checkout_dir cache_root expected_commit
      in if exists w (child dir sentinel) then Some \<lparr>chart_dir = dir, commit_sha = expected_commit\<rparr> else None)"

text \<open>The credential helper installed on a connection: it answers \<open>Get\<close> only.\<close>

record git_context =
  ctx_url :: "string option"
  ctx_host :: "string option"
  ctx_path :: "string option"

definition credentials_for_action :: "git_context option \<Rightarrow> host_auth_map \<Rightarrow> basic_auth option" where
  "credentials_for_action action m =
     (case action of
        None \<Rightarrow> None
      | Some ctx \<Rightarrow>
          (case (ctx_url ctx, ctx_host ctx, ctx_path ctx) of
             (Some u, _, _) \<Rightarrow> lookup m u
           | (None, None, _) \<Rightarrow> None
           | (None, Some h, Some p) \<Rightarrow> lookup m (''https://'' @ h @ p)
           | (None, Some h, None) \<Rightarrow> lookup m (''https://'' @ h)))"

section \<open>The checkout stays inside its directory\<close>

text \<open>
  Outside \<open>dest\<close> files and directories are as they were, but for the directories above \<open>dest\<close>: one of them
  may have been made.
\<close>

definition same_outside :: "path \<Rightarrow> world \<Rightarrow> world \<Rightarrow> bool" where
  "same_outside dest w w' \<longleftrightarrow>
     (\<forall>q. \<not> prefix dest q \<longrightarrow> read_to_string w' q = read_to_string w q \<and> is_file w' q = is_file w q
        \<and> (exists w' q = exists w q \<and> is_dir w' q = is_dir w q
            \<or> prefix q dest \<and> exists w' q \<and> is_dir w' q))"

lemma same_outside_refl [simp]: "same_outside dest w w"
  by (simp add: same_outside_def)

lemma same_outside_trans:
  "same_outside dest w w' \<Longrightarrow> same_outside dest w' w'' \<Longrightarrow> same_outside dest w w''"
  unfolding same_outside_def by metis

lemma same_outside_mono:
  assumes "same_outside (dest @ p) w w'"
  shows "same_outside dest w w'"
  unfolding same_outside_def
proof (intro allI impI)
  fix q
  assume q: "\<not> prefix dest q"
  then have "\<not> prefix (dest @ p) q" "prefix q (dest @ p) \<Longrightarrow> prefix q dest"
    by (auto dest: append_prefixD prefix_same_cases [of q "dest @ p" dest])
  with assms q show "read_to_string w' q = read_to_string w q \<and> is_file w' q = is_file w q
      \<and> (exists w' q = exists w q \<and> is_dir w' q = is_dir w q \<or> prefix q dest \<and> exists w' q \<and> is_dir w' q)"
    unfolding same_outside_def by blast
qed

lemma same_outside_write: "fs_write (dest @ p) b w = Ok w' \<Longrightarrow> same_outside dest w w'"
  by (auto simp: fs_write_def same_outside_def prefix_def split: option.splits)

lemma same_outside_mkdir: "fs_create_dir_all (dest @ p) w = Ok w' \<Longrightarrow> same_outside dest w w'"
  by (rule same_outside_mono [of dest p])
    (auto simp: fs_create_dir_all_def same_outside_def split: option.splits)

lemma safe_target: "is_safe_component name \<Longrightarrow> path_join dest (path_of name) = dest @ [Normal name]"
  using path_of_name [of name] by (simp add: is_safe_component_def path_join_name)

lemma write_entries_inside:
  assumes "write_entries sub g repo tid dest es w = Some (r, w')"
    and sub: "\<And>oid target w r w'. sub oid target w = Some (r, w') \<Longrightarrow> same_outside target w w'"
  shows "same_outside dest w w'"
  using assms(1)
proof (induction es arbitrary: w)
  case (Cons e es)
  obtain kind name oid where e: "e = (kind, name, oid)" by (cases e)
  show ?case
  proof (cases "utf8_valid name \<and> is_safe_component name")
    case False
    with Cons.prems e show ?thesis by (auto split: if_splits)
  next
    case True
    note target = safe_target [OF conjunct2 [OF True], of dest]
    note run = Cons.prems [unfolded e write_entries.simps Let_def target]
    show ?thesis
    proof (cases kind)
      case TreeEntry
      with run True show ?thesis
      proof (cases "fs_create_dir_all (dest @ [Normal name]) w")
        case (Ok w1)
        note s1 = same_outside_mkdir [OF Ok]
        from run True TreeEntry Ok show ?thesis
          by (auto split: option.splits outcome.splits prod.splits
              dest!: sub same_outside_mono Cons.IH intro: same_outside_trans s1 same_outside_trans [OF s1])
      qed auto
    next
      case BlobEntry
      with run True show ?thesis
      proof (cases "find_object g repo oid")
        case (Ok object)
        with run True BlobEntry show ?thesis
        proof (cases "fs_write (dest @ [Normal name]) (object_data g object) w")
          case (Ok w1)
          note s1 = same_outside_write [OF Ok]
          from run True BlobEntry Ok \<open>find_object g repo oid = outcome.Ok object\<close> show ?thesis
            by (auto dest!: Cons.IH intro: same_outside_trans [OF s1])
        qed auto
      qed auto
    next
      case OtherEntry
      with run True Cons.IH show ?thesis by simp
    qed
  qed
qed simp

lemma write_tree_inside:
  "write_tree depth g repo tid dest w = Some (r, w') \<Longrightarrow> same_outside dest w w'"
proof (induction depth arbitrary: tid dest w r w')
  case (Suc depth)
  then show ?case
    by (auto split: outcome.splits git_object.splits intro: write_entries_inside)
qed simp

text \<open>
  C27. Whatever the repository holds, a checkout changes nothing outside its directory, not even when it
  fails half-way, except that missing directories above it are made: the names of a tree that could lead
  elsewhere (\<open>..\<close>, a slash, an absolute path) are refused before anything is written for them.
\<close>

theorem checkout_stays_inside:
  assumes "materialize_checkout depth g repo sha dest spec w = Some (r, w')"
  shows "same_outside dest w w'"
proof (cases "fs_create_dir_all dest w")
  case (Ok w1)
  have s1: "same_outside dest w w1" using same_outside_mkdir [of dest "[]"] Ok by simp
  have "same_outside dest w1 w'"
  proof -
    have wr: "same_outside dest w2 w3" if "fs_write (child dest sentinel) b w2 = outcome.Ok w3" for b w2 w3
      using that same_outside_write [of dest "[Normal sentinel]"] by (simp add: child_def path_join_name)
    from assms Ok show ?thesis
      unfolding materialize_checkout_def
      by (auto split: outcome.splits option.splits prod.splits git_object.splits
          dest!: write_tree_inside wr intro: same_outside_trans)
  qed
  with s1 show ?thesis by (rule same_outside_trans)
qed (use assms in \<open>auto simp: materialize_checkout_def\<close>)

text \<open>The checkout returns for every repository whose trees are at most as deep as the bound.\<close>

fun depth_within :: "nat \<Rightarrow> 'r gix \<Rightarrow> 'r \<Rightarrow> string \<Rightarrow> bool" where
  "depth_within 0 g repo tid = False"
| "depth_within (Suc depth) g repo tid =
     (case find_object g repo tid of
        Ok (Tree es) \<Rightarrow> list_all (\<lambda>(kind, _, oid). kind = TreeEntry \<longrightarrow> depth_within depth g repo oid) es
      | _ \<Rightarrow> True)"

lemma write_entries_total:
  assumes "\<And>name oid target w. (TreeEntry, name, oid) \<in> set es \<Longrightarrow> sub oid target w \<noteq> None"
  shows "write_entries sub g repo tid dest es w \<noteq> None"
  using assms
proof (induction es arbitrary: w)
  case (Cons e es)
  obtain kind name oid where e: "e = (kind, name, oid)" by (cases e)
  have IH: "write_entries sub g repo tid dest es w \<noteq> None" for w
    using Cons.prems by (intro Cons.IH) (meson list.set_intros(2))
  have sub: "kind = TreeEntry \<Longrightarrow> (sub oid target w = None) = False" for target w
    using Cons.prems [of name oid] e by simp
  show ?case
    by (cases kind)
       (auto simp: e Let_def sub IH [simplified] split: outcome.splits option.splits prod.splits)
qed simp

lemma write_tree_total: "depth_within depth g repo tid \<Longrightarrow> write_tree depth g repo tid dest w \<noteq> None"
proof (induction depth arbitrary: tid dest w)
  case (Suc depth)
  show ?case
  proof (cases "\<exists>es. find_object g repo tid = Ok (Tree es)")
    case True
    then obtain es where es: "find_object g repo tid = Ok (Tree es)" by blast
    with Suc.prems have "(TreeEntry, name, oid) \<in> set es \<Longrightarrow> depth_within depth g repo oid" for name oid
      by (auto simp: list_all_iff)
    then have "write_entries (write_tree depth g repo) g repo tid dest es w \<noteq> None"
      by (intro write_entries_total Suc.IH)
    with es show ?thesis by simp
  next
    case False
    then show ?thesis by (auto split: outcome.splits git_object.splits)
  qed
qed simp

section \<open>What a fetch guarantees\<close>

lemma resolve_commit_pinned:
  "resolve_commit g url spec (Some c) auth repo refreshed = Ok (commit, repo') \<Longrightarrow> commit = c"
  by (auto simp: resolve_commit_def outcome_simps split: if_splits)

lemma materialize_checkout_Ok:
  "materialize_checkout depth g repo sha dest spec w = Some (Ok u, w') \<Longrightarrow> exists w' (child dest sentinel)"
  unfolding materialize_checkout_def
  by (auto split: outcome.splits option.splits prod.splits git_object.splits dest: fs_write_exists)

lemma git_fetch_Ok:
  assumes "git_fetch depth g url spec cache_root expected auth w = Some (Ok (f, w'))"
  shows "\<forall>c. expected = Some c \<longrightarrow> commit_sha f = c"
    and "chart_dir f = checkout_dir cache_root (commit_sha f)" "exists w' (child (chart_dir f) sentinel)"
proof -
  let ?m = "obind (obtain_bare g url (bare_repo_path cache_root (canonicalize_url url)) auth w) (\<lambda>(repo, refreshed, w).
           obind (resolve_commit g url spec expected auth repo refreshed) (\<lambda>(commit, repo).
           Ok (commit, repo, w)))"
  from assms obtain commit repo w1 where m: "?m = Ok (commit, repo, w1)"
    by (cases ?m) (auto simp: git_fetch_def)
  then obtain repo0 refreshed repo1 where "resolve_commit g url spec expected auth repo0 refreshed = Ok (commit, repo1)"
    by (auto simp: outcome_simps)
  then have pin: "\<forall>c. expected = Some c \<longrightarrow> commit = c" by (auto dest: resolve_commit_pinned)
  from assms m have f: "f = \<lparr>chart_dir = checkout_dir cache_root commit, commit_sha = commit\<rparr>"
    and "exists w' (child (checkout_dir cache_root commit) sentinel)"
    by (auto simp: git_fetch_def Let_def split: if_splits option.splits outcome.splits prod.splits
        dest: materialize_checkout_Ok)
  then show "\<forall>c. expected = Some c \<longrightarrow> commit_sha f = c"
    "chart_dir f = checkout_dir cache_root (commit_sha f)" "exists w' (child (chart_dir f) sentinel)"
    using pin by simp_all
qed

text \<open>
  A fetch that succeeds returns the commit that the lock pins, if it pins one, at the checkout
  directory of that commit; and the offline lookup for that commit then finds the same checkout.
\<close>

theorem git_fetch_checked:
  assumes "git_fetch depth g url spec cache_root expected auth w = Some (Ok (f, w'))"
  shows "(\<forall>c. expected = Some c \<longrightarrow> commit_sha f = c)
    \<and> git_fetch_from_cache w' cache_root (commit_sha f) = Some f"
  using git_fetch_Ok [OF assms] by (simp add: git_fetch_from_cache_def Let_def)

text \<open>The fetch as a function of the pinned commit alone; running out of depth counts as no result.\<close>

definition git_pinned_fetch ::
  "'r gix \<Rightarrow> nat \<times> string \<times> ref_spec \<times> path \<times> host_auth_map option \<times> world \<Rightarrow> string option
     \<Rightarrow> (git_error, fetched_repo \<times> world) outcome"
where
  "git_pinned_fetch g = (\<lambda>(depth, url, spec, cache_root, auth, w) c.
     case git_fetch depth g url spec cache_root c auth w of Some r \<Rightarrow> r | None \<Rightarrow> Panic)"

interpretation git_pin: pinned_fetcher "git_pinned_fetch g" "\<lambda>(f, w'). commit_sha f" for g
proof
  fix r d a
  assume "git_pinned_fetch g r (Some d) = Ok a"
  then show "(case a of (f, w') \<Rightarrow> commit_sha f) = d"
    by (cases r; cases a) (auto simp: git_pinned_fetch_def dest: git_fetch_Ok(1) split: option.splits)
qed

text \<open>
  Two repositories share one bare clone: the directory name replaces every separator by an
  underscore, which names may contain, so distinct canonical URLs have the same directory, and a fetch
  from the second answers from the clone of the first.
\<close>

theorem bare_repo_path_collision:
  "canonicalize_url ''https://github.com/a/b_c'' \<noteq> canonicalize_url ''https://github.com/a_b/c''
   \<and> bare_repo_path cache_root (canonicalize_url ''https://github.com/a/b_c'')
     = bare_repo_path cache_root (canonicalize_url ''https://github.com/a_b/c'')"
proof -
  have "canonicalize_url ''https://github.com/a/b_c'' \<noteq> canonicalize_url ''https://github.com/a_b/c''"
    "concat (map bare_char (canonicalize_url ''https://github.com/a/b_c''))
     = concat (map bare_char (canonicalize_url ''https://github.com/a_b/c''))"
    by (code_simp, code_simp)
  then show ?thesis by (simp add: bare_repo_path_def)
qed

text \<open>A repository with one tag, one commit and one file, whose objects are named by one letter.\<close>

definition toy_gix :: "unit gix" where
  "toy_gix =
     \<lparr>open_repo = (\<lambda>_ _. Ok ()), clone_repo = (\<lambda>_ _ _ w. Ok ((), w)), refresh_repo = (\<lambda>_ _ _. Ok ()),
      oid_from_hex = Ok,
      find_object = (\<lambda>_ oid.
        if oid = ''c'' then Ok (Commit ''t'')
        else if oid = ''t'' then Ok (Tree [(BlobEntry, ''Chart.yaml'', ''b''), (TreeEntry, ''templates'', ''s'')])
        else if oid = ''s'' then Ok (Tree [(BlobEntry, ''..'', ''b'')])
        else Ok (Blob ''name: x'')),
      object_data = (\<lambda>ob. case ob of Blob b \<Rightarrow> b | _ \<Rightarrow> []), show_utf8_error = (\<lambda>_. []),
      find_reference = (\<lambda>_ r. if r = ''refs/tags/v1'' then Ok (Ok ''c'') else Err [])\<rparr>"

definition toy_dest :: path where
  "toy_dest = [RootDir, Normal ''co'']"

text \<open>The subtree holds an entry named \<open>..\<close>: the checkout fails, with one file written.\<close>

lemma checkout_stays_inside_witness:
  "\<exists>r w'. materialize_checkout 5 toy_gix () ''c'' toy_dest (Tag ''v1'') (text_world []) = Some (r, w')
     \<and> \<not> is_Ok r \<and> same_outside toy_dest (text_world []) w'"
proof -
  have "case materialize_checkout 5 toy_gix () ''c'' toy_dest (Tag ''v1'') (text_world []) of
      Some (r, w') \<Rightarrow> \<not> is_Ok r | None \<Rightarrow> False" by code_simp
  then obtain r w' where run: "materialize_checkout 5 toy_gix () ''c'' toy_dest (Tag ''v1'') (text_world []) = Some (r, w')"
    and "\<not> is_Ok r" by (auto split: option.splits)
  with checkout_stays_inside [OF run] show ?thesis by blast
qed

definition fresh_world :: world where
  "fresh_world = (text_world [])\<lparr>exists := (\<lambda>_. False)\<rparr>"

definition flat_gix :: "unit gix" where
  "flat_gix = toy_gix\<lparr>find_object := (\<lambda>_ oid.
     if oid = ''c'' then Ok (Commit ''t'')
     else if oid = ''t'' then Ok (Tree [(BlobEntry, ''Chart.yaml'', ''b'')]) else Ok (Blob ''name: x''))\<rparr>"

lemma git_fetch_checked_witness:
  "\<exists>w'. git_fetch_from_cache w' toy_dest ''c'' =
     Some \<lparr>chart_dir = [RootDir, Normal ''co'', Normal ''checkouts'', Normal ''c''], commit_sha = ''c''\<rparr>"
proof -
  have "case git_fetch 5 flat_gix ''https://h/r'' (Tag ''v1'') toy_dest (Some ''c'') None fresh_world of
      Some (Ok (f, w')) \<Rightarrow>
        f = \<lparr>chart_dir = [RootDir, Normal ''co'', Normal ''checkouts'', Normal ''c''], commit_sha = ''c''\<rparr>
    | _ \<Rightarrow> False" by code_simp
  then obtain f w' where
    run: "git_fetch 5 flat_gix ''https://h/r'' (Tag ''v1'') toy_dest (Some ''c'') None fresh_world = Some (Ok (f, w'))"
    and f: "f = \<lparr>chart_dir = [RootDir, Normal ''co'', Normal ''checkouts'', Normal ''c''], commit_sha = ''c''\<rparr>"
    by (auto split: option.splits outcome.splits)
  from git_fetch_checked [OF run] show ?thesis unfolding f by auto
qed

end
