(* ===== verification/Lines.thy ===== *)
theory Lines
  imports Prelude
begin

text \<open>
  \<open>str::lines\<close> as the scanners of KCL source use it, and the text that a list of terminated lines is
  read back from.
\<close>

text \<open>\<open>str::lines\<close>: split at newlines, no last empty line, a carriage return before the newline dropped.\<close>

definition drop_cr :: "string \<Rightarrow> string" where
  "drop_cr s = (if s \<noteq> [] \<and> last s = CHR 0x0D then butlast s else s)"

definition str_lines :: "string \<Rightarrow> string list" where
  "str_lines s =
     (let parts = split_on CHR 0x0A s
      in map drop_cr (butlast parts) @ (if last parts = [] then [] else [last parts]))"

lemma suffix_strip_leading: "suffix (strip_leading ws s) s"
proof (induction ws s rule: strip_leading.induct)
  case (1 ws s)
  show ?case
  proof (cases "find (\<lambda>w. w \<noteq> [] \<and> prefix w s) ws")
    case None
    then show ?thesis by (simp add: strip_leading.simps [of ws s])
  next
    case (Some w)
    from 1 [OF Some] suffix_drop [of "length w" s] show ?thesis
      by (subst strip_leading.simps) (auto simp: Some intro: suffix_order.trans)
  qed
qed

lemma sublist_split_on: "p \<in> set (split_on c s) \<Longrightarrow> sublist p s"
proof (induction s arbitrary: p)
  case (Cons x s)
  show ?case
  proof (cases "x = c")
    case True
    then show ?thesis using Cons by (auto simp: sublist_Cons_right)
  next
    case False
    obtain q qs where q: "split_on c s = q # qs" by (cases "split_on c s") auto
    have "prefix q s" using q
    proof (induction s arbitrary: q qs)
      case (Cons a s)
      then show ?case by (auto split: if_splits list.splits)
    qed simp
    then show ?thesis using Cons False q by (auto simp: sublist_Cons_right split: list.splits)
  qed
qed simp

lemma sublist_str_lines: "line \<in> set (str_lines s) \<Longrightarrow> sublist line s"
proof -
  assume "line \<in> set (str_lines s)"
  moreover have "last (split_on CHR 0x0A s) \<in> set (split_on CHR 0x0A s)" by simp
  ultimately have "\<exists>p \<in> set (split_on CHR 0x0A s). line = drop_cr p \<or> line = p"
    by (auto simp: str_lines_def Let_def split: if_splits dest: in_set_butlastD)
  then obtain p where p: "p \<in> set (split_on CHR 0x0A s)" "line = drop_cr p \<or> line = p" by blast
  have "prefix (drop_cr p) p" by (simp add: drop_cr_def prefixeq_butlast)
  with p sublist_split_on [OF p(1)] show ?thesis
    by (metis prefix_imp_sublist sublist_order.order_trans)
qed

text \<open>What \<open>trim_start\<close> removes: white space in front, and all of it when no white space is a prefix of another.\<close>

lemma strip_leading_decomp: "\<exists>us. set us \<subseteq> set ws \<and> s = concat us @ strip_leading ws s"
proof (induction ws s rule: strip_leading.induct)
  case (1 ws s)
  show ?case
  proof (cases "find (\<lambda>w. w \<noteq> [] \<and> prefix w s) ws")
    case None
    then have "s = concat [] @ strip_leading ws s" by (simp add: strip_leading.simps [of ws s])
    then show ?thesis by (intro exI [of _ "[]"]) simp
  next
    case (Some w)
    from 1 [OF Some] obtain us where us: "set us \<subseteq> set ws"
      "drop (length w) s = concat us @ strip_leading ws (drop (length w) s)" by blast
    from find_SomeD [OF Some] have "w \<in> set ws" "s = w @ drop (length w) s"
      by (auto simp: prefix_def)
    with us Some have "set (w # us) \<subseteq> set ws \<and> s = concat (w # us) @ strip_leading ws s"
      by (simp add: strip_leading.simps [of ws s])
    then show ?thesis by blast
  qed
qed

definition prefix_free :: "string list \<Rightarrow> bool" where
  "prefix_free ws \<longleftrightarrow> list_all (\<lambda>v. v \<noteq> [] \<and> list_all (\<lambda>w. prefix v w \<longrightarrow> v = w) ws) ws"

lemma strip_leading_one:
  assumes "prefix_free ws" and "w \<in> set ws"
  shows "strip_leading ws (w @ s) = strip_leading ws s"
proof -
  have "find (\<lambda>v. v \<noteq> [] \<and> prefix v (w @ s)) ws = Some w"
  proof -
    from assms have "w \<noteq> []" by (auto simp: prefix_free_def list_all_iff)
    with assms(2) obtain v where v: "find (\<lambda>v. v \<noteq> [] \<and> prefix v (w @ s)) ws = Some v"
      using find_Some_ex [of w ws "\<lambda>v. v \<noteq> [] \<and> prefix v (w @ s)"] by auto
    from find_SomeD [OF v] have "v \<in> set ws" "prefix v (w @ s)" by auto
    then have "prefix v w \<or> prefix w v" by (metis prefixI prefix_same_cases)
    with \<open>v \<in> set ws\<close> assms have "v = w" by (auto simp: prefix_free_def list_all_iff)
    with v show ?thesis by simp
  qed
  then show ?thesis by (subst strip_leading.simps) simp
qed

lemma strip_leading_concat:
  assumes "prefix_free ws" and "set us \<subseteq> set ws" and "\<forall>w \<in> set ws. \<not> prefix w s"
  shows "strip_leading ws (concat us @ s) = s"
  using assms(2) by (induction us) (simp_all add: strip_leading_one [OF assms(1)] strip_leading_id assms(3))

lemma prefix_free_unicode_ws: "prefix_free unicode_ws"
  by (simp add: prefix_free_def unicode_ws_def)

lemma trim_start_iff:
  assumes "plain_char c"
  shows "prefix (c # cs) (trim_start s) \<longleftrightarrow> (\<exists>us t. set us \<subseteq> set unicode_ws \<and> s = concat us @ (c # cs) @ t)"
    (is "?L \<longleftrightarrow> ?R")
proof
  assume ?L
  then obtain t where t: "trim_start s = (c # cs) @ t" by (auto simp: prefix_def)
  from strip_leading_decomp [of unicode_ws s] obtain us
    where "set us \<subseteq> set unicode_ws" "s = concat us @ trim_start s" unfolding trim_start_def by blast
  with t show ?R by auto
next
  assume ?R
  then obtain us t where us: "set us \<subseteq> set unicode_ws" "s = concat us @ (c # cs) @ t" by blast
  have "\<forall>w \<in> set unicode_ws. \<not> prefix w ((c # cs) @ t)" using plain_not_ws [OF assms] by simp
  from strip_leading_concat [OF prefix_free_unicode_ws us(1) this] us(2) show ?L
    by (simp add: trim_start_def)
qed

text \<open>\<open>out.push_str(line); out.push('\n')\<close> for every line.\<close>

definition unlines :: "string list \<Rightarrow> string" where
  "unlines ls = concat (map (\<lambda>l. l @ [CHR 0x0A]) ls)"

lemma unlines_simps [simp]:
  "unlines [] = []"
  "unlines (l # ls) = l @ CHR 0x0A # unlines ls"
  "unlines (ls @ ms) = unlines ls @ unlines ms"
  by (simp_all add: unlines_def)

lemma str_lines_newline: "CHR 0x0A \<notin> set l \<Longrightarrow> str_lines (l @ CHR 0x0A # s) = drop_cr l # str_lines s"
  by (simp add: str_lines_def Let_def split_on_append)

lemma str_lines_Nil [simp]: "str_lines [] = []"
  by (simp add: str_lines_def)

lemma str_lines_unlines:
  "\<forall>l \<in> set ls. CHR 0x0A \<notin> set l \<Longrightarrow> str_lines (unlines ls) = map drop_cr ls"
  by (induction ls) (simp_all add: str_lines_newline)

lemma str_lines_no_newline: "l \<in> set (str_lines s) \<Longrightarrow> CHR 0x0A \<notin> set l"
proof -
  have parts: "CHR 0x0A \<notin> set p" if "p \<in> set (split_on CHR 0x0A s)" for p
    using that by (rule split_on_parts)
  have drop: "set (drop_cr p) \<subseteq> set p" for p by (auto simp: drop_cr_def dest: in_set_butlastD)
  assume "l \<in> set (str_lines s)"
  then consider p where "p \<in> set (split_on CHR 0x0A s)" "l = drop_cr p" | "l \<in> set (split_on CHR 0x0A s)"
    by (auto simp: str_lines_def Let_def split: if_splits dest: in_set_butlastD)
  then show ?thesis using parts drop by cases blast+
qed

end
