(* ===== verification/Resolved.thy ===== *)
theory Resolved
  imports Manifest Lockfile OciFetcher Lines
begin

text \<open>
  The results of dependency resolution in \<open>chart_resolver.rs\<close>: a resolved chart with its source of
  record, its projection into \<open>akua.lock\<close> (\<open>to_locked_fields\<close>, \<open>upsert_locked_from_source\<close>,
  \<open>merge_into_lock\<close>), and the check of the imports of \<open>package.k\<close> against the kinds that were resolved.
\<close>

section \<open>The data\<close>

datatype resolved_source =
  ResolvedPath string
| ResolvedOci string string string
| ResolvedOciReplaced string string string
| ResolvedGit string string string
| ResolvedGitReplaced string string string
| ResolvedHelm string string string string

record resolved_chart =
  rc_name :: string
  abs_path :: path
  rc_sha256 :: string
  rc_kind :: package_kind
  rc_source :: resolved_source

type_synonym resolved_charts = "(string, resolved_chart) btree"

definition is_akua_package :: "world \<Rightarrow> resolved_chart \<Rightarrow> bool" where
  "is_akua_package w c \<longleftrightarrow> rc_kind c = KclModule \<and> is_file w (child (abs_path c) ''package.k'')"

fun kind_str :: "resolved_source \<Rightarrow> string" where
  "kind_str (ResolvedPath _) = ''path''"
| "kind_str (ResolvedOci _ _ _) = ''oci''"
| "kind_str (ResolvedOciReplaced _ _ _) = ''oci''"
| "kind_str (ResolvedGit _ _ _) = ''git''"
| "kind_str (ResolvedGitReplaced _ _ _) = ''git''"
| "kind_str (ResolvedHelm _ _ _ _) = ''helm''"

fun to_locked_fields :: "resolved_source \<Rightarrow> string \<times> string \<times> replaced option" where
  "to_locked_fields (ResolvedPath declared) = (''path+file://'' @ declared, ''local'', None)"
| "to_locked_fields (ResolvedOci oci version _) = (oci, version, None)"
| "to_locked_fields (ResolvedOciReplaced oci version p) = (oci, version, Some \<lparr>replaced_path = p\<rparr>)"
| "to_locked_fields (ResolvedGit git ref _) = (''git+'' @ canonicalize_url git @ ''@'' @ ref, ref, None)"
| "to_locked_fields (ResolvedGitReplaced git ref p) =
     (''git+'' @ canonicalize_url git @ ''@'' @ ref, ref, Some \<lparr>replaced_path = p\<rparr>)"
| "to_locked_fields (ResolvedHelm repo chart version _) = (''helm+'' @ repo @ ''#'' @ chart, version, None)"

definition helm_charts :: "resolved_charts \<Rightarrow> resolved_charts" where
  "helm_charts r = filter (\<lambda>(_, c). rc_kind c = HelmChart) r"

definition kcl_pkgs :: "resolved_charts \<Rightarrow> resolved_charts" where
  "kcl_pkgs r = filter (\<lambda>(_, c). rc_kind c = KclModule) r"

section \<open>Into the lockfile\<close>

text \<open>What is tied to the bytes is carried forward from an entry with the same digest only.\<close>

definition locked_entry ::
  "string \<Rightarrow> resolved_source \<Rightarrow> string \<Rightarrow> locked_package option \<Rightarrow> locked_package"
where
  "locked_entry name src digest carry =
     (case to_locked_fields src of (source_str, version, repl) \<Rightarrow>
        \<lparr>lp_name = name, lp_version = version, lp_source = source_str, lp_digest = digest,
         lp_vendor_digest = Option.bind carry lp_vendor_digest,
         lp_signature = Option.bind carry lp_signature,
         lp_dependencies = (case carry of Some p \<Rightarrow> lp_dependencies p | None \<Rightarrow> []),
         lp_attestation = Option.bind carry lp_attestation,
         lp_replaced = repl,
         lp_yanked = Option.bind carry lp_yanked,
         lp_kyverno_source_digest = Option.bind carry lp_kyverno_source_digest,
         lp_converter_version = Option.bind carry lp_converter_version\<rparr>)"

definition same_digest :: "string \<Rightarrow> locked_package option \<Rightarrow> locked_package option" where
  "same_digest digest p = (case p of Some q \<Rightarrow> (if lp_digest q = digest then Some q else None) | None \<Rightarrow> None)"

definition upsert_locked_from_source ::
  "akua_lock \<Rightarrow> string \<Rightarrow> resolved_source \<Rightarrow> string \<Rightarrow> ('e, akua_lock) outcome"
where
  "upsert_locked_from_source lock name src digest =
     (let slot = find_slot lock name (fst (snd (to_locked_fields src)))
      in obind (case slot of
             None \<Rightarrow> Ok None
           | Some i \<Rightarrow> if i < length (packages lock) then Ok (Some (packages lock ! i)) else Panic) (\<lambda>prior.
         upsert_at slot (locked_entry name src digest (same_digest digest prior)) lock))"

definition merge_into_lock :: "akua_lock \<Rightarrow> resolved_charts \<Rightarrow> ('e, akua_lock) outcome" where
  "merge_into_lock lock resolved =
     obind (fold_outcome (\<lambda>l (_, c). upsert_locked_from_source l (rc_name c) (rc_source c) (rc_sha256 c))
        lock resolved) (\<lambda>l. Ok (sort_lock l))"

section \<open>Imports\<close>

text \<open>The characters up to the first white space or \<open>#\<close>.\<close>

function take_token :: "string \<Rightarrow> string" where
  "take_token s =
     (case s of
        [] \<Rightarrow> []
      | c # t \<Rightarrow>
          if c = CHR ''#'' \<or> list_ex (\<lambda>w. prefix w s) unicode_ws then [] else c # take_token t)"
  by pat_completeness auto
termination by (relation "measure length") auto

declare take_token.simps [simp del]

fun scan_imports :: "string list \<Rightarrow> string list" where
  "scan_imports [] = []"
| "scan_imports (line # ls) =
     (let trimmed = trim_start line
      in if trimmed = [] \<or> prefix ''#'' trimmed then scan_imports ls
         else case strip_prefix ''import '' trimmed of
           None \<Rightarrow> []
         | Some rest \<Rightarrow>
             (let p = take_token rest
              in if p = [] then scan_imports ls
                 else let root = hd (split_on CHR ''.'' p)
                      in if root \<noteq> [] then root # scan_imports ls else scan_imports ls))"

definition scan_top_level_import_roots :: "string \<Rightarrow> string list" where
  "scan_top_level_import_roots src =
     (if \<not> sublist ''import '' src then [] else scan_imports (str_lines src))"

record import_kind_mismatch =
  im_alias :: string
  resolved_kind :: package_kind

definition import_mismatch :: "resolved_charts \<Rightarrow> string \<Rightarrow> import_kind_mismatch option" where
  "import_mismatch resolved alias =
     (if alias \<in> set [''akua'', ''kcl_plugin'', ''charts''] then None
      else case bt_get resolved alias of
        None \<Rightarrow> None
      | Some c \<Rightarrow> if rc_kind c \<noteq> KclModule then Some \<lparr>im_alias = alias, resolved_kind = rc_kind c\<rparr> else None)"

definition validate_import_kinds :: "string \<Rightarrow> resolved_charts \<Rightarrow> import_kind_mismatch list" where
  "validate_import_kinds package_k_source resolved =
     (if resolved = [] then []
      else List.map_filter (import_mismatch resolved) (scan_top_level_import_roots package_k_source))"

section \<open>Merging is an update by key that keeps what is tied to the bytes\<close>

definition chart_key :: "resolved_chart \<Rightarrow> string \<times> string" where
  "chart_key c = (rc_name c, fst (snd (to_locked_fields (rc_source c))))"

text \<open>The entry a chart gets, given the lock it is merged into.\<close>

definition locked_of :: "akua_lock \<Rightarrow> resolved_chart \<Rightarrow> locked_package" where
  "locked_of lock c =
     locked_entry (rc_name c) (rc_source c) (rc_sha256 c) (same_digest (rc_sha256 c) (lock_get lock (chart_key c)))"

lemma lp_key_locked_entry [simp]:
  "lp_key (locked_entry name src digest carry) = (name, fst (snd (to_locked_fields src)))"
  by (simp add: locked_entry_def lp_key_def split: prod.split)

lemma lp_key_locked_of [simp]: "lp_key (locked_of lock c) = chart_key c"
  by (simp add: locked_of_def chart_key_def)

lemma lp_digest_locked_of [simp]: "lp_digest (locked_of lock c) = rc_sha256 c"
  by (simp add: locked_of_def locked_entry_def split: prod.split)

lemma upsert_locked_Ok:
  "upsert_locked_from_source lock (rc_name c) (rc_source c) (rc_sha256 c) = Ok (upserted (locked_of lock c) lock)"
proof -
  let ?v = "fst (snd (to_locked_fields (rc_source c)))"
  have slot: "find_slot lock (rc_name c) ?v = position (\<lambda>p. lp_key p = chart_key c) (packages lock)"
    by (simp add: find_slot_def lp_key_def chart_key_def)
  have get: "lock_get lock (chart_key c) = map_option (\<lambda>i. packages lock ! i)
      (position (\<lambda>p. lp_key p = chart_key c) (packages lock))"
    by (simp add: lock_get_def find_position)
  show ?thesis
    unfolding upsert_locked_from_source_def Let_def slot
    by (cases "position (\<lambda>p. lp_key p = chart_key c) (packages lock)")
      (auto simp: get upsert_at_def upserted_def locked_of_def chart_key_def [symmetric] dest: position_Some)
qed

text \<open>Merging a fact that is there already changes nothing.\<close>

lemma position_find: "find P xs = Some x \<Longrightarrow> \<exists>i. position P xs = Some i \<and> i < length xs \<and> xs ! i = x"
  by (auto simp: find_position dest: position_Some)

lemma upserted_id: "lock_get l (lp_key e) = Some e \<Longrightarrow> upserted e l = l"
  unfolding lock_get_def by (auto dest!: position_find simp: upserted_def)

lemma locked_of_carry:
  assumes "lock_get lock' (chart_key c) = Some (locked_of lock c)"
  shows "locked_of lock' c = locked_of lock c"
proof -
  have "same_digest (rc_sha256 c) (lock_get lock' (chart_key c)) = Some (locked_of lock c)"
    by (simp add: assms same_digest_def)
  then show ?thesis
    by (simp add: locked_of_def [of lock'] locked_of_def [of lock] locked_entry_def split: prod.split)
qed


abbreviation merge_step :: "akua_lock \<Rightarrow> string \<times> resolved_chart \<Rightarrow> ('e, akua_lock) outcome" where
  "merge_step l \<equiv> \<lambda>(_, c). upsert_locked_from_source l (rc_name c) (rc_source c) (rc_sha256 c)"

text \<open>Charts with different keys do not see each other's entries.\<close>

lemma merge_fold:
  assumes "distinct (map (chart_key \<circ> snd) cs)"
    and "\<And>c. c \<in> snd ` set cs \<Longrightarrow> lock_get l (chart_key c) = lock_get lock (chart_key c)"
  shows "fold_outcome (\<lambda>l (_, c). upsert_locked_from_source l (rc_name c) (rc_source c) (rc_sha256 c)) l cs
    = Ok (fold upserted (map (locked_of lock \<circ> snd) cs) l)"
  using assms
proof (induction cs arbitrary: l)
  case (Cons kc cs)
  obtain k c where kc: "kc = (k, c)" by (cases kc)
  have eq: "locked_of l c = locked_of lock c"
    using Cons.prems(2) [of c] kc by (simp add: locked_of_def)
  have dist: "distinct (map (chart_key \<circ> snd) cs)" using Cons.prems(1) by (simp add: comp_def)
  have get: "lock_get (upserted (locked_of lock c) l) (chart_key d) = lock_get lock (chart_key d)"
    if "d \<in> snd ` set cs" for d
  proof -
    from that have "chart_key d \<in> (\<lambda>p. chart_key (snd p)) ` set cs" by auto
    moreover have "chart_key c \<notin> (\<lambda>p. chart_key (snd p)) ` set cs" using Cons.prems(1) kc by (simp add: comp_def)
    ultimately have "chart_key d \<noteq> chart_key c" by metis
    then show ?thesis using that Cons.prems(2) [of d] by (simp add: lock_get_upserted)
  qed
  show ?case using Cons.IH [OF dist get] by (simp add: kc upsert_locked_Ok eq)
qed simp

lemma merge_into_lock_fold:
  assumes "distinct (map (chart_key \<circ> snd) resolved)"
  shows "merge_into_lock lock resolved = Ok (sort_lock (fold upserted (map (locked_of lock \<circ> snd) resolved) lock))"
  by (simp add: merge_into_lock_def merge_fold [OF assms])

lemma lock_get_merged:
  assumes "distinct (map (chart_key \<circ> snd) resolved)"
    and "l' = sort_lock (fold upserted (map (locked_of lock \<circ> snd) resolved) lock)"
  shows "c \<in> snd ` set resolved \<Longrightarrow> lock_get l' (chart_key c) = Some (locked_of lock c)"
    and "k \<notin> chart_key ` snd ` set resolved \<Longrightarrow> lock_get l' k = lock_get lock k"
proof -
  let ?es = "map (locked_of lock \<circ> snd) resolved"
  have keys: "map lp_key ?es = map (chart_key \<circ> snd) resolved" by simp
  have dist: "distinct (map lp_key ?es)" unfolding keys by (rule assms(1))
  show "lock_get l' (chart_key c) = Some (locked_of lock c)" if "c \<in> snd ` set resolved"
  proof -
    have "locked_of lock c \<in> set ?es" using that by auto
    from lock_store.get_ups_all_distinct [OF dist this, of lock] show ?thesis
      by (simp add: assms(2))
  qed
  have "lp_key ` set ?es = chart_key ` snd ` set resolved" by (simp add: image_image)
  then show "lock_get l' k = lock_get lock k" if "k \<notin> chart_key ` snd ` set resolved"
    using that lock_store.get_ups_all_other [of k ?es lock] by (simp add: assms(2))
qed

lemma fold_upserted_id:
  "\<forall>e \<in> set es. lock_get l (lp_key e) = Some e \<Longrightarrow> fold upserted es l = l"
  by (induction es) (auto simp: upserted_id)

lemma sort_lock_idem [simp]: "sort_lock (sort_lock l) = sort_lock l"
  by (simp add: sort_lock_def sort_key_id_if_sorted)

lemma chart_keys_distinct:
  assumes "bt_inv resolved" "\<forall>(k, c) \<in> set resolved. rc_name c = k"
  shows "distinct (map (chart_key \<circ> snd) resolved)"
proof -
  have "distinct (map fst resolved)" using assms(1) by (simp add: bt_inv_def strict_sorted_iff)
  moreover have "map fst resolved = map fst (map (chart_key \<circ> snd) resolved)"
    using assms(2) by (auto simp: chart_key_def)
  ultimately show ?thesis by (metis distinct_map)
qed

text \<open>
  What the entry of a chart must be, given the entry locked before: signature, attestation and the other
  fields tied to the bytes stay with an unchanged digest and are dropped with any other.
\<close>

definition tied_fields ::
  "locked_package \<Rightarrow> string option \<times> string option \<times> string list \<times> string option
     \<times> bool option \<times> string option \<times> string option"
where
  "tied_fields p = (lp_vendor_digest p, lp_signature p, lp_dependencies p, lp_attestation p, lp_yanked p,
     lp_kyverno_source_digest p, lp_converter_version p)"

definition untied :: "string option \<times> string option \<times> string list \<times> string option
     \<times> bool option \<times> string option \<times> string option" where
  "untied = (None, None, [], None, None, None, None)"

definition entry_for :: "locked_package option \<Rightarrow> resolved_chart \<Rightarrow> locked_package \<Rightarrow> bool" where
  "entry_for prior c e \<longleftrightarrow>
     lp_key e = chart_key c \<and> lp_digest e = rc_sha256 c
     \<and> (lp_source e, lp_replaced e) = map_prod id snd (to_locked_fields (rc_source c))
     \<and> tied_fields e =
         (case prior of
            Some p \<Rightarrow> if lp_digest p = rc_sha256 c then tied_fields p else untied
          | None \<Rightarrow> untied)"

lemma entry_for_locked_of: "entry_for (lock_get lock (chart_key c)) c (locked_of lock c)"
  by (auto simp: entry_for_def locked_of_def locked_entry_def same_digest_def tied_fields_def untied_def lp_key_def
      chart_key_def split: prod.splits option.splits)

lemma merge_into_lock_idem:
  assumes "bt_inv resolved" "\<forall>(k, c) \<in> set resolved. rc_name c = k"
    and "(merge_into_lock lock resolved :: ('e, akua_lock) outcome) = Ok l'"
  shows "(merge_into_lock l' resolved :: ('f, akua_lock) outcome) = Ok l'"
proof -
  note dist = chart_keys_distinct [OF assms(1,2)]
  let ?l = "sort_lock (fold upserted (map (locked_of lock \<circ> snd) resolved) lock)"
  from assms(3) have l': "l' = ?l" by (simp add: merge_into_lock_fold [OF dist])
  note got = lock_get_merged [OF dist refl, of _ lock]
  have carry: "\<forall>c \<in> snd ` set resolved. locked_of ?l c = locked_of lock c"
    using got(1) by (blast intro: locked_of_carry)
  then have same: "map (locked_of ?l \<circ> snd) resolved = map (locked_of lock \<circ> snd) resolved" by simp
  have id: "fold upserted (map (locked_of lock \<circ> snd) resolved) ?l = ?l"
    using got(1) by (intro fold_upserted_id) auto
  show ?thesis unfolding l' merge_into_lock_fold [OF dist] same id by simp
qed

text \<open>
  C21. Merging a resolution into the lock never fails. Afterwards the entry of every resolved chart has
  its source and digest and keeps signature, attestation and the other fields tied to the bytes exactly
  when the digest is the one locked before; entries of other names or versions are untouched; the lock
  is in canonical order; and merging the same resolution again changes nothing.
\<close>

theorem merge_into_lock_correct:
  assumes "bt_inv resolved" "\<forall>(k, c) \<in> set resolved. rc_name c = k"
  shows "\<exists>l'. merge_into_lock lock resolved = Ok l'
    \<and> (\<forall>c \<in> snd ` set resolved. \<exists>e. lock_get l' (chart_key c) = Some e
        \<and> entry_for (lock_get lock (chart_key c)) c e)
    \<and> (\<forall>k. k \<notin> chart_key ` snd ` set resolved \<longrightarrow> lock_get l' k = lock_get lock k)
    \<and> sorted (map lp_key (packages l'))
    \<and> (merge_into_lock l' resolved :: ('e, akua_lock) outcome) = Ok l'"
proof -
  note dist = chart_keys_distinct [OF assms]
  let ?l = "sort_lock (fold upserted (map (locked_of lock \<circ> snd) resolved) lock)"
  have merged: "(merge_into_lock lock resolved :: ('e, akua_lock) outcome) = Ok ?l"
    by (rule merge_into_lock_fold [OF dist])
  note got = lock_get_merged [OF dist refl, of _ lock]
  have "sorted (map lp_key (packages ?l))" by (simp add: sort_lock_def)
  then show ?thesis
    using merge_into_lock_fold [OF dist] merge_into_lock_idem [OF assms merged] got entry_for_locked_of
    by (intro exI [of _ ?l]) auto
qed


definition nginx_chart :: resolved_chart where
  "nginx_chart = \<lparr>rc_name = ''nginx'', abs_path = [RootDir, Normal ''c''], rc_sha256 = ''sha256:00'',
     rc_kind = HelmChart, rc_source = ResolvedOci ''oci://r/nginx'' ''1.0.0'' ''sha256:00''\<rparr>"

definition signed_lock :: akua_lock where
  "signed_lock = \<lparr>lock_version = 1, packages =
     [\<lparr>lp_name = ''nginx'', lp_version = ''1.0.0'', lp_source = ''oci://r/nginx'', lp_digest = ''sha256:00'',
       lp_vendor_digest = None, lp_signature = Some ''sig'', lp_dependencies = [], lp_attestation = None,
       lp_replaced = None, lp_yanked = None, lp_kyverno_source_digest = None, lp_converter_version = None\<rparr>]\<rparr>"

lemma merge_into_lock_correct_witness:
  "\<exists>l' e. (merge_into_lock signed_lock [(''nginx'', nginx_chart)] :: (unit, akua_lock) outcome) = Ok l'
     \<and> lock_get l' (''nginx'', ''1.0.0'') = Some e \<and> lp_signature e = Some ''sig''"
proof -
  have inv: "bt_inv [(''nginx'', nginx_chart)]" by code_simp
  have names: "\<forall>(k, c) \<in> set [(''nginx'', nginx_chart)]. rc_name c = k" by (simp add: nginx_chart_def)
  have key: "chart_key nginx_chart = (''nginx'', ''1.0.0'')" by code_simp
  have prior: "map_option (\<lambda>p. (lp_digest p = rc_sha256 nginx_chart, lp_signature p))
      (lock_get signed_lock (''nginx'', ''1.0.0'')) = Some (True, Some ''sig'')" by code_simp
  from merge_into_lock_correct [OF inv names, of signed_lock, where 'e = unit] obtain l' where
    l': "(merge_into_lock signed_lock [(''nginx'', nginx_chart)] :: (unit, akua_lock) outcome) = Ok l'"
    "\<forall>c \<in> snd ` set [(''nginx'', nginx_chart)]. \<exists>e. lock_get l' (chart_key c) = Some e
       \<and> entry_for (lock_get signed_lock (chart_key c)) c e"
    by (elim exE conjE) (rule that)
  from l'(2) key obtain e where e: "lock_get l' (''nginx'', ''1.0.0'') = Some e"
    "entry_for (lock_get signed_lock (''nginx'', ''1.0.0'')) nginx_chart e" by auto
  from e(2) prior have "lp_signature e = Some ''sig''"
    by (auto simp: entry_for_def tied_fields_def split: option.splits)
  with l'(1) e(1) show ?thesis by blast
qed


section \<open>Which imports are checked\<close>

text \<open>What the language allows above and between the imports, and the root a line imports.\<close>

definition header_line :: "string \<Rightarrow> bool" where
  "header_line line \<longleftrightarrow>
     trim_start line = [] \<or> prefix ''#'' (trim_start line) \<or> prefix ''import '' (trim_start line)"

definition imports_root :: "string \<Rightarrow> string \<Rightarrow> bool" where
  "imports_root line root \<longleftrightarrow>
     (\<exists>rest. trim_start line = ''import '' @ rest \<and> take_token rest \<noteq> []
        \<and> root = hd (split_on CHR ''.'' (take_token rest)) \<and> root \<noteq> [])"

lemma strip_prefix_Some: "strip_prefix p s = Some r \<longleftrightarrow> s = p @ r"
  by (auto simp: strip_prefix_def prefix_def)

lemma strip_prefix_None: "strip_prefix p s = None \<longleftrightarrow> \<not> prefix p s"
  by (simp add: strip_prefix_def)

lemma scan_imports_iff:
  "root \<in> set (scan_imports ls) \<longleftrightarrow>
     (\<exists>pre line post. ls = pre @ line # post \<and> list_all header_line pre \<and> imports_root line root)"
  (is "_ \<longleftrightarrow> ?R ls")
proof (induction ls)
  case (Cons line ls)
  have step: "?R (line # ls) \<longleftrightarrow> imports_root line root \<or> header_line line \<and> ?R ls"
  proof
    assume "?R (line # ls)"
    then obtain pre l post where *: "line # ls = pre @ l # post" "list_all header_line pre" "imports_root l root"
      by blast
    show "imports_root line root \<or> header_line line \<and> ?R ls"
    proof (cases pre)
      case Nil
      with * show ?thesis by simp
    next
      case (Cons a pre')
      with * have "ls = pre' @ l # post" "list_all header_line pre'" "header_line line" by auto
      with *(3) show ?thesis by blast
    qed
  next
    assume "imports_root line root \<or> header_line line \<and> ?R ls"
    then show "?R (line # ls)"
    proof
      assume "imports_root line root"
      moreover have "line # ls = [] @ line # ls" "list_all header_line []" by simp_all
      ultimately show ?thesis by blast
    next
      assume *: "header_line line \<and> ?R ls"
      then obtain pre l post where "ls = pre @ l # post" "list_all header_line pre" "imports_root l root"
        by blast
      with * have "line # ls = (line # pre) @ l # post" "list_all header_line (line # pre)" "imports_root l root"
        by simp_all
      then show ?thesis by blast
    qed
  qed
  consider (skip) "trim_start line = [] \<or> prefix ''#'' (trim_start line)"
    | (stop) "trim_start line \<noteq> []" "\<not> prefix ''#'' (trim_start line)" "strip_prefix ''import '' (trim_start line) = None"
    | (import) rest where "trim_start line \<noteq> []" "\<not> prefix ''#'' (trim_start line)"
        "strip_prefix ''import '' (trim_start line) = Some rest"
    by fastforce
  then show ?case
  proof cases
    case skip
    then have "header_line line" "\<not> imports_root line root" by (auto simp: header_line_def imports_root_def)
    with skip Cons.IH show ?thesis unfolding step by simp
  next
    case stop
    then have "\<not> header_line line" "\<not> imports_root line root"
      by (auto simp: header_line_def imports_root_def strip_prefix_None)
    with stop show ?thesis unfolding step by simp
  next
    case (import rest)
    then have t: "trim_start line = ''import '' @ rest" by (simp only: strip_prefix_Some)
    then have h: "header_line line" by (simp add: header_line_def)
    have r: "imports_root line root \<longleftrightarrow> take_token rest \<noteq> []
        \<and> root = hd (split_on CHR ''.'' (take_token rest)) \<and> root \<noteq> []"
      by (auto simp: imports_root_def t)
    from import h r Cons.IH show ?thesis
      unfolding step by (auto simp: Let_def simp del: strip_leading.simps)
  qed
qed simp

lemma scan_roots_iff:
  "root \<in> set (scan_top_level_import_roots src) \<longleftrightarrow>
     (\<exists>pre line post. str_lines src = pre @ line # post \<and> list_all header_line pre \<and> imports_root line root)"
proof (cases "sublist ''import '' src")
  case True
  then show ?thesis by (simp add: scan_top_level_import_roots_def scan_imports_iff)
next
  case False
  have "\<not> imports_root line root" if "line \<in> set (str_lines src)" for line
  proof
    assume "imports_root line root"
    then have "prefix ''import '' (trim_start line)" by (auto simp: imports_root_def)
    then have "sublist ''import '' line"
      using suffix_strip_leading [of unicode_ws line] unfolding trim_start_def
      by (metis prefix_imp_sublist suffix_imp_sublist sublist_order.order_trans)
    with sublist_str_lines [OF that] False show False using sublist_order.order_trans by blast
  qed
  with False show ?thesis by (auto simp: scan_top_level_import_roots_def)
qed

text \<open>
  \<open>validate_import_kinds\<close> reports exactly the aliases that \<open>package.k\<close> imports in its header, before
  any line that is neither blank nor a comment nor an import, that are declared dependencies and that
  resolved as Helm charts.
\<close>

theorem validate_import_kinds_correct:
  "m \<in> set (validate_import_kinds src resolved) \<longleftrightarrow>
     im_alias m \<notin> {''akua'', ''kcl_plugin'', ''charts''} \<and> resolved_kind m = HelmChart
     \<and> (\<exists>c. bt_get resolved (im_alias m) = Some c \<and> rc_kind c = HelmChart)
     \<and> (\<exists>pre line post. str_lines src = pre @ line # post \<and> list_all header_line pre
          \<and> imports_root line (im_alias m))"
proof -
  have one: "import_mismatch resolved al = Some m \<longleftrightarrow> al = im_alias m
      \<and> im_alias m \<notin> {''akua'', ''kcl_plugin'', ''charts''} \<and> resolved_kind m = HelmChart
      \<and> (\<exists>c. bt_get resolved (im_alias m) = Some c \<and> rc_kind c = HelmChart)" for al
  proof -
    have kinds: "k \<noteq> KclModule \<longleftrightarrow> k = HelmChart" for k by (cases k) auto
    show ?thesis unfolding import_mismatch_def
      by (cases m) (auto simp: kinds split: option.splits)
  qed
  have "m \<in> set (validate_import_kinds src resolved) \<longleftrightarrow>
      resolved \<noteq> [] \<and> (\<exists>alias \<in> set (scan_top_level_import_roots src). import_mismatch resolved alias = Some m)"
    by (auto simp: validate_import_kinds_def List.map_filter_def intro: rev_image_eqI)
  then show ?thesis
    unfolding one scan_roots_iff [symmetric] by (cases "resolved = []") (auto simp: bt_get_def)
qed

end
