(* ===== verification/Resolver.thy ===== *)
theory Resolver
  imports Resolved OciFetcher HelmRepo GitFetcher
begin

text \<open>
  \<open>chart_resolver.rs\<close>: every dependency of the manifest to a directory with a digest. The state that a
  resolution threads is the world and the log of the HTTP client; the environment holds the
  environments of the three fetchers. The result of a resolution is \<open>None\<close> only when a git tree is
  deeper than the bound of the checkout. Modelled as the CLI builds it, with every fetch feature on.
\<close>

section \<open>Options and errors\<close>

record ('vk, 'sk, 'sg, 'v, 'r, 'g) resolver_env =
  r_oci :: "('vk, 'sk, 'sg) oci_env"
  r_helm :: "('v, 'r) helm_env"
  r_gix :: "'g gix"
  r_git_depth :: nat
  r_show_auth :: "auth_load_error \<Rightarrow> string"

datatype chart_error =
  ChartPathMissing string path
| ChartNotADirectory string path
| ChartIo string path io_error
| UnsupportedSource string dependency_source string
| OciFetchFailed string oci_fetch_error
| HelmFetchFailed string helm_error
| GitFetchFailed string git_error
| AbsolutePathRejected string path
| PathEscape string path path path
| ReplaceRejected string

record resolver_options =
  offline :: bool
  opt_cache_root :: "path option"
  expected_digests :: "(string, string) btree"
  cosign_public_key_pem :: "string option"
  reject_replace :: bool
  opt_auth :: "host_auth_map option"

definition replace_rejected_from_env :: "world \<Rightarrow> bool" where
  "replace_rejected_from_env w \<longleftrightarrow> env_var w ''AKUA_REJECT_REPLACE'' = Some ''1''"

definition online_with :: "world \<Rightarrow> (string, string) btree \<Rightarrow> resolver_options" where
  "online_with w digests =
     \<lparr>offline = False, opt_cache_root = None, expected_digests = digests, cosign_public_key_pem = None,
      reject_replace = replace_rejected_from_env w, opt_auth = None\<rparr>"

definition offline_options :: resolver_options where
  "offline_options =
     \<lparr>offline = True, opt_cache_root = None, expected_digests = [], cosign_public_key_pem = None,
      reject_replace = False, opt_auth = None\<rparr>"

fun source_kind_label :: "dependency_source \<Rightarrow> string" where
  "source_kind_label SourceOci = ''oci://''"
| "source_kind_label SourceGit = ''git''"
| "source_kind_label SourcePath = ''path''"
| "source_kind_label SourceHelm = ''helm''"

definition default_cache_root :: "world \<Rightarrow> string \<Rightarrow> path" where
  "default_cache_root w subdir =
     (case env_nonempty w ''XDG_CACHE_HOME'' of
        Some xdg \<Rightarrow> path_join (path_join (path_of xdg) (path_of ''akua'')) (path_of subdir)
      | None \<Rightarrow>
          (case env_nonempty w ''HOME'' of
             Some home \<Rightarrow> path_join (path_join (path_of home) (path_of ''.cache/akua'')) (path_of subdir)
           | None \<Rightarrow> path_join (path_of ''.akua/cache'') (path_of subdir)))"

definition cache_root_for :: "world \<Rightarrow> resolver_options \<Rightarrow> string \<Rightarrow> path" where
  "cache_root_for w opts subdir =
     (case opt_cache_root opts of Some p \<Rightarrow> p | None \<Rightarrow> default_cache_root w subdir)"

definition detect_dep_kind :: "world \<Rightarrow> path \<Rightarrow> package_kind" where
  "detect_dep_kind w dir = (case detect_kind w dir of Some k \<Rightarrow> k | None \<Rightarrow> HelmChart)"

section \<open>Paths\<close>

datatype path_origin = UserManifest | Internal

datatype workspace_path_error =
  WsAbsoluteRejected path
| WsNotFound path
| WsIo path io_error
| WsEscape path path

definition validate_workspace_path ::
  "world \<Rightarrow> path \<Rightarrow> path \<Rightarrow> string \<Rightarrow> (workspace_path_error, path) outcome"
where
  "validate_workspace_path w workspace_canon workspace_root requested =
     (let rel = path_of requested
      in if is_absolute rel then Err (WsAbsoluteRejected rel)
         else let joined = path_join workspace_root rel
              in case canonicalize w joined of
                   Err e \<Rightarrow> (if io_kind e = NotFound then Err (WsNotFound joined) else Err (WsIo joined e))
                 | Panic \<Rightarrow> Panic
                 | Ok canon \<Rightarrow>
                     if \<not> prefix workspace_canon canon then Err (WsEscape canon workspace_canon)
                     else Ok canon)"

fun path_error_of :: "string \<Rightarrow> string \<Rightarrow> workspace_path_error \<Rightarrow> chart_error" where
  "path_error_of name requested (WsAbsoluteRejected p) = AbsolutePathRejected name p"
| "path_error_of name requested (WsNotFound p) = ChartPathMissing name p"
| "path_error_of name requested (WsIo p e) = ChartIo name p e"
| "path_error_of name requested (WsEscape resolved ws) = PathEscape name (path_of requested) resolved ws"

definition resolve_canon ::
  "world \<Rightarrow> string \<Rightarrow> string \<Rightarrow> path \<Rightarrow> path_origin \<Rightarrow> (chart_error, path) outcome"
where
  "resolve_canon w name requested workspace_root origin =
     (case origin of
        UserManifest \<Rightarrow>
          obind (omap_err (ChartIo name workspace_root) (canonicalize w workspace_root)) (\<lambda>workspace_canon.
            omap_err (path_error_of name requested)
              (validate_workspace_path w workspace_canon workspace_root requested))
      | Internal \<Rightarrow>
          (let rel = path_of requested;
               joined = (if is_absolute rel then rel else path_join workspace_root rel)
           in case canonicalize w joined of
                Ok p \<Rightarrow> Ok p
              | Err e \<Rightarrow>
                  (if io_kind e = NotFound then Err (ChartPathMissing name joined) else Err (ChartIo name joined e))
              | Panic \<Rightarrow> Panic))"

definition resolve_path ::
  "('vk, 'sk, 'sg, 'v, 'r, 'g) resolver_env \<Rightarrow> world \<Rightarrow> string \<Rightarrow> string \<Rightarrow> path \<Rightarrow> resolved_source \<Rightarrow> path_origin
     \<Rightarrow> (chart_error, resolved_chart) outcome"
where
  "resolve_path R w name requested workspace_root src origin =
     obind (resolve_canon w name requested workspace_root origin) (\<lambda>canon.
     obind (omap_err (ChartIo name canon) (metadata_is_dir w canon)) (\<lambda>dir.
     if \<not> dir then Err (ChartNotADirectory name canon)
     else obind (omap_err (ChartIo name canon)
            (obind (tree_at w canon) (hash_dir (env_sha256 (r_oci R))))) (\<lambda>(sha256, _).
          Ok \<lparr>rc_name = name, abs_path = canon, rc_sha256 = sha256,
              rc_kind = detect_dep_kind w canon, rc_source = src\<rparr>)))"

section \<open>Vendored dependencies\<close>

datatype vendor_kind =
  VendorPath string
| VendorOci string string
| VendorGit string string

fun vendor_placeholder :: "vendor_kind \<Rightarrow> resolved_source" where
  "vendor_placeholder (VendorPath declared) = ResolvedPath declared"
| "vendor_placeholder (VendorOci oci version) = ResolvedOci oci version []"
| "vendor_placeholder (VendorGit git ref) = ResolvedGit git ref []"

text \<open>The digest of the tree is patched into the source; for git it gets the \<open>git:\<close> prefix.\<close>

definition patch_vendored :: "resolved_chart \<Rightarrow> resolved_chart" where
  "patch_vendored c =
     (case rc_source c of
        ResolvedOci oci version _ \<Rightarrow> c\<lparr>rc_source := ResolvedOci oci version (rc_sha256 c)\<rparr>
      | ResolvedGit git ref _ \<Rightarrow>
          (let raw = (case strip_prefix ''sha256:'' (rc_sha256 c) of Some r \<Rightarrow> r | None \<Rightarrow> rc_sha256 c)
           in c\<lparr>rc_source := ResolvedGit git ref raw, rc_sha256 := GIT_DIGEST_PREFIX @ raw\<rparr>)
      | _ \<Rightarrow> c)"

definition VENDOR_DIR :: string where "VENDOR_DIR = ''.akua/vendor''"

definition vendor_path :: "path \<Rightarrow> string \<Rightarrow> path" where
  "vendor_path workspace_root name = path_join (path_join workspace_root (path_of VENDOR_DIR)) (path_of name)"

definition resolve_from_vendor ::
  "('vk, 'sk, 'sg, 'v, 'r, 'g) resolver_env \<Rightarrow> world \<Rightarrow> string \<Rightarrow> path \<Rightarrow> vendor_kind
     \<Rightarrow> (chart_error, resolved_chart option) outcome"
where
  "resolve_from_vendor R w name workspace_root kind =
     (let p = vendor_path workspace_root name
      in if \<not> is_dir w p then Ok None
         else obind (resolve_path R w name (path_str p) workspace_root (vendor_placeholder kind) Internal) (\<lambda>c.
              Ok (Some (patch_vendored c))))"

fun vendor_kind_of :: "dependency_spec \<Rightarrow> vendor_kind option" where
  "vendor_kind_of (SpecPath declared) = Some (VendorPath declared)"
| "vendor_kind_of (SpecOci oci version) = Some (VendorOci oci version)"
| "vendor_kind_of (SpecGit git t r) =
     Some (VendorGit git (case tag_or_rev (SpecGit git t r) of Some x \<Rightarrow> x | None \<Rightarrow> VENDORED_LOCK_FALLBACK))"
| "vendor_kind_of (SpecHelm repo chart version) = None"

section \<open>The fetched kinds\<close>

definition em_dash :: string where "em_dash = [CHR 0xE2, CHR 0x80, CHR 0x94]"

definition needs_pin :: "string \<Rightarrow> string" where
  "needs_pin what = ''offline mode needs a lockfile-pinned '' @ what @ '' '' @ em_dash @ '' run `akua add` first''"

definition not_cached :: "string \<Rightarrow> string \<Rightarrow> string" where
  "not_cached cache what =
     ''offline mode and the '' @ cache @ '' cache doesn't have this '' @ what @ '' '' @ em_dash
       @ '' run `akua add` online first''"

definition unsupported :: "string \<Rightarrow> dependency_source \<Rightarrow> string \<Rightarrow> 'a option \<Rightarrow> (chart_error, 'a) outcome" where
  "unsupported name kind reason = ok_or (UnsupportedSource name kind reason)"

definition resolve_oci ::
  "('vk, 'sk, 'sg, 'v, 'r, 'g) resolver_env \<Rightarrow> string \<Rightarrow> dependency \<Rightarrow> string \<Rightarrow> resolver_options \<Rightarrow> world \<Rightarrow> net
     \<Rightarrow> (chart_error, resolved_chart \<times> world) outcome \<times> net"
where
  "resolve_oci R name dep oci opts w =
     nbind (nret (expect (dep_version dep))) (\<lambda>version.
     let cache_root = cache_root_for w opts ''oci''; expected = bt_get (expected_digests opts) name
     in nbind (if offline opts
          then nret (obind (unsupported name SourceOci
                   (needs_pin ''digest'') expected) (\<lambda>digest.
                 obind (unsupported name SourceOci
                   (not_cached ''OCI'' ''dep'')
                   (oci_fetch_from_cache w cache_root digest)) (\<lambda>a. Ok (a, w))))
          else nbind (nret (omap_err (\<lambda>e. OciFetchFailed name (AuthConfig (r_show_auth R e)))
                   (load_creds (env_codecs (r_oci R)) w))) (\<lambda>creds.
               nmap_err (OciFetchFailed name)
                 (oci_fetch_with_opts (r_oci R) oci version cache_root
                   \<lparr>oci_fetch_opts.expected_digest = expected, fo_creds = creds,
                    fo_cosign_key = cosign_public_key_pem opts\<rparr> w))) (\<lambda>(a, w').
        nret (Ok (\<lparr>rc_name = name, abs_path = root_dir a, rc_sha256 = blob_digest a, rc_kind = oci_kind a,
                  rc_source = ResolvedOci oci version (blob_digest a)\<rparr>, w'))))"

definition resolve_helm ::
  "('vk, 'sk, 'sg, 'v::linorder, 'r, 'g) resolver_env \<Rightarrow> string \<Rightarrow> string \<Rightarrow> string \<Rightarrow> string \<Rightarrow> resolver_options
     \<Rightarrow> world \<Rightarrow> net \<Rightarrow> (chart_error, resolved_chart \<times> world) outcome \<times> net"
where
  "resolve_helm R name repo chart version opts w =
     (let cache_root = cache_root_for w opts ''helm''; expected = bt_get (expected_digests opts) name
      in nbind (if offline opts
          then nret (obind (unsupported name SourceHelm
                   (needs_pin ''digest'') expected) (\<lambda>digest.
                 obind (unsupported name SourceHelm
                   (not_cached ''helm'' ''dep'')
                   (helm_fetch_from_cache w cache_root digest chart)) (\<lambda>f. Ok (f, w))))
          else nmap_err (HelmFetchFailed name)
                 (helm_fetch (r_helm R) repo chart version cache_root
                   \<lparr>helm_expected = expected, helm_auth = opt_auth opts\<rparr> w)) (\<lambda>(f, w').
         let resolved_version = (if fetched_version f = [] then version else fetched_version f)
         in nret (Ok (\<lparr>rc_name = name, abs_path = fetched_root f, rc_sha256 = fetched_digest f,
                     rc_kind = HelmChart,
                     rc_source = ResolvedHelm repo chart resolved_version (fetched_digest f)\<rparr>, w'))))"

definition dep_ref_spec :: "dependency \<Rightarrow> ('e, ref_spec) outcome" where
  "dep_ref_spec dep =
     (case dep_tag dep of Some t \<Rightarrow> Ok (Tag t)
      | None \<Rightarrow> (case dep_rev dep of Some r \<Rightarrow> Ok (Rev r) | None \<Rightarrow> Panic))"

definition expected_commit :: "resolver_options \<Rightarrow> string \<Rightarrow> string option" where
  "expected_commit opts name =
     Option.bind (bt_get (expected_digests opts) name) (strip_prefix GIT_DIGEST_PREFIX)"

definition git_chart :: "string \<Rightarrow> string \<Rightarrow> ref_spec \<Rightarrow> fetched_repo \<times> world \<Rightarrow> resolved_chart \<times> world" where
  "git_chart name git ref_spec = (\<lambda>(f, w').
     (\<lparr>rc_name = name, abs_path = chart_dir f, rc_sha256 = GIT_DIGEST_PREFIX @ commit_sha f,
       rc_kind = detect_dep_kind w' (chart_dir f),
       rc_source = ResolvedGit git (label ref_spec) (commit_sha f)\<rparr>, w'))"

definition resolve_git ::
  "('vk, 'sk, 'sg, 'v, 'r, 'g) resolver_env \<Rightarrow> string \<Rightarrow> dependency \<Rightarrow> string \<Rightarrow> resolver_options \<Rightarrow> world
     \<Rightarrow> (chart_error, resolved_chart \<times> world) outcome option"
where
  "resolve_git R name dep git opts w =
     (case dep_ref_spec dep of
        Err e \<Rightarrow> Some (Err e)
      | Panic \<Rightarrow> Some Panic
      | Ok ref_spec \<Rightarrow>
          (let cache_root = cache_root_for w opts ''git''; expected = expected_commit opts name;
               finish = (\<lambda>r. obind r (\<lambda>fw. Ok (git_chart name git ref_spec fw)))
           in if offline opts
              then Some (finish (obind (unsupported name SourceGit
                     (needs_pin ''commit'') expected) (\<lambda>commit.
                   obind (unsupported name SourceGit
                     (not_cached ''git'' ''commit'')
                     (git_fetch_from_cache w cache_root commit)) (\<lambda>f. Ok (f, w)))))
              else map_option (\<lambda>r. finish (omap_err (GitFetchFailed name) r))
                     (git_fetch (r_git_depth R) (r_gix R) git ref_spec cache_root expected (opt_auth opts) w)))"

section \<open>One dependency, and all of them\<close>

definition resolved_source_for_replace ::
  "string \<Rightarrow> dependency \<Rightarrow> string \<Rightarrow> (chart_error, resolved_source) outcome"
where
  "resolved_source_for_replace name dep rpath =
     obind (spec dep) (\<lambda>s. case s of
         SpecOci oci version \<Rightarrow> Ok (ResolvedOciReplaced oci version rpath)
       | SpecGit git t r \<Rightarrow>
           Ok (ResolvedGitReplaced git (case tag_or_rev s of Some x \<Rightarrow> x | None \<Rightarrow> ''HEAD'') rpath)
       | SpecPath declared \<Rightarrow> Panic
       | SpecHelm repo chart version \<Rightarrow>
           Err (UnsupportedSource name SourceHelm ''helm-repo dependencies are not yet supported''))"

definition resolve_source ::
  "('vk, 'sk, 'sg, 'v::linorder, 'r, 'g) resolver_env \<Rightarrow> path \<Rightarrow> resolver_options \<Rightarrow> string \<Rightarrow> dependency
     \<Rightarrow> dependency_spec \<Rightarrow> world \<Rightarrow> net \<Rightarrow> ((chart_error, resolved_chart \<times> world) outcome \<times> net) option"
where
  "resolve_source R root opts name dep s w n =
     (case s of
        SpecPath declared \<Rightarrow>
          Some (obind (resolve_path R w name declared root (ResolvedPath declared) UserManifest)
                  (\<lambda>c. Ok (c, w)), n)
      | SpecOci oci _ \<Rightarrow> Some (resolve_oci R name dep oci opts w n)
      | SpecGit git _ _ \<Rightarrow> map_option (\<lambda>r. (r, n)) (resolve_git R name dep git opts w)
      | SpecHelm repo chart version \<Rightarrow> Some (resolve_helm R name repo chart version opts w n))"

definition resolve_vendored ::
  "('vk, 'sk, 'sg, 'v, 'r, 'g) resolver_env \<Rightarrow> world \<Rightarrow> string \<Rightarrow> path \<Rightarrow> dependency_spec
     \<Rightarrow> (chart_error, resolved_chart option) outcome"
where
  "resolve_vendored R w name root s =
     (case vendor_kind_of s of None \<Rightarrow> Ok None | Some k \<Rightarrow> resolve_from_vendor R w name root k)"

definition resolve_dep ::
  "('vk, 'sk, 'sg, 'v::linorder, 'r, 'g) resolver_env \<Rightarrow> path \<Rightarrow> resolver_options \<Rightarrow> string \<Rightarrow> dependency
     \<Rightarrow> world \<Rightarrow> net \<Rightarrow> ((chart_error, resolved_chart \<times> world) outcome \<times> net) option"
where
  "resolve_dep R root opts name dep w n =
     (case dep_replace dep of
        Some r \<Rightarrow>
          Some (if reject_replace opts then Err (ReplaceRejected name)
                else obind (resolved_source_for_replace name dep (replace_path r)) (\<lambda>src.
                     obind (resolve_path R w name (replace_path r) root src UserManifest) (\<lambda>c. Ok (c, w))), n)
      | None \<Rightarrow>
          (case obind (spec dep) (\<lambda>s. obind (resolve_vendored R w name root s) (\<lambda>v. Ok (s, v))) of
             Err e \<Rightarrow> Some (Err e, n)
           | Panic \<Rightarrow> Some (Panic, n)
           | Ok (s, Some c) \<Rightarrow> Some (Ok (c, w), n)
           | Ok (s, None) \<Rightarrow> resolve_source R root opts name dep s w n))"

fun resolve_deps ::
  "('vk, 'sk, 'sg, 'v::linorder, 'r, 'g) resolver_env \<Rightarrow> path \<Rightarrow> resolver_options
     \<Rightarrow> (string \<times> dependency) list \<Rightarrow> resolved_charts \<Rightarrow> world \<Rightarrow> net
     \<Rightarrow> ((chart_error, resolved_charts \<times> world) outcome \<times> net) option"
where
  "resolve_deps R root opts [] acc w n = Some (Ok (acc, w), n)"
| "resolve_deps R root opts ((name, dep) # ds) acc w n =
     (case resolve_dep R root opts name dep w n of
        None \<Rightarrow> None
      | Some (Ok (c, w'), n') \<Rightarrow> resolve_deps R root opts ds (bt_insert name c acc) w' n'
      | Some (Err e, n') \<Rightarrow> Some (Err e, n')
      | Some (Panic, n') \<Rightarrow> Some (Panic, n'))"

definition resolve_with_options ::
  "('vk, 'sk, 'sg, 'v::linorder, 'r, 'g) resolver_env \<Rightarrow> manifest \<Rightarrow> path \<Rightarrow> resolver_options \<Rightarrow> world \<Rightarrow> net
     \<Rightarrow> ((chart_error, resolved_charts \<times> world) outcome \<times> net) option"
where
  "resolve_with_options R m root opts w n = resolve_deps R root opts (m_dependencies m) [] w n"

definition resolve ::
  "('vk, 'sk, 'sg, 'v::linorder, 'r, 'g) resolver_env \<Rightarrow> manifest \<Rightarrow> path \<Rightarrow> world \<Rightarrow> net
     \<Rightarrow> ((chart_error, resolved_charts \<times> world) outcome \<times> net) option"
where
  "resolve R m root w n = resolve_with_options R m root offline_options w n"

end
