(* ===== verification/ResolverSpec.thy ===== *)
theory ResolverSpec
  imports Resolver
begin

text \<open>
  What a resolution guarantees: one chart per dependency, local paths inside the workspace, pinned
  digests, no effect offline; and where it does not: vendored trees are taken as they are.
\<close>

abbreviation dep_spec :: "dependency \<Rightarrow> (chart_error, dependency_spec) outcome" where
  "dep_spec \<equiv> spec"

section \<open>Steps that succeed\<close>

lemma resolve_path_Ok:
  assumes "resolve_path R w name requested root src origin = Ok c"
  shows "rc_name c = name" "rc_source c = src" "resolve_canon w name requested root origin = Ok (abs_path c)"
    "metadata_is_dir w (abs_path c) = Ok True"
  using assms by (auto simp: resolve_path_def outcome_simps split: if_splits)

text \<open>A path is confined when its canonical form lies below the canonical workspace.\<close>

definition confined :: "world \<Rightarrow> path \<Rightarrow> path \<Rightarrow> bool" where
  "confined w root p \<longleftrightarrow> (\<exists>ws. canonicalize w root = Ok ws \<and> prefix ws p)"

lemma resolve_canon_confined:
  "resolve_canon w name requested root UserManifest = Ok p \<Longrightarrow> confined w root p"
  by (auto simp: resolve_canon_def validate_workspace_path_def Let_def confined_def outcome_simps
      split: outcome.splits if_splits)

lemma spec_Ok_fields:
  "dep_spec dep = Ok (SpecPath declared) \<Longrightarrow>
     dep_path dep = Some declared \<and> dep_oci dep = None \<and> dep_git dep = None \<and> dep_repo dep = None"
  "dep_spec dep = Ok (SpecOci oci version) \<Longrightarrow>
     dep_path dep = None \<and> dep_oci dep = Some oci \<and> dep_git dep = None \<and> dep_repo dep = None
     \<and> dep_version dep = Some version"
  "dep_spec dep = Ok (SpecGit git t r) \<Longrightarrow>
     dep_path dep = None \<and> dep_oci dep = None \<and> dep_git dep = Some git \<and> dep_repo dep = None"
  "dep_spec dep = Ok (SpecHelm repo chart version) \<Longrightarrow>
     dep_path dep = None \<and> dep_oci dep = None \<and> dep_git dep = None \<and> dep_repo dep = Some repo"
  by (auto simp: spec_def outcome_simps split: option.splits)

lemma resolve_dep_cases:
  assumes "resolve_dep R root opts name dep w n = Some (Ok (c, w'), n')"
  obtains
    (replaced) r src where "dep_replace dep = Some r" "\<not> reject_replace opts"
      "resolved_source_for_replace name dep (replace_path r) = Ok src"
      "resolve_path R w name (replace_path r) root src UserManifest = Ok c" "w' = w" "n' = n"
  | (vendored) s where "dep_replace dep = None" "dep_spec dep = Ok s"
      "resolve_vendored R w name root s = Ok (Some c)" "w' = w" "n' = n"
  | (fetched) s where "dep_replace dep = None" "dep_spec dep = Ok s" "resolve_vendored R w name root s = Ok None"
      "resolve_source R root opts name dep s w n = Some (Ok (c, w'), n')"
proof (cases "dep_replace dep")
  case (Some r)
  with assms show thesis
    by (auto simp: resolve_dep_def outcome_simps split: if_splits intro: replaced)
next
  case None
  note run = assms [unfolded resolve_dep_def None option.case]
  show thesis
  proof (cases "obind (dep_spec dep) (\<lambda>s. obind (resolve_vendored R w name root s) (\<lambda>v. Ok (s, v)))")
    case (Ok sv)
    obtain s v where sv: "sv = (s, v)" by (cases sv)
    with Ok have s: "dep_spec dep = Ok s" "resolve_vendored R w name root s = Ok v"
      by (auto simp: outcome_simps)
    show thesis
    proof (cases v)
      case None
      with run Ok sv s \<open>dep_replace dep = None\<close> show thesis by (intro fetched [of s]) auto
    next
      case (Some c')
      with run Ok sv s \<open>dep_replace dep = None\<close> show thesis by (intro vendored [of s]) auto
    qed
  qed (use run in auto)
qed

lemma patch_vendored_simps [simp]:
  "rc_name (patch_vendored c) = rc_name c" "abs_path (patch_vendored c) = abs_path c"
  by (simp_all add: patch_vendored_def Let_def split: resolved_source.splits)

lemma resolve_vendored_Some:
  assumes "resolve_vendored R w name root s = Ok (Some c)"
  obtains k c0 where "vendor_kind_of s = Some k" "is_dir w (vendor_path root name)" "c = patch_vendored c0"
    "resolve_path R w name (path_str (vendor_path root name)) root (vendor_placeholder k) Internal = Ok c0"
  using assms
  by (auto simp: resolve_vendored_def resolve_from_vendor_def Let_def outcome_simps
      split: option.splits if_splits)

lemma resolve_vendored_None:
  "resolve_vendored R w name root s = Ok None \<longleftrightarrow>
     vendor_kind_of s = None \<or> \<not> is_dir w (vendor_path root name)"
  by (auto simp: resolve_vendored_def resolve_from_vendor_def Let_def outcome_simps
      split: option.splits if_splits)

section \<open>Pinned digests\<close>

lemma resolve_oci_Ok:
  assumes "resolve_oci R name dep oci opts w n = (Ok (c, w'), n')"
  shows "rc_name c = name" "bt_get (Resolver.expected_digests opts) name = Some d \<Longrightarrow> rc_sha256 c = d"
    "offline opts \<Longrightarrow> w' = w \<and> n' = n"
proof -
  show "rc_name c = name"
    using assms by (auto simp: resolve_oci_def Let_def outcome_simps)
  show "offline opts \<Longrightarrow> w' = w \<and> n' = n"
    using assms by (auto simp: resolve_oci_def Let_def outcome_simps unsupported_def)
  assume pin: "bt_get (Resolver.expected_digests opts) name = Some d"
  show "rc_sha256 c = d"
  proof (cases "offline opts")
    case True
    with assms pin show ?thesis
      by (auto simp: resolve_oci_def Let_def outcome_simps unsupported_def oci_fetch_from_cache_def
          split: option.splits outcome.splits)
  next
    case False
    with assms obtain a oci_ref version root fo n1 n2 where
      a: "oci_fetch_with_opts (r_oci R) oci_ref version root fo w n1 = (Ok (a, w'), n2)"
        "oci_fetch_opts.expected_digest fo = Some d" "rc_sha256 c = blob_digest a"
      by (auto simp: resolve_oci_def Let_def outcome_simps pin)
    have "oci_pinned_fetch (r_oci R) (oci_ref, version, root, fo, w, n1) (Some d) = Ok (a, w')"
      using a(1,2) by (cases fo) (simp add: oci_pinned_fetch_def)
    from oci_pin.pinned [OF this] a(3) show ?thesis by simp
  qed
qed

lemma resolve_helm_Ok:
  assumes "resolve_helm R name repo chart version opts w n = (Ok (c, w'), n')"
  shows "rc_name c = name" "bt_get (Resolver.expected_digests opts) name = Some d \<Longrightarrow> rc_sha256 c = d"
    "offline opts \<Longrightarrow> w' = w \<and> n' = n"
proof -
  show "rc_name c = name"
    using assms by (auto simp: resolve_helm_def Let_def outcome_simps)
  show "offline opts \<Longrightarrow> w' = w \<and> n' = n"
    using assms by (auto simp: resolve_helm_def Let_def outcome_simps unsupported_def)
  assume pin: "bt_get (Resolver.expected_digests opts) name = Some d"
  show "rc_sha256 c = d"
  proof (cases "offline opts")
    case True
    with assms pin show ?thesis
      by (auto simp: resolve_helm_def Let_def outcome_simps unsupported_def helm_fetch_from_cache_def
          split: option.splits if_splits)
  next
    case False
    with assms obtain f root ho n1 where
      f: "helm_fetch (r_helm R) repo chart version root ho w n = (Ok (f, w'), n1)"
        "helm_expected ho = Some d" "rc_sha256 c = fetched_digest f"
      by (auto simp: resolve_helm_def Let_def outcome_simps pin)
    have "helm_pinned_fetch (r_helm R) (repo, chart, version, root, ho, w, n) (Some d) = Ok (f, w')"
      using f(1,2) by (cases ho) (simp add: helm_pinned_fetch_def)
    from helm_pin.pinned [OF this] f(3) show ?thesis by simp
  qed
qed

lemma resolve_git_Ok:
  assumes "resolve_git R name dep git opts w = Some (Ok (c, w'))"
  shows "rc_name c = name" "expected_commit opts name = Some d \<Longrightarrow> rc_sha256 c = GIT_DIGEST_PREFIX @ d"
    "offline opts \<Longrightarrow> w' = w"
proof -
  obtain spec where spec: "(dep_ref_spec dep :: (chart_error, ref_spec) outcome) = Ok spec"
    using assms by (auto simp: resolve_git_def split: outcome.splits)
  obtain f where c: "(c, w') = git_chart name git spec (f, w')"
    and f: "offline opts \<Longrightarrow> w' = w \<and> (\<forall>d. expected_commit opts name = Some d \<longrightarrow> commit_sha f = d)"
      "\<not> offline opts \<Longrightarrow> \<exists>root. git_fetch (r_git_depth R) (r_gix R) git spec root (expected_commit opts name) (opt_auth opts) w
        = Some (Ok (f, w'))"
  proof (cases "offline opts")
    case True
    with assms spec obtain commit f root where f: "expected_commit opts name = Some commit"
      "git_fetch_from_cache w root commit = Some f" "(c, w') = git_chart name git spec (f, w)"
      by (auto simp: resolve_git_def Let_def outcome_simps unsupported_def)
    from f(2) have "commit_sha f = commit" by (auto simp: git_fetch_from_cache_def Let_def split: if_splits)
    moreover from f(3) have "w' = w" by (simp add: git_chart_def)
    ultimately show thesis using that [of f] f(1,3) True by simp
  next
    case False
    with assms spec obtain f w1 root where f: "git_chart name git spec (f, w1) = (c, w')"
      "git_fetch (r_git_depth R) (r_gix R) git spec root (expected_commit opts name) (opt_auth opts) w
        = Some (Ok (f, w1))"
      by (auto simp: resolve_git_def Let_def outcome_simps)
    from f(1) have "w' = w1" by (simp add: git_chart_def)
    with that [of f] f False show thesis by metis
  qed
  show "rc_name c = name" using c by (simp add: git_chart_def)
  show "offline opts \<Longrightarrow> w' = w" using f(1) by blast
  assume pin: "expected_commit opts name = Some d"
  have "commit_sha f = d"
  proof (cases "offline opts")
    case False
    from f(2) [OF this] pin obtain root where
      "git_fetch (r_git_depth R) (r_gix R) git spec root (Some d) (opt_auth opts) w = Some (Ok (f, w'))"
      by auto
    then have "git_pinned_fetch (r_gix R) (r_git_depth R, git, spec, root, opt_auth opts, w) (Some d) = Ok (f, w')"
      by (simp add: git_pinned_fetch_def)
    from git_pin.pinned [OF this] show ?thesis by simp
  qed (use f(1) pin in blast)
  with c show "rc_sha256 c = GIT_DIGEST_PREFIX @ d" by (simp add: git_chart_def)
qed


section \<open>One chart per dependency\<close>

text \<open>The worlds the steps of a run are taken in, the first one the world of the call.\<close>

fun step_worlds ::
  "('vk, 'sk, 'sg, 'v::linorder, 'r, 'g) resolver_env \<Rightarrow> path \<Rightarrow> resolver_options
     \<Rightarrow> (string \<times> dependency) list \<Rightarrow> world \<Rightarrow> net \<Rightarrow> world list"
where
  "step_worlds R root opts [] w n = []"
| "step_worlds R root opts ((name, dep) # ds) w n =
     w # (case resolve_dep R root opts name dep w n of
            Some (Ok (c, w'), n') \<Rightarrow> step_worlds R root opts ds w' n'
          | _ \<Rightarrow> [])"

definition step_result ::
  "('vk, 'sk, 'sg, 'v::linorder, 'r, 'g) resolver_env \<Rightarrow> path \<Rightarrow> resolver_options
     \<Rightarrow> (string \<times> dependency) \<times> world \<Rightarrow> string \<times> resolved_chart \<Rightarrow> bool"
where
  "step_result R root opts = (\<lambda>((k, dep), w) (k', c). k' = k
     \<and> (\<exists>n w' n'. resolve_dep R root opts k dep w n = Some (Ok (c, w'), n')))"

lemma resolve_deps_steps:
  assumes "resolve_deps R root opts ds acc w n = Some (Ok (charts, w'), n')"
  shows "\<exists>cs. charts = fold (\<lambda>(k, c). bt_insert k c) cs acc \<and> map fst cs = map fst ds
    \<and> length (step_worlds R root opts ds w n) = length ds
    \<and> list_all2 (step_result R root opts) (zip ds (step_worlds R root opts ds w n)) cs"
  using assms
proof (induction R root opts ds acc w n rule: resolve_deps.induct)
  case (1 R root opts acc w n)
  then show ?case by (intro exI [of _ "[]"]) simp
next
  case (2 R root opts name dep ds acc w n)
  then obtain c w1 n1 where step: "resolve_dep R root opts name dep w n = Some (Ok (c, w1), n1)"
    and rest: "resolve_deps R root opts ds (bt_insert name c acc) w1 n1 = Some (Ok (charts, w'), n')"
    by (auto split: option.splits outcome.splits prod.splits)
  from "2.IH" [OF step refl refl refl rest] obtain cs where
    "charts = fold (\<lambda>(k, c). bt_insert k c) cs (bt_insert name c acc)" "map fst cs = map fst ds"
    "length (step_worlds R root opts ds w1 n1) = length ds"
    "list_all2 (step_result R root opts) (zip ds (step_worlds R root opts ds w1 n1)) cs"
    by blast
  moreover have "step_result R root opts ((name, dep), w) (name, c)" using step by (auto simp: step_result_def)
  ultimately show ?case using step by (intro exI [of _ "(name, c) # cs"]) simp
qed

lemma bt_insert_last: "\<forall>k' \<in> set (map fst m). k' < k \<Longrightarrow> bt_insert k v m = m @ [(k, v)]"
proof (induction m)
  case (Cons p m)
  then show ?case by (cases p) auto
qed simp

lemma fold_bt_insert_sorted: "sorted_wrt (<) (map fst cs) \<Longrightarrow> fold (\<lambda>(k, c). bt_insert k c) cs [] = cs"
proof (induction cs rule: rev_induct)
  case (snoc kc cs)
  obtain k c where "kc = (k, c)" by (cases kc)
  with snoc bt_insert_last [of cs k c] show ?case by (simp add: sorted_wrt_append)
qed simp

lemma resolve_with_options_steps:
  assumes "bt_inv (m_dependencies m)"
    and "resolve_with_options R m root opts w n = Some (Ok (charts, w'), n')"
  shows "list_all2 (step_result R root opts)
      (zip (m_dependencies m) (step_worlds R root opts (m_dependencies m) w n)) charts"
    and "map fst charts = map fst (m_dependencies m)"
    and "length (step_worlds R root opts (m_dependencies m) w n) = length (m_dependencies m)"
proof -
  obtain cs where cs: "charts = fold (\<lambda>(k, c). bt_insert k c) cs []" "map fst cs = map fst (m_dependencies m)"
    "length (step_worlds R root opts (m_dependencies m) w n) = length (m_dependencies m)"
    "list_all2 (step_result R root opts) (zip (m_dependencies m) (step_worlds R root opts (m_dependencies m) w n)) cs"
    using resolve_deps_steps [of R root opts "m_dependencies m" "[]"] assms(2)
    unfolding resolve_with_options_def by blast
  then have "charts = cs"
    using assms(1) by (simp add: bt_inv_def fold_bt_insert_sorted)
  with cs show "list_all2 (step_result R root opts)
      (zip (m_dependencies m) (step_worlds R root opts (m_dependencies m) w n)) charts"
    "map fst charts = map fst (m_dependencies m)"
    "length (step_worlds R root opts (m_dependencies m) w n) = length (m_dependencies m)" by simp_all
qed

text \<open>The contract of one step, in the world it was taken in.\<close>

definition is_vendored :: "world \<Rightarrow> path \<Rightarrow> string \<Rightarrow> dependency \<Rightarrow> bool" where
  "is_vendored w root name dep \<longleftrightarrow>
     dep_replace dep = None \<and> dep_repo dep = None \<and> is_dir w (vendor_path root name)"

definition sound_chart :: "world \<Rightarrow> path \<Rightarrow> resolver_options \<Rightarrow> string \<Rightarrow> dependency \<Rightarrow> resolved_chart \<Rightarrow> bool" where
  "sound_chart w root opts name dep c \<longleftrightarrow>
     rc_name c = name
     \<and> (dep_replace dep \<noteq> None \<longrightarrow> \<not> reject_replace opts \<and> confined w root (abs_path c))
     \<and> (dep_path dep \<noteq> None \<and> \<not> is_vendored w root name dep \<longrightarrow> confined w root (abs_path c))
     \<and> (\<forall>d. bt_get (Resolver.expected_digests opts) name = Some d \<and> dep_replace dep = None \<and> dep_path dep = None
          \<and> \<not> is_vendored w root name dep \<and> (dep_git dep \<noteq> None \<longrightarrow> prefix GIT_DIGEST_PREFIX d)
          \<longrightarrow> rc_sha256 c = d)"

lemma expected_commit_prefix:
  "bt_get (Resolver.expected_digests opts) name = Some d \<Longrightarrow> prefix GIT_DIGEST_PREFIX d \<Longrightarrow>
     \<exists>raw. expected_commit opts name = Some raw \<and> d = GIT_DIGEST_PREFIX @ raw"
  by (auto simp: expected_commit_def strip_prefix_def prefix_def)

lemma resolve_dep_sound:
  assumes "resolve_dep R root opts name dep w n = Some (Ok (c, w'), n')"
  shows "sound_chart w root opts name dep c"
  using assms
proof (cases rule: resolve_dep_cases)
  case (replaced r src)
  then show ?thesis
    using resolve_path_Ok(1,3) [OF replaced(4)] resolve_canon_confined
    by (auto simp: sound_chart_def)
next
  case (vendored s)
  from vendored(3) obtain k c0 where v: "vendor_kind_of s = Some k" "is_dir w (vendor_path root name)"
    "c = patch_vendored c0"
    "resolve_path R w name (path_str (vendor_path root name)) root (vendor_placeholder k) Internal = Ok c0"
    by (rule resolve_vendored_Some)
  have "dep_repo dep = None" using vendored(2) v(1) by (cases s) (auto dest: spec_Ok_fields)
  then show ?thesis
    using vendored(1) v(2,3) resolve_path_Ok(1) [OF v(4)] by (simp add: sound_chart_def is_vendored_def)
next
  case (fetched s)
  note vend = fetched(3) [unfolded resolve_vendored_None]
  show ?thesis
  proof (cases s)
    case (SpecPath declared)
    with fetched(4) have p: "resolve_path R w name declared root (ResolvedPath declared) UserManifest = Ok c"
      by (auto simp: resolve_source_def outcome_simps)
    from fetched(1,2) SpecPath resolve_path_Ok(1,3) [OF p] resolve_canon_confined show ?thesis
      by (auto simp: sound_chart_def dest: spec_Ok_fields)
  next
    case (SpecOci oci version)
    with fetched(4) have "resolve_oci R name dep oci opts w n = (Ok (c, w'), n')"
      by (auto simp: resolve_source_def)
    from fetched(1,2) SpecOci resolve_oci_Ok(1,2) [OF this] show ?thesis
      by (auto simp: sound_chart_def dest: spec_Ok_fields)
  next
    case (SpecGit git t r)
    with fetched(4) have "resolve_git R name dep git opts w = Some (Ok (c, w'))"
      by (auto simp: resolve_source_def)
    from fetched(1,2) SpecGit resolve_git_Ok(1,2) [OF this] show ?thesis
      by (auto simp: sound_chart_def dest: spec_Ok_fields expected_commit_prefix)
  next
    case (SpecHelm repo chart version)
    with fetched(4) have "resolve_helm R name repo chart version opts w n = (Ok (c, w'), n')"
      by (auto simp: resolve_source_def)
    from fetched(1,2) SpecHelm resolve_helm_Ok(1,2) [OF this] show ?thesis
      by (auto simp: sound_chart_def dest: spec_Ok_fields)
  qed
qed

text \<open>
  C1. A resolution that succeeds yields one chart per dependency, in the order of the names. Every
  replaced and every local one lies inside the workspace as it canonicalises at that step, no
  replacement is applied when they are rejected, and a dependency that is fetched with a digest pinned
  has exactly that digest. Excepted are vendored trees, which are taken as they are.
\<close>

theorem resolved_charts_sound:
  assumes "bt_inv (m_dependencies m)"
    and "resolve_with_options R m root opts w n = Some (Ok (charts, w'), n')"
  shows "map fst charts = map fst (m_dependencies m)
    \<and> list_all2 (\<lambda>((name, dep), w1) (_, c). sound_chart w1 root opts name dep c)
        (zip (m_dependencies m) (step_worlds R root opts (m_dependencies m) w n)) charts"
proof
  show "map fst charts = map fst (m_dependencies m)"
    by (rule resolve_with_options_steps(2) [OF assms])
  from resolve_with_options_steps(1) [OF assms]
  show "list_all2 (\<lambda>((name, dep), w1) (_, c). sound_chart w1 root opts name dep c)
        (zip (m_dependencies m) (step_worlds R root opts (m_dependencies m) w n)) charts"
    by (rule list_all2_mono) (auto simp: step_result_def dest: resolve_dep_sound)
qed


definition toy_resolver :: "(unit, unit, string, nat, nat, unit) resolver_env" where
  "toy_resolver = \<lparr>r_oci = toy_oci_env, r_helm = toy_helm_env, r_gix = toy_gix, r_git_depth = 4,
     r_show_auth = (\<lambda>_. [])\<rparr>"

definition path_dep :: "string \<Rightarrow> dependency" where
  "path_dep p = \<lparr>dep_oci = None, dep_git = None, dep_path = Some p, dep_repo = None, dep_chart = None,
     dep_version = None, dep_tag = None, dep_rev = None, dep_replace = None\<rparr>"

definition manifest_with :: "(string, dependency) btree \<Rightarrow> manifest" where
  "manifest_with deps = \<lparr>m_package = \<lparr>pkg_name = ''p'', pkg_version = ''1'', pkg_edition = ''akua.dev/v1alpha1'',
     strict_signing = False\<rparr>, m_workspace = None, m_signing = None, m_dependencies = deps\<rparr>"

definition ws_root :: path where "ws_root = [RootDir, Normal ''ws'']"

definition local_chart :: resolved_chart where
  "local_chart = \<lparr>rc_name = ''web'', abs_path = [RootDir, Normal ''ws'', Normal ''web''], rc_sha256 = ''sha256:'',
     rc_kind = HelmChart, rc_source = ResolvedPath ''web''\<rparr>"

lemma resolved_charts_sound_witness:
  "confined (text_world []) ws_root (abs_path local_chart)"
proof -
  let ?m = "manifest_with [(''web'', path_dep ''web'')]"
  have inv: "bt_inv (m_dependencies ?m)" by code_simp
  have nv: "\<not> is_dir (text_world []) (vendor_path ws_root ''web'')" by code_simp
  have step: "case resolve_with_options toy_resolver ?m ws_root offline_options (text_world []) fresh_net of
      Some (Ok (cs, w'), n') \<Rightarrow> cs = [(''web'', local_chart)] | _ \<Rightarrow> False" by code_simp
  then obtain w' n' where run: "resolve_with_options toy_resolver ?m ws_root offline_options (text_world []) fresh_net
      = Some (Ok ([(''web'', local_chart)], w'), n')"
    by (auto split: option.splits outcome.splits)
  from resolved_charts_sound [OF inv run]
  have "sound_chart (text_world []) ws_root offline_options ''web'' (path_dep ''web'') local_chart"
    by (simp add: manifest_with_def)
  with nv show ?thesis by (auto simp: sound_chart_def is_vendored_def path_dep_def)
qed

section \<open>Offline\<close>

lemma resolve_oci_offline: "offline opts \<Longrightarrow> snd (resolve_oci R name dep oci opts w n) = n"
  by (simp add: resolve_oci_def nbind_def nret_def Let_def split: outcome.split)

lemma resolve_helm_offline: "offline opts \<Longrightarrow> snd (resolve_helm R name repo chart version opts w n) = n"
  by (simp add: resolve_helm_def nbind_def nret_def Let_def split: outcome.split)

lemma resolve_git_offline: "offline opts \<Longrightarrow> resolve_git R name dep git opts w \<noteq> None"
  by (simp add: resolve_git_def Let_def split: outcome.split)

lemma resolve_source_offline:
  assumes "offline opts"
  shows "\<exists>r. resolve_source R root opts name dep s w n = Some (r, n)"
proof (cases s)
  case (SpecOci oci version)
  with resolve_oci_offline [OF assms, of R name dep oci w n] show ?thesis
    by (simp add: resolve_source_def) (metis prod.collapse)
next
  case (SpecGit git t r)
  with resolve_git_offline [OF assms, of R name dep git w] show ?thesis
    by (auto simp: resolve_source_def)
next
  case (SpecHelm repo chart version)
  with resolve_helm_offline [OF assms, of R name repo chart version w n] show ?thesis
    by (simp add: resolve_source_def) (metis prod.collapse)
qed (simp add: resolve_source_def)

lemma resolve_dep_offline:
  assumes "offline opts"
  shows "\<exists>r. resolve_dep R root opts name dep w n = Some (r, n)"
  using resolve_source_offline [OF assms]
  by (auto simp: resolve_dep_def split: option.split outcome.split)

lemma resolve_dep_offline_world:
  assumes "offline opts" "resolve_dep R root opts name dep w n = Some (Ok (c, w'), n')"
  shows "w' = w"
  using assms(2)
proof (cases rule: resolve_dep_cases)
  case (fetched s)
  from fetched(4) assms(1) show ?thesis
    by (cases s) (auto simp: resolve_source_def outcome_simps
        dest: resolve_oci_Ok(3) resolve_helm_Ok(3) resolve_git_Ok(3))
qed simp_all

lemma resolve_deps_offline:
  assumes "offline opts"
  shows "\<exists>r. resolve_deps R root opts ds acc w n = Some (r, n) \<and> (\<forall>charts w'. r = Ok (charts, w') \<longrightarrow> w' = w)"
proof (induction ds arbitrary: acc)
  case (Cons d ds)
  obtain name dep where d: "d = (name, dep)" by (cases d)
  obtain r where r: "resolve_dep R root opts name dep w n = Some (r, n)"
    using resolve_dep_offline [OF assms] by blast
  show ?case
  proof (cases r)
    case (Ok cw)
    obtain c w1 where cw: "cw = (c, w1)" by (cases cw)
    with r Ok resolve_dep_offline_world [OF assms] have "w1 = w" by blast
    with r Ok cw d Cons.IH [of "bt_insert name c acc"] show ?thesis by simp
  qed (use r d in auto)
qed simp

text \<open>
  Offline is offline: whatever the manifest says, a resolution with \<open>offline\<close> set returns (the bound
  of the git checkout plays no role), sends no request and changes no file.
\<close>

theorem offline_no_effects:
  assumes "offline opts"
  shows "\<exists>r. resolve_with_options R m root opts w n = Some (r, n)
    \<and> (\<forall>charts w'. r = Ok (charts, w') \<longrightarrow> w' = w)"
  unfolding resolve_with_options_def by (rule resolve_deps_offline [OF assms])

lemma offline_no_effects_witness:
  "\<exists>r. resolve toy_resolver (manifest_with [(''web'', path_dep ''web'')]) ws_root (text_world []) fresh_net
     = Some (r, fresh_net)"
proof -
  have "offline offline_options" by (simp add: offline_options_def)
  from offline_no_effects [OF this] show ?thesis unfolding resolve_def by blast
qed

section \<open>Vendored trees are taken as they are\<close>

lemma resolve_dep_vendored:
  assumes "dep_replace dep = None" "dep_spec dep = Ok s" "vendor_kind_of s = Some k"
    and "is_dir w (vendor_path root name)"
  shows "resolve_dep R root opts name dep w n =
    Some (obind (resolve_path R w name (path_str (vendor_path root name)) root (vendor_placeholder k) Internal)
            (\<lambda>c. Ok (patch_vendored c, w)), n)"
proof -
  let ?p = "resolve_path R w name (path_str (vendor_path root name)) root (vendor_placeholder k) Internal"
  have "resolve_vendored R w name root s = obind ?p (\<lambda>c. Ok (Some (patch_vendored c)))"
    using assms(3,4) by (simp add: resolve_vendored_def resolve_from_vendor_def)
  then show ?thesis using assms(1,2) by (cases ?p) (simp_all add: resolve_dep_def)
qed

text \<open>Printing a path and parsing it gives it back.\<close>

fun plain_component :: "component \<Rightarrow> bool" where
  "plain_component (Normal s) \<longleftrightarrow> s \<noteq> [] \<and> s \<noteq> ''.'' \<and> s \<noteq> ''..'' \<and> CHR ''/'' \<notin> set s"
| "plain_component ParentDir = True"
| "plain_component _ = False"

lemma show_plain: "plain_component c \<Longrightarrow> CHR ''/'' \<notin> set (show_component c) \<and> component_of (show_component c) = [c]"
  by (cases c) auto

lemma components_plain: "list_all plain_component cs \<Longrightarrow> concat (map component_of (map show_component cs)) = cs"
  by (induction cs) (simp_all add: show_plain del: component_of.simps)

lemma split_show_plain:
  assumes "list_all plain_component cs" "cs \<noteq> []"
  shows "split_on CHR ''/'' (join_with ''/'' (map show_component cs)) = map show_component cs"
  using assms by (intro split_on_join_with) (auto simp: list_all_iff dest: show_plain)

lemma path_of_path_str_absolute:
  assumes "list_all plain_component cs"
  shows "path_of (path_str (RootDir # cs)) = RootDir # cs"
proof (cases cs)
  case Nil
  show ?thesis by (simp add: Nil path_str_def) code_simp
next
  case (Cons c cs')
  have str: "path_str (RootDir # cs) = CHR ''/'' # join_with ''/'' (map show_component cs)"
    by (simp add: path_str_def Cons)
  have "split_on CHR ''/'' (CHR ''/'' # join_with ''/'' (map show_component cs)) = [] # map show_component cs"
    using split_show_plain [OF assms] Cons by simp
  then show ?thesis
    unfolding str path_of_def using components_plain [OF assms] by simp
qed

lemma path_of_path_str_relative:
  assumes "list_all plain_component cs" "cs \<noteq> []"
  shows "path_of (path_str cs) = cs"
proof -
  obtain c cs' where cs: "cs = c # cs'" using assms(2) by (cases cs) auto
  have plain: "plain_component c" using assms(1) cs by simp
  have str: "path_str cs = join_with ''/'' (map show_component cs)"
    using plain cs by (cases cs') (auto simp: path_str_def split: component.splits)
  note split = split_show_plain [OF assms]
  have hd: "hd (map show_component cs) = show_component c" by (simp add: cs)
  have ne: "show_component c \<noteq> []" "show_component c \<noteq> ''.''" using plain by (cases c; simp)+
  have np: "\<not> prefix ''/'' (path_str cs)"
  proof
    assume "prefix ''/'' (path_str cs)"
    then obtain t where "path_str cs = CHR ''/'' # t" by (auto simp: prefix_def)
    moreover have "map show_component cs = split_on CHR ''/'' (path_str cs)" unfolding str split ..
    ultimately have "map show_component cs = [] # split_on CHR ''/'' t" by simp
    with cs ne show False by simp
  qed
  have tl: "concat (map component_of (tl (map show_component cs))) = cs'"
    using components_plain [of cs'] assms(1) cs by simp
  show ?thesis
    using np ne show_plain [OF plain] tl unfolding path_of_def str split hd by (simp add: cs)
qed


text \<open>
  The name of a vendored dependency is not checked. With an absolute name the chart is the directory
  of that name, outside the workspace or not, and whatever digest the lock pins for it is not looked at.
\<close>

theorem vendored_name_escapes:
  assumes "dep_replace dep = None" "dep_spec dep = Ok s" "vendor_kind_of s = Some k"
    and "path_of (CHR ''/'' # t) = RootDir # cs" "list_all plain_component cs"
    and "is_dir w (RootDir # cs)" "canonicalize w (RootDir # cs) = Ok p"
    and "resolve_dep R root opts (CHR ''/'' # t) dep w n = Some (Ok (c, w'), n')"
  shows "abs_path c = p \<and> (\<forall>digests.
    resolve_dep R root (opts\<lparr>Resolver.expected_digests := digests\<rparr>) (CHR ''/'' # t) dep w n = Some (Ok (c, w'), n'))"
proof -
  have v: "vendor_path root (CHR ''/'' # t) = RootDir # cs"
    using assms(4) by (simp add: vendor_path_def path_join_def is_absolute_def)
  have dir: "is_dir w (vendor_path root (CHR ''/'' # t))" using assms(6) v by simp
  note run = resolve_dep_vendored [OF assms(1-3) dir]
  note vendored = run [unfolded v path_of_path_str_absolute [OF assms(5)]]
  obtain c0 where c0: "c = patch_vendored c0"
    "resolve_path R w (CHR ''/'' # t) (path_str (RootDir # cs)) root (vendor_placeholder k) Internal = Ok c0"
    using assms(8) by (auto simp: vendored outcome_simps)
  from resolve_path_Ok(3) [OF c0(2)] have "abs_path c0 = p"
    using assms(7) path_of_path_str_absolute [OF assms(5)]
    by (simp add: resolve_canon_def is_absolute_def)
  then have "abs_path c = p" by (simp add: c0(1))
  moreover have "resolve_dep R root (opts\<lparr>Resolver.expected_digests := digests\<rparr>) (CHR ''/'' # t) dep w n
      = Some (Ok (c, w'), n')" for digests
    using assms(8) unfolding run .
  ultimately show ?thesis by blast
qed

definition etc_chart :: resolved_chart where
  "etc_chart = \<lparr>rc_name = ''/etc'', abs_path = [RootDir, Normal ''etc''], rc_sha256 = ''sha256:'',
     rc_kind = HelmChart, rc_source = ResolvedPath ''web''\<rparr>"

definition dir_world :: world where
  "dir_world = (text_world [])\<lparr>is_dir := (\<lambda>_. True)\<rparr>"

lemma vendored_name_escapes_witness:
  "abs_path etc_chart = [RootDir, Normal ''etc'']
   \<and> is_Ok (validate_manifest (manifest_with [(''/etc'', path_dep ''web'')]))"
proof -
  have s: "dep_replace (path_dep ''web'') = None" "dep_spec (path_dep ''web'') = Ok (SpecPath ''web'')"
    "vendor_kind_of (SpecPath ''web'') = Some (VendorPath ''web'')" by code_simp+
  have p: "path_of (CHR ''/'' # ''etc'') = RootDir # [Normal ''etc'']" by code_simp
  have plain: "list_all plain_component [Normal ''etc'']" by code_simp
  have w: "is_dir dir_world (RootDir # [Normal ''etc''])"
    "canonicalize dir_world (RootDir # [Normal ''etc'']) = Ok [RootDir, Normal ''etc'']"
    by (simp_all add: dir_world_def text_world_def)
  have step: "case resolve_dep toy_resolver ws_root offline_options (CHR ''/'' # ''etc'') (path_dep ''web'') dir_world fresh_net of
      Some (Ok (c, w'), n') \<Rightarrow> c = etc_chart | _ \<Rightarrow> False" by code_simp
  then obtain w' n' where run: "resolve_dep toy_resolver ws_root offline_options (CHR ''/'' # ''etc'') (path_dep ''web'')
      dir_world fresh_net = Some (Ok (etc_chart, w'), n')"
    by (auto split: option.splits outcome.splits)
  have "is_Ok (validate_manifest (manifest_with [(''/etc'', path_dep ''web'')]))" by code_simp
  with vendored_name_escapes [OF s p plain w run] show ?thesis by blast
qed

lemma path_join_plain:
  "list_all plain_component b \<Longrightarrow> a \<noteq> [] \<Longrightarrow> path_join a b = a @ b"
  by (cases b) (auto simp: path_join_def is_absolute_def list_all_iff intro!: filter_True split: component.splits)

text \<open>
  A workspace given by a relative path (\<open>akua render --package app/package.k\<close>) breaks vendored
  dependencies: the vendor directory is found, but its path, relative to the working directory, is joined
  to the workspace a second time, and what is resolved is \<open>app/app/.akua/vendor/<name>\<close>.
\<close>

theorem vendored_relative_workspace:
  assumes "dep_replace dep = None" "dep_spec dep = Ok s" "vendor_kind_of s = Some k"
    and "list_all plain_component root" "root \<noteq> []" "plain_component (Normal name)"
    and "vendored = root @ [Normal ''.akua'', Normal ''vendor'', Normal name]"
    and "is_dir w vendored" "canonicalize w (root @ vendored) = Err e" "io_kind e = NotFound"
  shows "resolve_dep R root opts name dep w n = Some (Err (ChartPathMissing name (root @ vendored)), n)"
proof -
  have "path_of VENDOR_DIR = [Normal ''.akua'', Normal ''vendor'']" by code_simp
  moreover have "path_of name = [Normal name]" using assms(6) by (intro path_of_name) simp_all
  ultimately have v: "vendor_path root name = vendored"
    using assms(5,6,7) by (simp add: vendor_path_def path_join_plain)
  have plain: "list_all plain_component vendored" "vendored \<noteq> []" using assms(4,6,7) by simp_all
  have rel: "path_of (path_str vendored) = vendored" by (rule path_of_path_str_relative [OF plain])
  have "\<not> is_absolute vendored" using plain by (cases vendored) (auto simp: is_absolute_def split: component.splits)
  moreover have "path_join root vendored = root @ vendored" by (rule path_join_plain [OF plain(1) assms(5)])
  ultimately have "resolve_canon w name (path_str vendored) root Internal = Err (ChartPathMissing name (root @ vendored))"
    using assms(9,10) by (simp add: resolve_canon_def rel)
  then show ?thesis
    using resolve_dep_vendored [OF assms(1-3), of w root name R opts n] assms(8) v
    by (simp add: resolve_path_def)
qed


definition twice_vendored :: path where
  "twice_vendored = [Normal ''app'', Normal ''.akua'', Normal ''vendor'', Normal ''web'']"

definition app_world :: world where
  "app_world = (text_world [])\<lparr>is_dir := (\<lambda>p. p = twice_vendored),
     canonicalize := (\<lambda>p. if p = twice_vendored then Ok (RootDir # p) else Err not_found)\<rparr>"

lemma vendored_relative_workspace_witness:
  "\<exists>p. resolve_dep toy_resolver [Normal ''app''] offline_options ''web'' (path_dep ''web'') app_world fresh_net
     = Some (Err (ChartPathMissing ''web'' p), fresh_net)"
proof -
  have s: "dep_replace (path_dep ''web'') = None" "dep_spec (path_dep ''web'') = Ok (SpecPath ''web'')"
    "vendor_kind_of (SpecPath ''web'') = Some (VendorPath ''web'')" by code_simp+
  have root: "list_all plain_component [Normal ''app'']" "[Normal ''app''] \<noteq> []"
    "plain_component (Normal ''web'')" by code_simp+
  have v: "twice_vendored = [Normal ''app''] @ [Normal ''.akua'', Normal ''vendor'', Normal ''web'']"
    by (simp add: twice_vendored_def)
  have w: "is_dir app_world twice_vendored" "canonicalize app_world ([Normal ''app''] @ twice_vendored) = Err not_found"
    "io_kind not_found = NotFound"
    by (simp_all add: app_world_def not_found_def twice_vendored_def)
  from vendored_relative_workspace [OF s root v w] show ?thesis by blast
qed

section \<open>Where resolution panics\<close>

definition quiet_world :: "world \<Rightarrow> bool" where
  "quiet_world w \<longleftrightarrow> (\<forall>p. canonicalize w p \<noteq> Panic \<and> metadata_is_dir w p \<noteq> Panic \<and> tree_at w p \<noteq> Panic)"

lemma concat_ok_no_panic: "(\<And>x. x \<in> set xs \<Longrightarrow> x \<noteq> Panic) \<Longrightarrow> concat_ok xs \<noteq> Panic"
  by (induction xs) (auto simp: outcome_simps)

lemma walk_tree_no_panic: "walk_tree skip keep tolerate pre n \<noteq> Panic"
proof (induction skip keep tolerate pre n rule: walk_tree.induct)
  case (1 skip keep tolerate pre es)
  show ?case unfolding walk_tree.simps
    by (rule concat_ok_no_panic) (use "1.IH" in \<open>auto split: if_splits\<close>)
qed simp_all

lemma hash_dir_no_panic: "hash_dir sha256 n \<noteq> Panic"
proof -
  have "read_file f \<noteq> Panic" for f by (cases f) auto
  then have "hash_update s x \<noteq> Panic" for s x
    by (auto simp: hash_update_def outcome_simps split: prod.splits)
  then have "fold_outcome hash_update s xs \<noteq> Panic" for s xs by (rule fold_outcome_no_panic)
  then show ?thesis
    by (auto simp: hash_dir_def hash_collect_files_def outcome_simps walk_tree_no_panic)
qed

lemma resolve_path_no_panic:
  assumes "quiet_world w"
  shows "resolve_path R w name requested root src origin \<noteq> Panic"
proof -
  have q: "canonicalize w p \<noteq> Panic" "metadata_is_dir w p \<noteq> Panic" "tree_at w p \<noteq> Panic" for p
    using assms by (simp_all add: quiet_world_def)
  have "validate_workspace_path w ws root requested \<noteq> Panic" for ws
    using q by (auto simp: validate_workspace_path_def Let_def split: outcome.split)
  then have "resolve_canon w name requested root origin \<noteq> Panic"
    using q by (auto simp: resolve_canon_def Let_def outcome_simps split: path_origin.split outcome.split)
  then show ?thesis
    using q hash_dir_no_panic by (auto simp: resolve_path_def outcome_simps split: if_splits)
qed

lemma resolve_vendored_no_panic: "quiet_world w \<Longrightarrow> resolve_vendored R w name root s \<noteq> Panic"
  by (auto simp: resolve_vendored_def resolve_from_vendor_def Let_def outcome_simps resolve_path_no_panic
      split: option.splits)

lemma unsupported_no_panic [simp]: "unsupported name k reason x \<noteq> Panic"
  by (simp add: unsupported_def outcome_simps)

lemma resolve_source_no_panic:
  assumes "dep_well_formed dep" "dep_spec dep = Ok s" "offline opts" "quiet_world w"
  shows "resolve_source R root opts name dep s w n \<noteq> Some (Panic, n')"
proof (cases s)
  case (SpecPath declared)
  then show ?thesis
    by (auto simp: resolve_source_def outcome_simps resolve_path_no_panic [OF assms(4)])
next
  case (SpecOci oci version)
  with assms(2) have "dep_version dep = Some version" by (auto dest: spec_Ok_fields)
  with SpecOci assms(3) show ?thesis
    by (auto simp: resolve_source_def resolve_oci_def nbind_def nret_def Let_def outcome_simps
        split: outcome.splits)
next
  case (SpecGit git t r)
  have "dep_tag dep \<noteq> None \<or> dep_rev dep \<noteq> None"
    using assms(1) assms(2) SpecGit by (auto simp: dep_well_formed_def dest: spec_Ok_fields)
  then obtain spec where "(dep_ref_spec dep :: (chart_error, ref_spec) outcome) = Ok spec"
    by (cases "dep_tag dep"; cases "dep_rev dep") (auto simp: dep_ref_spec_def)
  with SpecGit assms(3) show ?thesis
    by (auto simp: resolve_source_def resolve_git_def Let_def outcome_simps)
next
  case (SpecHelm repo chart version)
  with assms(3) show ?thesis
    by (auto simp: resolve_source_def resolve_helm_def nbind_def nret_def Let_def outcome_simps
        split: outcome.splits)
qed

text \<open>
  Manifest validation lets one shape through that resolution cannot handle: a local dependency with a
  \<open>replace\<close> table. Offline, a validated dependency makes \<open>resolve_dep\<close> panic exactly when it has
  both and replacements are allowed; everything else ends in a chart or an error.
\<close>

theorem replace_on_path_panics:
  assumes "validate_dep name dep = Ok ()" "offline opts" "quiet_world w"
  shows "resolve_dep R root opts name dep w n = Some (Panic, n) \<longleftrightarrow>
    dep_path dep \<noteq> None \<and> dep_replace dep \<noteq> None \<and> \<not> reject_replace opts"
proof -
  have wf: "dep_well_formed dep" using assms(1) by (simp add: validate_dep_Ok_iff)
  then obtain s where s: "dep_spec dep = Ok s"
    by (cases rule: spec_well_formed [where 'a = chart_error]) auto
  show ?thesis
  proof (cases "dep_replace dep")
    case None
    have "resolve_source R root opts name dep s w n \<noteq> Some (Panic, n)"
      by (rule resolve_source_no_panic [OF wf s assms(2,3)])
    then show ?thesis
      using None s
      by (auto simp: resolve_dep_def outcome_simps resolve_vendored_no_panic [OF assms(3)]
          split: outcome.splits option.splits)
  next
    case (Some r)
    then show ?thesis
      using s by (cases s)
        (auto simp: resolve_dep_def resolved_source_for_replace_def outcome_simps
          resolve_path_no_panic [OF assms(3)] dest: spec_Ok_fields)
  qed
qed

definition forked_path_dep :: dependency where
  "forked_path_dep = (path_dep ''web'')\<lparr>dep_replace := Some \<lparr>replace_path = ''../fork''\<rparr>\<rparr>"

lemma replace_on_path_panics_witness:
  "resolve_dep toy_resolver ws_root offline_options ''web'' forked_path_dep (text_world []) fresh_net
     = Some (Panic, fresh_net)"
proof -
  have v: "validate_dep ''web'' forked_path_dep = Ok ()" by code_simp
  have o: "offline offline_options" "\<not> reject_replace offline_options" by (simp_all add: offline_options_def)
  have q: "quiet_world (text_world [])" by (simp add: quiet_world_def text_world_def)
  have "dep_path forked_path_dep \<noteq> None" "dep_replace forked_path_dep \<noteq> None"
    by (simp_all add: forked_path_dep_def path_dep_def)
  with replace_on_path_panics [OF v o(1) q, of toy_resolver ws_root fresh_net] o(2) show ?thesis by simp
qed

end
