(* ===== verification/Decorators.thy ===== *)
theory Decorators
  imports Lines
begin

text \<open>
  \<open>strip_akua_decorators\<close> and \<open>paren_balance\<close> of \<open>package_k.rs\<close>: what happens to the source of a
  \<open>package.k\<close> before KCL sees it. The nesting depth is an unbounded integer; the code's \<open>i32\<close> would need
  a decorator of two thousand million parentheses to differ.
\<close>

section \<open>Parenthesis balance of a line\<close>

datatype scan_state = Code | Str1 | Str2 | Str1x3 | Str2x3

definition dq3 :: string where "dq3 = [CHR 0x22, CHR 0x22, CHR 0x22]"
definition sq3 :: string where "sq3 = [CHR 0x27, CHR 0x27, CHR 0x27]"

function balance :: "scan_state \<Rightarrow> string \<Rightarrow> int" where
  "balance st [] = 0"
| "balance Code (b # bs) =
     (if prefix dq3 (b # bs) then balance Str2x3 (drop 2 bs)
      else if prefix sq3 (b # bs) then balance Str1x3 (drop 2 bs)
      else if b = CHR 0x22 then balance Str2 bs
      else if b = CHR 0x27 then balance Str1 bs
      else if b = CHR ''('' then 1 + balance Code bs
      else if b = CHR '')'' then balance Code bs - 1
      else if b = CHR ''#'' then 0
      else balance Code bs)"
| "balance Str1 (b # bs) =
     (if b = CHR 0x5C then balance Str1 (drop 1 bs)
      else if b = CHR 0x27 then balance Code bs
      else balance Str1 bs)"
| "balance Str2 (b # bs) =
     (if b = CHR 0x5C then balance Str2 (drop 1 bs)
      else if b = CHR 0x22 then balance Code bs
      else balance Str2 bs)"
| "balance Str1x3 (b # bs) =
     (if prefix sq3 (b # bs) then balance Code (drop 2 bs) else balance Str1x3 bs)"
| "balance Str2x3 (b # bs) =
     (if prefix dq3 (b # bs) then balance Code (drop 2 bs) else balance Str2x3 bs)"
  by pat_completeness auto
termination by (relation "measure (\<lambda>(_, s). length s)") auto

definition paren_balance :: "string \<Rightarrow> int" where
  "paren_balance line = balance Code line"

section \<open>Stripping\<close>

definition ui_prefix :: string where "ui_prefix = ''@ui(''"

definition starts_ui :: "string \<Rightarrow> bool" where
  "starts_ui line \<longleftrightarrow> prefix ui_prefix (trim_start line)"

text \<open>
  The inner loop: the number of lines a decorator takes beyond \<open>current\<close>, given the lines that
  follow. Every line it takes becomes an empty one.
\<close>

fun decorator_extent :: "int \<Rightarrow> string \<Rightarrow> string list \<Rightarrow> nat" where
  "decorator_extent depth current ls =
     (let depth = depth + paren_balance current
      in if depth \<le> 0 then 0
         else case ls of [] \<Rightarrow> 0 | next_line # ms \<Rightarrow> Suc (decorator_extent depth next_line ms))"

declare decorator_extent.simps [simp del]

lemma decorator_extent_le: "decorator_extent d c ls \<le> length ls"
  by (induction d c ls rule: decorator_extent.induct)
    (subst decorator_extent.simps, auto simp: Let_def split: list.splits)

function strip_lines :: "string list \<Rightarrow> string list" where
  "strip_lines [] = []"
| "strip_lines (line # ls) =
     (if \<not> starts_ui line then line # strip_lines ls
      else let k = decorator_extent 0 line ls
           in [] # replicate k [] @ strip_lines (drop k ls))"
  by pat_completeness auto
termination by (relation "measure length") auto

definition strip_akua_decorators :: "string \<Rightarrow> string" where
  "strip_akua_decorators src =
     (if \<not> sublist ui_prefix src then src else unlines (strip_lines (str_lines src)))"

section \<open>What is stripped\<close>

text \<open>
  A decorator is its first line with the lines up to the one that closes its parentheses; one that is
  never closed extends to the end. \<open>stripped ls out\<close>: \<open>out\<close> is \<open>ls\<close> with every line of a decorator empty.
\<close>

definition line_depth :: "string list \<Rightarrow> int" where
  "line_depth ls = sum_list (map paren_balance ls)"

definition stays_open :: "string list \<Rightarrow> nat \<Rightarrow> bool" where
  "stays_open ls n \<longleftrightarrow> (\<forall>k < n. 0 < line_depth (take (Suc k) ls))"

inductive stripped :: "string list \<Rightarrow> string list \<Rightarrow> bool" where
  end_of_file: "stripped [] []"
| keep: "\<not> starts_ui l \<Longrightarrow> stripped ls out \<Longrightarrow> stripped (l # ls) (l # out)"
| closed: "starts_ui (hd dec) \<Longrightarrow> dec \<noteq> [] \<Longrightarrow> line_depth dec \<le> 0 \<Longrightarrow> stays_open dec (length dec - 1)
     \<Longrightarrow> stripped ls out \<Longrightarrow> stripped (dec @ ls) (replicate (length dec) [] @ out)"
| unclosed: "starts_ui (hd dec) \<Longrightarrow> dec \<noteq> [] \<Longrightarrow> stays_open dec (length dec)
     \<Longrightarrow> stripped dec (replicate (length dec) [])"

lemma line_depth_simps [simp]:
  "line_depth [] = 0"
  "line_depth (l # ls) = paren_balance l + line_depth ls"
  by (simp_all add: line_depth_def)

lemma decorator_extent_spec:
  assumes "decorator_extent d c ls = k"
  shows "(\<forall>j < k. 0 < d + line_depth (take (Suc j) (c # ls)))
    \<and> (d + line_depth (take (Suc k) (c # ls)) \<le> 0 \<or> k = length ls \<and> 0 < d + line_depth (c # ls))"
  using assms
proof (induction d c ls arbitrary: k rule: decorator_extent.induct)
  case (1 d c ls)
  show ?case
  proof (cases "d + paren_balance c \<le> 0")
    case True
    then show ?thesis using 1(2) by (simp add: decorator_extent.simps [of d c ls] Let_def)
  next
    case False
    show ?thesis
    proof (cases ls)
      case Nil
      then show ?thesis using 1(2) False by (simp add: decorator_extent.simps [of d c "[]"] Let_def)
    next
      case (Cons n ms)
      with 1(2) False obtain m where k: "k = Suc m" "decorator_extent (d + paren_balance c) n ms = m"
        by (auto simp: decorator_extent.simps [of d c "n # ms"] Let_def)
      note IH = 1(1) [OF refl False Cons k(2)]
      have "0 < d + line_depth (take (Suc j) (c # ls))" if "j < k" for j
        using IH that False k(1) Cons by (cases j) (auto simp: add.assoc)
      moreover have "d + line_depth (take (Suc k) (c # ls)) \<le> 0 \<or> k = length ls \<and> 0 < d + line_depth (c # ls)"
        using IH k(1) Cons by (simp add: add.assoc)
      ultimately show ?thesis by blast
    qed
  qed
qed

lemma strip_lines_stripped: "stripped ls (strip_lines ls)"
proof (induction ls rule: strip_lines.induct)
  case 1
  show ?case by (simp add: stripped.end_of_file)
next
  case (2 l ls)
  show ?case
  proof (cases "starts_ui l")
    case False
    with 2(1) show ?thesis by (simp add: stripped.keep)
  next
    case True
    let ?k = "decorator_extent 0 l ls"
    let ?dec = "l # take ?k ls"
    have len: "length ?dec = Suc ?k" using decorator_extent_le [of 0 l ls] by simp
    have split: "l # ls = ?dec @ drop ?k ls" by simp
    have out: "strip_lines (l # ls) = replicate (length ?dec) [] @ strip_lines (drop ?k ls)"
      unfolding len using True by (simp add: Let_def)
    note spec = decorator_extent_spec [OF refl, of 0 l ls]
    have "stays_open ?dec (length ?dec - 1)"
      using spec len unfolding stays_open_def by (auto simp: min_def)
    have IH: "stripped (drop ?k ls) (strip_lines (drop ?k ls))"
      using 2(2) True by simp
    from spec consider "line_depth ?dec \<le> 0" | "?k = length ls" "0 < line_depth (l # ls)" by auto
    then show ?thesis
    proof cases
      case 1
      have "stripped (?dec @ drop ?k ls) (replicate (length ?dec) [] @ strip_lines (drop ?k ls))"
        by (rule stripped.closed) (use 1 True \<open>stays_open _ _\<close> IH in simp_all)
      with split out show ?thesis by simp
    next
      case 2
      have "stays_open (l # ls) (length (l # ls))"
        using spec 2 unfolding stays_open_def by (auto simp: less_Suc_eq)
      with True have "stripped (l # ls) (replicate (length (l # ls)) [])"
        by (intro stripped.unclosed) simp_all
      with 2 out show ?thesis by simp
    qed
  qed
qed

lemma decorator_extent_unique:
  assumes opened: "stays_open (c # ls) k" and k: "k \<le> length ls"
    and stop: "line_depth (take (Suc k) (c # ls)) \<le> 0 \<or> k = length ls"
  shows "decorator_extent 0 c ls = k"
proof -
  note spec = decorator_extent_spec [OF refl, of 0 c ls]
  let ?k = "decorator_extent 0 c ls"
  have le: "?k \<le> length ls" by (rule decorator_extent_le)
  consider "?k < k" | "k < ?k" | "?k = k" by linarith
  then show ?thesis
  proof cases
    case 1
    with opened have "0 < line_depth (take (Suc ?k) (c # ls))" by (simp add: stays_open_def)
    with spec 1 k show ?thesis by auto
  next
    case 2
    with spec have "0 < line_depth (take (Suc k) (c # ls))" by auto
    with stop 2 le show ?thesis by auto
  qed
qed

lemma stripped_strip_lines: "stripped ls out \<Longrightarrow> out = strip_lines ls"
proof (induction rule: stripped.induct)
  case (closed dec ls out)
  then obtain d ds where dec: "dec = d # ds" by (cases dec) auto
  have "stays_open (d # ds @ ls) (length ds)"
    using closed(4) dec unfolding stays_open_def by auto
  then have "decorator_extent 0 d (ds @ ls) = length ds"
    using closed(3) dec by (intro decorator_extent_unique) auto
  with closed dec show ?case by simp
next
  case (unclosed dec)
  then obtain d ds where dec: "dec = d # ds" by (cases dec) auto
  have "stays_open (d # ds) (length ds)"
    using unclosed(3) dec unfolding stays_open_def by auto
  then have "decorator_extent 0 d ds = length ds" by (intro decorator_extent_unique) auto
  with unclosed dec show ?case by simp
qed simp_all

lemma strip_lines_length [simp]: "length (strip_lines ls) = length ls"
proof (induction ls rule: strip_lines.induct)
  case (2 l ls)
  then show ?case using decorator_extent_le [of 0 l ls] by (auto simp: Let_def)
qed simp

lemma not_starts_ui_Nil [simp]: "\<not> starts_ui []"
  by (subst starts_ui_def, subst trim_start_def, subst strip_leading.simps)
    (auto simp: ui_prefix_def find_Some_iff split: option.splits)

lemma strip_lines_no_ui: "l \<in> set (strip_lines ls) \<Longrightarrow> \<not> starts_ui l"
  by (induction ls rule: strip_lines.induct) (auto simp: Let_def split: if_splits)

lemma strip_lines_subset: "l \<in> set (strip_lines ls) \<Longrightarrow> l = [] \<or> l \<in> set ls"
  by (induction ls rule: strip_lines.induct) (auto simp: Let_def dest: in_set_dropD split: if_splits)

lemma strip_lines_id: "list_all (\<lambda>l. \<not> starts_ui l) ls \<Longrightarrow> strip_lines ls = ls"
  by (induction ls) simp_all

lemma starts_ui_iff:
  "starts_ui l \<longleftrightarrow> (\<exists>us t. set us \<subseteq> set unicode_ws \<and> l = concat us @ ui_prefix @ t)"
  using trim_start_iff [of "CHR ''@''" "''ui(''" l] by (simp add: starts_ui_def ui_prefix_def plain_char_def)

lemma starts_ui_drop_cr: "starts_ui (drop_cr l) \<Longrightarrow> starts_ui l"
proof -
  assume "starts_ui (drop_cr l)"
  moreover have "prefix (drop_cr l) l" by (simp add: drop_cr_def prefixeq_butlast)
  then obtain r where "l = drop_cr l @ r" by (auto simp: prefix_def)
  ultimately show ?thesis unfolding starts_ui_iff by (metis append.assoc)
qed

lemma starts_ui_sublist: "starts_ui l \<Longrightarrow> sublist ui_prefix l"
  by (auto simp: starts_ui_iff sublist_def)

text \<open>
  Stripping keeps the line numbers of what follows, leaves no decorator for KCL to see, and empties the
  lines of decorators and nothing else; \<open>stripped\<close> has one solution. A source without the   passes as it is, with its own line ends.
\<close>

text \<open>
  @ui(\<close>

theorem strip_decorators_correct:
  "\<exists>out. (\<forall>ls. stripped (str_lines src) ls \<longleftrightarrow> ls = out)
     \<and> (strip_akua_decorators src = unlines out
        \<or> strip_akua_decorators src = src \<and> out = str_lines src)
     \<and> length (str_lines (strip_akua_decorators src)) = length (str_lines src)
     \<and> list_all (\<lambda>l. \<not> starts_ui l) (str_lines (strip_akua_decorators src))"
proof (intro exI conjI allI iffI)
  let ?out = "strip_lines (str_lines src)"
  show "ls = ?out" if "stripped (str_lines src) ls" for ls using that by (rule stripped_strip_lines)
  show "stripped (str_lines src) ls" if "ls = ?out" for ls using that by (simp add: strip_lines_stripped)
  have clean: "list_all (\<lambda>l. \<not> starts_ui l) (str_lines src)" if "\<not> sublist ui_prefix src"
    unfolding list_all_iff
    using that starts_ui_sublist sublist_order.order_trans [OF _ sublist_str_lines] by blast
  then show "strip_akua_decorators src = unlines ?out \<or> strip_akua_decorators src = src \<and> ?out = str_lines src"
    using strip_lines_id by (auto simp: strip_akua_decorators_def)
  have nl: "\<forall>l \<in> set ?out. CHR 0x0A \<notin> set l"
    using strip_lines_subset str_lines_no_newline by fastforce
  have read: "str_lines (unlines ?out) = map drop_cr ?out" by (rule str_lines_unlines [OF nl])
  then show "length (str_lines (strip_akua_decorators src)) = length (str_lines src)"
    by (simp add: strip_akua_decorators_def)
  show "list_all (\<lambda>l. \<not> starts_ui l) (str_lines (strip_akua_decorators src))"
  proof (cases "sublist ui_prefix src")
    case True
    then show ?thesis
      using read strip_lines_no_ui starts_ui_drop_cr by (auto simp: strip_akua_decorators_def list_all_iff)
  next
    case False
    with clean show ?thesis by (simp add: strip_akua_decorators_def)
  qed
qed

text \<open>A line of a triple-quoted string that looks like a decorator is emptied too: the value changes.\<close>

lemma strip_empties_string_line:
  "strip_lines [''doc = '' @ dq3, ''@ui(hidden)'', dq3] = [''doc = '' @ dq3, [], dq3]"
proof -
  have "starts_ui ''@ui(hidden)''" "\<not> starts_ui (''doc = '' @ dq3)" "\<not> starts_ui dq3"
    by (simp_all add: starts_ui_def ui_prefix_def trim_start_def dq3_def strip_leading_id unicode_ws_def)
  moreover have "decorator_extent 0 ''@ui(hidden)'' [dq3] = 0"
    by (subst decorator_extent.simps) (simp add: paren_balance_def dq3_def sq3_def)
  ultimately show ?thesis by simp
qed

end
