(* ===== verification/PkgStub.thy ===== *)
theory PkgStub
  imports Decorators
begin

text \<open>
  \<open>pkg_stub.rs\<close>: the import-only stub of an Akua package. The source is read line by line; imports and
  schema blocks survive, everything that would run at import time is dropped.
\<close>

section \<open>References to a module\<close>

definition is_identifier_char :: "char option \<Rightarrow> bool" where
  "is_identifier_char c \<longleftrightarrow> (case c of None \<Rightarrow> False | Some c \<Rightarrow> is_ascii_alphanumeric c \<or> c = CHR ''_'')"

text \<open>The offset of the first occurrence of a text, as \<open>str::find\<close>.\<close>

definition find_text :: "string \<Rightarrow> string \<Rightarrow> nat option" where
  "find_text p s = (case split_once p s of None \<Rightarrow> None | Some (a, _) \<Rightarrow> Some (length a))"

text \<open>The end of a quoted literal: the offset behind its closing quote, given what follows the opening one.\<close>

fun closing_quote :: "char \<Rightarrow> bool \<Rightarrow> string \<Rightarrow> nat option" where
  "closing_quote q escaped [] = None"
| "closing_quote q escaped (c # cs) =
     (if \<not> escaped \<and> c \<noteq> CHR 0x5C \<and> c = q then Some 1
      else map_option Suc (closing_quote q (\<not> escaped \<and> c = CHR 0x5C) cs))"

definition skip_string_literal :: "string \<Rightarrow> nat \<Rightarrow> char \<Rightarrow> nat" where
  "skip_string_literal src start q =
     (let rest = drop start src
      in if prefix [q, q, q] rest
         then case find_text [q, q, q] (drop 3 rest) of
                Some k \<Rightarrow> start + 3 + k + 3 | None \<Rightarrow> length src
         else case closing_quote q False (drop 1 rest) of
                Some k \<Rightarrow> start + 1 + k | None \<Rightarrow> length src)"

definition char_at :: "string \<Rightarrow> nat \<Rightarrow> char option" where
  "char_at s i = (if i < length s then Some (s ! i) else None)"

lemma skip_string_literal_greater: "i < length src \<Longrightarrow> i < skip_string_literal src i q"
  by (auto simp: skip_string_literal_def Let_def split: option.splits)

lemma comment_skip_positive:
  assumes "i < length src" and "prefix ''#'' (drop i src)"
  shows "0 < (case find_text [CHR 0x0A] (drop i src) of Some k \<Rightarrow> k | None \<Rightarrow> length (drop i src))"
proof -
  from assms obtain t where t: "drop i src = CHR ''#'' # t" by (auto simp: prefix_def)
  show ?thesis unfolding t by (auto simp: find_text_def split: option.splits)
qed

function contains_from :: "string \<Rightarrow> string \<Rightarrow> nat \<Rightarrow> bool" where
  "contains_from src ident i =
     (if length src \<le> i then False
      else let rest = drop i src
           in if prefix ''#'' rest
              then contains_from src ident
                     (i + (case find_text [CHR 0x0A] rest of Some k \<Rightarrow> k | None \<Rightarrow> length rest))
              else if hd rest = CHR 0x22 \<or> hd rest = CHR 0x27
              then contains_from src ident (skip_string_literal src i (hd rest))
              else if prefix ident rest
                   \<and> \<not> is_identifier_char (if i = 0 then None else char_at src (i - 1))
                   \<and> char_at src (i + length ident) = Some CHR ''.''
              then True
              else contains_from src ident (i + 1))"
  by pat_completeness auto

termination
proof (relation "measure (\<lambda>(src, _, i). length src - i)", goal_cases)
  case (2 src ident i rest)
  then show ?case using comment_skip_positive [of i src] by (auto split: option.splits)
next
  case (3 src ident i rest)
  then show ?case using skip_string_literal_greater [of i src "hd rest"] by simp
qed auto

declare contains_from.simps [simp del]

definition contains_module_reference :: "string \<Rightarrow> string \<Rightarrow> bool" where
  "contains_module_reference src ident = contains_from src ident 0"

section \<open>Imports\<close>

text \<open>\<open>rsplit_once\<close> at a text; the first token of \<open>split_whitespace\<close>.\<close>

definition rsplit_text :: "string \<Rightarrow> string \<Rightarrow> (string \<times> string) option" where
  "rsplit_text p s = map_option (\<lambda>(a, b). (rev b, rev a)) (split_once (rev p) (rev s))"

function word_prefix :: "string \<Rightarrow> string" where
  "word_prefix s =
     (case s of [] \<Rightarrow> []
      | c # t \<Rightarrow> if list_ex (\<lambda>w. prefix w s) unicode_ws then [] else c # word_prefix t)"
  by pat_completeness auto
termination by (relation "measure length") auto

declare word_prefix.simps [simp del]

definition first_word :: "string \<Rightarrow> string option" where
  "first_word s = (let t = trim_start s in if t = [] then None else Some (word_prefix t))"

definition strip_pre :: "string \<Rightarrow> string \<Rightarrow> string option" where
  "strip_pre p s = (if prefix p s then Some (drop (length p) s) else None)"

definition imported_name :: "string \<Rightarrow> string option" where
  "imported_name line =
     Option.bind (strip_pre ''import '' (trim (hd (split_on CHR ''#'' line)))) (\<lambda>t.
       let target = trim t
       in case rsplit_text '' as '' target of
            Some (_, alias_text) \<Rightarrow> first_word alias_text
          | None \<Rightarrow> map_option (\<lambda>m. last (split_on CHR ''.'' m)) (first_word target))"

section \<open>Extraction\<close>

record stub_state =
  st_imports :: "(string \<times> string) list"
  st_schemas :: string
  st_in_schema :: bool

definition is_indented :: "string \<Rightarrow> bool" where
  "is_indented line \<longleftrightarrow> prefix '' '' line \<or> prefix [CHR 0x09] line"

definition push_line :: "string \<Rightarrow> stub_state \<Rightarrow> stub_state" where
  "push_line line st = st\<lparr>st_schemas := st_schemas st @ line @ [CHR 0x0A]\<rparr>"

definition stub_line :: "stub_state \<Rightarrow> string \<Rightarrow> stub_state" where
  "stub_line st line =
     (let t = trim_start line;
          blank = (t = []);
          ind = is_indented line;
          comment = prefix ''#'' t
      in if st_in_schema st \<and> (blank \<or> ind \<or> comment) then push_line line st
         else let st = st\<lparr>st_in_schema := False\<rparr>
              in if blank
                 then if suffix [CHR 0x0A, CHR 0x0A] (st_schemas st) then st else push_line [] st
                 else if \<not> ind \<and> prefix ''import '' t
                 then if prefix ''import charts.'' t then st
                      else case imported_name t of
                             Some n \<Rightarrow> st\<lparr>st_imports := st_imports st @ [(line, n)]\<rparr>
                           | None \<Rightarrow> st
                 else if \<not> ind \<and> (prefix ''schema '' t \<or> prefix ''protocol '' t)
                 then push_line line (st\<lparr>st_in_schema := True\<rparr>)
                 else st)"

definition extract_schemas :: "string \<Rightarrow> string" where
  "extract_schemas src =
     (let st = fold (\<lambda>l st. stub_line st l) (str_lines (strip_akua_decorators src))
                 \<lparr>st_imports = [], st_schemas = [], st_in_schema = False\<rparr>;
          imports = unlines (map fst (filter (\<lambda>(_, n). contains_module_reference (st_schemas st) n) (st_imports st)));
          out = imports @ (if imports \<noteq> [] \<and> trim (st_schemas st) \<noteq> [] then [CHR 0x0A] else []) @ st_schemas st
      in if suffix [CHR 0x0A] out then out else out @ [CHR 0x0A])"

definition source_declares_input_schema :: "string \<Rightarrow> bool" where
  "source_declares_input_schema stub \<longleftrightarrow>
     list_ex (\<lambda>line. prefix ''schema Input'' (trim_start line)) (str_lines stub)"

definition nl :: string where "nl = [CHR 0x0A]"

definition build_stub_module :: "string \<Rightarrow> string \<Rightarrow> string" where
  "build_stub_module alias_name src =
     (let schemas = extract_schemas src;
          head = ''# Akua-package stub. Auto-generated; do not edit.'' @ nl @ ''import akua.pkg as _pkg'' @ nl @ nl @ schemas;
          ty = (if source_declares_input_schema schemas then ''Input'' else ''{str:}'')
      in head @ (if suffix (nl @ nl) head then [] else nl)
         @ ''render = lambda inputs: '' @ ty @ '' -> [{str:}] {'' @ nl
         @ ''    _flat = {**inputs}'' @ nl
         @ ''    _pkg.render(_pkg.Render {'' @ nl
         @ ''        package = '' @ [CHR 0x22] @ alias_name @ [CHR 0x22] @ nl
         @ ''        inputs = _flat'' @ nl
         @ ''    })'' @ nl
         @ ''}'' @ nl)"

section \<open>What a stub holds\<close>

text \<open>
  A line that declares nothing at the top level but an import, a schema or a protocol: blank, a
  comment, indented, or one of these three.
\<close>

definition declares_only :: "string \<Rightarrow> bool" where
  "declares_only line \<longleftrightarrow>
     (let t = trim_start line
      in t = [] \<or> prefix ''#'' t \<or> is_indented line
         \<or> prefix ''import '' t \<and> \<not> prefix ''import charts.'' t
         \<or> prefix ''schema '' t \<or> prefix ''protocol '' t)"

text \<open>What the fold over the lines keeps: the text so far is a list of such lines.\<close>

definition stub_inv :: "stub_state \<Rightarrow> bool" where
  "stub_inv st \<longleftrightarrow>
     (\<exists>ls. st_schemas st = unlines ls \<and> list_all (\<lambda>l. declares_only l \<and> CHR 0x0A \<notin> set l) ls)
     \<and> list_all (\<lambda>(l, _). declares_only l \<and> CHR 0x0A \<notin> set l) (st_imports st)"

lemma declares_only_Nil [simp]: "declares_only []"
  by (simp add: declares_only_def Let_def trim_start_def strip_leading.simps find_None_iff [THEN iffD2])

lemma stub_inv_push:
  assumes "stub_inv st" and "declares_only line" and "CHR 0x0A \<notin> set line"
  shows "stub_inv (push_line line st)"
proof -
  from assms(1) obtain ls where ls: "st_schemas st = unlines ls" "list_all (\<lambda>l. declares_only l \<and> CHR 0x0A \<notin> set l) ls"
    by (auto simp: stub_inv_def)
  have "st_schemas (push_line line st) = unlines (ls @ [line])"
    "list_all (\<lambda>l. declares_only l \<and> CHR 0x0A \<notin> set l) (ls @ [line])"
    "st_imports (push_line line st) = st_imports st"
    using ls assms(2,3) by (simp_all add: push_line_def)
  with assms(1) show ?thesis unfolding stub_inv_def by metis
qed

lemma stub_inv_update [simp]: "stub_inv (st\<lparr>st_in_schema := b\<rparr>) \<longleftrightarrow> stub_inv st"
  by (simp add: stub_inv_def)

lemma stub_inv_line:
  assumes "stub_inv st" and "CHR 0x0A \<notin> set line"
  shows "stub_inv (stub_line st line)"
proof -
  have dec: "declares_only line" if "trim_start line = [] \<or> is_indented line \<or> prefix ''#'' (trim_start line)
      \<or> prefix ''schema '' (trim_start line) \<or> prefix ''protocol '' (trim_start line)
      \<or> prefix ''import '' (trim_start line) \<and> \<not> prefix ''import charts.'' (trim_start line)"
    using that by (auto simp: declares_only_def Let_def)
  have imp: "stub_inv (st\<lparr>st_in_schema := False, st_imports := st_imports st @ [(line, n)]\<rparr>)"
    if "declares_only line" for n
    using assms that by (simp add: stub_inv_def)
  have blank: "stub_inv (push_line [] (st\<lparr>st_in_schema := b\<rparr>))" for b
    using assms(1) by (intro stub_inv_push) simp_all
  have push: "stub_inv (push_line line (st\<lparr>st_in_schema := b\<rparr>))" "stub_inv (push_line line st)"
    if "declares_only line" for b
    using assms that by (auto intro!: stub_inv_push)
  show ?thesis
    unfolding stub_line_def Let_def
    using assms(1) dec push imp blank
    by (auto split: option.splits simp: push_line_def)
qed

lemma stub_inv_fold:
  "stub_inv st \<Longrightarrow> \<forall>l \<in> set ls. CHR 0x0A \<notin> set l \<Longrightarrow> stub_inv (fold (\<lambda>l st. stub_line st l) ls st)"
  by (induction ls arbitrary: st) (simp_all add: stub_inv_line)

lemma unlines_last: "unlines ls = [] \<longleftrightarrow> ls = []"
  by (cases ls) simp_all

lemma suffix_newline_unlines: "suffix [CHR 0x0A] (unlines ls) \<longleftrightarrow> ls \<noteq> []"
  by (cases ls rule: rev_cases) (auto simp: suffix_def)

text \<open>
  Importing a stub runs nothing of the package: every line of the text is blank, a comment, indented,
  or starts an import (never of \<open>charts\<close>), a schema or a protocol, and the text ends in a newline.
\<close>

theorem extract_schemas_declares_only:
  "\<exists>ls. extract_schemas src = unlines ls \<and> ls \<noteq> [] \<and> list_all declares_only ls"
proof -
  let ?start = "\<lparr>st_imports = [], st_schemas = [], st_in_schema = False\<rparr>"
  let ?st = "fold (\<lambda>l st. stub_line st l) (str_lines (strip_akua_decorators src)) ?start"
  have "stub_inv ?start" by (simp add: stub_inv_def exI [of _ "[]"])
  then have "stub_inv ?st" using str_lines_no_newline by (intro stub_inv_fold) blast+
  then obtain ls where ls: "st_schemas ?st = unlines ls" "list_all declares_only ls"
    and imps: "list_all (\<lambda>(l, _). declares_only l) (st_imports ?st)"
    unfolding stub_inv_def by (auto simp: list_all_iff)
  let ?imps = "map fst (filter (\<lambda>(_, n). contains_module_reference (st_schemas ?st) n) (st_imports ?st))"
  let ?mid = "if ?imps \<noteq> [] \<and> trim (st_schemas ?st) \<noteq> [] then [[]] else []"
  let ?all = "?imps @ ?mid @ ls"
  have good: "list_all declares_only ?all"
    using ls(2) imps by (auto simp: list_all_iff)
  have out: "unlines ?imps @ (if unlines ?imps \<noteq> [] \<and> trim (st_schemas ?st) \<noteq> [] then [CHR 0x0A] else [])
      @ st_schemas ?st = unlines ?all"
    using ls(1) by (auto simp: unlines_last)
  have "extract_schemas src = unlines (if ?all = [] then [[]] else ?all)"
    unfolding extract_schemas_def Let_def out suffix_newline_unlines by simp
  with good show ?thesis by (intro exI [of _ "if ?all = [] then [[]] else ?all"]) auto
qed

end
