(* ===== verification/Stdlib.thy ===== *)
theory Stdlib
  imports Resolver PkgStub
begin

text \<open>
  \<open>stdlib.rs\<close>: the KCL packages that are generated for a render, one module per Helm chart under
  \<open>charts\<close> and one stub per Akua package under \<open>pkgs\<close>. A generated directory is the list of its files
  in the order they are written; what fails when a temporary file is written is a parameter, as are
  the schema generator (\<open>values_schema.rs\<close>) and the literal of a path.
\<close>

section \<open>Module names\<close>

record stdlib_env =
  tmp_error :: "string \<Rightarrow> io_error option"
  values_schema :: "string \<Rightarrow> (string, string) outcome"
  kcl_literal :: "string \<Rightarrow> string"

definition backtick :: "string \<Rightarrow> string" where "backtick s = ''`'' @ s @ ''`''"

definition collision_error :: "string \<Rightarrow> string \<Rightarrow> io_error" where
  "collision_error prior name =
     \<lparr>io_kind = OtherKind,
      io_msg = ''dep keys '' @ backtick prior @ '' and '' @ backtick name
        @ '' both sanitize to the KCL identifier '' @ backtick (kcl_ident name) @ '' ''
        @ em_dash @ '' rename one so `import` aliases are unambiguous''\<rparr>"

fun ident_collisions :: "(string, string) hashmap \<Rightarrow> string list \<Rightarrow> (io_error, unit) outcome" where
  "ident_collisions seen [] = Ok ()"
| "ident_collisions seen (name # names) =
     (let ident = kcl_ident name
      in case bt_get seen ident of
           Some prior \<Rightarrow>
             if prior \<noteq> name then Err (collision_error prior name)
             else ident_collisions (hm_insert ident name seen) names
         | None \<Rightarrow> ident_collisions (hm_insert ident name seen) names)"

definition detect_ident_collisions :: "string list \<Rightarrow> (io_error, unit) outcome" where
  "detect_ident_collisions names = ident_collisions [] names"

section \<open>The chart module\<close>

definition template_body :: "string \<Rightarrow> string" where
  "template_body v =
     ''    _helm.template(_helm.Template {'' @ nl @ ''        chart = path'' @ nl
     @ ''        values = '' @ v @ nl @ ''        release = opts.release'' @ nl
     @ ''        namespace = opts.namespace'' @ nl @ ''    })'' @ nl @ ''}'' @ nl"

definition build_chart_module :: "string \<Rightarrow> string \<Rightarrow> string \<Rightarrow> string option \<Rightarrow> string" where
  "build_chart_module dep_name path_literal digest schema =
     ''# Auto-generated per-render from akua.toml dep '' @ backtick dep_name @ ''.'' @ nl
     @ ''# slice C: exposes `path`, `sha256`, `Values`, and a'' @ nl
     @ ''# pre-filled `template` callable. Regenerated every render.'' @ nl @ nl
     @ ''import akua.helm as _helm'' @ nl @ nl
     @ ''path: str = '' @ path_literal @ nl
     @ ''sha256: str = '' @ [CHR 0x22] @ digest @ [CHR 0x22] @ nl @ nl
     @ (case schema of
          Some s \<Rightarrow> ''# Typed Values schema, generated from values.schema.json.'' @ nl @ s @ nl
        | None \<Rightarrow> [])
     @ ''schema TemplateOpts:'' @ nl
     @ ''    values: '' @ (if schema \<noteq> None then ''Values'' else ''{str:} = {}'') @ nl
     @ ''    release: str = '' @ [CHR 0x22] @ ''release'' @ [CHR 0x22] @ nl
     @ ''    namespace: str = '' @ [CHR 0x22] @ ''default'' @ [CHR 0x22] @ nl @ nl
     @ (if schema \<noteq> None
        then ''template = lambda opts: TemplateOpts -> [{str:}] {'' @ nl
             @ ''    _flat = {**opts.values}'' @ nl @ template_body ''_flat''
        else ''template = lambda opts: TemplateOpts = TemplateOpts {} -> [{str:}] {'' @ nl
             @ template_body ''opts.values'')"

definition load_values_schema :: "stdlib_env \<Rightarrow> world \<Rightarrow> path \<Rightarrow> string option" where
  "load_values_schema env w dir =
     (case read_to_string w (child dir ''values.schema.json'') of
        Ok bytes \<Rightarrow> (case values_schema env bytes of
            Ok gen \<Rightarrow> if gen \<noteq> [] then Some gen else None
          | _ \<Rightarrow> None)
      | _ \<Rightarrow> None)"

section \<open>Generated directories\<close>

type_synonym generated = "(string \<times> string) list"

definition tmp_write :: "stdlib_env \<Rightarrow> string \<Rightarrow> string \<Rightarrow> (io_error, generated) outcome" where
  "tmp_write env name body = (case tmp_error env name of Some e \<Rightarrow> Err e | None \<Rightarrow> Ok [(name, body)])"

definition kcl_mod :: "string \<Rightarrow> string" where
  "kcl_mod name =
     ''[package]'' @ nl @ ''name = '' @ [CHR 0x22] @ name @ [CHR 0x22] @ nl
     @ ''edition = '' @ [CHR 0x22] @ ''0.0.1'' @ [CHR 0x22] @ nl
     @ ''version = '' @ [CHR 0x22] @ ''0.0.1'' @ [CHR 0x22] @ nl"

definition module_file :: "string \<Rightarrow> string" where
  "module_file name = kcl_ident name @ ''.k''"

definition write_chart :: "stdlib_env \<Rightarrow> world \<Rightarrow> string \<times> resolved_chart \<Rightarrow> (io_error, generated) outcome" where
  "write_chart env w = (\<lambda>(name, chart).
     tmp_write env (module_file name)
       (build_chart_module name (kcl_literal env (path_str (abs_path chart))) (rc_sha256 chart)
          (load_values_schema env w (abs_path chart))))"

text \<open>The name \<open>[]\<close> stands for the creation of the directory itself.\<close>

definition materialize_charts :: "stdlib_env \<Rightarrow> world \<Rightarrow> resolved_charts \<Rightarrow> (io_error, generated) outcome" where
  "materialize_charts env w resolved =
     obind (tmp_write env [] []) (\<lambda>_.
     obind (tmp_write env ''kcl.mod'' (kcl_mod ''charts'')) (\<lambda>m.
     obind (detect_ident_collisions (map fst (helm_charts resolved))) (\<lambda>_.
     obind (concat_ok (map (write_chart env w) (helm_charts resolved))) (\<lambda>fs. Ok (m @ fs)))))"

definition materialize_charts_if_any ::
  "stdlib_env \<Rightarrow> world \<Rightarrow> resolved_charts \<Rightarrow> (io_error, generated option) outcome"
where
  "materialize_charts_if_any env w resolved =
     (if helm_charts resolved = [] then Ok None
      else obind (materialize_charts env w resolved) (\<lambda>d. Ok (Some d)))"

definition write_stub :: "stdlib_env \<Rightarrow> world \<Rightarrow> string \<times> resolved_chart \<Rightarrow> (io_error, generated) outcome" where
  "write_stub env w = (\<lambda>(name, chart).
     obind (read_to_string w (child (abs_path chart) ''package.k'')) (\<lambda>src.
     tmp_write env (module_file name) (build_stub_module name src)))"

definition akua_pkgs :: "world \<Rightarrow> resolved_charts \<Rightarrow> resolved_charts" where
  "akua_pkgs w resolved = filter (\<lambda>(_, c). is_akua_package w c) (kcl_pkgs resolved)"

definition materialize_pkg_stubs_if_any ::
  "stdlib_env \<Rightarrow> world \<Rightarrow> resolved_charts \<Rightarrow> (io_error, generated option) outcome"
where
  "materialize_pkg_stubs_if_any env w resolved =
     (if akua_pkgs w resolved = [] then Ok None
      else obind (detect_ident_collisions (map fst (akua_pkgs w resolved))) (\<lambda>_.
           obind (tmp_write env [] []) (\<lambda>_.
           obind (tmp_write env ''kcl.mod'' (kcl_mod ''pkgs'')) (\<lambda>m.
           obind (concat_ok (map (write_stub env w) (akua_pkgs w resolved))) (\<lambda>fs. Ok (Some (m @ fs)))))))"

section \<open>No module overwrites another\<close>

lemma ident_collisions_Ok:
  assumes "hm_inv seen" and "distinct names" and "\<forall>n \<in> set names. n \<notin> ran (bt_get seen)"
  shows "ident_collisions seen names = Ok ()
    \<longleftrightarrow> distinct (map kcl_ident names) \<and> (\<forall>n \<in> set names. bt_get seen (kcl_ident n) = None)"
  using assms
proof (induction names arbitrary: seen)
  case (Cons n ns)
  let ?seen = "hm_insert (kcl_ident n) n seen"
  have get: "bt_get ?seen = (bt_get seen)(kcl_ident n \<mapsto> n)"
    and inv: "hm_inv ?seen" using Cons.prems(1) by (simp_all add: hashmap.get_put hashmap.inv_put)
  show ?case
  proof (cases "bt_get seen (kcl_ident n)")
    case None
    have "\<forall>m \<in> set ns. m \<notin> ran (bt_get ?seen)"
      using Cons.prems(2,3) get None by (auto simp: ran_def)
    note IH = Cons.IH [OF inv _ this]
    have "(\<forall>m \<in> set ns. bt_get ?seen (kcl_ident m) = None)
        \<longleftrightarrow> kcl_ident n \<notin> set (map kcl_ident ns) \<and> (\<forall>m \<in> set ns. bt_get seen (kcl_ident m) = None)"
      unfolding get by (auto simp: image_iff split: if_splits)
    with IH Cons.prems(2) None show ?thesis by simp blast
  next
    case (Some prior)
    with Cons.prems(3) have "prior \<noteq> n" by (auto simp: ran_def)
    with Some show ?thesis by simp
  qed
qed simp

lemma detect_ident_collisions_Ok:
  "distinct names \<Longrightarrow> detect_ident_collisions names = Ok () \<longleftrightarrow> distinct (map kcl_ident names)"
  unfolding detect_ident_collisions_def
  by (subst ident_collisions_Ok) (auto simp: hm_inv_def bt_get_def ran_def)

lemma concat_ok_writes:
  assumes "concat_ok (map f xs) = Ok fs" and "\<And>x ys. x \<in> set xs \<Longrightarrow> f x = Ok ys \<Longrightarrow> map fst ys = [g x]"
  shows "map fst fs = map g xs"
  using assms by (induction xs arbitrary: fs) (auto simp: outcome_simps)

lemma distinct_map_fst_filter: "bt_inv m \<Longrightarrow> distinct (map fst (filter P m))"
  by (auto simp: bt_inv_def distinct_map_filter strict_sorted_iff)

lemma materialize_charts_files:
  assumes "materialize_charts env w resolved = Ok fs" and "bt_inv resolved"
  shows "map fst fs = ''kcl.mod'' # map (module_file \<circ> fst) (helm_charts resolved)
    \<and> distinct (map (kcl_ident \<circ> fst) (helm_charts resolved))"
proof -
  from assms(1) obtain ms where fs: "fs = (''kcl.mod'', kcl_mod ''charts'') # ms"
    and ok: "detect_ident_collisions (map fst (helm_charts resolved)) = Ok ()"
    and ms: "concat_ok (map (write_chart env w) (helm_charts resolved)) = Ok ms"
    by (auto simp: materialize_charts_def outcome_simps tmp_write_def split: option.splits)
  have "map fst ms = map (module_file \<circ> fst) (helm_charts resolved)"
    by (rule concat_ok_writes [OF ms]) (auto simp: write_chart_def tmp_write_def split: option.splits)
  moreover have "distinct (map fst (helm_charts resolved))"
    using assms(2) unfolding helm_charts_def by (rule distinct_map_fst_filter)
  ultimately show ?thesis using ok fs by (simp add: detect_ident_collisions_Ok)
qed

lemma materialize_stubs_files:
  assumes "materialize_pkg_stubs_if_any env w resolved = Ok (Some fs)" and "bt_inv resolved"
  shows "map fst fs = ''kcl.mod'' # map (module_file \<circ> fst) (akua_pkgs w resolved)
    \<and> distinct (map (kcl_ident \<circ> fst) (akua_pkgs w resolved))"
proof -
  from assms(1) obtain ms where fs: "fs = (''kcl.mod'', kcl_mod ''pkgs'') # ms"
    and ok: "detect_ident_collisions (map fst (akua_pkgs w resolved)) = Ok ()"
    and ms: "concat_ok (map (write_stub env w) (akua_pkgs w resolved)) = Ok ms"
    by (auto simp: materialize_pkg_stubs_if_any_def outcome_simps tmp_write_def split: option.splits if_splits)
  have "map fst ms = map (module_file \<circ> fst) (akua_pkgs w resolved)"
    by (rule concat_ok_writes [OF ms])
      (auto simp: write_stub_def tmp_write_def outcome_simps split: option.splits)
  moreover have "distinct (map fst (akua_pkgs w resolved))"
    using assms(2) unfolding akua_pkgs_def kcl_pkgs_def
    by (intro distinct_map_fst_filter) (auto simp: bt_inv_def sorted_wrt_filter sorted_wrt_map)
  ultimately show ?thesis using ok fs by (simp add: detect_ident_collisions_Ok)
qed

lemma module_file_not_kcl_mod: "module_file name \<noteq> ''kcl.mod''"
proof
  assume "module_file name = ''kcl.mod''"
  then have "last (module_file name) = CHR ''d''" by simp
  then show False by (simp add: module_file_def)
qed

lemma distinct_modules: "distinct (map (kcl_ident \<circ> fst) xs) \<Longrightarrow> distinct (''kcl.mod'' # map (module_file \<circ> fst) xs)"
  using module_file_not_kcl_mod by (auto simp: distinct_map inj_on_def module_file_def)

text \<open>
  The generated \<open>charts\<close> package holds one module per Helm chart, each under a name of its own, so no
  chart overwrites another; two dependencies whose keys become the same KCL identifier are refused.
\<close>

theorem materialize_charts_faithful:
  assumes "bt_inv resolved"
  shows "(case materialize_charts env w resolved of
      Ok fs \<Rightarrow> map fst fs = ''kcl.mod'' # map (module_file \<circ> fst) (helm_charts resolved) \<and> distinct (map fst fs)
        \<and> list_all (\<lambda>(name, c). map_of fs (module_file name)
             = Some (build_chart_module name (kcl_literal env (path_str (abs_path c))) (rc_sha256 c)
                       (load_values_schema env w (abs_path c)))) (helm_charts resolved)
    | _ \<Rightarrow> True)
    \<and> (\<not> distinct (map (kcl_ident \<circ> fst) (helm_charts resolved)) \<longrightarrow> \<not> is_Ok (materialize_charts env w resolved))"
proof (intro conjI)
  show "\<not> distinct (map (kcl_ident \<circ> fst) (helm_charts resolved)) \<longrightarrow> \<not> is_Ok (materialize_charts env w resolved)"
    using materialize_charts_files [OF _ assms] by (auto simp: is_Ok_iff)
  show "case materialize_charts env w resolved of
      Ok fs \<Rightarrow> map fst fs = ''kcl.mod'' # map (module_file \<circ> fst) (helm_charts resolved) \<and> distinct (map fst fs)
        \<and> list_all (\<lambda>(name, c). map_of fs (module_file name)
             = Some (build_chart_module name (kcl_literal env (path_str (abs_path c))) (rc_sha256 c)
                       (load_values_schema env w (abs_path c)))) (helm_charts resolved)
    | _ \<Rightarrow> True"
  proof (cases "materialize_charts env w resolved")
    case (Ok fs)
    note files = materialize_charts_files [OF Ok assms]
    have dist: "distinct (map fst fs)"
      unfolding files [THEN conjunct1] by (rule distinct_modules [OF files [THEN conjunct2]])
    from Ok obtain ms where fs: "fs = (''kcl.mod'', kcl_mod ''charts'') # ms"
      and ms: "concat_ok (map (write_chart env w) (helm_charts resolved)) = Ok ms"
      by (auto simp: materialize_charts_def outcome_simps tmp_write_def split: option.splits)
    have "(module_file name, build_chart_module name (kcl_literal env (path_str (abs_path c))) (rc_sha256 c)
        (load_values_schema env w (abs_path c))) \<in> set fs" if c: "(name, c) \<in> set (helm_charts resolved)" for name c
    proof -
      from c concat_ok_mapD [OF ms] have "is_Ok (write_chart env w (name, c))"
        and "ms = concat (map (\<lambda>x. case write_chart env w x of Ok a \<Rightarrow> a | _ \<Rightarrow> []) (helm_charts resolved))" by auto
      with c fs show ?thesis
        by (force simp: write_chart_def tmp_write_def split: option.splits)
    qed
    with dist files Ok show ?thesis by (auto simp: list_all_iff intro!: map_of_is_SomeI)
  qed simp_all
qed

definition chart_at :: "string \<Rightarrow> resolved_chart" where
  "chart_at name = \<lparr>rc_name = name, abs_path = [RootDir, Normal name], rc_sha256 = ''ab'', rc_kind = HelmChart,
     rc_source = ResolvedPath name\<rparr>"

definition plain_stdlib :: stdlib_env where
  "plain_stdlib = \<lparr>tmp_error = (\<lambda>_. None), values_schema = (\<lambda>_. Ok []), kcl_literal = (\<lambda>s. s)\<rparr>"

lemma materialize_charts_faithful_witness:
  "\<not> is_Ok (materialize_charts plain_stdlib (text_world []) [(''a-b'', chart_at ''a-b''), (''a_b'', chart_at ''a_b'')])
   \<and> is_Ok (materialize_charts plain_stdlib (text_world []) [(''a'', chart_at ''a''), (''b'', chart_at ''b'')])"
proof
  have inv: "bt_inv [(''a-b'', chart_at ''a-b''), (''a_b'', chart_at ''a_b'')]" by code_simp
  have "\<not> distinct (map (kcl_ident \<circ> fst) (helm_charts [(''a-b'', chart_at ''a-b''), (''a_b'', chart_at ''a_b'')]))"
    by code_simp
  with materialize_charts_faithful [OF inv, of plain_stdlib "text_world []"]
  show "\<not> is_Ok (materialize_charts plain_stdlib (text_world []) [(''a-b'', chart_at ''a-b''), (''a_b'', chart_at ''a_b'')])"
    by blast
  show "is_Ok (materialize_charts plain_stdlib (text_world []) [(''a'', chart_at ''a''), (''b'', chart_at ''b'')])"
    by code_simp
qed

end
