(* ===== verification/RenderStack.thy ===== *)
theory RenderStack
  imports Resolver
begin

text \<open>
  The render stack of \<open>kcl_plugin.rs\<close>: the frames that \<open>RenderScope\<close> pushes, what plugin handlers read
  from them, and the resolution of plugin paths against the top frame. The thread-local vector is a
  list with its top first; an \<open>Instant\<close> is a natural number. Entering and leaving a scope is \<open>Cons\<close> and
  \<open>tl\<close>, as the guard's constructor and \<open>drop\<close> do.
\<close>

section \<open>Frames\<close>

record budget =
  deadline :: "nat option"
  max_depth :: nat

definition DEFAULT_MAX_DEPTH :: nat where "DEFAULT_MAX_DEPTH = 16"

definition unbounded :: budget where
  "unbounded = \<lparr>deadline = None, max_depth = DEFAULT_MAX_DEPTH\<rparr>"

record resolver_context =
  ctx_offline :: bool
  ctx_cache_root :: "path option"
  ctx_reject_replace :: bool
  ctx_cosign_key :: "string option"
  ctx_auth :: "host_auth_map option"

definition default_context :: resolver_context where
  "default_context =
     \<lparr>ctx_offline = False, ctx_cache_root = None, ctx_reject_replace = False, ctx_cosign_key = None,
      ctx_auth = None\<rparr>"

record render_frame =
  fr_package :: path
  fr_allowed_roots :: "path list"
  fr_strict :: bool
  fr_budget :: budget
  fr_resolved_pkgs :: "(string, path) btree"
  fr_resolver :: resolver_context

type_synonym render_stack = "render_frame list"

definition top_frame_budget :: "render_stack \<Rightarrow> budget" where
  "top_frame_budget stack = (case stack of [] \<Rightarrow> unbounded | f # _ \<Rightarrow> fr_budget f)"

definition top_frame_resolver :: "render_stack \<Rightarrow> resolver_context" where
  "top_frame_resolver stack = (case stack of [] \<Rightarrow> default_context | f # _ \<Rightarrow> fr_resolver f)"

definition enter_full ::
  "path \<Rightarrow> path list \<Rightarrow> bool \<Rightarrow> budget \<Rightarrow> (string, path) btree \<Rightarrow> resolver_context \<Rightarrow> render_stack \<Rightarrow> render_stack"
where
  "enter_full package roots strict b pkgs ctx stack =
     \<lparr>fr_package = package, fr_allowed_roots = roots, fr_strict = strict, fr_budget = b,
      fr_resolved_pkgs = pkgs, fr_resolver = ctx\<rparr> # stack"

definition enter_with :: "path \<Rightarrow> path list \<Rightarrow> bool \<Rightarrow> render_stack \<Rightarrow> render_stack" where
  "enter_with package roots strict stack =
     enter_full package roots strict (top_frame_budget stack) [] (top_frame_resolver stack) stack"

definition enter :: "path \<Rightarrow> render_stack \<Rightarrow> render_stack" where
  "enter package stack = enter_with package [] False stack"

definition chart_roots :: "resolved_charts \<Rightarrow> path list" where
  "chart_roots charts = map (\<lambda>(_, c). abs_path c) charts"

definition pkg_aliases :: "world \<Rightarrow> resolved_charts \<Rightarrow> (string, path) btree" where
  "pkg_aliases w charts =
     map (\<lambda>(name, c). (name, abs_path c))
       (filter (\<lambda>(_, c). is_file w (child (abs_path c) ''package.k'')) charts)"

definition enter_for_render :: "world \<Rightarrow> path \<Rightarrow> resolved_charts \<Rightarrow> bool \<Rightarrow> render_stack \<Rightarrow> render_stack" where
  "enter_for_render w package charts strict stack =
     enter_full package (chart_roots charts) strict (top_frame_budget stack) (pkg_aliases w charts)
       (top_frame_resolver stack) stack"

definition enter_with_budget :: "path \<Rightarrow> budget \<Rightarrow> render_stack \<Rightarrow> render_stack" where
  "enter_with_budget package b stack =
     enter_full package [] False b [] (top_frame_resolver stack) stack"

definition enter_for_render_with_budget ::
  "world \<Rightarrow> path \<Rightarrow> resolved_charts \<Rightarrow> bool \<Rightarrow> budget \<Rightarrow> resolver_context \<Rightarrow> render_stack \<Rightarrow> render_stack"
where
  "enter_for_render_with_budget w package charts strict b ctx stack =
     enter_full package (chart_roots charts) strict b (pkg_aliases w charts) ctx stack"

section \<open>What handlers read\<close>

definition current_package_dir :: "render_stack \<Rightarrow> path option" where
  "current_package_dir stack = (case stack of [] \<Rightarrow> None | f # _ \<Rightarrow> parent (fr_package f))"

definition resolve_pkg_alias :: "render_stack \<Rightarrow> string \<Rightarrow> path option" where
  "resolve_pkg_alias stack alias_name =
     (case stack of [] \<Rightarrow> None | f # _ \<Rightarrow> bt_get (fr_resolved_pkgs f) alias_name)"

definition current_pkg_aliases :: "render_stack \<Rightarrow> string list" where
  "current_pkg_aliases stack = (case stack of [] \<Rightarrow> [] | f # _ \<Rightarrow> bt_keys (fr_resolved_pkgs f))"

definition is_rendering :: "render_stack \<Rightarrow> path \<Rightarrow> bool" where
  "is_rendering stack package \<longleftrightarrow> list_ex (\<lambda>f. fr_package f = package) stack"

record pre_check =
  pc_cycle :: bool
  pc_depth :: nat
  pc_budget :: budget

definition pre_check :: "render_stack \<Rightarrow> path \<Rightarrow> pre_check" where
  "pre_check stack target =
     \<lparr>pc_cycle = list_ex (\<lambda>f. fr_package f = target) stack, pc_depth = length stack,
      pc_budget = top_frame_budget stack\<rparr>"

definition current_allowed_roots :: "render_stack \<Rightarrow> path list" where
  "current_allowed_roots stack = (case stack of [] \<Rightarrow> [] | f # _ \<Rightarrow> fr_allowed_roots f)"

definition current_strict :: "render_stack \<Rightarrow> bool" where
  "current_strict stack \<longleftrightarrow> (case stack of [] \<Rightarrow> False | f # _ \<Rightarrow> fr_strict f)"

section \<open>Plugin paths\<close>

datatype path_error =
  Escape path path path
| AbsoluteDisallowed path
| StrictRequiresTypedImport path
| NoRenderScope
| PathIo path io_error

text \<open>\<open>Path::file_name\<close>: the last component when it is a normal one.\<close>

fun normal_name :: "component \<Rightarrow> string option" where
  "normal_name (Normal s) = Some s"
| "normal_name _ = None"

definition file_name :: "path \<Rightarrow> string option" where
  "file_name p = (if p = [] then None else normal_name (last p))"

text \<open>The loop over the ancestors; \<open>None\<close> when it ends without one that canonicalizes.\<close>

function ancestor_canon :: "world \<Rightarrow> path \<Rightarrow> path \<Rightarrow> path option" where
  "ancestor_canon w cur tail =
     (case parent cur of
        None \<Rightarrow> None
      | Some par \<Rightarrow>
          (let tail' = (case file_name cur of
                 None \<Rightarrow> tail
               | Some name \<Rightarrow> if tail = [] then [Normal name] else path_join [Normal name] tail)
           in case canonicalize w par of
                Ok canon \<Rightarrow> Some (path_join canon tail')
              | _ \<Rightarrow> if par = [] then None else ancestor_canon w par tail'))"
  by pat_completeness auto
termination
  by (relation "measure (\<lambda>(w, cur, tail). length cur)") (auto simp: parent_def split: if_splits)

declare ancestor_canon.simps [simp del]

definition canonicalize_best_effort :: "world \<Rightarrow> path \<Rightarrow> (io_error, path) outcome" where
  "canonicalize_best_effort w p =
     (case canonicalize w p of
        Ok c \<Rightarrow> Ok c
      | _ \<Rightarrow> (case ancestor_canon w p [] of Some c \<Rightarrow> Ok c | None \<Rightarrow> canonicalize w p))"

definition resolve_in_package :: "world \<Rightarrow> render_stack \<Rightarrow> path \<Rightarrow> (path_error, path) outcome" where
  "resolve_in_package w stack p =
     obind (ok_or NoRenderScope (current_package_dir stack)) (\<lambda>package_dir.
       if is_absolute p
       then obind (omap_err (PathIo p) (canonicalize_best_effort w p)) (\<lambda>canon.
              if list_ex (\<lambda>root. prefix root canon) (current_allowed_roots stack) then Ok canon
              else Err (AbsoluteDisallowed p))
       else if current_strict stack then Err (StrictRequiresTypedImport p)
       else obind (omap_err (PathIo package_dir) (canonicalize w package_dir)) (\<lambda>pkg_canon.
            let joined = path_join package_dir p
            in obind (omap_err (PathIo joined) (canonicalize_best_effort w joined)) (\<lambda>resolved.
                 if \<not> prefix pkg_canon resolved then Err (Escape p resolved pkg_canon)
                 else Ok resolved)))"

section \<open>Confinement of plugin paths\<close>

text \<open>The documented promise of \<open>std::fs::canonicalize\<close>: an absolute path without \<open>.\<close> and \<open>..\<close>.\<close>

definition real_path :: "path \<Rightarrow> bool" where
  "real_path p \<longleftrightarrow> is_absolute p \<and> ParentDir \<notin> set p \<and> CurDir \<notin> set p"

definition canonical_world :: "world \<Rightarrow> bool" where
  "canonical_world w \<longleftrightarrow> (\<forall>p c. canonicalize w p = Ok c \<longrightarrow> real_path c)"

lemma not_real_Nil [simp]: "\<not> real_path []"
  by (simp add: real_path_def is_absolute_def)

lemma canonical_worldD: "canonical_world w \<Longrightarrow> canonicalize w p = Ok c \<Longrightarrow> real_path c"
  by (auto simp: canonical_world_def)

lemma normal_name_Some [simp]: "normal_name c = Some s \<longleftrightarrow> c = Normal s"
  by (cases c) auto

lemma path_join_normals: "c \<noteq> [] \<Longrightarrow> path_join c (map Normal names) = c @ map Normal names"
  by (cases names) (auto simp: path_join_def is_absolute_def filter_id_conv)

lemma ancestor_canon_Some:
  assumes "ancestor_canon w cur (map Normal names) = Some c" and "canonical_world w"
  shows "\<exists>par canon more. strict_prefix par cur \<and> canonicalize w par = Ok canon
    \<and> c = canon @ map Normal (more @ names)"
  using assms(1)
proof (induction "length cur" arbitrary: cur names rule: less_induct)
  case (less cur names)
  from less(2) obtain par where par: "parent cur = Some par"
    by (subst (asm) ancestor_canon.simps) (cases "parent cur", auto)
  then have len: "length par < length cur" and "prefix par cur"
    by (auto simp: parent_def prefixeq_butlast split: if_splits)
  then have sp: "strict_prefix par cur" by (auto simp: strict_prefix_def)
  define more where "more = (case file_name cur of Some n \<Rightarrow> [n] | None \<Rightarrow> [])"
  have tail: "(case file_name cur of None \<Rightarrow> map Normal names
      | Some name \<Rightarrow> if map Normal names = [] then [Normal name] else path_join [Normal name] (map Normal names))
    = map Normal (more @ names)"
    by (auto simp: more_def path_join_normals split: option.splits)
  have step: "(case canonicalize w par of
        Ok canon \<Rightarrow> Some (path_join canon (map Normal (more @ names)))
      | _ \<Rightarrow> if par = [] then None else ancestor_canon w par (map Normal (more @ names))) = Some c"
    using less(2) unfolding ancestor_canon.simps [of w cur] par option.case Let_def tail .
  show ?case
  proof (cases "\<exists>canon. canonicalize w par = Ok canon")
    case True
    then obtain canon where canon: "canonicalize w par = Ok canon" by blast
    with assms(2) have "canon \<noteq> []" by (auto dest: canonical_worldD)
    with step canon have "c = canon @ map Normal (more @ names)"
      by (simp add: path_join_normals del: map_append)
    with sp canon show ?thesis by blast
  next
    case False
    with step have "ancestor_canon w par (map Normal (more @ names)) = Some c"
      by (cases "canonicalize w par") (auto split: if_splits)
    from less(1) [OF len this] sp show ?thesis
      by (metis append.assoc prefix_order.less_trans)
  qed
qed

lemma best_effort_Ok:
  assumes "canonicalize_best_effort w p = Ok r" and "canonical_world w"
  shows "real_path r" and "canonicalize w p = Ok c \<Longrightarrow> r = c"
    and "canonicalize w p = Ok r
      \<or> (\<exists>par canon names. strict_prefix par p \<and> canonicalize w par = Ok canon \<and> r = canon @ map Normal names)"
proof -
  show *: "canonicalize w p = Ok r
      \<or> (\<exists>par canon names. strict_prefix par p \<and> canonicalize w par = Ok canon \<and> r = canon @ map Normal names)"
    using assms ancestor_canon_Some [of w p "[]" r]
    by (auto simp: canonicalize_best_effort_def split: outcome.splits option.splits)
  have "real_path (canon @ map Normal names)" if "canonicalize w par = Ok canon" for par canon names
  proof -
    from that assms(2) have "real_path canon" by (auto simp: canonical_world_def)
    then show ?thesis by (cases canon) (auto simp: real_path_def is_absolute_def split: component.splits)
  qed
  with * assms(2) show "real_path r" by (auto simp: canonical_world_def)
  show "r = c" if "canonicalize w p = Ok c" using assms(1) that by (simp add: canonicalize_best_effort_def)
qed

lemma current_package_dir_Some:
  "current_package_dir stack = Some d \<longleftrightarrow> (\<exists>f fs. stack = f # fs \<and> parent (fr_package f) = Some d)"
  by (cases stack) (auto simp: current_package_dir_def)

text \<open>
  C10. The result is a canonical ancestor with normal names behind it.\<close>

theorem resolve_in_package_confined:
  assumes "canonical_world w" and "resolve_in_package w stack p = Ok r"
  shows "ParentDir \<notin> set r
    \<and> (\<exists>f fs dir. stack = f # fs \<and> parent (fr_package f) = Some dir
        \<and> (if is_absolute p then list_ex (\<lambda>root. prefix root r) (fr_allowed_roots f)
           else \<not> fr_strict f \<and> (\<exists>pkg. canonicalize w dir = Ok pkg \<and> prefix pkg r)))
    \<and> (case canonicalize w (if is_absolute p then p else path_join (the (current_package_dir stack)) p) of
         Ok c \<Rightarrow> r = c | _ \<Rightarrow> True)"
proof -
  from assms(2) obtain dir where dir: "current_package_dir stack = Some dir"
    by (auto simp: resolve_in_package_def outcome_simps)
  then obtain f fs where f: "stack = f # fs" "parent (fr_package f) = Some dir"
    by (auto simp: current_package_dir_Some)
  let ?target = "if is_absolute p then p else path_join dir p"
  have r: "canonicalize_best_effort w ?target = Ok r"
    and within: "if is_absolute p then list_ex (\<lambda>root. prefix root r) (fr_allowed_roots f)
           else \<not> fr_strict f \<and> (\<exists>pkg. canonicalize w dir = Ok pkg \<and> prefix pkg r)"
    using assms(2) dir f(1)
    by (auto simp: resolve_in_package_def outcome_simps Let_def current_allowed_roots_def current_strict_def
        split: if_splits)
  from best_effort_Ok [OF r assms(1)] have "real_path r" "\<And>c. canonicalize w ?target = Ok c \<Longrightarrow> r = c" by auto
  with dir f within show ?thesis by (auto simp: real_path_def split: outcome.splits)
qed

definition in_package_world :: world where
  "in_package_world = (text_world [])\<lparr>canonicalize := (\<lambda>p.
     if p = [RootDir, Normal ''ws''] then Ok p
     else if p = [RootDir, Normal ''ws'', Normal ''link''] then Ok [RootDir, Normal ''etc'']
     else Err not_found)\<rparr>"

lemma resolve_in_package_confined_witness:
  "canonical_world in_package_world
   \<and> resolve_in_package in_package_world (enter [RootDir, Normal ''ws'', Normal ''package.k''] []) [Normal ''charts'', Normal ''new'']
       = Ok [RootDir, Normal ''ws'', Normal ''charts'', Normal ''new'']
   \<and> ParentDir \<notin> set [RootDir, Normal ''ws'', Normal ''charts'', Normal ''new'']
   \<and> resolve_in_package in_package_world (enter [RootDir, Normal ''ws'', Normal ''package.k''] []) [Normal ''link'']
       = Err (Escape [Normal ''link''] [RootDir, Normal ''etc''] [RootDir, Normal ''ws''])"
proof (intro conjI)
  show w: "canonical_world in_package_world"
    by (auto simp: canonical_world_def in_package_world_def real_path_def is_absolute_def split: if_splits)
  show r: "resolve_in_package in_package_world (enter [RootDir, Normal ''ws'', Normal ''package.k''] []) [Normal ''charts'', Normal ''new'']
       = Ok [RootDir, Normal ''ws'', Normal ''charts'', Normal ''new'']"
    by (simp add: resolve_in_package_def enter_def enter_with_def enter_full_def current_package_dir_def
        parent_def is_absolute_def current_strict_def in_package_world_def path_join_def
        canonicalize_best_effort_def ancestor_canon.simps file_name_def Let_def)
  show "ParentDir \<notin> set [RootDir, Normal ''ws'', Normal ''charts'', Normal ''new'']"
    using resolve_in_package_confined [OF w r] by blast
  show "resolve_in_package in_package_world (enter [RootDir, Normal ''ws'', Normal ''package.k''] []) [Normal ''link'']
       = Err (Escape [Normal ''link''] [RootDir, Normal ''etc''] [RootDir, Normal ''ws''])"
    by (simp add: resolve_in_package_def enter_def enter_with_def enter_full_def current_package_dir_def
        parent_def is_absolute_def current_strict_def in_package_world_def path_join_def
        canonicalize_best_effort_def)
qed

text \<open>
  A \<open>..\<close> behind a directory that does not exist is dropped, not applied: the path of \<open>new/../chart\<close> is
  \<open>new/chart\<close>.
\<close>

lemma best_effort_drops_dotdot:
  assumes "canonicalize w (dir @ [Normal a, ParentDir, Normal b]) = Err e1"
    and "canonicalize w (dir @ [Normal a, ParentDir]) = Err e2" and "canonicalize w (dir @ [Normal a]) = Err e3"
    and "canonicalize w dir = Ok canon" and "canon \<noteq> []"
  shows "canonicalize_best_effort w (dir @ [Normal a, ParentDir, Normal b]) = Ok (canon @ [Normal a, Normal b])"
proof -
  have par: "parent (dir @ [Normal a, ParentDir, Normal b]) = Some (dir @ [Normal a, ParentDir])"
    "parent (dir @ [Normal a, ParentDir]) = Some (dir @ [Normal a])" "parent (dir @ [Normal a]) = Some dir"
    by (simp_all add: parent_def butlast_append)
  have name: "file_name (dir @ [Normal a, ParentDir, Normal b]) = Some b"
    "file_name (dir @ [Normal a, ParentDir]) = None" "file_name (dir @ [Normal a]) = Some a"
    by (simp_all add: file_name_def)
  have "ancestor_canon w (dir @ [Normal a, ParentDir, Normal b]) [] = Some (canon @ [Normal a, Normal b])"
    using assms par name by (simp add: ancestor_canon.simps Let_def path_join_def is_absolute_def)
  then show ?thesis using assms(1) by (simp add: canonicalize_best_effort_def)
qed

end
