(* ===== verification/Plugins.thy ===== *)
theory Plugins
  imports RenderStack
begin

text \<open>
  The plugin bridge of \<open>kcl_plugin.rs\<close> with the engine plugins \<open>helm.template\<close> (\<open>helm.rs\<close>) and
  \<open>kustomize.build\<close> (\<open>kustomize.rs\<close>) and the reader of their output (\<open>yaml_multidoc.rs\<close>). JSON and YAML
  text, and the two engines that run in wasmtime, are functions of the environment. A handler's
  error is the text KCL reports.
\<close>

section \<open>JSON values\<close>

text \<open>\<open>serde_json::Value\<close>; a number is kept as its text, an object is a \<open>BTreeMap\<close>.\<close>

datatype json =
  JNull
| JBool bool
| JNumber string
| JString string
| JArray "json list"
| JObject "(string \<times> json) list"

fun as_array :: "json \<Rightarrow> json list option" where
  "as_array (JArray xs) = Some xs"
| "as_array _ = None"

fun as_object :: "json \<Rightarrow> (string \<times> json) list option" where
  "as_object (JObject m) = Some m"
| "as_object _ = None"

fun as_str :: "json \<Rightarrow> string option" where
  "as_str (JString s) = Some s"
| "as_str _ = None"

definition json_get :: "string \<Rightarrow> json \<Rightarrow> json option" where
  "json_get k v = Option.bind (as_object v) (\<lambda>m. bt_get m k)"

record helm_release =
  release_name :: string
  release_namespace :: string
  release_revision :: nat
  release_service :: string

record plugin_env =
  json_parse :: "string \<Rightarrow> (string, json) outcome"
  json_print :: "json \<Rightarrow> string"
  yaml_of_map :: "(string \<times> json) list \<Rightarrow> (string, string) outcome"
  yaml_docs :: "string \<Rightarrow> (string, json) outcome list"
  utf8_error :: "string \<Rightarrow> string"
  helm_render_dir :: "world \<Rightarrow> path \<Rightarrow> string \<Rightarrow> string \<Rightarrow> helm_release \<Rightarrow> (string, (string, string) btree) outcome"
  kustomize_render_dir :: "world \<Rightarrow> path \<Rightarrow> (string, string) outcome"

section \<open>The bridge\<close>

definition extract_options_arg :: "json \<Rightarrow> string \<Rightarrow> string \<Rightarrow> (string, (string \<times> json) list) outcome" where
  "extract_options_arg args plugin schema =
     ok_or (plugin @ '': arg 0 must be a '' @ schema @ '' options object'')
       (Option.bind (Option.bind (as_array args) (\<lambda>a. case a of [] \<Rightarrow> None | v # _ \<Rightarrow> Some v)) as_object)"

definition PANIC_INFO_KEY :: string where "PANIC_INFO_KEY = ''__kcl_PanicInfo__''"

definition panic_envelope :: "plugin_env \<Rightarrow> string \<Rightarrow> string" where
  "panic_envelope env msg = json_print env (JObject [(PANIC_INFO_KEY, JString msg)])"

definition dquoted :: "string \<Rightarrow> string" where
  "dquoted s = CHR 0x22 # s @ [CHR 0x22]"

definition panic_gate :: string where "panic_gate = CHR ''{'' # dquoted PANIC_INFO_KEY"

definition extract_panic_info :: "plugin_env \<Rightarrow> string \<Rightarrow> string option" where
  "extract_panic_info env response =
     (if \<not> prefix panic_gate response then None
      else case json_parse env response of
        Ok v \<Rightarrow> Option.bind (json_get PANIC_INFO_KEY v) as_str
      | _ \<Rightarrow> None)"

text \<open>The registry: the name of a plugin and its handler. The built-in ones are installed once.\<close>

datatype plugin = HelmTemplate | KustomizeBuild | PkgRender

type_synonym registry = "(string, plugin) hashmap"

definition register :: "string \<Rightarrow> plugin \<Rightarrow> registry \<Rightarrow> registry" where
  "register method h r = hm_insert method h r"

definition unregister :: "string \<Rightarrow> registry \<Rightarrow> bool \<times> registry" where
  "unregister method r = (bt_get r method \<noteq> None, bt_remove method r)"

definition install_builtin_plugins :: "registry \<Rightarrow> registry" where
  "install_builtin_plugins r =
     register ''kustomize.build'' KustomizeBuild
       (register ''helm.template'' HelmTemplate (register ''pkg.render'' PkgRender r))"

text \<open>\<open>invoke\<close> up to the handler: the handler with its arguments.\<close>

definition kcl_method :: "string \<Rightarrow> string" where
  "kcl_method m = (case strip_prefix ''kcl_plugin.'' m of Some s \<Rightarrow> s | None \<Rightarrow> m)"

definition lookup_handler ::
  "plugin_env \<Rightarrow> registry \<Rightarrow> string \<Rightarrow> string \<Rightarrow> string \<Rightarrow> (string, plugin \<times> json \<times> json) outcome"
where
  "lookup_handler env r m args_json kwargs_json =
     obind (omap_err (\<lambda>e. ''args not valid JSON: '' @ e) (json_parse env args_json)) (\<lambda>args.
     obind (omap_err (\<lambda>e. ''kwargs not valid JSON: '' @ e) (json_parse env kwargs_json)) (\<lambda>kwargs.
     obind (ok_or (''no plugin registered under `'' @ kcl_method m @ ''`'') (bt_get r (kcl_method m))) (\<lambda>h.
     Ok (h, args, kwargs))))"

text \<open>What KCL receives. A handler's panic is caught at the C boundary; its message is a parameter.\<close>

definition bridge_response :: "plugin_env \<Rightarrow> string \<Rightarrow> (string, json) outcome \<Rightarrow> string" where
  "bridge_response env panic_msg result =
     (case result of
        Ok v \<Rightarrow> json_print env v
      | Err msg \<Rightarrow> panic_envelope env msg
      | Panic \<Rightarrow> panic_envelope env panic_msg)"

section \<open>Output of the engines\<close>

fun is_empty_doc :: "json \<Rightarrow> bool" where
  "is_empty_doc JNull = True"
| "is_empty_doc (JObject m) = (m = [])"
| "is_empty_doc _ = False"

fun keep_docs :: "string \<Rightarrow> (string, json) outcome list \<Rightarrow> (string, json list) outcome" where
  "keep_docs plugin [] = Ok []"
| "keep_docs plugin (d # ds) =
     obind (omap_err (\<lambda>e. plugin @ '': parsing output as YAML: '' @ e) d) (\<lambda>v.
     obind (keep_docs plugin ds) (\<lambda>vs. Ok (if is_empty_doc v then vs else v # vs)))"

definition multidoc_parse :: "plugin_env \<Rightarrow> string \<Rightarrow> string \<Rightarrow> (string, json list) outcome" where
  "multidoc_parse env bytes plugin =
     (if \<not> utf8_valid bytes then Err (plugin @ '': output not utf-8: '' @ utf8_error env bytes)
      else keep_docs plugin (yaml_docs env bytes))"

section \<open>\<open>helm.template\<close>\<close>

definition helm_err :: "string \<Rightarrow> string" where
  "helm_err msg = ''helm.template: '' @ msg"

definition ident_char :: "char \<Rightarrow> bool" where
  "ident_char c \<longleftrightarrow> CHR ''a'' \<le> c \<and> c \<le> CHR ''z'' \<or> is_ascii_digit c"

definition validate_release_name :: "string \<Rightarrow> (string, unit) outcome" where
  "validate_release_name name =
     (if name = [] \<or> 53 < length name
      then Err (helm_err (''release name `'' @ name @ ''` must be 1..=53 chars''))
      else case name of
        [] \<Rightarrow> Panic
      | first # rest \<Rightarrow>
          if \<not> ident_char first
          then Err (helm_err (''release name `'' @ name @ ''` must start with a lowercase letter or digit''))
          else if list_ex (\<lambda>c. \<not> ident_char c \<and> c \<noteq> CHR ''-'') rest
          then Err (helm_err (''release name `'' @ name @ ''` may contain only [a-z0-9-]''))
          else Ok ())"

definition validate_namespace :: "string \<Rightarrow> (string, unit) outcome" where
  "validate_namespace ns =
     (if ns = [] \<or> 63 < length ns
      then Err (helm_err (''namespace `'' @ ns @ ''` must be 1..=63 chars''))
      else if \<not> ident_char (hd ns) \<or> \<not> ident_char (last ns)
      then Err (helm_err (''namespace `'' @ ns @ ''` must start and end with a lowercase letter or digit''))
      else if list_ex (\<lambda>c. \<not> ident_char c \<and> c \<noteq> CHR ''-'') ns
      then Err (helm_err (''namespace `'' @ ns @ ''` may contain only [a-z0-9-]''))
      else Ok ())"

definition is_notes_file :: "string \<Rightarrow> bool" where
  "is_notes_file p \<longleftrightarrow> last (split_on CHR ''/'' p) = ''NOTES.txt''"

fun parse_manifests :: "plugin_env \<Rightarrow> (string, string) btree \<Rightarrow> (string, json list) outcome" where
  "parse_manifests env [] = Ok []"
| "parse_manifests env ((p, yaml) # ms) =
     (if is_notes_file p then parse_manifests env ms
      else obind (multidoc_parse env yaml ''helm.template'') (\<lambda>docs.
           obind (parse_manifests env ms) (\<lambda>rest. Ok (docs @ rest))))"

definition chart_dir_name :: "path \<Rightarrow> string" where
  "chart_dir_name p = (case file_name p of Some n \<Rightarrow> n | None \<Rightarrow> ''chart'')"

definition tick :: "path \<Rightarrow> string" where
  "tick p = ''`'' @ path_str p @ ''`''"

fun show_path_error :: "path_error \<Rightarrow> string" where
  "show_path_error (Escape requested resolved dir) =
     ''plugin path '' @ tick requested @ '' resolved to '' @ tick resolved
       @ '', which escapes the Package directory '' @ tick dir"
| "show_path_error (AbsoluteDisallowed p) =
     ''plugin path '' @ tick p @ '' is absolute; Package-relative paths only''"
| "show_path_error (StrictRequiresTypedImport p) =
     ''plugin path '' @ tick p @ '' isn't a typed `charts.*` import; strict mode requires every chart to be declared in `akua.toml`''"
| "show_path_error NoRenderScope = ''no render scope '' @ em_dash @ '' plugin called outside `PackageK::render`''"
| "show_path_error (PathIo p e) = ''i/o resolving '' @ tick p @ '': '' @ io_msg e"

definition str_option :: "(string \<times> json) list \<Rightarrow> string \<Rightarrow> string option" where
  "str_option opts k = Option.bind (bt_get opts k) as_str"

definition helm_values :: "(string \<times> json) list \<Rightarrow> (string \<times> json) list" where
  "helm_values opts =
     (case Option.bind (bt_get opts ''values'') (\<lambda>v. if v = JNull then None else as_object v) of
        Some m \<Rightarrow> m | None \<Rightarrow> [])"

definition str_or :: "string \<Rightarrow> string option \<Rightarrow> string" where
  "str_or d s = (case s of Some x \<Rightarrow> x | None \<Rightarrow> d)"

definition helm_template :: "plugin_env \<Rightarrow> world \<Rightarrow> render_stack \<Rightarrow> json \<Rightarrow> (string, json) outcome" where
  "helm_template env w stack args =
     obind (extract_options_arg args ''helm.template'' ''helm.Template'') (\<lambda>opts.
     obind (ok_or (helm_err ''options.chart must be a string'') (str_option opts ''chart'')) (\<lambda>chart.
     obind (omap_err (\<lambda>e. helm_err (''resolving chart path: '' @ show_path_error e))
              (resolve_in_package w stack (path_of chart))) (\<lambda>dir.
     obind (omap_err (\<lambda>e. helm_err (''serializing values: '' @ e)) (yaml_of_map env (helm_values opts))) (\<lambda>values.
     let rel = str_or ''release'' (str_option opts ''release'');
         ns = str_or ''default'' (str_option opts ''namespace'')
     in obind (validate_release_name rel) (\<lambda>_.
        obind (validate_namespace ns) (\<lambda>_.
        obind (omap_err (\<lambda>e. helm_err (''helm engine: '' @ e))
                 (helm_render_dir env w dir (chart_dir_name dir) values
                    \<lparr>release_name = rel, release_namespace = ns, release_revision = 1, release_service = ''Helm''\<rparr>)) (\<lambda>ms.
        obind (parse_manifests env ms) (\<lambda>rs. Ok (JArray rs)))))))))"

section \<open>\<open>kustomize.build\<close>\<close>

definition kustomize_err :: "string \<Rightarrow> string" where
  "kustomize_err msg = ''kustomize.build: '' @ msg"

definition kustomize_build :: "plugin_env \<Rightarrow> world \<Rightarrow> render_stack \<Rightarrow> json \<Rightarrow> (string, json) outcome" where
  "kustomize_build env w stack args =
     obind (extract_options_arg args ''kustomize.build'' ''kustomize.Build'') (\<lambda>opts.
     obind (ok_or (kustomize_err ''options.path must be a string'') (str_option opts ''path'')) (\<lambda>p.
     obind (omap_err (\<lambda>e. kustomize_err (''resolving overlay path: '' @ show_path_error e))
              (resolve_in_package w stack (path_of p))) (\<lambda>dir.
     obind (omap_err (\<lambda>e. kustomize_err (''kustomize engine: '' @ e)) (kustomize_render_dir env w dir)) (\<lambda>yaml.
     obind (multidoc_parse env yaml ''kustomize.build'') (\<lambda>docs. Ok (JArray docs))))))"

section \<open>What the engines are given\<close>

text \<open>A DNS-1123 label, and Helm's rule for release names.\<close>

definition dns_label :: "string \<Rightarrow> bool" where
  "dns_label s \<longleftrightarrow> s \<noteq> [] \<and> length s \<le> 63 \<and> ident_char (hd s) \<and> ident_char (last s)
     \<and> list_all (\<lambda>c. ident_char c \<or> c = CHR ''-'') s"

definition release_label :: "string \<Rightarrow> bool" where
  "release_label s \<longleftrightarrow> s \<noteq> [] \<and> length s \<le> 53 \<and> ident_char (hd s)
     \<and> list_all (\<lambda>c. ident_char c \<or> c = CHR ''-'') s"

lemma validate_release_name_Ok: "validate_release_name s = Ok () \<longleftrightarrow> release_label s"
  by (cases s) (auto simp: validate_release_name_def release_label_def list_all_iff list_ex_iff)

lemma validate_namespace_Ok: "validate_namespace s = Ok () \<longleftrightarrow> dns_label s"
  by (auto simp: validate_namespace_def dns_label_def list_all_iff list_ex_iff)

lemma validators_no_panic [simp]: "validate_release_name s \<noteq> Panic" "validate_namespace s \<noteq> Panic"
  by (auto simp: validate_release_name_def validate_namespace_def split: list.splits)

lemma keep_docs_Ok: "keep_docs plugin ds = Ok vs \<longleftrightarrow>
    (\<exists>ws. ds = map Ok ws \<and> vs = filter (\<lambda>v. \<not> is_empty_doc v) ws)"
proof (induction ds arbitrary: vs)
  case (Cons d ds)
  show ?case
  proof (cases d)
    case (Ok v)
    then show ?thesis
      by (auto simp: outcome_simps Cons.IH Cons_eq_map_conv)
  qed (auto simp: Cons_eq_map_conv)
qed auto

lemma parse_manifests_Ok:
  assumes "parse_manifests env ms = Ok rs"
  shows "\<exists>docs. map (\<lambda>(p, yaml). yaml_docs env yaml) (filter (\<lambda>(p, _). \<not> is_notes_file p) ms) = map (map Ok) docs
    \<and> rs = filter (\<lambda>v. \<not> is_empty_doc v) (concat docs)"
  using assms
proof (induction ms arbitrary: rs)
  case (Cons m ms)
  obtain p yaml where m: "m = (p, yaml)" by (cases m)
  show ?case
  proof (cases "is_notes_file p")
    case True
    with Cons m show ?thesis by simp
  next
    case False
    with Cons.prems m obtain ds rest where ds: "multidoc_parse env yaml ''helm.template'' = Ok ds"
      "parse_manifests env ms = Ok rest" "rs = ds @ rest" by (auto simp: outcome_simps)
    from ds(1) obtain ws where ws: "yaml_docs env yaml = map Ok ws" "ds = filter (\<lambda>v. \<not> is_empty_doc v) ws"
      by (auto simp: multidoc_parse_def keep_docs_Ok split: if_splits)
    from Cons.IH [OF ds(2)] obtain docs where
      "map (\<lambda>(p, yaml). yaml_docs env yaml) (filter (\<lambda>(p, _). \<not> is_notes_file p) ms) = map (map Ok) docs"
      "rest = filter (\<lambda>v. \<not> is_empty_doc v) (concat docs)" by blast
    with False m ws ds(3) show ?thesis by (intro exI [of _ "ws # docs"]) simp
  qed
qed simp

definition resource_docs :: "plugin_env \<Rightarrow> (string, string) btree \<Rightarrow> json list \<Rightarrow> bool" where
  "resource_docs env ms rs \<longleftrightarrow>
     (\<exists>docs. map (\<lambda>(p, yaml). yaml_docs env yaml) (filter (\<lambda>(p, _). \<not> is_notes_file p) ms) = map (map Ok) docs
       \<and> rs = filter (\<lambda>v. \<not> is_empty_doc v) (concat docs))"

text \<open>
  A chart that renders: the engine was given a directory the path rules admit, a release name and a
  namespace of the documented form, and the result is every document of its manifests that is not
  empty, in the order of the manifests, notes left out.
\<close>

theorem helm_template_sound:
  assumes "helm_template env w stack args = Ok out"
  shows "\<exists>opts chart dir values ms rs.
      extract_options_arg args ''helm.template'' ''helm.Template'' = Ok opts
    \<and> str_option opts ''chart'' = Some chart
    \<and> resolve_in_package w stack (path_of chart) = Ok dir
    \<and> yaml_of_map env (helm_values opts) = Ok values
    \<and> release_label (str_or ''release'' (str_option opts ''release''))
    \<and> dns_label (str_or ''default'' (str_option opts ''namespace''))
    \<and> helm_render_dir env w dir (chart_dir_name dir) values
        \<lparr>release_name = str_or ''release'' (str_option opts ''release''),
         release_namespace = str_or ''default'' (str_option opts ''namespace''),
         release_revision = 1, release_service = ''Helm''\<rparr> = Ok ms
    \<and> resource_docs env ms rs \<and> out = JArray rs"
proof -
  have unit: "(\<exists>u. m = Ok u \<and> P) \<longleftrightarrow> m = Ok () \<and> P" for m :: "(string, unit) outcome" and P by auto
  let ?release = "\<lambda>opts. \<lparr>release_name = str_or ''release'' (str_option opts ''release''),
         release_namespace = str_or ''default'' (str_option opts ''namespace''),
         release_revision = 1, release_service = ''Helm''\<rparr>"
  from assms obtain opts chart dir vals ms rs where
    parts: "extract_options_arg args ''helm.template'' ''helm.Template'' = Ok opts"
      "str_option opts ''chart'' = Some chart" "resolve_in_package w stack (path_of chart) = Ok dir"
      "yaml_of_map env (helm_values opts) = Ok vals"
      "release_label (str_or ''release'' (str_option opts ''release''))"
      "dns_label (str_or ''default'' (str_option opts ''namespace''))"
      "helm_render_dir env w dir (chart_dir_name dir) vals (?release opts) = Ok ms"
    and rs: "parse_manifests env ms = Ok rs" and "Ok (JArray rs) = (Ok out :: (string, json) outcome)"
    unfolding helm_template_def Let_def obind_Ok_iff omap_err_iff ok_or_iff unit
      validate_release_name_Ok validate_namespace_Ok by (elim exE conjE) (rule that)
  moreover have "resource_docs env ms rs"
    using parse_manifests_Ok [OF rs] by (simp add: resource_docs_def)
  ultimately show ?thesis
    by (intro exI [of _ opts] exI [of _ chart] exI [of _ dir] exI [of _ vals] exI [of _ ms] exI [of _ rs]) simp
qed

definition pod_plugins :: plugin_env where
  "pod_plugins =
     \<lparr>json_parse = (\<lambda>_. Ok JNull), json_print = (\<lambda>_. []), yaml_of_map = (\<lambda>_. Ok []),
      yaml_docs = (\<lambda>_. [Ok (JObject [(''kind'', JString ''Pod'')]), Ok JNull]), utf8_error = (\<lambda>_. []),
      helm_render_dir = (\<lambda>_ _ _ _ _. Ok [(''a/NOTES.txt'', ''hi''), (''a/pod.yaml'', ''kind: Pod'')]),
      kustomize_render_dir = (\<lambda>_ _. Ok [])\<rparr>"

definition chart_args :: json where
  "chart_args = JArray [JObject [(''chart'', JString ''charts/new'')]]"

lemma helm_template_sound_witness:
  "\<exists>opts chart. helm_template pod_plugins in_package_world (enter [RootDir, Normal ''ws'', Normal ''package.k''] []) chart_args
       = Ok (JArray [JObject [(''kind'', JString ''Pod'')]])
     \<and> str_option opts ''chart'' = Some chart
     \<and> (\<exists>dir. resolve_in_package in_package_world (enter [RootDir, Normal ''ws'', Normal ''package.k''] []) (path_of chart) = Ok dir)"
proof -
  have r: "helm_template pod_plugins in_package_world (enter [RootDir, Normal ''ws'', Normal ''package.k''] []) chart_args
       = Ok (JArray [JObject [(''kind'', JString ''Pod'')]])" by code_simp
  from helm_template_sound [OF r] r show ?thesis by blast
qed

end
