(* ===== verification/PackageK.thy ===== *)
theory PackageK
  imports Stdlib Plugins
begin

text \<open>
  \<open>package_k.rs\<close>: loading a \<open>package.k\<close>, the call of the KCL evaluator and the reading of its result.
  The evaluator is a parameter: given its arguments, a run returns, takes a step, or calls a plugin and goes on
  with the answer, so a run is a tree that branches over the answers and may have endless branches. Reading
  YAML is a parameter too.
\<close>

section \<open>Loading\<close>

record package_k =
  pk_path :: path
  pk_source :: string

datatype package_error =
  PackageMissing path
| PackageIo path io_error
| InputJson string
| KclEval string
| YamlParse string
| MissingResources
| TopLevelWrongShape string
| ResourcesWrongShape string
| PackageCycle path
| PackagePathEscape path_error

fun show_package_error :: "package_error \<Rightarrow> string" where
  "show_package_error (PackageMissing p) = ''Package.k not found at '' @ path_str p"
| "show_package_error (PackageIo p e) = ''i/o error reading '' @ path_str p @ '': '' @ io_msg e"
| "show_package_error (InputJson e) = ''failed to serialize inputs to JSON: '' @ e"
| "show_package_error (KclEval e) = ''kcl eval failed: '' @ e"
| "show_package_error (YamlParse e) = ''kcl output is not valid YAML: '' @ e"
| "show_package_error MissingResources =
     ''rendered Package must set top-level `resources`; got no such key''"
| "show_package_error (TopLevelWrongShape got) = ''rendered Package must be a top-level mapping; got '' @ got"
| "show_package_error (ResourcesWrongShape got) = ''`resources` must be a sequence; got '' @ got"
| "show_package_error (PackageCycle p) =
     ''cycle detected while expanding pkg.render '' @ em_dash @ '' '' @ tick p @ '' is already on the render stack''"
| "show_package_error (PackagePathEscape e) = ''plugin path escape: '' @ show_path_error e"

definition load_package :: "world \<Rightarrow> path \<Rightarrow> (package_error, package_k) outcome" where
  "load_package w p =
     (case read_to_string w p of
        Ok src \<Rightarrow>
          Ok \<lparr>pk_path = (case canonicalize w p of Ok c \<Rightarrow> c | _ \<Rightarrow> p), pk_source = src\<rparr>
      | Err e \<Rightarrow> (if io_kind e = NotFound then Err (PackageMissing p) else Err (PackageIo p e))
      | Panic \<Rightarrow> Panic)"

definition resolve_inputs_path :: "world \<Rightarrow> path \<Rightarrow> path option \<Rightarrow> path option" where
  "resolve_inputs_path w package_path explicit =
     (case explicit of
        Some p \<Rightarrow> Some p
      | None \<Rightarrow>
          (let dir = (case parent package_path of Some d \<Rightarrow> d | None \<Rightarrow> [CurDir])
           in find (is_file w)
                (map (\<lambda>c. path_join dir (path_of c)) [''inputs.yaml'', ''inputs.example.yaml''])))"

section \<open>The evaluator\<close>

record exec_args =
  ex_filename :: string
  ex_code :: string
  ex_input_json :: string
  ex_external_pkgs :: "(string \<times> string) list"

text \<open>
  An evaluation returns, makes a call to a plugin and goes on with its answer, or takes a step of its own. It
  need not end: an endless run is one of the type, \<open>halts\<close> are those that end whatever the answers.
\<close>

codatatype kcl_run =
  KclReturns "(string, string \<times> string) outcome"
| KclCalls string string string "string \<Rightarrow> kcl_run"
| KclSteps kcl_run

inductive halts :: "kcl_run \<Rightarrow> bool" where
  "halts (KclReturns r)"
| "(\<And>answer. halts (cont answer)) \<Longrightarrow> halts (KclCalls m args kwargs cont)"
| "halts run \<Longrightarrow> halts (KclSteps run)"

text \<open>The directories that are mounted; the names are those KCL imports them under.\<close>

definition external_pkgs ::
  "string \<Rightarrow> string option \<Rightarrow> string option \<Rightarrow> (string, path) btree \<Rightarrow> (string \<times> string) list"
where
  "external_pkgs stdlib_root charts_dir pkgs_dir kcl =
     (''akua'', stdlib_root)
       # (case charts_dir of Some d \<Rightarrow> [(''charts'', d)] | None \<Rightarrow> [])
       @ (case pkgs_dir of Some d \<Rightarrow> [(''pkgs'', d)] | None \<Rightarrow> [])
       @ map (\<lambda>(name, p). (name, path_str p)) kcl"

definition eval_args ::
  "string \<Rightarrow> path \<Rightarrow> string \<Rightarrow> string \<Rightarrow> string option \<Rightarrow> (string, path) btree \<Rightarrow> string option \<Rightarrow> exec_args"
where
  "eval_args stdlib_root p src option_json charts_dir kcl pkgs_dir =
     \<lparr>ex_filename = path_str p, ex_code = strip_akua_decorators src, ex_input_json = option_json,
      ex_external_pkgs = external_pkgs stdlib_root charts_dir pkgs_dir kcl\<rparr>"

definition eval_result :: "(string, string \<times> string) outcome \<Rightarrow> (package_error, string) outcome" where
  "eval_result r =
     obind (omap_err KclEval r) (\<lambda>(yaml_result, err_message).
       if err_message \<noteq> [] then Err (KclEval err_message) else Ok yaml_result)"

section \<open>The result\<close>

text \<open>\<open>serde_yaml::Value\<close>; a number is kept as its text.\<close>

datatype yaml =
  YNull
| YBool bool
| YNumber string
| YString string
| YSequence "yaml list"
| YMapping "(yaml \<times> yaml) list"
| YTagged string yaml

fun value_kind :: "yaml \<Rightarrow> string" where
  "value_kind YNull = ''null''"
| "value_kind (YBool _) = ''bool''"
| "value_kind (YNumber _) = ''number''"
| "value_kind (YString _) = ''string''"
| "value_kind (YSequence _) = ''sequence''"
| "value_kind (YMapping _) = ''mapping''"
| "value_kind (YTagged _ _) = ''tagged''"

definition parse_rendered :: "(string \<Rightarrow> (string, yaml) outcome) \<Rightarrow> string \<Rightarrow> (package_error, yaml list) outcome" where
  "parse_rendered from_yaml text_in =
     obind (omap_err YamlParse (from_yaml text_in)) (\<lambda>top.
       case top of
         YMapping m \<Rightarrow>
           (case map_of m (YString ''resources'') of
              None \<Rightarrow> Err MissingResources
            | Some (YSequence s) \<Rightarrow> Ok s
            | Some other \<Rightarrow> Err (ResourcesWrongShape (value_kind other)))
       | _ \<Rightarrow> Err (TopLevelWrongShape (value_kind top)))"

section \<open>Lint and options\<close>

record kcl_pos =
  kp_filename :: string
  kp_line :: int
  kp_column :: int

record kcl_error =
  ke_level :: string
  ke_code :: string
  ke_messages :: "(string \<times> kcl_pos option) list"

record lint_issue =
  li_level :: string
  li_code :: string
  li_message :: string
  li_file :: "string option"
  li_line :: "int option"
  li_column :: "int option"

definition issue_of :: "kcl_error \<Rightarrow> string \<times> kcl_pos option \<Rightarrow> lint_issue" where
  "issue_of e = (\<lambda>(msg, p).
     let pos = (case p of Some q \<Rightarrow> q | None \<Rightarrow> \<lparr>kp_filename = [], kp_line = 0, kp_column = 0\<rparr>)
     in \<lparr>li_level = ke_level e, li_code = ke_code e, li_message = msg,
         li_file = (if kp_filename pos \<noteq> [] then Some (kp_filename pos) else None),
         li_line = (if 0 < kp_line pos then Some (kp_line pos) else None),
         li_column = (if 0 < kp_column pos then Some (kp_column pos) else None)\<rparr>)"

definition run_parse_program :: "(string, kcl_error list) outcome \<Rightarrow> (package_error, lint_issue list) outcome" where
  "run_parse_program r =
     obind (omap_err KclEval r) (\<lambda>es. Ok (concat (map (\<lambda>e. map (issue_of e) (ke_messages e)) es)))"

definition lint_kcl ::
  "world \<Rightarrow> (string \<Rightarrow> string \<Rightarrow> (string, kcl_error list) outcome) \<Rightarrow> path
     \<Rightarrow> (package_error, lint_issue list) outcome"
where
  "lint_kcl w parse_program p =
     obind (omap_err (PackageIo p) (read_to_string w p)) (\<lambda>src.
       run_parse_program (parse_program (path_str p) src))"

section \<open>Facts\<close>

lemma eval_result_Ok: "eval_result r = Ok y \<longleftrightarrow> r = Ok (y, [])"
  by (auto simp: eval_result_def outcome_simps split: if_splits)

lemma parse_rendered_Ok:
  "parse_rendered from_yaml t = Ok rs \<longleftrightarrow>
     (\<exists>m. from_yaml t = Ok (YMapping m) \<and> map_of m (YString ''resources'') = Some (YSequence rs))"
proof (cases "from_yaml t")
  case (Ok top)
  show ?thesis
  proof (cases top)
    case (YMapping m)
    with Ok show ?thesis by (cases "map_of m (YString ''resources'')")
      (auto simp: parse_rendered_def split: yaml.splits)
  qed (simp_all add: parse_rendered_def Ok)
qed (simp_all add: parse_rendered_def)

lemma load_package_Ok:
  "load_package w p = Ok pk \<longleftrightarrow> (\<exists>src. read_to_string w p = Ok src
     \<and> pk = \<lparr>pk_path = (case canonicalize w p of Ok c \<Rightarrow> c | _ \<Rightarrow> p), pk_source = src\<rparr>)"
  by (auto simp: load_package_def split: outcome.splits)

text \<open>The mounted names are distinct unless a dependency is called like one of the packages of the host.\<close>

lemma external_pkgs_distinct:
  assumes "bt_inv kcl"
  shows "distinct (map fst (external_pkgs root charts pkgs kcl))
    \<longleftrightarrow> ''akua'' \<notin> dom (bt_get kcl) \<and> (charts \<noteq> None \<longrightarrow> ''charts'' \<notin> dom (bt_get kcl))
      \<and> (pkgs \<noteq> None \<longrightarrow> ''pkgs'' \<notin> dom (bt_get kcl))"
proof -
  have names: "map fst (map (\<lambda>(name, p). (name, path_str p)) kcl) = bt_keys kcl"
    by (simp add: bt_keys_def comp_def split_def)
  have "distinct (bt_keys kcl)" using bt_keys_sorted [OF assms] by (simp add: strict_sorted_iff)
  then show ?thesis
    using bt_keys_dom [of kcl] names
    by (auto simp: external_pkgs_def comp_def split_def bt_keys_def split: option.splits)
qed

end
