(* ===== verification/PkgRender.thy ===== *)
theory PkgRender
  imports PackageK
begin

text \<open>
  \<open>pkg_render.rs\<close> with \<open>PackageK::render_opts\<close>: a package that renders another one through the plugin
  \<open>pkg.render\<close>, evaluated by the same evaluator on a deeper render stack. A call first decides between an
  answer and a nested evaluation (\<open>pkg_render_begin\<close>); \<open>exec\<close> runs an evaluation to its end, if it has one. The state is
  the world, the log of the HTTP client, the number of times the clock was read, the temporary directories of
  generated packages that exist, innermost first, and whether this process has written its copy of the
  embedded standard library, which it never removes. The world is what lies outside those directories. A
  result of \<open>None\<close> comes from the bound on git trees, or from an evaluator that never returns.
\<close>

section \<open>Environment and state\<close>

record ('vk, 'sk, 'sg, 'v, 'r, 'g) render_env =
  re_plugins :: plugin_env
  re_stdlib :: stdlib_env
  re_resolver :: "('vk, 'sk, 'sg, 'v, 'r, 'g) resolver_env"
  re_manifest_toml :: "string \<Rightarrow> (string, manifest) outcome"
  re_lock_toml :: "string \<Rightarrow> (string, akua_lock) outcome"
  re_show_manifest :: "manifest_load_error \<Rightarrow> string"
  re_show_chart :: "chart_error \<Rightarrow> string"
  re_clock :: "nat \<Rightarrow> nat"
  re_yaml_of_json :: "json \<Rightarrow> (string, yaml) outcome"
  re_json_of_yaml :: "yaml \<Rightarrow> (string, json) outcome"
  re_json_text :: "yaml \<Rightarrow> (string, string) outcome"
  re_from_yaml :: "string \<Rightarrow> (string, yaml) outcome"
  re_kcl :: "world \<Rightarrow> exec_args \<Rightarrow> generated option \<Rightarrow> generated option \<Rightarrow> kcl_run"
  re_stdlib_root :: string
  re_charts_dir :: string
  re_pkgs_dir :: string
  re_panic_message :: string

record rstate =
  rs_world :: world
  rs_net :: net
  rs_ticks :: nat
  rs_temp :: "generated list"
  rs_stdlib :: bool

section \<open>The dependencies of a composed package\<close>

definition oci_digests :: "akua_lock \<Rightarrow> (string, string) btree" where
  "oci_digests lock = fold (\<lambda>p. bt_insert (lp_name p) (lp_digest p)) (filter lp_is_oci (packages lock)) []"

definition locked_digests ::
  "('vk, 'sk, 'sg, 'v, 'r, 'g) render_env \<Rightarrow> world \<Rightarrow> path \<Rightarrow> (string, string) btree"
where
  "locked_digests env w workspace =
     (case load_lock (re_lock_toml env) w workspace of Ok lock \<Rightarrow> oci_digests lock | _ \<Rightarrow> [])"

definition options_of :: "resolver_context \<Rightarrow> (string, string) btree \<Rightarrow> resolver_options" where
  "options_of ctx digests =
     \<lparr>offline = ctx_offline ctx, opt_cache_root = ctx_cache_root ctx, expected_digests = digests,
      cosign_public_key_pem = ctx_cosign_key ctx, reject_replace = ctx_reject_replace ctx,
      opt_auth = ctx_auth ctx\<rparr>"

definition workspace_of :: "path \<Rightarrow> path" where
  "workspace_of p = (case parent p of Some d \<Rightarrow> d | None \<Rightarrow> [CurDir])"

text \<open>A resolution as a step of the state; one that fails leaves the world as it was.\<close>

definition resolve_step ::
  "('vk, 'sk, 'sg, 'v::linorder, 'r, 'g) render_env \<Rightarrow> manifest \<Rightarrow> path \<Rightarrow> resolver_options \<Rightarrow> rstate
     \<Rightarrow> ((chart_error, resolved_charts) outcome \<times> rstate) option"
where
  "resolve_step env m workspace opts s =
     (case resolve_with_options (re_resolver env) m workspace opts (rs_world s) (rs_net s) of
        None \<Rightarrow> None
      | Some (Ok (charts, w), n) \<Rightarrow> Some (Ok charts, s\<lparr>rs_world := w, rs_net := n\<rparr>)
      | Some (Err e, n) \<Rightarrow> Some (Err e, s\<lparr>rs_net := n\<rparr>)
      | Some (Panic, n) \<Rightarrow> Some (Panic, s\<lparr>rs_net := n\<rparr>))"

definition resolve_child_charts ::
  "('vk, 'sk, 'sg, 'v::linorder, 'r, 'g) render_env \<Rightarrow> render_stack \<Rightarrow> path \<Rightarrow> rstate
     \<Rightarrow> ((string, resolved_charts) outcome \<times> rstate) option"
where
  "resolve_child_charts env stack target s =
     (let w = rs_world s; workspace = workspace_of target
      in case load_manifest (re_manifest_toml env) w workspace of
           Err (ManifestMissing _) \<Rightarrow> Some (Ok [], s)
         | Err e \<Rightarrow> Some (Err (''loading child akua.toml: '' @ re_show_manifest env e), s)
         | Panic \<Rightarrow> Some (Panic, s)
         | Ok m \<Rightarrow>
             map_option (\<lambda>(r, s). (omap_err (\<lambda>e. ''resolving child deps: '' @ re_show_chart env e) r, s))
               (resolve_step env m workspace
                  (options_of (top_frame_resolver stack) (locked_digests env w workspace)) s))"

section \<open>One evaluation\<close>

text \<open>
  \<open>render_opts\<close> after its scope is entered: the generated packages, then the run of the evaluator. The
  directories of the generated packages are there during the run and are removed after it.
\<close>

definition push_temp :: "generated list \<Rightarrow> rstate \<Rightarrow> rstate" where
  "push_temp tmp s = s\<lparr>rs_temp := tmp @ rs_temp s, rs_stdlib := True\<rparr>"

definition pop_temp :: "generated list \<Rightarrow> rstate \<Rightarrow> rstate" where
  "pop_temp tmp s = s\<lparr>rs_temp := drop (length tmp) (rs_temp s)\<rparr>"

definition temp_dirs :: "generated option \<Rightarrow> generated option \<Rightarrow> generated list" where
  "temp_dirs charts_tmp pkgs_tmp =
     (case pkgs_tmp of Some d \<Rightarrow> [d] | None \<Rightarrow> []) @ (case charts_tmp of Some d \<Rightarrow> [d] | None \<Rightarrow> [])"

definition eval_error :: "string \<Rightarrow> io_error \<Rightarrow> package_error" where
  "eval_error what e = KclEval (what @ '': '' @ io_msg e)"

definition begin_eval ::
  "('vk, 'sk, 'sg, 'v, 'r, 'g) render_env \<Rightarrow> world \<Rightarrow> package_k \<Rightarrow> yaml \<Rightarrow> resolved_charts
     \<Rightarrow> (package_error, generated list \<times> kcl_run) outcome"
where
  "begin_eval env w pkg inputs charts =
     obind (omap_err (eval_error ''materializing charts pkg'')
              (materialize_charts_if_any (re_stdlib env) w charts)) (\<lambda>charts_tmp.
     obind (omap_err InputJson (re_json_text env inputs)) (\<lambda>input_json.
     obind (omap_err (eval_error ''materialize akua-package stubs'')
              (materialize_pkg_stubs_if_any (re_stdlib env) w charts)) (\<lambda>pkgs_tmp.
     Ok (temp_dirs charts_tmp pkgs_tmp,
         re_kcl env w
           (eval_args (re_stdlib_root env) (pk_path pkg) (pk_source pkg) input_json
              (map_option (\<lambda>_. re_charts_dir env) charts_tmp)
              (map (\<lambda>(name, c). (name, abs_path c)) (kcl_pkgs charts))
              (map_option (\<lambda>_. re_pkgs_dir env) pkgs_tmp))
           charts_tmp pkgs_tmp))))"

definition finish_eval ::
  "('vk, 'sk, 'sg, 'v, 'r, 'g) render_env \<Rightarrow> (string, string \<times> string) outcome \<Rightarrow> (package_error, yaml list) outcome"
where
  "finish_eval env r = obind (eval_result r) (parse_rendered (re_from_yaml env))"

section \<open>\<open>pkg.render\<close>\<close>

definition err :: "string \<Rightarrow> string" where
  "err msg = ''pkg.render: '' @ msg"

definition err_at :: "path \<Rightarrow> string \<Rightarrow> string" where
  "err_at target msg = ''pkg.render('' @ path_str target @ ''): '' @ msg"

definition resolve_package_file :: "world \<Rightarrow> path \<Rightarrow> path" where
  "resolve_package_file w resolved = (if is_dir w resolved then child resolved ''package.k'' else resolved)"

definition alias_hint :: "string list \<Rightarrow> string" where
  "alias_hint known =
     (if known = [] then ''none '' @ em_dash @ '' declare it under `[dependencies]` in akua.toml''
      else ''known: '' @ join_with '', '' known)"

definition resolve_by_alias :: "world \<Rightarrow> render_stack \<Rightarrow> string \<Rightarrow> (string, path) outcome" where
  "resolve_by_alias w stack alias_name =
     (case resolve_pkg_alias stack alias_name of
        Some dir \<Rightarrow> Ok (resolve_package_file w dir)
      | None \<Rightarrow> Err (err (''package '' @ backtick alias_name
          @ '' is not in the current Package's dependencies ('' @ alias_hint (current_pkg_aliases stack) @ '')'')))"

definition no_alias_error :: string where
  "no_alias_error = err (''set `package = '' @ dquoted ''<dep-alias>'' @ ''` '' @ em_dash
     @ '' declare the sub-package under `[dependencies]` in akua.toml and compose it by alias (filesystem paths are not allowed in composition)'')"

definition pkg_render_target ::
  "('vk, 'sk, 'sg, 'v, 'r, 'g) render_env \<Rightarrow> world \<Rightarrow> render_stack \<Rightarrow> json \<Rightarrow> (string, path \<times> yaml) outcome"
where
  "pkg_render_target env w stack args =
     obind (extract_options_arg args ''pkg.render'' ''pkg.Render'') (\<lambda>opts.
     let inputs_json = (case bt_get opts ''inputs'' of Some v \<Rightarrow> v | None \<Rightarrow> JNull)
     in obind (omap_err (\<lambda>e. err (''inputs: '' @ e)) (re_yaml_of_json env inputs_json)) (\<lambda>inputs.
        obind (case str_option opts ''package'' of
                 Some alias_name \<Rightarrow> resolve_by_alias w stack alias_name
               | None \<Rightarrow> Err no_alias_error) (\<lambda>target. Ok (target, inputs))))"

text \<open>The guards, in the order of the code; the clock is read only when a deadline is set.\<close>

definition out_of_time ::
  "('vk, 'sk, 'sg, 'v, 'r, 'g) render_env \<Rightarrow> budget \<Rightarrow> rstate \<Rightarrow> bool \<times> rstate"
where
  "out_of_time env b s =
     (case deadline b of
        None \<Rightarrow> (False, s)
      | Some d \<Rightarrow> (d \<le> re_clock env (rs_ticks s), s\<lparr>rs_ticks := Suc (rs_ticks s)\<rparr>))"

definition cycle_msg :: string where
  "cycle_msg = ''cycle detected '' @ em_dash @ '' already on the render stack''"

definition depth_msg :: "nat \<Rightarrow> string" where
  "depth_msg n = ''render depth limit ('' @ show_nat n @ '') exceeded '' @ em_dash @ '' likely composition runaway''"

definition deadline_msg :: string where
  "deadline_msg = ''wall-clock budget exhausted in nested render''"

datatype call =
  Reply "(string, json) outcome"
| Enter path render_stack "generated list" kcl_run

definition pkg_render_begin ::
  "('vk, 'sk, 'sg, 'v::linorder, 'r, 'g) render_env \<Rightarrow> render_stack \<Rightarrow> json \<Rightarrow> rstate \<Rightarrow> (call \<times> rstate) option"
where
  "pkg_render_begin env stack args s =
     (case pkg_render_target env (rs_world s) stack args of
        Err e \<Rightarrow> Some (Reply (Err e), s)
      | Panic \<Rightarrow> Some (Reply Panic, s)
      | Ok (target, inputs) \<Rightarrow>
          (let pre = pre_check stack target;
               reply = (\<lambda>msg s. Some (Reply (Err (err_at target msg)), s))
           in if pc_cycle pre then reply cycle_msg s
              else if max_depth (pc_budget pre) \<le> pc_depth pre then reply (depth_msg (max_depth (pc_budget pre))) s
              else case out_of_time env (pc_budget pre) s of (expired, s) \<Rightarrow>
                if expired then reply deadline_msg s
                else case load_package (rs_world s) target of
                  Err e \<Rightarrow> reply (show_package_error e) s
                | Panic \<Rightarrow> Some (Reply Panic, s)
                | Ok pkg \<Rightarrow>
                    (case resolve_child_charts env stack target s of
                       None \<Rightarrow> None
                     | Some (Err e, s) \<Rightarrow> reply e s
                     | Some (Panic, s) \<Rightarrow> Some (Reply Panic, s)
                     | Some (Ok charts, s) \<Rightarrow>
                         (case begin_eval env (rs_world s) pkg inputs charts of
                            Err e \<Rightarrow> reply (show_package_error e) s
                          | Panic \<Rightarrow> Some (Reply Panic, s)
                          | Ok (tmp, run) \<Rightarrow>
                              Some (Enter target (enter_for_render (rs_world s) (pk_path pkg) charts False stack) tmp run, s)))))"

fun all_json :: "('vk, 'sk, 'sg, 'v, 'r, 'g) render_env \<Rightarrow> path \<Rightarrow> yaml list \<Rightarrow> (string, json list) outcome" where
  "all_json env target [] = Ok []"
| "all_json env target (y # ys) =
     obind (omap_err (err_at target) (re_json_of_yaml env y)) (\<lambda>v.
     obind (all_json env target ys) (\<lambda>vs. Ok (v # vs)))"

definition pkg_render_end ::
  "('vk, 'sk, 'sg, 'v, 'r, 'g) render_env \<Rightarrow> path \<Rightarrow> (string, string \<times> string) outcome \<Rightarrow> (string, json) outcome"
where
  "pkg_render_end env target r =
     obind (omap_err (\<lambda>e. err_at target (show_package_error e)) (finish_eval env r)) (\<lambda>ys.
     obind (all_json env target ys) (\<lambda>vs. Ok (JArray vs)))"

section \<open>The guards hold when a nested render starts\<close>

lemma out_of_time_state:
  "out_of_time env b s = (expired, s') \<Longrightarrow> rs_world s' = rs_world s \<and> rs_net s' = rs_net s
     \<and> (\<not> expired \<longrightarrow> (case deadline b of Some d \<Rightarrow> re_clock env (rs_ticks s) < d | None \<Rightarrow> True))"
  by (auto simp: out_of_time_def split: option.splits)

lemma pkg_render_begin_Enter:
  assumes "pkg_render_begin env stack args s = Some (Enter target stack' tmp run, s')"
  obtains inputs s1 pkg charts where
    "pkg_render_target env (rs_world s) stack args = Ok (target, inputs)"
    and "\<not> is_rendering stack target" and "length stack < max_depth (top_frame_budget stack)"
    and "out_of_time env (top_frame_budget stack) s = (False, s1)"
    and "load_package (rs_world s1) target = Ok pkg"
    and "resolve_child_charts env stack target s1 = Some (Ok charts, s')"
    and "begin_eval env (rs_world s') pkg inputs charts = Ok (tmp, run)"
    and "stack' = enter_for_render (rs_world s') (pk_path pkg) charts False stack"
proof -
  obtain inputs where t: "pkg_render_target env (rs_world s) stack args = Ok (target, inputs)"
    and cyc: "\<not> is_rendering stack target" and depth: "\<not> max_depth (top_frame_budget stack) \<le> length stack"
    using assms by (auto simp: pkg_render_begin_def pre_check_def is_rendering_def Let_def
        split: outcome.splits if_splits prod.splits option.splits)
  obtain expired s1 where o: "out_of_time env (top_frame_budget stack) s = (expired, s1)" by fastforce
  from assms t cyc depth o have e: "\<not> expired"
    by (auto simp: pkg_render_begin_def pre_check_def is_rendering_def Let_def)
  with assms t cyc depth o obtain pkg where l: "load_package (rs_world s1) target = Ok pkg"
    by (cases "load_package (rs_world s1) target")
      (auto simp: pkg_render_begin_def pre_check_def is_rendering_def Let_def)
  have "(case resolve_child_charts env stack target s1 of
      None \<Rightarrow> None
    | Some (Err e, s) \<Rightarrow> Some (Reply (Err (err_at target e)), s)
    | Some (Panic, s) \<Rightarrow> Some (Reply Panic, s)
    | Some (Ok charts, s) \<Rightarrow>
        (case begin_eval env (rs_world s) pkg inputs charts of
           Err e \<Rightarrow> Some (Reply (Err (err_at target (show_package_error e))), s)
         | Panic \<Rightarrow> Some (Reply Panic, s)
         | Ok (tmp, run) \<Rightarrow> Some (Enter target (enter_for_render (rs_world s) (pk_path pkg) charts False stack) tmp run, s)))
    = Some (Enter target stack' tmp run, s')"
    using assms t cyc depth o e l by (simp add: pkg_render_begin_def pre_check_def is_rendering_def Let_def)
  then obtain charts where "resolve_child_charts env stack target s1 = Some (Ok charts, s')"
    "begin_eval env (rs_world s') pkg inputs charts = Ok (tmp, run)"
    "stack' = enter_for_render (rs_world s') (pk_path pkg) charts False stack"
    by (auto split: option.splits outcome.splits prod.splits)
  with that t cyc depth o e l show thesis by auto
qed

lemma pkg_render_begin_deeper:
  assumes "pkg_render_begin env stack args s = Some (Enter target stack' tmp run, s')"
  shows "\<exists>f. stack' = f # stack \<and> fr_budget f = top_frame_budget stack
    \<and> fr_resolver f = top_frame_resolver stack \<and> \<not> fr_strict f
    \<and> length stack < max_depth (top_frame_budget stack)"
  using assms by (rule pkg_render_begin_Enter) (auto simp: enter_for_render_def enter_full_def)

section \<open>Evaluation\<close>

text \<open>
  A nested run has less of the depth budget left. The evaluator itself may spin, which no budget stops on the
  host: then \<open>exec\<close> has no result. A panic of a handler is caught at the bridge.
\<close>

definition depth_left :: "render_stack \<Rightarrow> nat" where
  "depth_left stack = max_depth (top_frame_budget stack) - length stack"

lemma pkg_render_begin_depth:
  assumes "pkg_render_begin env stack args s = Some (Enter target stack' tmp run, s')"
  shows "depth_left stack' < depth_left stack"
  using pkg_render_begin_deeper [OF assms] by (auto simp: depth_left_def top_frame_budget_def)

partial_function (option) exec ::
  "('vk, 'sk, 'sg, 'v::linorder, 'r, 'g) render_env \<Rightarrow> registry \<Rightarrow> render_stack \<Rightarrow> kcl_run \<Rightarrow> rstate
     \<Rightarrow> ((string, string \<times> string) outcome \<times> rstate) option"
where
  "exec env reg stack run s =
     (case run of
        KclReturns r \<Rightarrow> Some (r, s)
      | KclSteps rest \<Rightarrow> exec env reg stack rest s
      | KclCalls m args_json kwargs_json cont \<Rightarrow>
          (let answer = bridge_response (re_plugins env) (re_panic_message env)
           in case lookup_handler (re_plugins env) reg m args_json kwargs_json of
                Err e \<Rightarrow> exec env reg stack (cont (answer (Err e))) s
              | Panic \<Rightarrow> exec env reg stack (cont (answer Panic)) s
              | Ok (HelmTemplate, args, _) \<Rightarrow>
                  exec env reg stack (cont (answer (helm_template (re_plugins env) (rs_world s) stack args))) s
              | Ok (KustomizeBuild, args, _) \<Rightarrow>
                  exec env reg stack (cont (answer (kustomize_build (re_plugins env) (rs_world s) stack args))) s
              | Ok (PkgRender, args, _) \<Rightarrow>
                  (case pkg_render_begin env stack args s of
                     None \<Rightarrow> None
                   | Some (Reply r, s1) \<Rightarrow> exec env reg stack (cont (answer r)) s1
                   | Some (Enter target stack1 tmp run1, s1) \<Rightarrow>
                       Option.bind (exec env reg stack1 run1 (push_temp tmp s1)) (\<lambda>(r, s2).
                         exec env reg stack (cont (answer (pkg_render_end env target r))) (pop_temp tmp s2)))))"

lemma exec_simps [simp]:
  "exec env reg stack (KclReturns r) s = Some (r, s)"
  "exec env reg stack (KclSteps rest) s = exec env reg stack rest s"
  by (subst exec.simps, simp)+

end
