(* ===== verification/RenderSpec.thy ===== *)
theory RenderSpec
  imports PkgRender ResolverSpec
begin

text \<open>
  What holds of every composition of packages: the stacks a render can have, the guards of
  \<open>pkg.render\<close>, what an offline evaluation leaves untouched and when it returns, the aliases a package sees,
  and what is pinned.
\<close>

section \<open>The stacks of a render\<close>

text \<open>
  One nested render opened on top of a stack, and the stacks a render with the frame \<open>root\<close> can have.
\<close>

inductive opens ::
  "('vk, 'sk, 'sg, 'v::linorder, 'r, 'g) render_env \<Rightarrow> render_stack \<Rightarrow> render_stack \<Rightarrow> bool" for env
where
  "pkg_render_begin env stack args s = Some (Enter target stack' tmp run, s') \<Longrightarrow> opens env stack stack'"

inductive_cases opensE: "opens env stack stack'"

inductive render_stacks ::
  "('vk, 'sk, 'sg, 'v::linorder, 'r, 'g) render_env \<Rightarrow> render_frame \<Rightarrow> render_stack \<Rightarrow> bool" for env root
where
  outermost: "render_stacks env root [root]"
| nested: "render_stacks env root stack \<Longrightarrow> opens env stack stack' \<Longrightarrow> render_stacks env root stack'"

lemma opens_frame:
  assumes "opens env stack stack'"
  obtains f where "stack' = f # stack" "fr_budget f = top_frame_budget stack"
    "fr_resolver f = top_frame_resolver stack" "\<not> fr_strict f" "length stack < max_depth (top_frame_budget stack)"
  using assms by (rule opensE) (auto dest!: pkg_render_begin_deeper)

text \<open>
  C7. Whatever packages compose: no stack is deeper than the budget allows, and every frame carries the
  budget and the resolver posture of the outermost one. Strictness is not inherited: every nested frame
  is lenient, whatever the root asked for.
\<close>

theorem render_stacks_invariant:
  assumes "render_stacks env root stack"
  shows "length stack \<le> max 1 (max_depth (fr_budget root)) \<and> last stack = root
    \<and> list_all (\<lambda>f. fr_budget f = fr_budget root \<and> fr_resolver f = fr_resolver root) stack
    \<and> list_all (\<lambda>f. \<not> fr_strict f) (butlast stack)"
  using assms
proof (induction rule: render_stacks.induct)
  case outermost
  show ?case by simp
next
  case (nested stack stack')
  from nested(2) obtain f where f: "stack' = f # stack" "fr_budget f = top_frame_budget stack"
    "fr_resolver f = top_frame_resolver stack" "\<not> fr_strict f" "length stack < max_depth (top_frame_budget stack)"
    by (rule opens_frame)
  from nested(1) have "stack \<noteq> []" by (induction rule: render_stacks.induct) (auto elim: opens_frame)
  then obtain g gs where stack: "stack = g # gs" by (cases stack) auto
  with nested(3) f show ?case by (auto simp: top_frame_budget_def top_frame_resolver_def)
qed

text \<open>A package with one dependency, rendered in a world that holds its source.\<close>

definition child_dir :: path where "child_dir = [RootDir, Normal ''ws'', Normal ''child'']"

definition child_world :: world where
  "child_world = (text_world [])\<lparr>
     read_to_string := (\<lambda>p. if p = child child_dir ''package.k'' then Ok ''resources = []'' else Err not_found),
     is_dir := (\<lambda>p. p = child_dir)\<rparr>"

definition child_state :: rstate where
  "child_state = \<lparr>rs_world = child_world, rs_net = fresh_net, rs_ticks = 0, rs_temp = [], rs_stdlib = False\<rparr>"

definition root_frame :: render_frame where
  "root_frame =
     \<lparr>fr_package = [RootDir, Normal ''ws'', Normal ''package.k''], fr_allowed_roots = [child_dir], fr_strict = True,
      fr_budget = unbounded, fr_resolved_pkgs = [(''child'', child_dir)], fr_resolver = default_context\<rparr>"

definition child_args :: json where
  "child_args = JArray [JObject [(''package'', JString ''child'')]]"

definition toy_plugins :: plugin_env where
  "toy_plugins =
     \<lparr>json_parse = (\<lambda>_. Ok child_args), json_print = (\<lambda>_. []), yaml_of_map = (\<lambda>_. Ok []),
      yaml_docs = (\<lambda>_. [Ok (JObject [(''kind'', JString ''Pod'')]), Ok JNull]), utf8_error = (\<lambda>_. []),
      helm_render_dir = (\<lambda>_ _ _ _ _. Ok [(''a/NOTES.txt'', ''hi''), (''a/pod.yaml'', ''kind: Pod'')]),
      kustomize_render_dir = (\<lambda>_ _. Ok [])\<rparr>"

definition toy_render :: "(unit, unit, string, nat, nat, unit) render_env" where
  "toy_render =
     \<lparr>re_plugins = toy_plugins,
      re_stdlib = \<lparr>tmp_error = (\<lambda>_. None), values_schema = (\<lambda>_. Ok []), kcl_literal = (\<lambda>s. s)\<rparr>,
      re_resolver = toy_resolver, re_manifest_toml = (\<lambda>_. Err []), re_lock_toml = (\<lambda>_. Err []),
      re_show_manifest = (\<lambda>_. []), re_show_chart = (\<lambda>_. []), re_clock = (\<lambda>n. n),
      re_yaml_of_json = (\<lambda>_. Ok YNull), re_json_of_yaml = (\<lambda>_. Ok JNull), re_json_text = (\<lambda>_. Ok ''null''),
      re_from_yaml = (\<lambda>_. Ok (YMapping [(YString ''resources'', YSequence [YNull])])),
      re_kcl = (\<lambda>_ _ _ _. KclReturns (Ok (''resources: [null]'', []))),
      re_stdlib_root = ''/akua'', re_charts_dir = ''/charts'', re_pkgs_dir = ''/pkgs'', re_panic_message = []\<rparr>"

definition child_frame :: render_frame where
  "child_frame =
     \<lparr>fr_package = child child_dir ''package.k'', fr_allowed_roots = [], fr_strict = False,
      fr_budget = unbounded, fr_resolved_pkgs = [], fr_resolver = default_context\<rparr>"

definition enters_stack :: "(call \<times> rstate) option \<Rightarrow> render_stack \<Rightarrow> bool" where
  "enters_stack r stack \<longleftrightarrow> (case r of Some (Enter _ stack' _ _, _) \<Rightarrow> stack' = stack | _ \<Rightarrow> False)"

lemma enters_stack_opens: "enters_stack (pkg_render_begin env stack args s) stack' \<Longrightarrow> opens env stack stack'"
  by (auto simp: enters_stack_def intro: opens.intros split: option.splits prod.splits call.splits)

lemma child_opens: "opens toy_render [root_frame] [child_frame, root_frame]"
  by (rule enters_stack_opens [of _ _ child_args child_state]) code_simp

lemma render_stacks_invariant_witness:
  "render_stacks toy_render root_frame [child_frame, root_frame]
   \<and> length [child_frame, root_frame] \<le> max 1 (max_depth (fr_budget root_frame))
   \<and> fr_strict root_frame \<and> \<not> fr_strict child_frame"
proof -
  have r: "render_stacks toy_render root_frame [child_frame, root_frame]"
    by (rule render_stacks.nested [OF render_stacks.outermost child_opens])
  from render_stacks_invariant [OF r] r show ?thesis by (simp add: root_frame_def)
qed

lemma opens_depth: "opens env stack stack' \<Longrightarrow> depth_left stack' < depth_left stack"
  by (auto elim!: opensE dest: pkg_render_begin_depth)

lemma opens_chain_depth: "(opens env ^^ n) stack stack' \<Longrightarrow> depth_left stack' + n \<le> depth_left stack"
proof (induction n arbitrary: stack')
  case (Suc n)
  then obtain mid where "(opens env ^^ n) stack mid" "opens env mid stack'" by auto
  with Suc.IH [of mid] opens_depth [of env mid stack'] show ?case by simp
qed simp

text \<open>
  C8. Nested renders end: there is no infinite chain of them, and a chain is shorter than the budget.\<close>

theorem nested_renders_terminate:
  "wfp (\<lambda>deeper stack. opens env stack deeper)
   \<and> (\<forall>n stack. (opens env ^^ n) [root] stack \<longrightarrow> n < max 1 (max_depth (fr_budget root)))"
proof
  show "wfp (\<lambda>deeper stack. opens env stack deeper)"
    by (rule wfp_if_convertible_to_nat [of _ depth_left]) (rule opens_depth)
  have "n < max 1 (max_depth (fr_budget root))" if "(opens env ^^ n) [root] stack" for n stack
    using opens_chain_depth [OF that] by (auto simp: depth_left_def top_frame_budget_def)
  then show "\<forall>n stack. (opens env ^^ n) [root] stack \<longrightarrow> n < max 1 (max_depth (fr_budget root))" by blast
qed


lemma nested_renders_terminate_witness:
  "(opens toy_render ^^ 1) [root_frame] [child_frame, root_frame] \<and> (1::nat) < max 1 (max_depth (fr_budget root_frame))"
proof -
  have "(opens toy_render ^^ 1) [root_frame] [child_frame, root_frame]" using child_opens by (simp add: eq_OO)
  with nested_renders_terminate [of toy_render root_frame] show ?thesis by blast
qed

section \<open>The guards of \<open>pkg.render\<close>\<close>

definition refusal ::
  "('vk, 'sk, 'sg, 'v, 'r, 'g) render_env \<Rightarrow> render_stack \<Rightarrow> path \<Rightarrow> rstate \<Rightarrow> string option"
where
  "refusal env stack target s =
     (if is_rendering stack target then Some cycle_msg
      else if max_depth (top_frame_budget stack) \<le> length stack
      then Some (depth_msg (max_depth (top_frame_budget stack)))
      else case deadline (top_frame_budget stack) of
        Some d \<Rightarrow> if d \<le> re_clock env (rs_ticks s) then Some deadline_msg else None
      | None \<Rightarrow> None)"

definition clocked ::
  "('vk, 'sk, 'sg, 'v, 'r, 'g) render_env \<Rightarrow> render_stack \<Rightarrow> rstate \<Rightarrow> rstate"
where
  "clocked env stack s = snd (out_of_time env (top_frame_budget stack) s)"

lemma pkg_render_begin_refused:
  assumes "pkg_render_target env (rs_world s) stack args = Ok (target, inputs)"
    and "refusal env stack target s = Some msg"
  shows "\<exists>ticks. pkg_render_begin env stack args s = Some (Reply (Err (err_at target msg)), s\<lparr>rs_ticks := ticks\<rparr>)"
proof (cases "is_rendering stack target \<or> max_depth (top_frame_budget stack) \<le> length stack")
  case True
  have s: "s = s\<lparr>rs_ticks := rs_ticks s\<rparr>" by simp
  from True assms have "pkg_render_begin env stack args s = Some (Reply (Err (err_at target msg)), s)"
    by (auto simp: pkg_render_begin_def pre_check_def is_rendering_def refusal_def Let_def)
  then show ?thesis by (subst (asm) (2) s) (rule exI)
next
  case False
  with assms have "pkg_render_begin env stack args s
      = Some (Reply (Err (err_at target msg)), s\<lparr>rs_ticks := Suc (rs_ticks s)\<rparr>)"
    by (auto simp: pkg_render_begin_def pre_check_def is_rendering_def refusal_def out_of_time_def Let_def
        split: option.splits if_splits)
  then show ?thesis by (rule exI)
qed

lemma pkg_render_begin_admitted:
  assumes "pkg_render_target env (rs_world s) stack args = Ok (target, inputs)"
    and "refusal env stack target s = None"
  shows "pkg_render_begin env stack args s =
    (case load_package (rs_world s) target of
       Err e \<Rightarrow> Some (Reply (Err (err_at target (show_package_error e))), clocked env stack s)
     | Panic \<Rightarrow> Some (Reply Panic, clocked env stack s)
     | Ok pkg \<Rightarrow>
         (case resolve_child_charts env stack target (clocked env stack s) of
            None \<Rightarrow> None
          | Some (Err e, s) \<Rightarrow> Some (Reply (Err (err_at target e)), s)
          | Some (Panic, s) \<Rightarrow> Some (Reply Panic, s)
          | Some (Ok charts, s) \<Rightarrow>
              (case begin_eval env (rs_world s) pkg inputs charts of
                 Err e \<Rightarrow> Some (Reply (Err (err_at target (show_package_error e))), s)
               | Panic \<Rightarrow> Some (Reply Panic, s)
               | Ok (tmp, run) \<Rightarrow>
                   Some (Enter target (enter_for_render (rs_world s) (pk_path pkg) charts False stack) tmp run, s))))"
proof -
  obtain expired s1 where o: "out_of_time env (top_frame_budget stack) s = (expired, s1)" by fastforce
  with assms(2) have g: "\<not> is_rendering stack target" "\<not> max_depth (top_frame_budget stack) \<le> length stack" "\<not> expired"
    by (auto simp: refusal_def out_of_time_def split: if_splits option.splits)
  moreover have "rs_world s1 = rs_world s" using out_of_time_state [OF o] by simp
  moreover have c: "clocked env stack s = s1" by (simp add: clocked_def o)
  ultimately show ?thesis unfolding c
    using assms(1) o by (simp add: pkg_render_begin_def pre_check_def is_rendering_def Let_def)
qed

text \<open>
  C9. A call whose target is on the stack, whose stack is as deep as allowed, or that is out of time is
  answered with the error of that guard; nothing is loaded, resolved or sent. Any other call opens the
  nested render of its target exactly when the package file loads, its own dependencies resolve and its
  packages are generated; it is answered with an error exactly when one of the three fails, with the error
  of the first that does.
\<close>

theorem pkg_render_refuses:
  assumes "pkg_render_target env (rs_world s) stack args = Ok (target, inputs)"
  shows "(\<forall>msg. refusal env stack target s = Some msg \<longrightarrow>
      (\<exists>ticks. pkg_render_begin env stack args s = Some (Reply (Err (err_at target msg)), s\<lparr>rs_ticks := ticks\<rparr>)))
   \<and> (refusal env stack target s = None \<longrightarrow>
      (\<forall>t stack' tmp run s'. pkg_render_begin env stack args s = Some (Enter t stack' tmp run, s') \<longleftrightarrow>
         t = target \<and> (\<exists>pkg charts. load_package (rs_world s) target = Ok pkg
           \<and> resolve_child_charts env stack target (clocked env stack s) = Some (Ok charts, s')
           \<and> begin_eval env (rs_world s') pkg inputs charts = Ok (tmp, run)
           \<and> stack' = enter_for_render (rs_world s') (pk_path pkg) charts False stack))
    \<and> (\<forall>msg s'. pkg_render_begin env stack args s = Some (Reply (Err msg), s') \<longleftrightarrow>
         (\<exists>e. load_package (rs_world s) target = Err e \<and> msg = err_at target (show_package_error e)
            \<and> s' = clocked env stack s)
       \<or> (\<exists>pkg e. load_package (rs_world s) target = Ok pkg \<and> msg = err_at target e
            \<and> resolve_child_charts env stack target (clocked env stack s) = Some (Err e, s'))
       \<or> (\<exists>pkg charts e. load_package (rs_world s) target = Ok pkg
            \<and> resolve_child_charts env stack target (clocked env stack s) = Some (Ok charts, s')
            \<and> begin_eval env (rs_world s') pkg inputs charts = Err e \<and> msg = err_at target (show_package_error e)))
    \<and> (\<forall>v s'. pkg_render_begin env stack args s \<noteq> Some (Reply (Ok v), s')))"
  using pkg_render_begin_refused [OF assms] pkg_render_begin_admitted [OF assms]
  by (auto split: outcome.splits option.splits prod.splits)

definition busy_stack :: render_stack where
  "busy_stack = [child_frame\<lparr>fr_resolved_pkgs := [(''child'', child_dir)]\<rparr>, root_frame]"

lemma pkg_render_refuses_witness:
  "refusal toy_render busy_stack (child child_dir ''package.k'') child_state = Some cycle_msg
   \<and> (\<exists>ticks. pkg_render_begin toy_render busy_stack child_args child_state
       = Some (Reply (Err (err_at (child child_dir ''package.k'') cycle_msg)), child_state\<lparr>rs_ticks := ticks\<rparr>))
   \<and> refusal toy_render [root_frame] (child child_dir ''package.k'') child_state = None
   \<and> (\<exists>pkg charts s'. load_package child_world (child child_dir ''package.k'') = Ok pkg
        \<and> resolve_child_charts toy_render [root_frame] (child child_dir ''package.k'')
            (clocked toy_render [root_frame] child_state) = Some (Ok charts, s'))"
proof -
  let ?t = "child child_dir ''package.k''"
  have w: "rs_world child_state = child_world" by (simp add: child_state_def)
  have t: "pkg_render_target toy_render child_world busy_stack child_args = Ok (?t, YNull)"
    "pkg_render_target toy_render child_world [root_frame] child_args = Ok (?t, YNull)"
    by code_simp+
  have r: "refusal toy_render busy_stack ?t child_state = Some cycle_msg"
    "refusal toy_render [root_frame] ?t child_state = None"
    by code_simp+
  have "enters_stack (pkg_render_begin toy_render [root_frame] child_args child_state) [child_frame, root_frame]"
    by code_simp
  then obtain x tmp run s' where enter:
    "pkg_render_begin toy_render [root_frame] child_args child_state = Some (Enter x [child_frame, root_frame] tmp run, s')"
    by (auto simp: enters_stack_def split: option.splits prod.splits call.splits)
  note refuses = pkg_render_refuses [of toy_render child_state, unfolded w]
  from conjunct1 [OF refuses [OF t(1)], rule_format, OF r(1)] have 1: "\<exists>ticks. pkg_render_begin toy_render busy_stack child_args child_state
       = Some (Reply (Err (err_at ?t cycle_msg)), child_state\<lparr>rs_ticks := ticks\<rparr>)" .
  note free = conjunct1 [OF mp [OF conjunct2 [OF refuses [OF t(2)]] r(2)]]
  from iffD1 [OF free [rule_format] enter] have 2: "\<exists>pkg charts. load_package child_world ?t = Ok pkg
      \<and> resolve_child_charts toy_render [root_frame] ?t (clocked toy_render [root_frame] child_state) = Some (Ok charts, s')"
    by blast
  from 1 2 r show ?thesis by blast
qed

text \<open>
  The target of a call is compared as it is written, the frames hold canonical paths: through a
  \<open>package.k\<close> that is a symbolic link a package renders itself once more.
\<close>

theorem cycle_missed_through_symlink:
  assumes "pkg_render_target env (rs_world s) stack args = Ok (target, inputs)"
    and "\<not> is_rendering stack target" and "length stack < max_depth (top_frame_budget stack)"
    and "deadline (top_frame_budget stack) = None"
    and "read_to_string (rs_world s) target = Ok src" and "canonicalize (rs_world s) target = Ok real"
    and "is_rendering stack real"
    and "resolve_child_charts env stack target s = Some (Ok charts, s)"
    and "begin_eval env (rs_world s) \<lparr>pk_path = real, pk_source = src\<rparr> inputs charts = Ok (tmp, run)"
  shows "\<exists>f. pkg_render_begin env stack args s = Some (Enter target (f # stack) tmp run, s)
    \<and> fr_package f = real \<and> \<not> distinct (map fr_package (f # stack))"
proof -
  have "load_package (rs_world s) target = Ok \<lparr>pk_path = real, pk_source = src\<rparr>"
    using assms(5,6) by (simp add: load_package_def)
  then have "pkg_render_begin env stack args s
      = Some (Enter target (enter_for_render (rs_world s) real charts False stack) tmp run, s)"
    using assms by (simp add: pkg_render_begin_def pre_check_def is_rendering_def out_of_time_def Let_def)
  moreover have "real \<in> set (map fr_package stack)"
    using assms(7) by (auto simp: is_rendering_def list_ex_iff)
  ultimately show ?thesis by (simp add: enter_for_render_def enter_full_def)
qed

definition link_world :: world where
  "link_world = child_world\<lparr>canonicalize := (\<lambda>p. Ok (fr_package root_frame))\<rparr>"

lemma cycle_missed_through_symlink_witness:
  "\<exists>f tmp run. pkg_render_begin toy_render [root_frame] child_args (child_state\<lparr>rs_world := link_world\<rparr>)
       = Some (Enter (child child_dir ''package.k'') [f, root_frame] tmp run, child_state\<lparr>rs_world := link_world\<rparr>)
     \<and> fr_package f = fr_package root_frame"
proof -
  let ?s = "child_state\<lparr>rs_world := link_world\<rparr>" and ?target = "child child_dir ''package.k''"
  have w: "rs_world ?s = link_world" by simp
  have "pkg_render_target toy_render (rs_world ?s) [root_frame] child_args = Ok (?target, YNull)"
    unfolding w by code_simp
  moreover have "\<not> is_rendering [root_frame] ?target" "length [root_frame] < max_depth (top_frame_budget [root_frame])"
    "deadline (top_frame_budget [root_frame]) = None" by code_simp+
  moreover have "read_to_string (rs_world ?s) ?target = Ok ''resources = []''" unfolding w by code_simp
  moreover have "canonicalize (rs_world ?s) ?target = Ok (fr_package root_frame)" by (simp add: link_world_def)
  moreover have "is_rendering [root_frame] (fr_package root_frame)" by (simp add: is_rendering_def)
  moreover have "resolve_child_charts toy_render [root_frame] ?target ?s = Some (Ok [], ?s)"
  proof -
    have "(case load_manifest (re_manifest_toml toy_render) link_world (workspace_of ?target) of
        Err (ManifestMissing _) \<Rightarrow> True | _ \<Rightarrow> False)" by code_simp
    then show ?thesis unfolding resolve_child_charts_def Let_def w
      by (auto split: outcome.splits manifest_load_error.splits)
  qed
  moreover obtain tmp run where "begin_eval toy_render (rs_world ?s)
      \<lparr>pk_path = fr_package root_frame, pk_source = ''resources = []''\<rparr> YNull [] = Ok (tmp, run)"
    unfolding w by (simp add: begin_eval_def toy_render_def materialize_charts_if_any_def
        materialize_pkg_stubs_if_any_def helm_charts_def akua_pkgs_def kcl_pkgs_def)
  ultimately show ?thesis
    using cycle_missed_through_symlink [of toy_render ?s "[root_frame]" child_args ?target YNull] by blast
qed

section \<open>Offline renders\<close>

lemma resolve_child_charts_offline:
  assumes "ctx_offline (top_frame_resolver stack)"
  shows "\<exists>r. resolve_child_charts env stack target s = Some (r, s)"
proof -
  have "\<exists>r. resolve_step env m workspace (options_of (top_frame_resolver stack) ds) s = Some (r, s)" for m workspace ds
  proof -
    have "offline (options_of (top_frame_resolver stack) ds)" using assms by (simp add: options_of_def)
    from resolve_deps_offline [OF this, of "re_resolver env" workspace "m_dependencies m" "[]" "rs_world s" "rs_net s"]
    show ?thesis by (auto simp: resolve_step_def resolve_with_options_def split: outcome.splits)
  qed
  then show ?thesis
    unfolding resolve_child_charts_def Let_def
    by (auto split: outcome.splits manifest_load_error.splits)
qed

lemma out_of_time_ticks: "out_of_time env b s = (e, s1) \<Longrightarrow> \<exists>ticks. s1 = s\<lparr>rs_ticks := ticks\<rparr>"
  by (cases s) (auto simp: out_of_time_def split: option.splits)

lemma pkg_render_begin_offline:
  assumes "ctx_offline (top_frame_resolver stack)"
  shows "\<exists>c ticks. pkg_render_begin env stack args s = Some (c, s\<lparr>rs_ticks := ticks\<rparr>)"
proof -
  have same: "\<exists>ticks. s = s\<lparr>rs_ticks := ticks\<rparr>" by (cases s) auto
  obtain e s1 where o: "out_of_time env (top_frame_budget stack) s = (e, s1)" by fastforce
  with out_of_time_ticks obtain ticks where s1: "s1 = s\<lparr>rs_ticks := ticks\<rparr>" by blast
  show ?thesis
  proof (cases "pkg_render_target env (rs_world s) stack args")
    case (Ok ti)
    obtain target inputs where ti: "ti = (target, inputs)" by (cases ti)
    obtain r where "resolve_child_charts env stack target s1 = Some (r, s1)"
      using resolve_child_charts_offline [OF assms] by blast
    then show ?thesis
      using Ok ti o s1 same by (auto simp: pkg_render_begin_def pre_check_def Let_def split: outcome.splits)
  qed (use same in \<open>auto simp: pkg_render_begin_def\<close>)
qed

text \<open>Nothing is left behind but the embedded standard library: only the clock was read.\<close>

definition untouched :: "rstate \<Rightarrow> rstate \<Rightarrow> bool" where
  "untouched s s' \<longleftrightarrow> rs_world s' = rs_world s \<and> rs_net s' = rs_net s \<and> rs_temp s' = rs_temp s"

lemma untouched_refl [simp]: "untouched s s" by (simp add: untouched_def)

lemma untouched_trans: "untouched s s1 \<Longrightarrow> untouched s1 s2 \<Longrightarrow> untouched s s2"
  by (simp add: untouched_def)

lemma untouched_ticks [simp]: "untouched s (s\<lparr>rs_ticks := t\<rparr>)" by (simp add: untouched_def)

lemma untouched_temp: "untouched (push_temp tmp s) s' \<Longrightarrow> untouched s (pop_temp tmp s')"
  by (simp add: untouched_def push_temp_def pop_temp_def)

lemma untouched_nested:
  "untouched s s1 \<Longrightarrow> untouched (push_temp tmp s1) s2 \<Longrightarrow> untouched (pop_temp tmp s2) s3 \<Longrightarrow> untouched s s3"
  by (blast intro: untouched_trans untouched_temp)

lemma opened_offline:
  assumes "pkg_render_begin env stack args s = Some (Enter target stack' tmp run, s')"
    and "ctx_offline (top_frame_resolver stack)"
  shows "ctx_offline (top_frame_resolver stack')"
  using pkg_render_begin_deeper [OF assms(1)] assms(2) by (auto simp: top_frame_resolver_def)

lemma begin_untouched:
  "pkg_render_begin env stack args s = Some (c, s') \<Longrightarrow> ctx_offline (top_frame_resolver stack) \<Longrightarrow> untouched s s'"
  using pkg_render_begin_offline [of stack env args s] by auto

text \<open>An offline evaluation that returns has sent nothing and left every file as it was.\<close>

lemma exec_offline:
  assumes "exec env reg stack run s = Some (r, s')" and "ctx_offline (top_frame_resolver stack)"
  shows "untouched s s'"
proof -
  have "ctx_offline (top_frame_resolver stack) \<longrightarrow> untouched s (snd (r, s'))"
    apply (rule exec.raw_induct [where P = "\<lambda>env reg stack run s y.
        ctx_offline (top_frame_resolver stack) \<longrightarrow> untouched s (snd y)", OF _ assms(1)])
    subgoal premises prems for ex env reg stack run s y
      using prems(2)
      by (auto simp: Let_def bind_eq_Some_conv split: kcl_run.splits outcome.splits plugin.splits prod.splits
          option.splits call.splits dest!: prems(1) dest: begin_untouched opened_offline
          intro: untouched_trans [OF begin_untouched] untouched_nested [OF begin_untouched])
    done
  with assms(2) show ?thesis by simp
qed

text \<open>It returns if the evaluator does: on no package, and after no answer of a plugin, does it spin.\<close>

definition evaluator_halts :: "('vk, 'sk, 'sg, 'v, 'r, 'g) render_env \<Rightarrow> bool" where
  "evaluator_halts env \<longleftrightarrow> (\<forall>w args charts pkgs. halts (re_kcl env w args charts pkgs))"

lemma begin_halts:
  assumes "pkg_render_begin env stack args s = Some (Enter target stack' tmp run, s')" and "evaluator_halts env"
  shows "halts run"
proof -
  from assms(1) obtain inputs pkg charts where "begin_eval env (rs_world s') pkg inputs charts = Ok (tmp, run)"
    by (rule pkg_render_begin_Enter) blast
  with assms(2) show ?thesis by (auto simp: begin_eval_def evaluator_halts_def outcome_simps)
qed

lemma exec_returns:
  assumes "evaluator_halts env" and "halts run" and "ctx_offline (top_frame_resolver stack)"
  shows "exec env reg stack run s \<noteq> None"
  using assms(2,3)
proof (induction "depth_left stack" arbitrary: stack run s rule: less_induct)
  case less
  note deeper = less(1) and off = less(3)
  from less(2) show ?case
  proof (induction arbitrary: s rule: halts.induct)
    case (2 cont m args_json kwargs_json)
    note here = 2(2)
    show ?case
    proof (cases "\<exists>args kwargs. lookup_handler (re_plugins env) reg m args_json kwargs_json = Ok (PkgRender, args, kwargs)")
      case False
      with here show ?thesis
        by (subst exec.simps) (auto simp: Let_def split: outcome.splits plugin.splits prod.splits)
    next
      case True
      then obtain args kwargs where lk: "lookup_handler (re_plugins env) reg m args_json kwargs_json = Ok (PkgRender, args, kwargs)"
        by blast
      obtain c t where begin_c: "pkg_render_begin env stack args s = Some (c, s\<lparr>rs_ticks := t\<rparr>)"
        using pkg_render_begin_offline [OF off] by blast
      show ?thesis
      proof (cases c)
        case (Reply r)
        with lk begin_c here show ?thesis by (subst exec.simps) (simp add: Let_def)
      next
        case (Enter target stack1 tmp run1)
        note b = begin_c [unfolded Enter]
        have "exec env reg stack1 run1 (push_temp tmp (s\<lparr>rs_ticks := t\<rparr>)) \<noteq> None"
          by (rule deeper [OF pkg_render_begin_depth [OF b] begin_halts [OF b assms(1)] opened_offline [OF b off]])
        with lk b here show ?thesis by (subst exec.simps) (auto simp: Let_def)
      qed
    qed
  qed auto
qed

text \<open>The hypothesis on the evaluator is needed: one that spins is never stopped.\<close>

primcorec spinning_run :: kcl_run where
  "spinning_run = KclSteps spinning_run"

lemma spinning_run_never_returns: "exec env reg stack spinning_run s = None"
proof (rule ccontr)
  assume "exec env reg stack spinning_run s \<noteq> None"
  then obtain y where y: "exec env reg stack spinning_run s = Some y" by blast
  have "spinning_run \<noteq> spinning_run"
    apply (rule exec.raw_induct [where P = "\<lambda>env reg stack run s y. run \<noteq> spinning_run", OF _ y])
    subgoal premises prems for ex env reg stack run s y
      using prems(2) by (subst spinning_run.code) (auto dest: prems(1))
    done
  then show False by simp
qed

text \<open>
  An offline render sends no request and changes no file, however packages compose and whatever the
  evaluator calls; it returns when the evaluator does.
\<close>

theorem offline_render_touches_nothing:
  assumes "ctx_offline (top_frame_resolver stack)"
  shows "(\<forall>r s'. exec env reg stack run s = Some (r, s') \<longrightarrow> untouched s s')
    \<and> (evaluator_halts env \<and> halts run \<longrightarrow> exec env reg stack run s \<noteq> None)"
  using exec_offline [OF _ assms] exec_returns [OF _ _ assms] by blast

definition offline_frame :: render_frame where
  "offline_frame = root_frame\<lparr>fr_resolver := default_context\<lparr>ctx_offline := True\<rparr>\<rparr>"

definition composing_run :: kcl_run where
  "composing_run = KclCalls ''kcl_plugin.pkg.render'' [] [] (\<lambda>answer. KclReturns (Ok (''resources: []'', [])))"

lemma toy_render_halts: "evaluator_halts toy_render"
  by (simp add: evaluator_halts_def toy_render_def halts.intros)

lemma composing_run_halts: "halts composing_run"
  by (simp add: composing_run_def halts.intros)

lemma offline_render_touches_nothing_witness:
  "\<exists>r s'. exec toy_render (install_builtin_plugins []) [offline_frame] composing_run child_state = Some (r, s')
     \<and> rs_net s' = fresh_net"
proof -
  have "ctx_offline (top_frame_resolver [offline_frame])" by code_simp
  from offline_render_touches_nothing [OF this, of toy_render "install_builtin_plugins []" composing_run child_state]
  show ?thesis using toy_render_halts composing_run_halts by (auto simp: child_state_def untouched_def)
qed

section \<open>Well-formed frames\<close>

text \<open>
  What a frame promises to its readers: the aliases are a map, and every directory an alias leads to is
  one of the roots plugin paths may use.
\<close>

definition wf_frame :: "render_frame \<Rightarrow> bool" where
  "wf_frame f \<longleftrightarrow> bt_inv (fr_resolved_pkgs f) \<and> snd ` set (fr_resolved_pkgs f) \<subseteq> set (fr_allowed_roots f)"

lemma resolve_deps_bt_inv:
  "resolve_deps R root opts ds acc w n = Some (Ok (charts, w'), n') \<Longrightarrow> bt_inv acc \<Longrightarrow> bt_inv charts"
proof (induction ds arbitrary: acc w n)
  case (Cons d ds)
  then show ?case
    by (cases d) (auto split: option.splits outcome.splits dest!: Cons.IH [OF _ bt_inv_insert])
qed simp

lemma resolve_step_bt_inv:
  "resolve_step env m workspace opts s = Some (Ok charts, s') \<Longrightarrow> bt_inv charts"
  using resolve_deps_bt_inv [of "re_resolver env" workspace opts "m_dependencies m" "[]"]
  by (auto simp: resolve_step_def resolve_with_options_def bt_inv_def split: option.splits outcome.splits)

lemma resolve_child_charts_bt_inv:
  assumes "resolve_child_charts env stack target s = Some (Ok charts, s')"
  shows "bt_inv charts"
  using assms resolve_step_bt_inv unfolding resolve_child_charts_def Let_def
  by (auto simp: outcome_simps bt_inv_def split: outcome.splits manifest_load_error.splits dest!: resolve_step_bt_inv)

text \<open>
  The dependencies that were resolved are those of the manifest of that workspace, and the aliases of a
  frame are among them: a package composes what it declares itself, not what its caller declares.
\<close>

definition declared_charts ::
  "('vk, 'sk, 'sg, 'v, 'r, 'g) render_env \<Rightarrow> world \<Rightarrow> path \<Rightarrow> resolved_charts \<Rightarrow> bool"
where
  "declared_charts env w workspace charts \<longleftrightarrow>
     (case load_manifest (re_manifest_toml env) w workspace of
        Ok m \<Rightarrow> fst ` set charts \<subseteq> fst ` set (m_dependencies m) | _ \<Rightarrow> charts = [])"

definition declared_aliases ::
  "('vk, 'sk, 'sg, 'v, 'r, 'g) render_env \<Rightarrow> world \<Rightarrow> path \<Rightarrow> render_frame \<Rightarrow> bool"
where
  "declared_aliases env w workspace f \<longleftrightarrow>
     (case load_manifest (re_manifest_toml env) w workspace of
        Ok m \<Rightarrow> fst ` set (fr_resolved_pkgs f) \<subseteq> fst ` set (m_dependencies m) | _ \<Rightarrow> fr_resolved_pkgs f = [])"

lemma pkg_aliases_names: "fst ` set (pkg_aliases w charts) \<subseteq> fst ` set charts"
  by (auto simp: pkg_aliases_def intro: rev_image_eqI)

lemma declared_aliases_I:
  "declared_charts env w workspace charts \<Longrightarrow> fr_resolved_pkgs f = pkg_aliases w' charts
     \<Longrightarrow> declared_aliases env w workspace f"
  using pkg_aliases_names [of w' charts]
  by (auto simp: declared_charts_def declared_aliases_def pkg_aliases_def split: outcome.splits)

lemma resolve_deps_names:
  "resolve_deps R root opts ds acc w n = Some (Ok (charts, w'), n')
     \<Longrightarrow> fst ` set charts \<subseteq> fst ` set acc \<union> fst ` set ds"
proof (induction ds arbitrary: acc w n)
  case (Cons d ds)
  obtain name dep where d: "d = (name, dep)" by (cases d)
  from Cons.prems d obtain c w1 n1 where
    "resolve_deps R root opts ds (bt_insert name c acc) w1 n1 = Some (Ok (charts, w'), n')"
    by (auto split: option.splits outcome.splits)
  from Cons.IH [OF this] set_bt_insert_keys [of name c acc] show ?case by (auto simp: d)
qed simp

lemma resolve_step_names:
  assumes "resolve_step env m workspace opts s = Some (Ok charts, s')"
  shows "fst ` set charts \<subseteq> fst ` set (m_dependencies m)"
proof -
  from assms obtain w n where
    "resolve_deps (re_resolver env) workspace opts (m_dependencies m) [] (rs_world s) (rs_net s) = Some (Ok (charts, w), n)"
    by (auto simp: resolve_step_def resolve_with_options_def split: option.splits outcome.splits)
  from resolve_deps_names [OF this] show ?thesis by simp
qed

lemma resolve_child_charts_names:
  assumes "resolve_child_charts env stack target s = Some (Ok charts, s')"
  shows "declared_charts env (rs_world s) (workspace_of target) charts"
  using assms unfolding resolve_child_charts_def declared_charts_def Let_def
  by (auto simp: outcome_simps split: outcome.splits manifest_load_error.splits dest!: resolve_step_names)

lemma wf_enter_for_render:
  assumes "bt_inv charts"
  shows "\<exists>f. enter_for_render w package charts strict stack = f # stack \<and> wf_frame f"
proof -
  have "bt_inv (pkg_aliases w charts)"
    using assms by (auto simp: bt_inv_def pkg_aliases_def sorted_wrt_map split_def sorted_wrt_filter)
  moreover have "snd ` set (pkg_aliases w charts) \<subseteq> set (chart_roots charts)"
    by (auto simp: pkg_aliases_def chart_roots_def)
  ultimately show ?thesis by (simp add: enter_for_render_def enter_full_def wf_frame_def)
qed

lemma opened_frame:
  assumes "pkg_render_begin env stack args s = Some (Enter target stack' tmp run, s')"
  obtains f where "stack' = f # stack" "wf_frame f" "declared_aliases env (rs_world s) (workspace_of target) f"
  using assms
proof (rule pkg_render_begin_Enter)
  fix inputs s1 pkg charts
  assume o: "out_of_time env (top_frame_budget stack) s = (False, s1)"
    and c: "resolve_child_charts env stack target s1 = Some (Ok charts, s')"
    and st: "stack' = enter_for_render (rs_world s') (pk_path pkg) charts False stack"
  obtain f where f: "stack' = f # stack" "wf_frame f"
    using wf_enter_for_render [OF resolve_child_charts_bt_inv [OF c]] st by metis
  from st f(1) have "fr_resolved_pkgs f = pkg_aliases (rs_world s') charts"
    by (simp add: enter_for_render_def enter_full_def)
  moreover have "rs_world s1 = rs_world s" using out_of_time_state [OF o] by simp
  ultimately have "declared_aliases env (rs_world s) (workspace_of target) f"
    using declared_aliases_I resolve_child_charts_names [OF c] by metis
  with f show thesis by (rule that)
qed

lemma opens_wf:
  assumes "render_stacks env root stack" and "wf_frame root"
  shows "list_all wf_frame stack"
  using assms
proof (induction rule: render_stacks.induct)
  case (nested stack stack')
  from nested(2) obtain args s target tmp run s'
    where "pkg_render_begin env stack args s = Some (Enter target stack' tmp run, s')" by (rule opensE)
  then show ?case by (rule opened_frame) (use nested(3,4) in simp)
qed simp

section \<open>What is pinned\<close>

lemma oci_digests_Some:
  assumes "bt_get (oci_digests lock) name = Some d"
  shows "\<exists>p \<in> set (packages lock). lp_is_oci p \<and> lp_name p = name \<and> lp_digest p = d"
proof -
  have "bt_get (fold (\<lambda>p. bt_insert (lp_name p) (lp_digest p)) ps acc) name = Some d
    \<Longrightarrow> (\<exists>p \<in> set ps. lp_name p = name \<and> lp_digest p = d) \<or> bt_get acc name = Some d" for ps acc
    by (induction ps arbitrary: acc) (fastforce simp: bt_get_insert split: if_splits)+
  from this [of "filter lp_is_oci (packages lock)" "[]"] assms show ?thesis
    by (auto simp: oci_digests_def bt_get_def)
qed

lemma oci_digests_None:
  "list_all (\<lambda>p. lp_name p = name \<longrightarrow> \<not> lp_is_oci p) (packages lock) \<Longrightarrow> bt_get (oci_digests lock) name = None"
  using oci_digests_Some [of lock name] by (cases "bt_get (oci_digests lock) name") (auto simp: list_all_iff)

text \<open>
  C38. Renders take the digests of OCI entries only. A dependency without an OCI entry is resolved, online and
  offline, as if \<open>akua.lock\<close> were empty: nothing pins a git or Helm dependency, whatever the lock records for it.
  Offline, one that is neither replaced nor vendored is therefore refused, even from a filled cache.
\<close>

theorem render_ignores_git_and_helm_pins:
  assumes "list_all (\<lambda>p. lp_name p = name \<longrightarrow> \<not> lp_is_oci p) (packages lock)"
  shows "resolve_dep R root (options_of ctx (oci_digests lock)) name dep w n
      = resolve_dep R root (options_of ctx []) name dep w n
    \<and> (\<forall>git t r. ctx_offline ctx \<and> dep_replace dep = None \<and> dep_spec dep = Ok (SpecGit git t r)
          \<and> (dep_tag dep \<noteq> None \<or> dep_rev dep \<noteq> None)
          \<and> resolve_vendored R w name root (SpecGit git t r) = Ok None
        \<longrightarrow> resolve_dep R root (options_of ctx (oci_digests lock)) name dep w n
            = Some (Err (UnsupportedSource name SourceGit (needs_pin ''commit'')), n))
    \<and> (\<forall>repo chart version. ctx_offline ctx \<and> dep_replace dep = None
          \<and> dep_spec dep = Ok (SpecHelm repo chart version)
          \<and> resolve_vendored R w name root (SpecHelm repo chart version) = Ok None
        \<longrightarrow> resolve_dep R root (options_of ctx (oci_digests lock)) name dep w n
            = Some (Err (UnsupportedSource name SourceHelm (needs_pin ''digest'')), n))"
proof -
  let ?opts = "options_of ctx (oci_digests lock)" and ?none = "options_of ctx []"
  have get: "bt_get (Resolver.expected_digests ?opts) name = None" "bt_get (Resolver.expected_digests ?none) name = None"
    using oci_digests_None [OF assms] by (simp_all add: options_of_def bt_get_def)
  have source: "resolve_source R root ?opts name dep s w n = resolve_source R root ?none name dep s w n" for s
    using get by (cases s; cases "ctx_offline ctx"; cases "dep_ref_spec dep :: (chart_error, ref_spec) outcome") (simp_all add: resolve_source_def resolve_oci_def resolve_helm_def resolve_git_def
        expected_commit_def cache_root_for_def options_of_def Let_def)
  have same: "resolve_dep R root ?opts name dep w n = resolve_dep R root ?none name dep w n"
    unfolding resolve_dep_def source by (cases "dep_replace dep") (simp_all add: options_of_def)
  have dep: "resolve_dep R root ?opts name dep w n = resolve_source R root ?opts name dep s w n"
    if "dep_replace dep = None" "dep_spec dep = Ok s" "resolve_vendored R w name root s = Ok None" for s
    using that by (simp add: resolve_dep_def)
  have git: "resolve_source R root ?opts name dep (SpecGit git t r) w n
      = Some (Err (UnsupportedSource name SourceGit (needs_pin ''commit'')), n)"
    if "ctx_offline ctx" "dep_tag dep \<noteq> None \<or> dep_rev dep \<noteq> None" for git t r
  proof -
    have "offline ?opts" using that(1) by (simp add: options_of_def)
    with get(1) that(2) show ?thesis
      by (cases "dep_tag dep"; cases "dep_rev dep")
        (simp_all add: resolve_source_def resolve_git_def dep_ref_spec_def expected_commit_def unsupported_def Let_def)
  qed
  have helm: "resolve_source R root ?opts name dep (SpecHelm repo chart version) w n
      = Some (Err (UnsupportedSource name SourceHelm (needs_pin ''digest'')), n)"
    if "ctx_offline ctx" for repo chart version
  proof -
    have "offline ?opts" using that by (simp add: options_of_def)
    with get(1) show ?thesis
      by (simp add: resolve_source_def resolve_helm_def nbind_def nret_def unsupported_def Let_def)
  qed
  show ?thesis using same dep git helm by metis
qed

definition git_dep :: dependency where
  "git_dep = nginx_dep\<lparr>dep_oci := None, dep_version := None, dep_git := Some ''https://h/r'', dep_tag := Some ''v1''\<rparr>"

definition git_lock :: akua_lock where
  "git_lock = signed_lock\<lparr>packages :=
     [locked_entry ''web'' (ResolvedGit ''https://h/r'' ''v1'' ''abc'') ''git:abc'' None]\<rparr>"

lemma render_ignores_git_and_helm_pins_witness:
  "resolve_dep toy_resolver ws_root (options_of (default_context\<lparr>ctx_offline := True\<rparr>) (oci_digests git_lock))
     ''web'' git_dep (text_world []) fresh_net
   = Some (Err (UnsupportedSource ''web'' SourceGit (needs_pin ''commit'')), fresh_net)
   \<and> resolve_dep toy_resolver ws_root (options_of default_context (oci_digests git_lock)) ''web'' git_dep (text_world []) fresh_net
     = resolve_dep toy_resolver ws_root (options_of default_context []) ''web'' git_dep (text_world []) fresh_net"
proof -
  let ?s = "SpecGit ''https://h/r'' (Some ''v1'') None" and ?off = "default_context\<lparr>ctx_offline := True\<rparr>"
  have lock: "list_all (\<lambda>p. lp_name p = ''web'' \<longrightarrow> \<not> lp_is_oci p) (packages git_lock)" by code_simp
  have dep: "dep_replace git_dep = None" "dep_tag git_dep \<noteq> None" "dep_spec git_dep = Ok ?s"
    by (simp_all add: git_dep_def nginx_dep_def spec_def source_def)
  have vendored: "resolve_vendored toy_resolver (text_world []) ''web'' ws_root ?s = Ok None"
    by (simp add: resolve_vendored_None text_world_def)
  have "ctx_offline ?off" by simp
  with dep vendored render_ignores_git_and_helm_pins [OF lock, of toy_resolver ws_root ?off git_dep "text_world []" fresh_net]
  have "resolve_dep toy_resolver ws_root (options_of ?off (oci_digests git_lock)) ''web'' git_dep (text_world []) fresh_net
     = Some (Err (UnsupportedSource ''web'' SourceGit (needs_pin ''commit'')), fresh_net)" by blast
  with render_ignores_git_and_helm_pins [OF lock, of toy_resolver ws_root default_context git_dep "text_world []" fresh_net]
  show ?thesis by blast
qed

end
