(* ===== verification/PackageRender.thy ===== *)
theory PackageRender
  imports PackageK TreeHash
begin

text \<open>
  \<open>package_render.rs\<close>: the resources of a rendered package as files, with the summary that says where
  they went. Printing YAML is a parameter, and \<open>sha256\<close> is the hash function of the \<open>sha2\<close> crate. A
  failure half way leaves the files written before it.
\<close>

section \<open>File names\<close>

text \<open>\<open>Value::get\<close> and \<open>Value::as_str\<close> look through tags.\<close>

fun untag :: "yaml \<Rightarrow> yaml" where
  "untag (YTagged _ v) = untag v"
| "untag v = v"

definition yaml_get :: "string \<Rightarrow> yaml \<Rightarrow> yaml option" where
  "yaml_get k v = (case untag v of YMapping m \<Rightarrow> map_of m (YString k) | _ \<Rightarrow> None)"

definition yaml_str :: "yaml \<Rightarrow> string option" where
  "yaml_str v = (case untag v of YString s \<Rightarrow> Some s | _ \<Rightarrow> None)"

definition ascii_lower :: "char \<Rightarrow> char" where
  "ascii_lower c = (if byte_in 65 90 c then char_of ((of_char c :: nat) + 32) else c)"

text \<open>A character outside the safe ones becomes one dash, however many bytes it has.\<close>

definition filename_char :: "char \<Rightarrow> string" where
  "filename_char c =
     (if is_ascii_alphanumeric c \<or> c \<in> {CHR ''-'', CHR ''_'', CHR ''.''} then [c]
      else if is_continuation c then []
      else ''-'')"

definition sanitize_for_filename :: "string \<Rightarrow> string" where
  "sanitize_for_filename s = concat (map filename_char s)"

definition pad3 :: "nat \<Rightarrow> string" where
  "pad3 n = replicate (3 - length (show_nat n)) CHR ''0'' @ show_nat n"

definition kind_of :: "yaml \<Rightarrow> string" where
  "kind_of resource =
     map ascii_lower (str_or ''resource'' (Option.bind (yaml_get ''kind'' resource) yaml_str))"

definition name_of :: "yaml \<Rightarrow> string" where
  "name_of resource =
     str_or ''unnamed'' (Option.bind (Option.bind (yaml_get ''metadata'' resource) (yaml_get ''name'')) yaml_str)"

definition manifest_filename :: "nat \<Rightarrow> yaml \<Rightarrow> string" where
  "manifest_filename index resource =
     pad3 index @ ''-'' @ kind_of resource @ ''-'' @ sanitize_for_filename (name_of resource) @ ''.yaml''"

section \<open>Rendering\<close>

record render_summary =
  rsum_format :: string
  rsum_target :: path
  rsum_manifests :: nat
  rsum_hash :: string
  rsum_files :: "path list"

datatype package_render_error =
  RenderIo path io_error
| RenderYaml nat string

definition FORMAT_RAW_MANIFESTS :: string where "FORMAT_RAW_MANIFESTS = ''raw-manifests''"

text \<open>One resource: its block of the hash input, and the file unless this is a dry run.\<close>

definition render_one ::
  "(yaml \<Rightarrow> (string, string) outcome) \<Rightarrow> path \<Rightarrow> bool \<Rightarrow> nat \<Rightarrow> yaml \<Rightarrow> world
     \<Rightarrow> (package_render_error, path \<times> string) outcome \<times> world"
where
  "render_one to_yaml out_root dry_run i resource w =
     (let filename = manifest_filename i resource;
          full = path_join out_root (path_of filename)
      in case to_yaml resource of
           Err e \<Rightarrow> (Err (RenderYaml i e), w)
         | Panic \<Rightarrow> (Panic, w)
         | Ok text_out \<Rightarrow>
             (let item = (path_of filename, filename @ nl @ text_out)
              in if dry_run then (Ok item, w)
                 else case fs_write full text_out w of
                   Ok w' \<Rightarrow> (Ok item, w')
                 | Err e \<Rightarrow> (Err (RenderIo full e), w)
                 | Panic \<Rightarrow> (Panic, w)))"

fun render_all ::
  "(yaml \<Rightarrow> (string, string) outcome) \<Rightarrow> path \<Rightarrow> bool \<Rightarrow> nat \<Rightarrow> yaml list \<Rightarrow> world
     \<Rightarrow> (package_render_error, (path \<times> string) list) outcome \<times> world"
where
  "render_all to_yaml out_root dry_run i [] w = (Ok [], w)"
| "render_all to_yaml out_root dry_run i (r # rs) w =
     (case render_one to_yaml out_root dry_run i r w of
        (Ok item, w') \<Rightarrow>
          (case render_all to_yaml out_root dry_run (Suc i) rs w' of
             (Ok items, w'') \<Rightarrow> (Ok (item # items), w'')
           | (Err e, w'') \<Rightarrow> (Err e, w'')
           | (Panic, w'') \<Rightarrow> (Panic, w''))
      | (Err e, w') \<Rightarrow> (Err e, w')
      | (Panic, w') \<Rightarrow> (Panic, w'))"

definition summarize :: "(string \<Rightarrow> string) \<Rightarrow> path \<Rightarrow> (path \<times> string) list \<Rightarrow> render_summary" where
  "summarize sha256 out_root items =
     \<lparr>rsum_format = FORMAT_RAW_MANIFESTS, rsum_target = out_root, rsum_manifests = length items,
      rsum_hash = ''sha256:'' @ hex_encode (sha256 (concat (map snd items))), rsum_files = map fst items\<rparr>"

definition render_package ::
  "(string \<Rightarrow> string) \<Rightarrow> (yaml \<Rightarrow> (string, string) outcome) \<Rightarrow> yaml list \<Rightarrow> path \<Rightarrow> bool \<Rightarrow> world
     \<Rightarrow> (package_render_error, render_summary) outcome \<times> world"
where
  "render_package sha256 to_yaml resources out_root dry_run w =
     (let made = (if dry_run then Ok w else fs_create_dir_all out_root w)
      in case made of
           Err e \<Rightarrow> (Err (RenderIo out_root e), w)
         | Panic \<Rightarrow> (Panic, w)
         | Ok w' \<Rightarrow>
             (case render_all to_yaml out_root dry_run 0 resources w' of
                (Ok items, w'') \<Rightarrow> (Ok (summarize sha256 out_root items), w'')
              | (Err e, w'') \<Rightarrow> (Err e, w'')
              | (Panic, w'') \<Rightarrow> (Panic, w'')))"

section \<open>Distinct names\<close>

lemma digits_value_pad3: "digits_value 0 (pad3 n) = Some n"
proof -
  have "digits_value 0 (replicate k CHR ''0'') = Some 0" for k
    by (induction k) (simp_all add: is_ascii_digit_def)
  then show ?thesis by (simp add: pad3_def digits_value_append digits_value_show_nat)
qed

lemma dash_not_in_pad3: "CHR ''-'' \<notin> set (pad3 n)"
  using show_nat_digits [of "CHR ''-''" n] by (auto simp: pad3_def is_ascii_digit_def)

lemma manifest_filename_index: "manifest_filename i r = manifest_filename j q \<Longrightarrow> i = j"
proof -
  have pre: "takeWhile (\<lambda>c. c \<noteq> CHR ''-'') (manifest_filename n x) = pad3 n" for n x
    using dash_not_in_pad3 [of n] by (subst manifest_filename_def, subst takeWhile_append2) auto
  assume "manifest_filename i r = manifest_filename j q"
  then have "pad3 i = pad3 j" using pre by metis
  then show "i = j" using digits_value_pad3 by (metis option.inject)
qed

lemma slash_not_sanitized: "CHR ''/'' \<notin> set (sanitize_for_filename s)"
  by (auto simp: sanitize_for_filename_def filename_char_def is_ascii_alphanumeric_def
      is_ascii_alphabetic_def is_ascii_digit_def)

lemma path_of_manifest_filename:
  assumes "CHR ''/'' \<notin> set (kind_of r)"
  shows "path_of (manifest_filename i r) = [Normal (manifest_filename i r)]"
proof (rule path_of_name)
  have "CHR ''/'' \<notin> set (pad3 i)"
    using show_nat_digits [of "CHR ''/''" i] by (auto simp: pad3_def is_ascii_digit_def)
  then show "CHR ''/'' \<notin> set (manifest_filename i r)"
    using assms slash_not_sanitized by (auto simp: manifest_filename_def)
  have "last (manifest_filename i r) = CHR ''l''" by (simp add: manifest_filename_def)
  then show "manifest_filename i r \<noteq> []" "manifest_filename i r \<noteq> ''.''" "manifest_filename i r \<noteq> ''..''"
    by (auto simp: manifest_filename_def)
qed

definition plain_kinds :: "yaml list \<Rightarrow> bool" where
  "plain_kinds rs \<longleftrightarrow> list_all (\<lambda>r. CHR ''/'' \<notin> set (kind_of r)) rs"

definition manifest_path :: "nat \<times> yaml \<Rightarrow> path" where
  "manifest_path = (\<lambda>(i, r). [Normal (manifest_filename i r)])"

lemma distinct_manifest_paths: "distinct (map manifest_path (List.enumerate n rs))"
proof -
  have "inj_on manifest_path (set (List.enumerate n rs))"
  proof (rule inj_onI)
    fix x y assume x: "x \<in> set (List.enumerate n rs)" and y: "y \<in> set (List.enumerate n rs)"
      and eq: "manifest_path x = manifest_path y"
    from eq have "fst x = fst y"
      by (cases x; cases y) (auto simp: manifest_path_def dest: manifest_filename_index)
    with x y show "x = y" by (auto simp: in_set_enumerate_eq intro: prod_eqI)
  qed
  then show ?thesis by (simp add: distinct_map distinct_enumerate)
qed

section \<open>What a render leaves behind\<close>

lemma render_all_written:
  assumes "render_all to_yaml out False i rs w = (Ok items, w')" and "plain_kinds rs"
  shows "map fst items = map manifest_path (List.enumerate i rs)
    \<and> list_all (\<lambda>x. \<exists>t. to_yaml (snd x) = Ok t \<and> read_to_string w' (out @ manifest_path x) = Ok t) (List.enumerate i rs)
    \<and> (\<forall>p. p \<notin> (\<lambda>x. out @ manifest_path x) ` set (List.enumerate i rs) \<longrightarrow> read_to_string w' p = read_to_string w p)
    \<and> (\<forall>w0. render_all to_yaml out True i rs w0 = (Ok items, w0))"
  using assms
proof (induction rs arbitrary: i w items)
  case (Cons r rs)
  from Cons.prems(2) have kind: "CHR ''/'' \<notin> set (kind_of r)" "plain_kinds rs" by (auto simp: plain_kinds_def)
  let ?full = "out @ [Normal (manifest_filename i r)]"
  note name = path_of_manifest_filename [OF kind(1), of i]
  from Cons.prems(1) obtain t w1 items' where
    t: "to_yaml r = Ok t" and wr: "fs_write ?full t w = Ok w1"
    and rest: "render_all to_yaml out False (Suc i) rs w1 = (Ok items', w')"
    and items: "items = ([Normal (manifest_filename i r)], manifest_filename i r @ nl @ t) # items'"
    by (auto simp: render_one_def Let_def name path_join_name split: outcome.splits prod.splits)
  note IH = Cons.IH [OF rest kind(2)]
  have new: "?full \<notin> (\<lambda>x. out @ manifest_path x) ` set (List.enumerate (Suc i) rs)"
    using distinct_manifest_paths [of i "r # rs"] by (auto simp: manifest_path_def image_iff)
  have "read_to_string w' ?full = Ok t" using IH new fs_write_read [OF wr] by simp
  moreover have "read_to_string w' p = read_to_string w p"
    if "p \<noteq> ?full" "p \<notin> (\<lambda>x. out @ manifest_path x) ` set (List.enumerate (Suc i) rs)" for p
    using that IH fs_write_frame [OF wr that(1)] by simp
  moreover have "render_all to_yaml out True i (r # rs) w0 = (Ok items, w0)" for w0
    using IH items t by (simp add: render_one_def Let_def name)
  ultimately show ?case using IH items t by (simp add: manifest_path_def)
qed simp

text \<open>
  C20. A render that succeeds has written one file per resource, in order, under names that never collide;
  each holds the YAML of its resource, and no other file changed. A dry run over the same resources
  reports the same summary, hash included, and changes nothing.
\<close>

theorem render_package_writes:
  assumes "render_package sha256 to_yaml rs out False w = (Ok s, w')" and "plain_kinds rs"
  shows "rsum_manifests s = length rs \<and> rsum_files s = map manifest_path (List.enumerate 0 rs)
    \<and> distinct (rsum_files s)
    \<and> list_all (\<lambda>x. \<exists>t. to_yaml (snd x) = Ok t \<and> read_to_string w' (out @ manifest_path x) = Ok t)
        (List.enumerate 0 rs)
    \<and> (\<forall>p. p \<notin> (@) out ` set (rsum_files s) \<longrightarrow> read_to_string w' p = read_to_string w p)
    \<and> render_package sha256 to_yaml rs out True w = (Ok s, w)"
proof -
  from assms(1) obtain w1 items where mk: "fs_create_dir_all out w = Ok w1"
    and all: "render_all to_yaml out False 0 rs w1 = (Ok items, w')" and s: "s = summarize sha256 out items"
    by (auto simp: render_package_def split: outcome.splits prod.splits)
  note W = render_all_written [OF all assms(2)]
  have "length items = length rs" using W by (metis length_enumerate length_map)
  moreover have "read_to_string w1 = read_to_string w"
    using mk by (auto simp: fs_create_dir_all_def split: option.splits)
  moreover have "rsum_files s = map manifest_path (List.enumerate 0 rs)" using W s by (simp add: summarize_def)
  moreover have "render_package sha256 to_yaml rs out True w = (Ok s, w)"
    using W s by (simp add: render_package_def)
  ultimately show ?thesis
    using W s distinct_manifest_paths [of 0 rs] by (simp add: summarize_def image_image)
qed

definition pod :: yaml where
  "pod = YMapping [(YString ''kind'', YString ''Pod''), (YString ''metadata'', YMapping [(YString ''name'', YString ''a/b'')])]"

lemma render_package_writes_witness:
  "\<exists>s w'. render_package (\<lambda>s. s) (\<lambda>_. Ok ''kind: Pod'') [pod, pod] [Normal ''deploy''] False (text_world []) = (Ok s, w')
     \<and> rsum_files s = [[Normal ''000-pod-a-b.yaml''], [Normal ''001-pod-a-b.yaml'']]
     \<and> read_to_string w' [Normal ''deploy'', Normal ''001-pod-a-b.yaml''] = Ok ''kind: Pod''"
proof -
  let ?run = "render_package (\<lambda>s. s) (\<lambda>_. Ok ''kind: Pod'') [pod, pod] [Normal ''deploy''] False (text_world [])"
  have kinds: "plain_kinds [pod, pod]" by code_simp
  have "case ?run of (Ok s, w') \<Rightarrow> True | _ \<Rightarrow> False" by code_simp
  then obtain s w' where run: "?run = (Ok s, w')" by (auto split: outcome.splits)
  have names: "manifest_filename 0 pod = ''000-pod-a-b.yaml''" "manifest_filename 1 pod = ''001-pod-a-b.yaml''"
    by code_simp+
  from render_package_writes [OF run kinds] run names show ?thesis by (simp add: manifest_path_def)
qed

text \<open>The kind is not sanitised: one with a slash names a file in a directory nobody creates.\<close>

lemma kind_with_slash:
  "path_of (manifest_filename 0 (YMapping [(YString ''kind'', YString ''../x'')]))
     = [Normal ''000-..'', Normal ''x-unnamed.yaml'']"
  by code_simp

end
