(* ===== verification/RenderVerb.thy ===== *)
theory RenderVerb
  imports RenderSpec PackageRender Duration
begin

text \<open>
  The verb \<open>akua render\<close> (\<open>verbs/render.rs\<close>): the dependencies of the outermost package, its budget, the
  evaluation in the worker, and what is written. The worker that hosts the evaluator is a parameter
  that yields a run as \<open>PkgRender\<close> has them; a failure of the worker is a run that ends in its text.
  Writing to stdout appends to a text.
\<close>

section \<open>Error codes\<close>

definition E_PACKAGE_MISSING :: string where "E_PACKAGE_MISSING = ''E_PACKAGE_MISSING''"
definition E_PACKAGE_PARSE :: string where "E_PACKAGE_PARSE = ''E_PACKAGE_PARSE''"
definition E_INPUTS_MISSING :: string where "E_INPUTS_MISSING = ''E_INPUTS_MISSING''"
definition E_INPUTS_PARSE :: string where "E_INPUTS_PARSE = ''E_INPUTS_PARSE''"
definition E_INVALID_FLAG :: string where "E_INVALID_FLAG = ''E_INVALID_FLAG''"
definition E_RENDER_KCL :: string where "E_RENDER_KCL = ''E_RENDER_KCL''"
definition E_RENDER_YAML :: string where "E_RENDER_YAML = ''E_RENDER_YAML''"
definition E_RENDER_OUTPUT_TOO_LARGE :: string where "E_RENDER_OUTPUT_TOO_LARGE = ''E_RENDER_OUTPUT_TOO_LARGE''"
definition E_RENDER_CYCLE :: string where "E_RENDER_CYCLE = ''E_RENDER_CYCLE''"
definition E_RENDER_BUDGET_DEPTH :: string where "E_RENDER_BUDGET_DEPTH = ''E_RENDER_BUDGET_DEPTH''"
definition E_RENDER_BUDGET_DEADLINE :: string where "E_RENDER_BUDGET_DEADLINE = ''E_RENDER_BUDGET_DEADLINE''"
definition E_DEP_RESOLVE :: string where "E_DEP_RESOLVE = ''E_DEP_RESOLVE''"
definition E_STRICT_UNTYPED_CHART :: string where "E_STRICT_UNTYPED_CHART = ''E_STRICT_UNTYPED_CHART''"
definition E_COSIGN_VERIFY :: string where "E_COSIGN_VERIFY = ''E_COSIGN_VERIFY''"
definition E_COSIGN_SIG_MISSING :: string where "E_COSIGN_SIG_MISSING = ''E_COSIGN_SIG_MISSING''"

lemmas render_codes =
  E_PACKAGE_MISSING_def E_PACKAGE_PARSE_def E_INPUTS_MISSING_def E_INPUTS_PARSE_def E_INVALID_FLAG_def
  E_RENDER_KCL_def E_RENDER_YAML_def E_RENDER_OUTPUT_TOO_LARGE_def E_RENDER_CYCLE_def
  E_RENDER_BUDGET_DEPTH_def E_RENDER_BUDGET_DEADLINE_def E_DEP_RESOLVE_def E_STRICT_UNTYPED_CHART_def
  E_COSIGN_VERIFY_def E_COSIGN_SIG_MISSING_def

section \<open>Errors\<close>

datatype render_error =
  RvPackage package_error
| RvInputsIo path io_error
| RvInputsParse path string
| RvRender package_render_error
| RvManifest path manifest_load_error
| RvCharts chart_error
| RvTimeout string string
| RvCosignKey path io_error
| RvSummaryWrite path io_error
| RvStdoutWrite io_error

definition PATH_ESCAPE_SUGGESTION :: string where
  "PATH_ESCAPE_SUGGESTION =
     ''Two ways out: (1) vendor the dependency as a subdirectory of this Package and reference it with a Package-relative path (e.g. `./vendor/<name>`); or (2) declare it in `akua.toml` `[dependencies]` and reference the resolved alias (`charts.<name>.path` for Helm charts; `import <alias>` for KCL/Akua packages). See docs/errors/E_PATH_ESCAPE.md.''"

definition STRICT_SUGGESTION :: string where
  "STRICT_SUGGESTION =
     ''Declare the chart in `akua.toml` and `import charts.<name>`, then pass `chart = <name>.path` to `helm.template`.''"

definition CYCLE_SUGGESTION :: string where
  "CYCLE_SUGGESTION =
     ''Composition cycle in `pkg.render` calls. Break the dependency loop '' @ em_dash @ '' a Package cannot directly or transitively render itself.''"

definition DEPTH_BUDGET_SUGGESTION :: string where
  "DEPTH_BUDGET_SUGGESTION =
     ''Recursive `pkg.render` exceeded the depth cap (default 16). Flatten the composition chain.''"

definition DEADLINE_BUDGET_SUGGESTION :: string where
  "DEADLINE_BUDGET_SUGGESTION =
     ''The render exhausted its wall-clock budget. Pass or increase `--timeout`, or split the work.''"

definition OUTPUT_TOO_LARGE_SUGGESTION :: string where
  "OUTPUT_TOO_LARGE_SUGGESTION =
     ''The Package rendered but its manifest set is too large to deliver from the sandbox. Split it into smaller Packages composed via `pkg.render`, or narrow the chart values so fewer resources are emitted.''"

text \<open>A plugin's error reaches the verb as text; its kind is told by these markers, first one first.\<close>

definition KCL_EVAL_MARKER_TABLE :: "(string \<times> string \<times> string) list" where
  "KCL_EVAL_MARKER_TABLE =
     [(''strict mode requires every chart'', E_STRICT_UNTYPED_CHART, STRICT_SUGGESTION),
      (''escapes the Package directory'', E_PATH_ESCAPE, PATH_ESCAPE_SUGGESTION),
      (''cycle detected'', E_RENDER_CYCLE, CYCLE_SUGGESTION),
      (''render depth limit'', E_RENDER_BUDGET_DEPTH, DEPTH_BUDGET_SUGGESTION),
      (''wall-clock budget exhausted'', E_RENDER_BUDGET_DEADLINE, DEADLINE_BUDGET_SUGGESTION),
      (''wasm trap: interrupt'', E_RENDER_BUDGET_DEADLINE, DEADLINE_BUDGET_SUGGESTION),
      (''per-render output limit'', E_RENDER_OUTPUT_TOO_LARGE, OUTPUT_TOO_LARGE_SUGGESTION)]"

definition kcl_eval_marker :: "string \<Rightarrow> (string \<times> string \<times> string) option" where
  "kcl_eval_marker msg = find (\<lambda>(marker, _, _). sublist marker msg) KCL_EVAL_MARKER_TABLE"

text \<open>The texts of the errors of other components are parameters.\<close>

record error_texts =
  et_manifest :: "manifest_error \<Rightarrow> string"
  et_chart :: "chart_error \<Rightarrow> string"

definition charts_code :: "chart_error \<Rightarrow> string" where
  "charts_code e =
     (case e of
        OciFetchFailed _ (CosignVerify _ _ _) \<Rightarrow> E_COSIGN_VERIFY
      | OciFetchFailed _ (CosignSignatureMissing _ _ _ _) \<Rightarrow> E_COSIGN_SIG_MISSING
      | AbsolutePathRejected _ _ \<Rightarrow> E_PATH_ESCAPE
      | PathEscape _ _ _ _ \<Rightarrow> E_PATH_ESCAPE
      | _ \<Rightarrow> E_DEP_RESOLVE)"

fun package_to_structured :: "package_error \<Rightarrow> structured_error" where
  "package_to_structured (PackageMissing p) =
     with_default_docs (with_suggestion ''pass the Package.k path explicitly or cd to its directory''
       (with_path (path_str p) (structured_new E_PACKAGE_MISSING ''Package.k not found'')))"
| "package_to_structured (PackageIo p e) =
     with_default_docs (with_path (path_str p) (structured_new E_IO (io_msg e)))"
| "package_to_structured (KclEval msg) =
     with_default_docs (case kcl_eval_marker msg of
        Some (_, c, s) \<Rightarrow> with_suggestion s (structured_new c msg)
      | None \<Rightarrow> structured_new E_RENDER_KCL msg)"
| "package_to_structured (InputJson e) = with_default_docs (structured_new E_INPUTS_PARSE e)"
| "package_to_structured (PackagePathEscape e) =
     with_default_docs (case e of
        StrictRequiresTypedImport _ \<Rightarrow>
          with_suggestion STRICT_SUGGESTION (structured_new E_STRICT_UNTYPED_CHART (show_path_error e))
      | Escape _ _ _ \<Rightarrow>
          with_suggestion PATH_ESCAPE_SUGGESTION (structured_new E_PATH_ESCAPE (show_path_error e))
      | _ \<Rightarrow>
          with_suggestion (''Plugin paths must resolve inside the Package directory '' @ em_dash
              @ '' no absolute paths, no `..` escape, no symlink escape. See docs/security-model.md.'')
            (structured_new E_PATH_ESCAPE (show_path_error e)))"
| "package_to_structured other = with_default_docs (structured_new E_PACKAGE_PARSE (show_package_error other))"

fun render_to_structured :: "error_texts \<Rightarrow> render_error \<Rightarrow> structured_error" where
  "render_to_structured et (RvPackage e) = package_to_structured e"
| "render_to_structured et (RvInputsIo p e) =
     with_default_docs (with_path (path_str p)
       (structured_new (if io_kind e = NotFound then E_INPUTS_MISSING else E_IO) (io_msg e)))"
| "render_to_structured et (RvInputsParse p e) =
     with_default_docs (with_path (path_str p) (structured_new E_INPUTS_PARSE e))"
| "render_to_structured et (RvRender (RenderIo p e)) =
     with_default_docs (with_path (path_str p) (structured_new E_IO (io_msg e)))"
| "render_to_structured et (RvRender (RenderYaml i e)) =
     with_default_docs (structured_new E_RENDER_YAML (''resource #'' @ show_nat i @ '': '' @ e))"
| "render_to_structured et (RvManifest p e) =
     with_path (path_str p) (manifest_load_to_structured (et_manifest et) e)"
| "render_to_structured et (RvCharts e) =
     with_default_docs (structured_new (charts_code e) (et_chart et e))"
| "render_to_structured et (RvCosignKey p e) =
     with_default_docs (with_suggestion
        ''akua.toml [signing].cosign_public_key must resolve to a PEM-encoded public key file, relative to the workspace.''
       (with_path (path_str p) (structured_new E_COSIGN_VERIFY (io_msg e))))"
| "render_to_structured et (RvSummaryWrite p e) =
     with_default_docs (with_path (path_str p) (structured_new E_IO (io_msg e)))"
| "render_to_structured et (RvStdoutWrite e) = with_default_docs (structured_new E_IO (io_msg e))"
| "render_to_structured et (RvTimeout raw reason) =
     with_default_docs (with_suggestion ''--timeout takes a Go-duration string: 30s, 5m, 1h, 250ms.''
       (structured_new E_INVALID_FLAG (''--timeout '' @ backtick raw @ '': '' @ reason)))"

fun render_exit_code :: "render_error \<Rightarrow> exit_code" where
  "render_exit_code (RvPackage (PackageIo _ _)) = SystemError"
| "render_exit_code (RvInputsIo _ e) = (if io_kind e \<noteq> NotFound then SystemError else UserError)"
| "render_exit_code (RvRender (RenderIo _ _)) = SystemError"
| "render_exit_code (RvSummaryWrite _ _) = SystemError"
| "render_exit_code (RvManifest _ e) = (if manifest_load_is_system e then SystemError else UserError)"
| "render_exit_code (RvStdoutWrite _) = SystemError"
| "render_exit_code (RvPackage (KclEval msg)) =
     (case kcl_eval_marker msg of
        Some (_, c, _) \<Rightarrow> if c = E_RENDER_BUDGET_DEADLINE then Timeout else UserError
      | None \<Rightarrow> UserError)"
| "render_exit_code _ = UserError"

section \<open>The dependencies of the outermost package\<close>

record verb_args =
  va_package_path :: path
  va_inputs_path :: "path option"
  va_out_dir :: path
  va_summary_out :: "path option"
  va_dry_run :: bool
  va_stdout_mode :: bool
  va_strict :: bool
  va_offline :: bool
  va_debug :: bool
  va_max_depth :: "nat option"

definition load_cosign_public_key :: "world \<Rightarrow> manifest \<Rightarrow> path \<Rightarrow> (render_error, string option) outcome" where
  "load_cosign_public_key w m workspace =
     (case Option.bind (m_signing m) cosign_public_key of
        None \<Rightarrow> Ok None
      | Some rel \<Rightarrow>
          (let key_path = path_join workspace (path_of rel)
           in obind (omap_err (RvCosignKey key_path) (read_to_string w key_path)) (\<lambda>body. Ok (Some body))))"

definition root_context :: "bool \<Rightarrow> cli_context \<Rightarrow> world \<Rightarrow> string option \<Rightarrow> resolver_context" where
  "root_context off ctx w key =
     \<lparr>ctx_offline = off, ctx_cache_root = None,
      ctx_reject_replace = (detected (ctx_agent ctx) \<or> replace_rejected_from_env w),
      ctx_cosign_key = key, ctx_auth = None\<rparr>"

definition resolve_package_charts ::
  "('vk, 'sk, 'sg, 'v::linorder, 'r, 'g) render_env \<Rightarrow> path \<Rightarrow> bool \<Rightarrow> cli_context \<Rightarrow> rstate
     \<Rightarrow> ((render_error, resolved_charts \<times> resolver_context) outcome \<times> rstate) option"
where
  "resolve_package_charts env package_path off ctx s =
     (let w = rs_world s; workspace = workspace_of package_path
      in case load_manifest (re_manifest_toml env) w workspace of
           Err (ManifestMissing _) \<Rightarrow> Some (Ok ([], root_context off ctx w None), s)
         | Err e \<Rightarrow> Some (Err (RvManifest (path_join workspace (path_of ''akua.toml'')) e), s)
         | Panic \<Rightarrow> Some (Panic, s)
         | Ok m \<Rightarrow>
             (case load_cosign_public_key w m workspace of
                Err e \<Rightarrow> Some (Err e, s)
              | Panic \<Rightarrow> Some (Panic, s)
              | Ok key \<Rightarrow>
                  (let rctx = root_context off ctx w key
                   in map_option (\<lambda>(r, s). (obind (omap_err RvCharts r) (\<lambda>charts. Ok (charts, rctx)), s))
                        (resolve_step env m workspace (options_of rctx (locked_digests env w workspace)) s))))"

section \<open>The budget\<close>

text \<open>
  An \<open>Instant\<close> counts nanoseconds with its seconds in an \<open>i64\<close>; adding a duration that leaves the range
  panics.
\<close>

definition INSTANT_SECS :: nat where "INSTANT_SECS = 2 ^ 63"

definition instant_add :: "nat \<Rightarrow> nat \<Rightarrow> ('e, nat) outcome" where
  "instant_add now dur = (if INSTANT_SECS \<le> (now + dur) div 1000000000 then Panic else Ok (now + dur))"

definition build_budget ::
  "bool \<Rightarrow> (duration_error \<Rightarrow> string) \<Rightarrow> (nat \<Rightarrow> nat) \<Rightarrow> cli_context \<Rightarrow> nat option \<Rightarrow> rstate
     \<Rightarrow> (render_error, budget) outcome \<times> rstate"
where
  "build_budget checks show_duration clock ctx depth s =
     (let finish = (\<lambda>d. \<lparr>deadline = d, max_depth = (case depth of Some n \<Rightarrow> n | None \<Rightarrow> DEFAULT_MAX_DEPTH)\<rparr>)
      in case ctx_timeout ctx of
           None \<Rightarrow> (Ok (finish None), s)
         | Some raw \<Rightarrow>
             (case parse_go_duration checks raw of
                Err e \<Rightarrow> (Err (RvTimeout raw (show_duration e)), s)
              | Panic \<Rightarrow> (Panic, s)
              | Ok dur \<Rightarrow>
                  (obind (instant_add (clock (rs_ticks s)) dur) (\<lambda>d. Ok (finish (Some d))),
                   s\<lparr>rs_ticks := Suc (rs_ticks s)\<rparr>)))"

section \<open>In the worker\<close>

text \<open>KCL packages are mounted under the identifier that imports can name; Akua packages are not.\<close>

definition guest_path :: "string \<Rightarrow> string" where "guest_path ident = ''/kcl-pkgs/'' @ ident"

definition mount_collision :: "string \<Rightarrow> string" where
  "mount_collision alias_name =
     ''dep key '' @ backtick alias_name @ '' sanitizes to the KCL identifier '' @ backtick (kcl_ident alias_name)
       @ '', which collides with another kcl-package dep '' @ em_dash
       @ '' rename one so `import` aliases are unambiguous''"

fun mount_kcl_pkgs ::
  "world \<Rightarrow> (string \<times> resolved_chart) list \<Rightarrow> (path \<times> string) list \<Rightarrow> (string, string) btree
     \<Rightarrow> (package_error, (path \<times> string) list \<times> (string, string) btree) outcome"
where
  "mount_kcl_pkgs w [] preopens request = Ok (preopens, request)"
| "mount_kcl_pkgs w ((alias_name, c) # cs) preopens request =
     (if is_akua_package w c then mount_kcl_pkgs w cs preopens request
      else let ident = kcl_ident alias_name
           in if bt_get request ident \<noteq> None then Err (KclEval (mount_collision alias_name))
              else mount_kcl_pkgs w cs (preopens @ [(abs_path c, guest_path ident)])
                     (bt_insert ident (guest_path ident) request))"

record worker_request =
  wr_package_filename :: string
  wr_source :: string
  wr_inputs :: "json option"
  wr_charts_pkg_path :: "string option"
  wr_kcl_pkgs :: "(string, string) btree"
  wr_pkgs_pkg_path :: "string option"

record mounts =
  mt_charts :: "generated option"
  mt_kcl :: "(path \<times> string) list"
  mt_pkgs :: "generated option"

definition arrow :: string where "arrow = [CHR 0xE2, CHR 0x86, CHR 0x92]"

definition worker_job ::
  "('vk, 'sk, 'sg, 'v, 'r, 'g) render_env \<Rightarrow> world \<Rightarrow> package_k \<Rightarrow> yaml \<Rightarrow> resolved_charts
     \<Rightarrow> (package_error, worker_request \<times> mounts) outcome"
where
  "worker_job env w pkg inputs charts =
     obind (omap_err (eval_error ''materializing charts pkg'')
              (materialize_charts_if_any (re_stdlib env) w charts)) (\<lambda>charts_tmp.
     obind (omap_err (eval_error ''materializing akua-pkg stubs'')
              (materialize_pkg_stubs_if_any (re_stdlib env) w charts)) (\<lambda>pkgs_tmp.
     obind (mount_kcl_pkgs w (kcl_pkgs charts) [] []) (\<lambda>(preopens, request).
     obind (omap_err (\<lambda>e. KclEval (''inputs'' @ arrow @ ''json: '' @ e)) (re_json_of_yaml env inputs)) (\<lambda>inputs_json.
     Ok (\<lparr>wr_package_filename = (case file_name (pk_path pkg) of Some n \<Rightarrow> n | None \<Rightarrow> ''package.k''),
          wr_source = pk_source pkg, wr_inputs = Some inputs_json,
          wr_charts_pkg_path = map_option (\<lambda>_. ''/charts'') charts_tmp, wr_kcl_pkgs = request,
          wr_pkgs_pkg_path = map_option (\<lambda>_. ''/akua-pkgs'') pkgs_tmp\<rparr>,
         \<lparr>mt_charts = charts_tmp, mt_kcl = preopens, mt_pkgs = pkgs_tmp\<rparr>)))))"

text \<open>\<open>worker\<close> gets the deadline for its epoch limit; its run ends in the YAML or the text of the error.\<close>

type_synonym worker = "world \<Rightarrow> worker_request \<Rightarrow> nat option \<Rightarrow> mounts \<Rightarrow> kcl_run"

definition render_in_worker ::
  "('vk, 'sk, 'sg, 'v::linorder, 'r, 'g) render_env \<Rightarrow> registry \<Rightarrow> worker \<Rightarrow> render_stack \<Rightarrow> package_k \<Rightarrow> yaml
     \<Rightarrow> resolved_charts \<Rightarrow> bool \<Rightarrow> budget \<Rightarrow> resolver_context \<Rightarrow> rstate
     \<Rightarrow> ((render_error, yaml list) outcome \<times> rstate) option"
where
  "render_in_worker env reg worker stack pkg inputs charts strict b rctx s =
     (let stack = enter_for_render_with_budget (rs_world s) (pk_path pkg) charts strict b rctx stack
      in case worker_job env (rs_world s) pkg inputs charts of
           Err e \<Rightarrow> Some (Err (RvPackage e), s)
         | Panic \<Rightarrow> Some (Panic, s)
         | Ok (request, mounts) \<Rightarrow>
             (let tmp = temp_dirs (mt_charts mounts) (mt_pkgs mounts)
              in map_option (\<lambda>(r, s). (omap_err RvPackage (finish_eval env r), pop_temp tmp s))
                   (exec env reg stack (worker (rs_world s) request (deadline b) mounts) (push_temp tmp s))))"

section \<open>The verb\<close>

record output_env =
  oe_to_yaml :: "yaml \<Rightarrow> (string, string) outcome"
  oe_sha256 :: "string \<Rightarrow> string"
  oe_summary_json :: "render_summary \<Rightarrow> string"
  oe_debug_json :: "render_summary \<Rightarrow> yaml list \<Rightarrow> string"
  oe_overflow_checks :: bool
  oe_show_duration :: "duration_error \<Rightarrow> string"

definition load_inputs :: "(string \<Rightarrow> (string, yaml) outcome) \<Rightarrow> world \<Rightarrow> path option \<Rightarrow> (render_error, yaml) outcome" where
  "load_inputs from_yaml w p =
     (case p of
        None \<Rightarrow> Ok (YMapping [])
      | Some f \<Rightarrow>
          obind (omap_err (RvInputsIo f) (read_to_string w f)) (\<lambda>bytes.
          omap_err (RvInputsParse f) (from_yaml bytes)))"

fun write_docs :: "(yaml \<Rightarrow> (string, string) outcome) \<Rightarrow> bool \<Rightarrow> yaml list \<Rightarrow> string \<Rightarrow> (io_error, string) outcome" where
  "write_docs to_yaml first [] out = Ok out"
| "write_docs to_yaml first (r # rs) out =
     (let out = (if first then out else out @ ''---'' @ nl)
      in obind (omap_err (\<lambda>e. \<lparr>io_kind = OtherKind, io_msg = e\<rparr>) (to_yaml r)) (\<lambda>t.
         write_docs to_yaml False rs (out @ t)))"

definition write_multi_doc_yaml :: "(yaml \<Rightarrow> (string, string) outcome) \<Rightarrow> yaml list \<Rightarrow> string \<Rightarrow> (io_error, string) outcome" where
  "write_multi_doc_yaml to_yaml rs out = write_docs to_yaml True rs out"

definition write_text :: "render_summary \<Rightarrow> bool \<Rightarrow> string \<Rightarrow> string" where
  "write_text summary dry_run out =
     out @ (if dry_run then ''would render'' else ''rendered'') @ '': '' @ show_nat (rsum_manifests summary)
       @ '' manifest(s) '' @ arrow @ '' '' @ path_str (rsum_target summary) @ '' ('' @ rsum_hash summary @ '')'' @ nl"

definition write_summary :: "output_env \<Rightarrow> path \<Rightarrow> render_summary \<Rightarrow> world \<Rightarrow> (render_error, world) outcome" where
  "write_summary oe p summary w =
     omap_err (RvSummaryWrite p)
       (obind (case parent p of
                 Some d \<Rightarrow> if d = [] then Ok w else fs_create_dir_all d w
               | None \<Rightarrow> Ok w) (\<lambda>w.
        fs_write p (emit_json (oe_summary_json oe summary) []) w))"

definition emit_summary :: "output_env \<Rightarrow> cli_context \<Rightarrow> verb_args \<Rightarrow> render_summary \<Rightarrow> yaml list \<Rightarrow> string \<Rightarrow> string" where
  "emit_summary oe ctx args summary resources out =
     emit_output ctx
       (if va_debug args then oe_debug_json oe summary resources else oe_summary_json oe summary)
       (write_text summary (va_dry_run args)) out"

text \<open>The files and the text on stdout that a rendered package becomes.\<close>

definition deliver ::
  "output_env \<Rightarrow> cli_context \<Rightarrow> verb_args \<Rightarrow> yaml list \<Rightarrow> rstate
     \<Rightarrow> ((render_error, exit_code \<times> string) outcome \<times> rstate) option"
where
  "deliver oe ctx args resources s =
     (if va_stdout_mode args
      then Some (obind (omap_err RvStdoutWrite (write_multi_doc_yaml (oe_to_yaml oe) resources [])) (\<lambda>out.
             Ok (Success, out)), s)
      else case render_package (oe_sha256 oe) (oe_to_yaml oe) resources (va_out_dir args) (va_dry_run args) (rs_world s) of
          (Err e, w) \<Rightarrow> Some (Err (RvRender e), s\<lparr>rs_world := w\<rparr>)
        | (Panic, w) \<Rightarrow> Some (Panic, s\<lparr>rs_world := w\<rparr>)
        | (Ok summary, w) \<Rightarrow>
            (case (case va_summary_out args of
                Some p \<Rightarrow> write_summary oe p summary w | None \<Rightarrow> Ok w) of
               Err e \<Rightarrow> Some (Err e, s\<lparr>rs_world := w\<rparr>)
             | Panic \<Rightarrow> Some (Panic, s\<lparr>rs_world := w\<rparr>)
             | Ok w' \<Rightarrow> Some (Ok (Success, emit_summary oe ctx args summary resources []), s\<lparr>rs_world := w'\<rparr>)))"

definition run_render ::
  "('vk, 'sk, 'sg, 'v::linorder, 'r, 'g) render_env \<Rightarrow> output_env \<Rightarrow> registry \<Rightarrow> worker \<Rightarrow> cli_context \<Rightarrow> verb_args
     \<Rightarrow> rstate \<Rightarrow> ((render_error, exit_code \<times> string) outcome \<times> rstate) option"
where
  "run_render env oe reg worker ctx args s =
     rbind (rpure (omap_err RvPackage (load_package (rs_world s) (va_package_path args)))) (\<lambda>pkg.
     rbind (rpure (load_inputs (re_from_yaml env) (rs_world s)
              (resolve_inputs_path (rs_world s) (va_package_path args) (va_inputs_path args)))) (\<lambda>inputs.
     rbind (resolve_package_charts env (va_package_path args) (va_offline args) ctx) (\<lambda>(charts, rctx).
     rbind (\<lambda>s. Some (build_budget (oe_overflow_checks oe) (oe_show_duration oe) (re_clock env) ctx (va_max_depth args) s)) (\<lambda>b.
     rbind (render_in_worker env reg worker [] pkg inputs charts (va_strict args) b rctx) (\<lambda>resources.
     deliver oe ctx args resources))))) s"

end
