(* ===== verification/RenderVerbSpec.thy ===== *)
theory RenderVerbSpec
  imports RenderVerb
begin

text \<open>
  What \<open>akua render\<close> promises: how its errors are reported, what an offline dry run leaves untouched, and
  that a rejected replacement is rejected all the way down.
\<close>

section \<open>Reports\<close>

lemma package_to_structured_docs:
  "docs (package_to_structured e) = Some (error_docs_base @ ''/'' @ code (package_to_structured e))
   \<and> level (package_to_structured e) = Error"
  by (cases e) (auto simp: structured_defs split: option.splits path_error.splits)

text \<open>
  Every error is reported at level error with the page of its own code, and ends the process with a
  failure code. The code is that of a timeout exactly for an evaluation that ran out of its budget of
  time, and such an error says so in its report.
\<close>

theorem render_error_reports:
  "docs (render_to_structured et e) = Some (error_docs_base @ ''/'' @ code (render_to_structured et e))
   \<and> level (render_to_structured et e) = Error
   \<and> is_failure (render_exit_code e)
   \<and> (render_exit_code e = Timeout \<longleftrightarrow>
        (\<exists>msg. e = RvPackage (KclEval msg)) \<and> code (render_to_structured et e) = E_RENDER_BUDGET_DEADLINE)"
proof (intro conjI)
  show "docs (render_to_structured et e) = Some (error_docs_base @ ''/'' @ code (render_to_structured et e))"
    using package_to_structured_docs manifest_errors.docs_of_code
    by (cases "(et, e)" rule: render_to_structured.cases) (simp_all add: structured_defs)
  show "level (render_to_structured et e) = Error"
    using package_to_structured_docs manifest_errors.level_error
    by (cases "(et, e)" rule: render_to_structured.cases) (simp_all add: structured_defs)
  show "is_failure (render_exit_code e)"
    by (cases e rule: render_exit_code.cases) (auto simp: is_failure_def split: option.splits)
  show "render_exit_code e = Timeout \<longleftrightarrow>
        (\<exists>msg. e = RvPackage (KclEval msg)) \<and> code (render_to_structured et e) = E_RENDER_BUDGET_DEADLINE"
    by (cases e rule: render_exit_code.cases)
      (auto simp: structured_defs render_codes split: option.splits)
qed

section \<open>An offline dry run\<close>

text \<open>What a step may have done where it returns, and that it returns if \<open>T\<close> holds.\<close>

definition harmless :: "bool \<Rightarrow> ('a \<Rightarrow> bool) \<Rightarrow> rstate \<Rightarrow> (('e, 'a) outcome \<times> rstate) option \<Rightarrow> bool" where
  "harmless T Q s m \<longleftrightarrow> (T \<longrightarrow> m \<noteq> None)
     \<and> (\<forall>r s1. m = Some (r, s1) \<longrightarrow> untouched s s1 \<and> (\<forall>a. r = Ok a \<longrightarrow> Q a))"

lemma rbind_harmless:
  assumes "harmless T Q s (m s)" and "\<And>a s1. Q a \<Longrightarrow> harmless T R s1 (f a s1)"
  shows "harmless T R s (rbind m f s)"
proof (cases "m s")
  case None
  with assms(1) show ?thesis by (simp add: harmless_def rbind_def)
next
  case (Some rs)
  obtain r s1 where rs: "rs = (r, s1)" by (cases rs)
  with Some assms(1) have s1: "untouched s s1" "\<forall>a. r = Ok a \<longrightarrow> Q a" by (auto simp: harmless_def)
  show ?thesis
  proof (cases r)
    case (Ok a)
    with s1(2) assms(2) [of a s1] have "harmless T R s1 (f a s1)" by simp
    with Some rs Ok s1(1) show ?thesis by (auto simp: harmless_def rbind_def intro: untouched_trans)
  qed (use Some rs s1(1) in \<open>auto simp: harmless_def rbind_def\<close>)
qed

lemma resolve_step_offline:
  assumes "offline opts"
  shows "\<exists>r. resolve_step env m workspace opts s = Some (r, s)"
  using resolve_deps_offline [OF assms, of "re_resolver env" workspace "m_dependencies m" "[]" "rs_world s" "rs_net s"]
  by (auto simp: resolve_step_def resolve_with_options_def split: outcome.splits)

lemma resolve_package_charts_offline:
  "\<exists>r. resolve_package_charts env p True ctx s = Some (r, s)
     \<and> (\<forall>charts rctx. r = Ok (charts, rctx) \<longrightarrow> ctx_offline rctx)"
proof (cases "load_manifest (re_manifest_toml env) (rs_world s) (workspace_of p)")
  case (Ok m)
  show ?thesis
  proof (cases "load_cosign_public_key (rs_world s) m (workspace_of p)")
    case key: (Ok key)
    let ?rctx = "root_context True ctx (rs_world s) key"
    have "offline (options_of ?rctx ds)" for ds by (simp add: options_of_def root_context_def)
    then obtain r where "resolve_step env m (workspace_of p)
        (options_of ?rctx (locked_digests env (rs_world s) (workspace_of p))) s = Some (r, s)"
      using resolve_step_offline by blast
    with Ok key show ?thesis
      by (auto simp: resolve_package_charts_def Let_def root_context_def outcome_simps)
  qed (use Ok in \<open>simp_all add: resolve_package_charts_def Let_def\<close>)
next
  case (Err e)
  then show ?thesis
    by (cases e) (simp_all add: resolve_package_charts_def Let_def root_context_def)
qed (simp add: resolve_package_charts_def Let_def)

lemma render_in_worker_offline:
  assumes "ctx_offline rctx"
  shows "harmless (evaluator_halts env \<and> (\<forall>w q d m. halts (worker w q d m))) (\<lambda>_. True) s
    (render_in_worker env reg worker stack pkg inputs charts strict b rctx s)"
proof -
  let ?stack = "enter_for_render_with_budget (rs_world s) (pk_path pkg) charts strict b rctx stack"
  have off: "ctx_offline (top_frame_resolver ?stack)"
    using assms by (simp add: enter_for_render_with_budget_def enter_full_def top_frame_resolver_def)
  show ?thesis
  proof (cases "worker_job env (rs_world s) pkg inputs charts")
    case (Ok jm)
    obtain job mounts where jm: "jm = (job, mounts)" by (cases jm)
    let ?tmp = "temp_dirs (mt_charts mounts) (mt_pkgs mounts)"
      and ?run = "worker (rs_world s) job (deadline b) mounts"
    have "untouched s (pop_temp ?tmp s')" if "exec env reg ?stack ?run (push_temp ?tmp s) = Some (r, s')" for r s'
      by (rule untouched_temp [OF exec_offline [OF that off]])
    moreover have "exec env reg ?stack ?run (push_temp ?tmp s) \<noteq> None"
      if "evaluator_halts env" "\<forall>w q d m. halts (worker w q d m)"
      using exec_returns [OF that(1) _ off] that(2) by blast
    ultimately show ?thesis
      using Ok jm by (auto simp: render_in_worker_def Let_def harmless_def)
  qed (simp_all add: render_in_worker_def Let_def harmless_def)
qed

lemma render_all_dry: "snd (render_all to_yaml out True i rs w) = w"
  by (induction rs arbitrary: i w)
    (auto simp: render_one_def Let_def split: outcome.splits prod.splits, (metis snd_conv)+)

lemma deliver_untouched:
  assumes "va_stdout_mode args \<or> va_dry_run args \<and> va_summary_out args = None"
  shows "harmless T (\<lambda>_. True) s (deliver oe ctx args resources s)"
proof (cases "va_stdout_mode args")
  case False
  with assms have dry: "va_dry_run args" "va_summary_out args = None" by auto
  obtain r w where run: "render_package (oe_sha256 oe) (oe_to_yaml oe) resources (va_out_dir args) True (rs_world s) = (r, w)"
    by fastforce
  then have "w = rs_world s"
    using render_all_dry [of "oe_to_yaml oe" "va_out_dir args" 0 resources "rs_world s"]
    by (auto simp: render_package_def split: outcome.splits prod.splits)
  with run dry False show ?thesis by (cases r) (auto simp: deliver_def untouched_def harmless_def)
qed (simp add: deliver_def harmless_def)

text \<open>
  C3. With \<open>--offline\<close> and \<open>--stdout\<close>, or \<open>--dry-run\<close> without \<open>--summary-out\<close>, a render that returns has sent
  no request, changed no file of the world, and removed again every temporary directory of generated packages,
  whatever the package composes. (This process's copy of the embedded standard library stays behind.) It
  returns if the evaluator does, in the worker and on the host: no budget stops a host evaluation that spins.
\<close>

theorem offline_dry_run_touches_nothing:
  assumes "va_offline args"
    and "va_stdout_mode args \<or> va_dry_run args \<and> va_summary_out args = None"
  shows "(\<forall>r s'. run_render env oe reg worker ctx args s = Some (r, s') \<longrightarrow>
      rs_world s' = rs_world s \<and> rs_net s' = rs_net s \<and> rs_temp s' = rs_temp s)
    \<and> (evaluator_halts env \<and> (\<forall>w q d m. halts (worker w q d m)) \<longrightarrow>
        run_render env oe reg worker ctx args s \<noteq> None)"
proof -
  let ?T = "evaluator_halts env \<and> (\<forall>w q d m. halts (worker w q d m))"
  have pure: "harmless ?T (\<lambda>_. True) s (rpure r s)" for r :: "(render_error, 'x) outcome" and s
    by (simp add: harmless_def rpure_def)
  have charts: "harmless ?T (\<lambda>(charts, rctx). ctx_offline rctx) s
      (resolve_package_charts env (va_package_path args) (va_offline args) ctx s)" for s
    using resolve_package_charts_offline [of env "va_package_path args" ctx s] assms(1)
    by (auto simp: harmless_def)
  have budget: "harmless ?T (\<lambda>_. True) s (Some (build_budget c sh clk ctx d s))" for c sh clk d s
    by (auto simp: harmless_def build_budget_def Let_def split: option.splits outcome.splits)
  have "harmless ?T (\<lambda>_. True) s (run_render env oe reg worker ctx args s)"
    unfolding run_render_def
    apply (rule rbind_harmless [OF pure])
    apply (rule rbind_harmless [OF pure])
    apply (rule rbind_harmless [OF charts])
    apply (clarsimp simp del: de_Morgan_conj)
    apply (rule rbind_harmless [OF budget])
    apply (rule rbind_harmless [OF render_in_worker_offline], assumption)
    apply (rule deliver_untouched [OF assms(2)])
    done
  then show ?thesis unfolding harmless_def untouched_def by blast
qed

definition toy_output :: output_env where
  "toy_output =
     \<lparr>oe_to_yaml = (\<lambda>_. Ok ''{}''), oe_sha256 = (\<lambda>s. s), oe_summary_json = (\<lambda>_. ''{}''),
      oe_debug_json = (\<lambda>_ _. ''{}''), oe_overflow_checks = True, oe_show_duration = (\<lambda>_. [])\<rparr>"

definition dry_args :: verb_args where
  "dry_args =
     \<lparr>va_package_path = child child_dir ''package.k'', va_inputs_path = None, va_out_dir = [Normal ''deploy''],
      va_summary_out = None, va_dry_run = True, va_stdout_mode = False, va_strict = False, va_offline = True,
      va_debug = False, va_max_depth = None\<rparr>"

lemma offline_dry_run_touches_nothing_witness:
  "\<exists>r s'. run_render toy_render toy_output (install_builtin_plugins []) (\<lambda>_ _ _ _. composing_run) context_json dry_args
       child_state = Some (r, s') \<and> rs_world s' = child_world \<and> rs_net s' = fresh_net \<and> rs_temp s' = []"
proof -
  have "va_offline dry_args" "va_stdout_mode dry_args \<or> va_dry_run dry_args \<and> va_summary_out dry_args = None"
    by (simp_all add: dry_args_def)
  from offline_dry_run_touches_nothing [OF this, of toy_render toy_output "install_builtin_plugins []"
      "\<lambda>_ _ _ _. composing_run" context_json child_state]
  show ?thesis using toy_render_halts composing_run_halts by (auto simp: child_state_def)
qed

section \<open>Replacements\<close>

lemma resolve_dep_rejects:
  "reject_replace opts \<Longrightarrow> resolve_dep R root opts name dep w n = Some (Ok cw, n') \<Longrightarrow> dep_replace dep = None"
  by (auto simp: resolve_dep_def split: option.splits)

lemma resolve_deps_rejects:
  "reject_replace opts \<Longrightarrow> resolve_deps R root opts ds acc w n = Some (Ok cw, n')
     \<Longrightarrow> list_all (\<lambda>(_, dep). dep_replace dep = None) ds"
proof (induction ds arbitrary: acc w n)
  case (Cons d ds)
  then show ?case
    by (cases d) (auto split: option.splits outcome.splits dest: resolve_dep_rejects)
qed simp

lemma resolve_step_rejects:
  assumes "reject_replace opts" and "resolve_step env m workspace opts s = Some (Ok charts, s')"
  shows "list_all (\<lambda>(_, dep). dep_replace dep = None) (m_dependencies m)"
  using assms(2) resolve_deps_rejects [OF assms(1), of "re_resolver env" workspace "m_dependencies m"]
  by (auto simp: resolve_step_def resolve_with_options_def split: option.splits outcome.splits)

definition no_replace :: "('vk, 'sk, 'sg, 'v, 'r, 'g) render_env \<Rightarrow> world \<Rightarrow> path \<Rightarrow> bool" where
  "no_replace env w workspace \<longleftrightarrow>
     (case load_manifest (re_manifest_toml env) w workspace of
        Ok m \<Rightarrow> list_all (\<lambda>(_, dep). dep_replace dep = None) (m_dependencies m) | _ \<Rightarrow> True)"

lemma resolve_child_charts_rejects:
  assumes "resolve_child_charts env stack target s = Some (Ok charts, s')"
    and "ctx_reject_replace (top_frame_resolver stack)"
  shows "no_replace env (rs_world s) (workspace_of target)"
proof (cases "load_manifest (re_manifest_toml env) (rs_world s) (workspace_of target)")
  case (Ok m)
  let ?opts = "options_of (top_frame_resolver stack) (locked_digests env (rs_world s) (workspace_of target))"
  from assms(1) Ok obtain s1 where "resolve_step env m (workspace_of target) ?opts s = Some (Ok charts, s1)"
    by (auto simp: resolve_child_charts_def Let_def omap_err_iff)
  moreover have "reject_replace ?opts" using assms(2) by (simp add: options_of_def)
  ultimately show ?thesis using Ok by (simp add: no_replace_def resolve_step_rejects)
qed (simp_all add: no_replace_def)

lemma resolve_package_charts_Ok:
  assumes "resolve_package_charts env p off ctx s = Some (Ok (charts, rctx), s')"
  shows "ctx_offline rctx = off
    \<and> ctx_reject_replace rctx = (detected (ctx_agent ctx) \<or> replace_rejected_from_env (rs_world s))
    \<and> (ctx_reject_replace rctx \<longrightarrow> no_replace env (rs_world s) (workspace_of p))"
proof (cases "load_manifest (re_manifest_toml env) (rs_world s) (workspace_of p)")
  case (Ok m)
  with assms obtain key where key: "load_cosign_public_key (rs_world s) m (workspace_of p) = Ok key"
    by (auto simp: resolve_package_charts_def Let_def split: outcome.splits)
  let ?rctx = "root_context off ctx (rs_world s) key"
  let ?opts = "options_of ?rctx (locked_digests env (rs_world s) (workspace_of p))"
  from assms Ok key have "resolve_step env m (workspace_of p) ?opts s = Some (Ok charts, s') \<and> rctx = ?rctx"
    by (auto simp: resolve_package_charts_def Let_def outcome_simps)
  moreover from this have "ctx_reject_replace rctx \<Longrightarrow> list_all (\<lambda>(_, dep). dep_replace dep = None) (m_dependencies m)"
    using resolve_step_rejects [of ?opts] by (auto simp: options_of_def)
  ultimately show ?thesis using Ok by (auto simp: no_replace_def root_context_def)
next
  case (Err e)
  with assms show ?thesis
    by (cases e) (auto simp: resolve_package_charts_def Let_def root_context_def no_replace_def)
qed (use assms in \<open>simp add: resolve_package_charts_def Let_def\<close>)

text \<open>
  C2. Run by an agent, or with \<open>AKUA_REJECT_REPLACE=1\<close>, a render honours no \<open>replace\<close>: the manifest of the
  outermost package has none, and neither has that of any package reached through \<open>pkg.render\<close>, at any
  depth.
\<close>

theorem rejected_replace_stays_rejected:
  assumes "resolve_package_charts env p off ctx s = Some (Ok (charts, rctx), s0)"
    and "detected (ctx_agent ctx) \<or> replace_rejected_from_env (rs_world s)"
    and "render_stacks env (hd (enter_for_render_with_budget w pkg charts strict b rctx [])) stack"
    and "resolve_child_charts env stack target s1 = Some (Ok child_charts, s2)"
  shows "no_replace env (rs_world s) (workspace_of p) \<and> no_replace env (rs_world s1) (workspace_of target)"
proof -
  note root = resolve_package_charts_Ok [OF assms(1)]
  with assms(2) have reject: "ctx_reject_replace rctx" by simp
  have inherit: "fr_resolver f = rctx" if "f \<in> set stack" for f
    using assms(3) that
  proof (induction arbitrary: f rule: render_stacks.induct)
    case outermost
    then show ?case by (simp add: enter_for_render_with_budget_def enter_full_def)
  next
    case (nested stk stk')
    from nested(2) obtain g where g: "stk' = g # stk" "fr_resolver g = top_frame_resolver stk"
      by (rule opens_frame)
    from nested(1) have "stk \<noteq> []" by (induction rule: render_stacks.induct) (auto elim: opens_frame)
    with g nested(3,4) show ?case by (cases stk) (auto simp: top_frame_resolver_def)
  qed
  from assms(3) have "stack \<noteq> []" by (induction rule: render_stacks.induct) (auto elim: opens_frame)
  with inherit reject have "ctx_reject_replace (top_frame_resolver stack)"
    by (cases stack) (auto simp: top_frame_resolver_def)
  with resolve_child_charts_rejects [OF assms(4)] root reject show ?thesis by blast
qed

definition agent_ctx :: cli_context where
  "agent_ctx = context_resolve default_args
     \<lparr>detected = True, agent_src = Some ClaudeCode, agent_name = Some ''1'', disabled_via_env = False\<rparr>"

lemma rejected_replace_stays_rejected_witness:
  "no_replace toy_render child_world (workspace_of (child child_dir ''package.k''))
   \<and> resolve_package_charts toy_render (child child_dir ''package.k'') True agent_ctx child_state
       = Some (Ok ([], root_context True agent_ctx child_world None), child_state)"
proof -
  let ?p = "child child_dir ''package.k''"
  let ?rctx = "root_context True agent_ctx child_world None"
  let ?root = "hd (enter_for_render_with_budget child_world ?p [] False unbounded ?rctx [])"
  have missing: "(case load_manifest (re_manifest_toml toy_render) child_world (workspace_of ?p) of
      Err (ManifestMissing _) \<Rightarrow> True | _ \<Rightarrow> False)" by code_simp
  have w: "rs_world child_state = child_world" by (simp add: child_state_def)
  have r: "resolve_package_charts toy_render ?p True agent_ctx child_state = Some (Ok ([], ?rctx), child_state)"
    using missing unfolding resolve_package_charts_def Let_def w
    by (auto split: outcome.splits manifest_load_error.splits)
  have c: "resolve_child_charts toy_render [?root] ?p child_state = Some (Ok [], child_state)"
    using missing unfolding resolve_child_charts_def Let_def w
    by (auto split: outcome.splits manifest_load_error.splits)
  have "detected (ctx_agent agent_ctx)" by code_simp
  then have d: "detected (ctx_agent agent_ctx) \<or> replace_rejected_from_env (rs_world child_state)" by simp
  from rejected_replace_stays_rejected [OF r d render_stacks.outermost c] r w show ?thesis by simp
qed

section \<open>The frames of a render\<close>

lemma resolve_package_charts_charts:
  assumes "resolve_package_charts env p off ctx s = Some (Ok (charts, rctx), s')"
  shows "bt_inv charts \<and> declared_charts env (rs_world s) (workspace_of p) charts"
proof (cases "load_manifest (re_manifest_toml env) (rs_world s) (workspace_of p)")
  case (Ok m)
  from assms Ok obtain opts where "resolve_step env m (workspace_of p) opts s = Some (Ok charts, s')"
    by (auto simp: resolve_package_charts_def Let_def outcome_simps split: outcome.splits)
  with Ok resolve_step_names [OF this] resolve_step_bt_inv [OF this] show ?thesis
    by (simp add: declared_charts_def)
next
  case (Err e)
  with assms show ?thesis
    by (cases e) (auto simp: resolve_package_charts_def Let_def declared_charts_def bt_inv_def)
qed (use assms in \<open>simp add: resolve_package_charts_def Let_def\<close>)

text \<open>
  C34. In every stack of a render every frame is well-formed: its aliases are a map, and each leads to one of
  the roots plugin paths may use. What a package can compose by alias is what its own manifest declares,
  for the outermost package and for any package that is opened on top: no alias of the caller is visible
  to the package it composes, and one without a manifest has none.
\<close>

theorem render_stacks_wf:
  assumes "resolve_package_charts env p off ctx s = Some (Ok (charts, rctx), s0)"
    and "render_stacks env (hd (enter_for_render_with_budget w pkg charts strict b rctx [])) stack"
  shows "list_all wf_frame stack
    \<and> declared_aliases env (rs_world s) (workspace_of p) (last stack)
    \<and> (\<forall>args s1 target stack' tmp run s2.
         pkg_render_begin env stack args s1 = Some (Enter target stack' tmp run, s2) \<longrightarrow>
         declared_aliases env (rs_world s1) (workspace_of target) (hd stack'))"
proof (intro conjI allI impI)
  let ?root = "hd (enter_for_render_with_budget w pkg charts strict b rctx [])"
  note charts = resolve_package_charts_charts [OF assms(1)]
  have root: "wf_frame ?root" "declared_aliases env (rs_world s) (workspace_of p) ?root"
    using charts wf_enter_for_render [of charts w pkg strict "[]"]
      declared_aliases_I [of env "rs_world s" "workspace_of p" charts ?root w]
    by (auto simp: enter_for_render_def enter_for_render_with_budget_def enter_full_def wf_frame_def)
  show "list_all wf_frame stack" by (rule opens_wf [OF assms(2) root(1)])
  have "last stack = ?root" using assms(2)
  proof (induction rule: render_stacks.induct)
    case (nested stack stack')
    from nested(1) have "stack \<noteq> []" by (induction rule: render_stacks.induct) (auto elim: opens_frame)
    with nested(2,3) show ?case by (auto elim: opens_frame)
  qed simp
  with root(2) show "declared_aliases env (rs_world s) (workspace_of p) (last stack)" by simp
  fix args s1 target stack' tmp run s2
  assume "pkg_render_begin env stack args s1 = Some (Enter target stack' tmp run, s2)"
  then show "declared_aliases env (rs_world s1) (workspace_of target) (hd stack')"
    by (rule opened_frame) simp
qed

section \<open>A bare file name\<close>

text \<open>
  The workspace of \<open>package.k\<close>, given without a directory, is the empty path, which no canonical path has:
  a local dependency of such a package is never resolved. Spelled \<open>./package.k\<close> the workspace is \<open>.\<close>.
\<close>

lemma resolve_path_empty_root:
  "canonicalize w [] = Err e \<Longrightarrow>
     resolve_path R w name requested [] src UserManifest = Err (ChartIo name [] e)"
  by (simp add: resolve_path_def resolve_canon_def)

theorem bare_package_path_fails:
  assumes "canonicalize (rs_world s) [] = Err e"
    and "load_manifest (re_manifest_toml env) (rs_world s) [] = Ok m"
    and "load_cosign_public_key (rs_world s) m [] = Ok key"
    and "m_dependencies m = (name, path_dep declared) # deps"
    and "\<not> is_dir (rs_world s) (vendor_path [] name)"
  shows "resolve_package_charts env [Normal file] off ctx s = Some (Err (RvCharts (ChartIo name [] e)), s)"
proof -
  have ws: "workspace_of [Normal file] = []" by (simp add: workspace_of_def parent_def)
  have spec: "dep_spec (path_dep declared) = Ok (SpecPath declared)" "dep_replace (path_dep declared) = None"
    by (simp_all add: path_dep_def spec_def source_def)
  have "resolve_vendored (re_resolver env) (rs_world s) name [] (SpecPath declared) = Ok None"
    using assms(5) by (simp add: resolve_vendored_None)
  then have "resolve_dep (re_resolver env) [] opts name (path_dep declared) (rs_world s) (rs_net s)
      = Some (Err (ChartIo name [] e), rs_net s)" for opts
    using spec by (simp add: resolve_dep_def resolve_source_def resolve_path_empty_root [OF assms(1)])
  then have "resolve_step env m [] opts s = Some (Err (ChartIo name [] e), s)" for opts
    using assms(4) by (simp add: resolve_step_def resolve_with_options_def)
  then show ?thesis using assms(2,3) by (simp add: resolve_package_charts_def ws Let_def)
qed

definition bare_env :: "(unit, unit, string, nat, nat, unit) render_env" where
  "bare_env = toy_render\<lparr>re_manifest_toml := (\<lambda>_. Ok (manifest_with [(''web'', path_dep ''web'')]))\<rparr>"

definition bare_state :: rstate where
  "bare_state = child_state\<lparr>rs_world := (text_world [])\<lparr>canonicalize := (\<lambda>p. if p = [] then Err not_found else Ok p)\<rparr>\<rparr>"

lemma bare_package_path_fails_witness:
  "resolve_package_charts bare_env [Normal ''package.k''] True context_human bare_state
     = Some (Err (RvCharts (ChartIo ''web'' [] not_found)), bare_state)"
proof -
  have w: "rs_world bare_state = (text_world [])\<lparr>canonicalize := (\<lambda>p. if p = [] then Err not_found else Ok p)\<rparr>"
    by (simp add: bare_state_def)
  have m: "re_manifest_toml bare_env = (\<lambda>_. Ok (manifest_with [(''web'', path_dep ''web'')]))"
    by (simp add: bare_env_def)
  have load: "load_manifest (re_manifest_toml bare_env) (rs_world bare_state) [] = Ok (manifest_with [(''web'', path_dep ''web'')])"
    unfolding w m by (simp add: load_manifest_def parse_manifest_def text_world_def) code_simp
  show ?thesis
  proof (rule bare_package_path_fails [OF _ load])
    show "canonicalize (rs_world bare_state) [] = Err not_found" by (simp add: w)
    show "load_cosign_public_key (rs_world bare_state) (manifest_with [(''web'', path_dep ''web'')]) [] = Ok None"
      by (simp add: load_cosign_public_key_def manifest_with_def)
    show "m_dependencies (manifest_with [(''web'', path_dep ''web'')]) = [(''web'', path_dep ''web'')]"
      by (simp add: manifest_with_def)
    show "\<not> is_dir (rs_world bare_state) (vendor_path [] ''web'')" by (simp add: w text_world_def)
  qed
qed

lemma render_stacks_wf_witness:
  "\<exists>charts rctx s0 f. resolve_package_charts bare_env (ws_root @ [Normal ''package.k'']) True context_human
       (child_state\<lparr>rs_world := text_world []\<rparr>) = Some (Ok (charts, rctx), s0)
     \<and> f = hd (enter_for_render_with_budget ((text_world [])\<lparr>is_file := (\<lambda>_. True)\<rparr>) (ws_root @ [Normal ''package.k''])
         charts False unbounded rctx [])
     \<and> bt_keys (fr_resolved_pkgs f) = [''web''] \<and> wf_frame f
     \<and> declared_aliases bare_env (text_world []) (workspace_of (ws_root @ [Normal ''package.k''])) f"
proof -
  let ?p = "ws_root @ [Normal ''package.k'']" and ?s = "child_state\<lparr>rs_world := text_world []\<rparr>"
  let ?w = "(text_world [])\<lparr>is_file := (\<lambda>_. True)\<rparr>"
  have "case resolve_package_charts bare_env ?p True context_human ?s of
      Some (Ok (charts, _), _) \<Rightarrow> map fst charts = [''web''] | _ \<Rightarrow> False" by code_simp
  then obtain charts rctx s0 where run: "resolve_package_charts bare_env ?p True context_human ?s = Some (Ok (charts, rctx), s0)"
    and names: "map fst charts = [''web'']" by (auto split: option.splits outcome.splits)
  let ?f = "hd (enter_for_render_with_budget ?w ?p charts False unbounded rctx [])"
  have "render_stacks bare_env ?f [?f]" by (rule render_stacks.outermost)
  from render_stacks_wf [OF run this] have "wf_frame ?f" "declared_aliases bare_env (text_world []) (workspace_of ?p) ?f"
    by simp_all
  moreover have "bt_keys (fr_resolved_pkgs ?f) = map fst charts"
    by (simp add: enter_for_render_with_budget_def enter_full_def pkg_aliases_def bt_keys_def split_def comp_def)
  ultimately show ?thesis using run names by metis
qed

section \<open>The time budget\<close>

text \<open>
  A timeout in seconds sets the deadline that many seconds from now and keeps the depth asked for; one
  that no instant can hold, though the flag parses, takes the process down instead of being refused.
\<close>

theorem build_budget_seconds:
  assumes "k < 2 ^ 64" and "ctx_timeout ctx = Some (show_nat k @ ''s'')"
  shows "build_budget checks sh clock ctx depth s =
    ((if INSTANT_SECS \<le> (clock (rs_ticks s) + k * 1000000000) div 1000000000 then Panic
      else Ok \<lparr>deadline = Some (clock (rs_ticks s) + k * 1000000000),
               max_depth = (case depth of Some n \<Rightarrow> n | None \<Rightarrow> DEFAULT_MAX_DEPTH)\<rparr>),
     s\<lparr>rs_ticks := Suc (rs_ticks s)\<rparr>)"
proof -
  have u: "''s'' \<noteq> []" "is_ascii_alphabetic (hd ''s'')" "plain_char (last ''s'')"
    by (simp_all add: is_ascii_alphabetic_def plain_char_def)
  have "parse_go_duration checks (show_nat k @ ''s'') = Ok (k * 1000000000)"
    unfolding parse_go_duration_def Let_def parse_show_nat [OF assms(1) u]
    by (simp add: from_secs_def unat_of_nat_u64 [OF assms(1)])
  with assms(2) show ?thesis by (simp add: build_budget_def instant_add_def Let_def)
qed

lemma build_budget_seconds_witness:
  "fst (build_budget True (\<lambda>_. []) (\<lambda>_. 0) (context_human\<lparr>ctx_timeout := Some (show_nat (2 ^ 63) @ ''s'')\<rparr>) None child_state) = Panic"
proof -
  have "(2 ^ 63 :: nat) < 2 ^ 64" by simp
  from build_budget_seconds [OF this, of "context_human\<lparr>ctx_timeout := Some (show_nat (2 ^ 63) @ ''s'')\<rparr>"]
  show ?thesis by (simp add: INSTANT_SECS_def)
qed

end
