(* ===== verification/Slsa.thy ===== *)
theory Slsa
  imports Lockfile Fetch
begin

text \<open>
  \<open>slsa.rs\<close> and \<open>cosign_sidecar.rs\<close>: the in-toto statement with its SLSA provenance that \<open>akua publish\<close>
  signs, and the signature file that \<open>akua sign\<close> leaves beside a tarball. A digest map of in-toto is a
  \<open>BTreeMap\<close> from algorithm to hex.
\<close>

section \<open>The statement\<close>

record subject =
  sub_name :: string
  sub_digest :: "(string, string) btree"

record external_parameters =
  ep_oci_ref :: string
  ep_tag :: string

record resource_descriptor =
  rd_name :: string
  rd_digest :: "(string, string) btree"
  rd_uri :: "string option"

record build_definition =
  bd_build_type :: string
  bd_external_parameters :: external_parameters
  bd_resolved_dependencies :: "resource_descriptor list"

record builder =
  builder_id :: string

record run_details =
  rund_builder :: builder

record slsa_provenance =
  sp_build_definition :: build_definition
  sp_run_details :: run_details

record in_toto_statement =
  its_type :: string
  its_subject :: "subject list"
  its_predicate_type :: string
  its_predicate :: slsa_provenance

definition IN_TOTO_STATEMENT_TYPE :: string where
  "IN_TOTO_STATEMENT_TYPE = ''https://in-toto.io/Statement/v1''"
definition SLSA_PROVENANCE_PREDICATE_TYPE :: string where
  "SLSA_PROVENANCE_PREDICATE_TYPE = ''https://slsa.dev/provenance/v1''"
definition AKUA_BUILD_TYPE :: string where
  "AKUA_BUILD_TYPE = ''https://akua.dev/slsa/publish/v1''"

definition split_digest :: "string \<Rightarrow> string \<times> string" where
  "split_digest d = (case split_once '':'' d of Some p \<Rightarrow> p | None \<Rightarrow> (''sha256'', d))"

definition digest_map :: "string \<Rightarrow> (string, string) btree" where
  "digest_map d = (case split_digest d of (algo, hex) \<Rightarrow> bt_insert algo hex [])"

definition lock_entry_to_resource :: "locked_package \<Rightarrow> resource_descriptor" where
  "lock_entry_to_resource p =
     \<lparr>rd_name = lp_name p, rd_digest = digest_map (lp_digest p), rd_uri = Some (lp_source p)\<rparr>"

text \<open>\<open>version\<close> is the version of the akua binary, fixed at build time.\<close>

definition build_publish_attestation ::
  "string \<Rightarrow> string \<Rightarrow> string \<Rightarrow> string \<Rightarrow> string \<Rightarrow> akua_lock option \<Rightarrow> in_toto_statement"
where
  "build_publish_attestation version subject_name manifest_digest oci_ref tag lock =
     \<lparr>its_type = IN_TOTO_STATEMENT_TYPE,
      its_subject = [\<lparr>sub_name = subject_name, sub_digest = digest_map manifest_digest\<rparr>],
      its_predicate_type = SLSA_PROVENANCE_PREDICATE_TYPE,
      its_predicate =
        \<lparr>sp_build_definition =
           \<lparr>bd_build_type = AKUA_BUILD_TYPE,
            bd_external_parameters = \<lparr>ep_oci_ref = oci_ref, ep_tag = tag\<rparr>,
            bd_resolved_dependencies =
              (case lock of Some l \<Rightarrow> map lock_entry_to_resource (packages l) | None \<Rightarrow> [])\<rparr>,
         sp_run_details = \<lparr>rund_builder = \<lparr>builder_id = ''https://cli.akua.dev/cli/v'' @ version\<rparr>\<rparr>\<rparr>\<rparr>"

section \<open>The signature file\<close>

record sign_sidecar =
  sc_oci_ref :: string
  sc_tag :: string
  sc_manifest_digest :: string
  sc_payload :: string
  sc_signature_b64 :: string
  sc_akua_version :: string

datatype sidecar_error =
  SidecarIo path io_error
| SidecarParse path string
| SidecarSerialize string

text \<open>The suffix is appended to the text of the path, so \<open>.tar.gz\<close> stays.\<close>

definition default_sidecar_path :: "path \<Rightarrow> path" where
  "default_sidecar_path tarball = path_of (path_str tarball @ ''.akuasig'')"

definition sidecar_write_to ::
  "(sign_sidecar \<Rightarrow> (string, string) outcome) \<Rightarrow> sign_sidecar \<Rightarrow> path \<Rightarrow> world \<Rightarrow> (sidecar_error, world) outcome"
where
  "sidecar_write_to to_json sc p w =
     obind (omap_err SidecarSerialize (to_json sc)) (\<lambda>body. omap_err (SidecarIo p) (fs_write p body w))"

definition sidecar_read_from ::
  "(string \<Rightarrow> (string, sign_sidecar) outcome) \<Rightarrow> path \<Rightarrow> world \<Rightarrow> (sidecar_error, sign_sidecar) outcome"
where
  "sidecar_read_from of_json p w =
     obind (omap_err (SidecarIo p) (read_to_string w p)) (\<lambda>body. omap_err (SidecarParse p) (of_json body))"

section \<open>Subjects\<close>

text \<open>The verifier's question: does a statement describe the artifact with this digest?\<close>

definition describes :: "in_toto_statement \<Rightarrow> string \<Rightarrow> bool" where
  "describes stmt digest \<longleftrightarrow>
     (case split_digest digest of (algo, hex) \<Rightarrow>
        list_ex (\<lambda>s. bt_get (sub_digest s) algo = Some hex) (its_subject stmt))"

lemma describes_published:
  "describes (build_publish_attestation v name d oci_ref tag lock) digest \<longleftrightarrow> split_digest digest = split_digest d"
  by (cases "split_digest d"; cases "split_digest digest")
    (auto simp: describes_def build_publish_attestation_def digest_map_def bt_get_def)

lemma split_digest_sha256: "split_digest (''sha256:'' @ hex) = (''sha256'', hex)"
  by (simp add: split_digest_def prefix_def)

lemma sidecar_roundtrip:
  assumes "sidecar_write_to to_json sc p w = Ok w'" and "\<And>b. to_json sc = Ok b \<Longrightarrow> of_json b = Ok sc"
  shows "sidecar_read_from of_json p w' = Ok sc"
  using assms by (auto simp: sidecar_write_to_def sidecar_read_from_def outcome_simps dest!: fs_write_read)

end
