(* ===== verification/OciPuller.thy ===== *)
theory OciPuller
  imports OciFetcher
begin

text \<open>
  \<open>oci_puller.rs\<close>: fetching a published package as the tarball it was uploaded as, and the DSSE envelope of
  its attestation. A puller has the environment of the fetcher and its own reader of manifests, which
  asks for the media type and the digest of each layer only.
\<close>

definition OCI_MANIFEST_MEDIA_TYPE :: string where
  "OCI_MANIFEST_MEDIA_TYPE = ''application/vnd.oci.image.manifest.v1+json''"

record pull_layer =
  pl_media_type :: string
  pl_digest :: string

record pulled_package =
  pp_tarball :: string
  pp_manifest_digest :: string
  pp_layer_digest :: string

datatype pull_error =
  PullTransport transport_error
| NoAkuaLayer string string
| LayerDigestMismatch string string
| PullManifestParse string

record ('vk, 'sk, 'sg) pull_env =
  pe_oci :: "('vk, 'sk, 'sg) oci_env"
  pull_layers_of_json :: "string \<Rightarrow> (string, pull_layer list) outcome"

definition pull_get ::
  "('vk, 'sk, 'sg) pull_env \<Rightarrow> string \<Rightarrow> string \<Rightarrow> credentials option \<Rightarrow> string list \<Rightarrow> net
     \<Rightarrow> (transport_error, string) outcome \<times> net"
where
  "pull_get env = get_with_auth (env_codecs (pe_oci env)) (env_server (pe_oci env)) (env_json_token (pe_oci env))"

definition layer_of_type :: "string \<Rightarrow> pull_layer list \<Rightarrow> pull_layer option" where
  "layer_of_type t = find (\<lambda>l. pl_media_type l = t)"

text \<open>The reference, and the client; every call starts with an empty token cache.\<close>

definition pull_start :: "('vk, 'sk, 'sg) pull_env \<Rightarrow> string \<Rightarrow> net \<Rightarrow> (pull_error, oci_ref) outcome \<times> net" where
  "pull_start env oci_ref n =
     (obind (omap_err PullTransport (parse_ref oci_ref)) (\<lambda>parsed.
      obind (omap_err PullTransport (build_client (pe_oci env))) (\<lambda>_. Ok parsed)), n\<lparr>token := None\<rparr>)"

definition pull ::
  "('vk, 'sk, 'sg) pull_env \<Rightarrow> string \<Rightarrow> string \<Rightarrow> creds_store \<Rightarrow> net
     \<Rightarrow> (pull_error, pulled_package) outcome \<times> net"
where
  "pull env oci_ref tag creds =
     nbind (pull_start env oci_ref) (\<lambda>parsed.
     let registry_creds = for_registry creds (ref_registry parsed)
     in nbind (nmap_err PullTransport (pull_get env (registry_url parsed ''manifests'' tag) (ref_registry parsed)
              registry_creds [OCI_MANIFEST_MEDIA_TYPE])) (\<lambda>manifest_bytes.
        nbind (nret (omap_err PullManifestParse (pull_layers_of_json env manifest_bytes))) (\<lambda>ls.
        nbind (nret (ok_or (NoAkuaLayer oci_ref tag) (layer_of_type AKUA_PACKAGE_LAYER_MEDIA_TYPE ls))) (\<lambda>layer.
        nbind (nmap_err PullTransport (pull_get env (registry_url parsed ''blobs'' (pl_digest layer))
              (ref_registry parsed) registry_creds [])) (\<lambda>blob.
        let actual = digest_of_bytes (pe_oci env) blob
        in nret (if actual \<noteq> pl_digest layer then Err (LayerDigestMismatch actual (pl_digest layer))
                 else Ok \<lparr>pp_tarball = blob, pp_manifest_digest = digest_of_bytes (pe_oci env) manifest_bytes,
                          pp_layer_digest = pl_digest layer\<rparr>))))))"

definition att_tag_of :: "string \<Rightarrow> string" where
  "att_tag_of manifest_digest =
     ''sha256-'' @ (case strip_prefix ''sha256:'' manifest_digest of Some h \<Rightarrow> h | None \<Rightarrow> manifest_digest)
       @ ''.att''"

text \<open>A registry that answers 404 has no attestation; every other refusal is an error.\<close>

definition pull_attestation ::
  "('vk, 'sk, 'sg) pull_env \<Rightarrow> string \<Rightarrow> string \<Rightarrow> creds_store \<Rightarrow> net
     \<Rightarrow> (pull_error, string option) outcome \<times> net"
where
  "pull_attestation env oci_ref manifest_digest creds =
     nbind (pull_start env oci_ref) (\<lambda>parsed n.
     let registry_creds = for_registry creds (ref_registry parsed);
         att_tag = att_tag_of manifest_digest
     in case pull_get env (registry_url parsed ''manifests'' att_tag) (ref_registry parsed)
              registry_creds [OCI_MANIFEST_MEDIA_TYPE] n of
          (Ok bytes, n) \<Rightarrow>
            nbind (nret (omap_err PullManifestParse (pull_layers_of_json env bytes))) (\<lambda>ls.
            nbind (nret (ok_or (NoAkuaLayer oci_ref att_tag) (layer_of_type DSSE_ENVELOPE_MEDIA_TYPE ls))) (\<lambda>layer.
            nbind (nmap_err PullTransport (pull_get env (registry_url parsed ''blobs'' (pl_digest layer))
              (ref_registry parsed) registry_creds [])) (\<lambda>envelope_bytes.
            nret (Ok (Some envelope_bytes))))) n
        | (Err (TransportStatus url status body), n) \<Rightarrow>
            (if status = 404 then Ok None else Err (PullTransport (TransportStatus url status body)), n)
        | (Err e, n) \<Rightarrow> (Err (PullTransport e), n)
        | (Panic, n) \<Rightarrow> (Panic, n))"

section \<open>What a pull returns\<close>

lemma digest_of_bytes_neq: "env_sha256 env a \<noteq> env_sha256 env b \<Longrightarrow> digest_of_bytes env a \<noteq> digest_of_bytes env b"
  by (auto simp: digest_of_bytes_def dest: hex_encode_inject)

lemma strip_prefix_append [simp]: "strip_prefix p (p @ s) = Some s"
  by (simp add: strip_prefix_def)

lemma att_tag_of_digest: "att_tag_of (digest_of_bytes env b) = ''sha256-'' @ hex_encode (env_sha256 env b) @ ''.att''"
  unfolding att_tag_of_def digest_of_bytes_def strip_prefix_append by simp

lemma att_tag_of_inject:
  "att_tag_of (digest_of_bytes env a) = att_tag_of (digest_of_bytes env b) \<Longrightarrow> env_sha256 env a = env_sha256 env b"
  by (auto simp: att_tag_of_digest dest: hex_encode_inject)

lemma pull_Ok:
  assumes "pull env oci_ref tag creds n = (Ok p, n')"
  shows "pp_layer_digest p = digest_of_bytes (pe_oci env) (pp_tarball p) \<and> length (pp_tarball p) \<le> MAX_BLOB_BYTES
    \<and> (\<exists>bytes ls layer. pull_layers_of_json env bytes = Ok ls \<and> layer \<in> set ls
        \<and> pl_media_type layer = AKUA_PACKAGE_LAYER_MEDIA_TYPE \<and> pl_digest layer = pp_layer_digest p
        \<and> pp_manifest_digest p = digest_of_bytes (pe_oci env) bytes)"
  using assms
  by (auto simp: pull_def Let_def outcome_simps layer_of_type_def pull_get_def get_with_auth_def find_Some_iff
      dest!: get_with_auth_capped_length split: if_splits)
    (metis nth_mem)

end
