(* ===== verification/Verify.thy ===== *)
theory Verify
  imports Slsa OciPuller ResolverSpec
begin

text \<open>
  \<open>verbs/verify.rs\<close>: the consistency check of \<open>akua.toml\<close> against \<open>akua.lock\<close>, the trees on disk and the
  attestations in the registry. Violations are values; what keeps the check from running is an error.
  As in the CLI, cosign verification is compiled in.
\<close>

section \<open>The verdict\<close>

datatype violation =
  UnlockedDep string
| OrphanLocked string string
| MissingSignature string string
| PathDigestDrift string string string
| PathMissing string string
| AttestationMissing string string
| AttestationInvalid string string string
| AttestationSubjectMismatch string string string

record verify_summary =
  vs_declared_deps :: nat
  vs_locked_packages :: nat
  vs_strict_signing :: bool

record verify_output =
  vo_status :: string
  vo_summary :: verify_summary
  vo_violations :: "violation list"

definition verify_is_ok :: "verify_output \<Rightarrow> bool" where
  "verify_is_ok out \<longleftrightarrow> vo_violations out = []"

datatype verify_error =
  VfManifest manifest_load_error
| VfLock lock_load_error
| VfCosignKeyIo path io_error
| VfCredsConfig string
| VfStdoutWrite io_error

definition with_hint_if :: "bool \<Rightarrow> string \<Rightarrow> structured_error \<Rightarrow> structured_error" where
  "with_hint_if b s e = (if b then with_suggestion s e else e)"

fun verify_to_structured ::
  "(manifest_error \<Rightarrow> string) \<Rightarrow> (lock_error \<Rightarrow> string) \<Rightarrow> verify_error \<Rightarrow> structured_error"
where
  "verify_to_structured dm dl (VfManifest e) =
     with_hint_if (case e of ManifestMissing _ \<Rightarrow> True | _ \<Rightarrow> False)
       ''run `akuapkg init` or check the working directory'' (manifest_load_to_structured dm e)"
| "verify_to_structured dm dl (VfLock e) =
     with_hint_if (case e of LockMissing _ \<Rightarrow> True | _ \<Rightarrow> False)
       ''run `akuapkg add` to resolve deps and generate the lockfile'' (lock_load_to_structured dl e)"
| "verify_to_structured dm dl (VfCosignKeyIo p e) =
     with_default_docs (with_suggestion
       ''akua.toml [signing].cosign_public_key must resolve to a PEM-encoded public key file.''
       (with_path (path_str p) (structured_new E_IO (io_msg e))))"
| "verify_to_structured dm dl (VfCredsConfig detail) = with_default_docs (structured_new E_IO detail)"
| "verify_to_structured dm dl (VfStdoutWrite e) = with_default_docs (structured_new E_IO (io_msg e))"

fun verify_error_is_system :: "verify_error \<Rightarrow> bool" where
  "verify_error_is_system (VfManifest e) = manifest_load_is_system e"
| "verify_error_is_system (VfLock e) = lock_load_is_system e"
| "verify_error_is_system (VfStdoutWrite _) = True"
| "verify_error_is_system _ = False"

definition verify_exit_code :: "verify_error \<Rightarrow> exit_code" where
  "verify_exit_code e = (if verify_error_is_system e then SystemError else UserError)"

interpretation verify_errors: reported_error "verify_to_structured dm dl" verify_error_is_system verify_exit_code
  for dm dl
proof unfold_locales
  fix e
  show "docs (verify_to_structured dm dl e) =
      Some (error_docs_base @ ''/'' @ code (verify_to_structured dm dl e))"
  proof (cases e)
    case (VfManifest m)
    then show ?thesis by (cases m) (simp_all add: with_hint_if_def structured_defs)
  next
    case (VfLock l)
    then show ?thesis by (cases l) (simp_all add: with_hint_if_def structured_defs)
  qed (simp_all add: structured_defs)
  show "level (verify_to_structured dm dl e) = Error"
  proof (cases e)
    case (VfManifest m)
    then show ?thesis by (cases m) (simp_all add: with_hint_if_def structured_defs)
  next
    case (VfLock l)
    then show ?thesis by (cases l) (simp_all add: with_hint_if_def structured_defs)
  qed (simp_all add: structured_defs)
qed (simp_all add: verify_exit_code_def)

section \<open>The checks\<close>

record ('vk, 'sk, 'sg, 'v, 'r, 'g) verify_env =
  ve_resolver :: "('vk, 'sk, 'sg, 'v, 'r, 'g) resolver_env"
  ve_pull_layers :: "string \<Rightarrow> (string, pull_layer list) outcome"
  ve_manifest_toml :: "string \<Rightarrow> (string, manifest) outcome"
  ve_lock_toml :: "string \<Rightarrow> (string, akua_lock) outcome"
  ve_statement_of_json :: "string \<Rightarrow> (string, in_toto_statement) outcome"
  ve_show_cosign :: "cosign_error \<Rightarrow> string"
  ve_show_pull :: "pull_error \<Rightarrow> string"
  ve_show_auth :: "auth_load_error \<Rightarrow> string"
  ve_output_json :: "verify_output \<Rightarrow> string"

definition declared :: "manifest \<Rightarrow> string \<Rightarrow> bool" where
  "declared m name \<longleftrightarrow> bt_get (m_dependencies m) name \<noteq> None"

definition unlocked_deps :: "manifest \<Rightarrow> akua_lock \<Rightarrow> violation list" where
  "unlocked_deps m lock =
     map UnlockedDep (filter (\<lambda>name. name \<notin> lp_name ` set (packages lock)) (bt_keys (m_dependencies m)))"

definition orphans :: "manifest \<Rightarrow> akua_lock \<Rightarrow> violation list" where
  "orphans m lock =
     map (\<lambda>p. OrphanLocked (lp_name p) (lp_version p)) (filter (\<lambda>p. \<not> declared m (lp_name p)) (packages lock))"

definition missing_signatures :: "manifest \<Rightarrow> akua_lock \<Rightarrow> violation list" where
  "missing_signatures m lock =
     (if strict_signing (m_package m)
      then map (\<lambda>p. MissingSignature (lp_name p) (lp_version p))
             (filter (\<lambda>p. \<not> lp_is_path p \<and> lp_signature p = None) (packages lock))
      else [])"

definition path_drift :: "manifest \<Rightarrow> resolved_charts \<Rightarrow> locked_package \<Rightarrow> violation list" where
  "path_drift m resolved p =
     (case bt_get resolved (lp_name p) of
        None \<Rightarrow> (if declared m (lp_name p) then [PathMissing (lp_name p) (lp_source p)] else [])
      | Some c \<Rightarrow>
          (if rc_sha256 c \<noteq> lp_digest p then [PathDigestDrift (lp_name p) (lp_digest p) (rc_sha256 c)] else []))"

text \<open>A failed resolution counts only when a path is missing or no directory.\<close>

fun drift_violations ::
  "manifest \<Rightarrow> akua_lock \<Rightarrow> (chart_error, resolved_charts \<times> world) outcome \<Rightarrow> (verify_error, violation list) outcome"
where
  "drift_violations m lock (Ok (resolved, _)) =
     Ok (concat (map (path_drift m resolved) (filter lp_is_path (packages lock))))"
| "drift_violations m lock (Err (ChartPathMissing name p)) = Ok [PathMissing name (path_str p)]"
| "drift_violations m lock (Err (ChartNotADirectory name p)) = Ok [PathMissing name (path_str p)]"
| "drift_violations m lock (Err _) = Ok []"
| "drift_violations m lock Panic = Panic"

definition verify_cosign_pub_key ::
  "world \<Rightarrow> manifest \<Rightarrow> path \<Rightarrow> (verify_error, string option) outcome"
where
  "verify_cosign_pub_key w m workspace =
     (case Option.bind (m_signing m) cosign_public_key of
        None \<Rightarrow> Ok None
      | Some rel \<Rightarrow>
          (let p = path_join workspace (path_of rel)
           in obind (omap_err (VfCosignKeyIo p) (read_to_string w p)) (\<lambda>body. Ok (Some body))))"

definition verify_attestation ::
  "('vk, 'sk, 'sg, 'v, 'r, 'g) verify_env \<Rightarrow> string \<Rightarrow> string \<Rightarrow> string \<Rightarrow> string \<Rightarrow> (verify_error, violation option) outcome"
where
  "verify_attestation env name pinned envelope_bytes pem =
     (case verify_dsse (env_crypto (r_oci (ve_resolver env))) pem envelope_bytes of
        Err e \<Rightarrow> Ok (Some (AttestationInvalid name [] (ve_show_cosign env e)))
      | Panic \<Rightarrow> Panic
      | Ok body \<Rightarrow>
          (case ve_statement_of_json env body of
             Err e \<Rightarrow> Ok (Some (AttestationInvalid name [] (''in-toto statement parse: '' @ e)))
           | Panic \<Rightarrow> Panic
           | Ok stmt \<Rightarrow>
               (case split_digest pinned of (expected_algo, expected_hex) \<Rightarrow>
                  if list_ex (\<lambda>s. bt_get (sub_digest s) expected_algo = Some expected_hex) (its_subject stmt)
                  then Ok None
                  else let claimed =
                      (case Option.bind (case its_subject stmt of [] \<Rightarrow> None | s # _ \<Rightarrow> Some s)
                              (\<lambda>s. bt_get (sub_digest s) expected_algo) of
                         Some h \<Rightarrow> h | None \<Rightarrow> ''<absent>'')
                    in Ok (Some (AttestationSubjectMismatch name pinned
                          (expected_algo @ '':'' @ claimed))))))"

fun with_ref :: "string \<Rightarrow> violation \<Rightarrow> violation" where
  "with_ref r (AttestationInvalid name _ detail) = AttestationInvalid name r detail"
| "with_ref r v = v"

definition ve_puller :: "('vk, 'sk, 'sg, 'v, 'r, 'g) verify_env \<Rightarrow> ('vk, 'sk, 'sg) pull_env" where
  "ve_puller env = \<lparr>pe_oci = r_oci (ve_resolver env), pull_layers_of_json = ve_pull_layers env\<rparr>"

definition attestation_violation ::
  "('vk, 'sk, 'sg, 'v, 'r, 'g) verify_env \<Rightarrow> creds_store \<Rightarrow> string \<Rightarrow> locked_package \<Rightarrow> net
     \<Rightarrow> (verify_error, violation list) outcome \<times> net"
where
  "attestation_violation env creds pem p n =
     (case pull_attestation (ve_puller env) (lp_source p) (lp_digest p) creds n of
        (Ok (Some envelope), n) \<Rightarrow>
          (obind (verify_attestation env (lp_name p) (lp_digest p) envelope pem) (\<lambda>v.
             Ok (case v of None \<Rightarrow> [] | Some v \<Rightarrow> [with_ref (lp_source p) v])), n)
      | (Ok None, n) \<Rightarrow> (Ok [AttestationMissing (lp_name p) (lp_source p)], n)
      | (Err e, n) \<Rightarrow> (Ok [AttestationInvalid (lp_name p) (lp_source p) (''pull failed: '' @ ve_show_pull env e)], n)
      | (Panic, n) \<Rightarrow> (Panic, n))"

fun walk_entries ::
  "(locked_package \<Rightarrow> net \<Rightarrow> (verify_error, violation list) outcome \<times> net) \<Rightarrow> locked_package list \<Rightarrow> net
     \<Rightarrow> (verify_error, violation list) outcome \<times> net"
where
  "walk_entries f [] = nret (Ok [])"
| "walk_entries f (p # ps) = nbind (f p) (\<lambda>vs. nbind (walk_entries f ps) (\<lambda>rest. nret (Ok (vs @ rest))))"

definition walk_attestations ::
  "('vk, 'sk, 'sg, 'v, 'r, 'g) verify_env \<Rightarrow> akua_lock \<Rightarrow> string \<Rightarrow> world \<Rightarrow> net
     \<Rightarrow> (verify_error, violation list) outcome \<times> net"
where
  "walk_attestations env lock pem w =
     nbind (nret (omap_err (\<lambda>e. VfCredsConfig (ve_show_auth env e))
         (load_creds (env_codecs (r_oci (ve_resolver env))) w))) (\<lambda>creds.
     walk_entries (attestation_violation env creds pem) (filter lp_is_oci (packages lock)))"

definition attestation_check ::
  "('vk, 'sk, 'sg, 'v, 'r, 'g) verify_env \<Rightarrow> manifest \<Rightarrow> akua_lock \<Rightarrow> path \<Rightarrow> world \<Rightarrow> net
     \<Rightarrow> (verify_error, violation list) outcome \<times> net"
where
  "attestation_check env m lock workspace w =
     nbind (nret (verify_cosign_pub_key w m workspace)) (\<lambda>key.
     case key of None \<Rightarrow> nret (Ok []) | Some pem \<Rightarrow> walk_attestations env lock pem w)"

definition verify_verdict :: "manifest \<Rightarrow> akua_lock \<Rightarrow> violation list \<Rightarrow> verify_output" where
  "verify_verdict m lock vs =
     \<lparr>vo_status = (if vs = [] then ''ok'' else ''fail''),
      vo_summary = \<lparr>vs_declared_deps = length (m_dependencies m), vs_locked_packages = length (packages lock),
                    vs_strict_signing = strict_signing (m_package m)\<rparr>,
      vo_violations = vs\<rparr>"

text \<open>The result is \<open>None\<close> only if the resolution is; offline it never is.\<close>

definition verify_check ::
  "('vk, 'sk, 'sg, 'v::linorder, 'r, 'g) verify_env \<Rightarrow> path \<Rightarrow> world \<Rightarrow> net
     \<Rightarrow> ((verify_error, verify_output) outcome \<times> net) option"
where
  "verify_check env workspace w n =
     (case obind (omap_err VfManifest (load_manifest (ve_manifest_toml env) w workspace)) (\<lambda>m.
           obind (omap_err VfLock (load_lock (ve_lock_toml env) w workspace)) (\<lambda>lock. Ok (m, lock))) of
        Err e \<Rightarrow> Some (Err e, n)
      | Panic \<Rightarrow> Some (Panic, n)
      | Ok (m, lock) \<Rightarrow>
          map_option (\<lambda>(r, n).
              nbind (nret (drift_violations m lock r)) (\<lambda>drift.
              nbind (attestation_check env m lock workspace w) (\<lambda>atts.
              nret (Ok (verify_verdict m lock
                (unlocked_deps m lock @ orphans m lock @ missing_signatures m lock @ drift @ atts))))) n)
            (resolve (ve_resolver env) m workspace w n))"

section \<open>The verb\<close>

fun violation_text :: "violation \<Rightarrow> string" where
  "violation_text (UnlockedDep name) = ''  - unlocked-dep: '' @ name @ ''\<newline>''"
| "violation_text (OrphanLocked name version) = ''  - orphan-locked: '' @ name @ ''@'' @ version @ ''\<newline>''"
| "violation_text (MissingSignature name version) =
     ''  - missing-signature: '' @ name @ ''@'' @ version @ ''\<newline>''"
| "violation_text (PathDigestDrift name expected actual) =
     ''  - path-digest-drift: '' @ name @ ''\<newline>      expected '' @ expected @ ''\<newline>      actual   '' @ actual
       @ ''\<newline>      run `akuapkg add --force '' @ name @ '' --path <current_path>` to refresh\<newline>''"
| "violation_text (PathMissing name p) = ''  - path-missing: '' @ name @ '' at `'' @ p @ ''`\<newline>''"
| "violation_text (AttestationMissing name r) =
     ''  - attestation-missing: '' @ name @ '' ('' @ r @ '') has no `.att` sidecar\<newline>''"
| "violation_text (AttestationInvalid name r detail) =
     ''  - attestation-invalid: '' @ name @ '' ('' @ r @ '')\<newline>      '' @ detail @ ''\<newline>''"
| "violation_text (AttestationSubjectMismatch name expected claimed) =
     ''  - attestation-subject-mismatch: '' @ name @ ''\<newline>      expected '' @ expected
       @ ''\<newline>      claimed  '' @ claimed @ ''\<newline>''"

definition show_bool :: "bool \<Rightarrow> string" where
  "show_bool b = (if b then ''true'' else ''false'')"

definition verify_text :: "verify_output \<Rightarrow> string \<Rightarrow> string" where
  "verify_text out buf =
     buf @ ''verify: '' @ show_nat (vs_declared_deps (vo_summary out)) @ '' declared, ''
     @ show_nat (vs_locked_packages (vo_summary out)) @ '' locked, strict_signing=''
     @ show_bool (vs_strict_signing (vo_summary out)) @ ''\<newline>''
     @ (if verify_is_ok out then ''ok\<newline>''
        else ''fail: '' @ show_nat (length (vo_violations out)) @ '' violation(s)\<newline>''
             @ concat (map violation_text (vo_violations out)))"

definition run_verify ::
  "('vk, 'sk, 'sg, 'v::linorder, 'r, 'g) verify_env \<Rightarrow> cli_context \<Rightarrow> path \<Rightarrow> world \<Rightarrow> net
     \<Rightarrow> ((verify_error, exit_code \<times> string) outcome \<times> net) option"
where
  "run_verify env ctx workspace w n =
     map_option (\<lambda>(r, n). (obind r (\<lambda>out.
         Ok (if verify_is_ok out then Success else UserError,
             emit_output ctx (ve_output_json env out) (verify_text out) [])), n))
       (verify_check env workspace w n)"

end
