(* ===== verification/OciPusher.thy ===== *)
theory OciPusher
  imports OciPuller
begin

text \<open>
  \<open>oci_pusher.rs\<close>: uploading a package to a registry, with the digests that \<open>akua sign\<close> computes offline,
  and its signature and attestation sidecars. The HTTP client for \<open>POST\<close> and \<open>PUT\<close> is the parameter
  \<open>push_server\<close>; it sees the requests of both kinds sent before. The state is the log of the client with
  the token cache, and the log of uploads. \<open>serde_json\<close> writes the manifests.
\<close>

section \<open>Requests\<close>

datatype http_method = Post | Put

record push_request =
  pq_method :: http_method
  pq_url :: string
  pq_headers :: "(string \<times> string) list"
  pq_body :: "string option"
  pq_auth :: "string option"

record push_response =
  ps_response :: response
  ps_location :: "string option"

type_synonym push_server = "request list \<Rightarrow> push_request list \<Rightarrow> push_request \<Rightarrow> (string, push_response) outcome"

record push_state =
  pn_net :: net
  pn_pushed :: "push_request list"

datatype push_error =
  PushTransport transport_error
| MissingUploadLocation
| UploadFailed nat string
| ManifestEncode string

record descriptor =
  ds_media_type :: string
  ds_size :: nat
  ds_digest :: string

record push_manifest =
  pm_schema_version :: nat
  pm_media_type :: string
  pm_config :: descriptor
  pm_layers :: "descriptor list"

record sig_layer =
  sl_media_type :: string
  sl_size :: nat
  sl_digest :: string
  sl_annotations :: "(string, string) btree"

record sig_manifest =
  sm_schema_version :: nat
  sm_media_type :: string
  sm_config :: descriptor
  sm_layers :: "sig_layer list"

text \<open>\<open>config_json\<close> is the configuration blob: the JSON of the version of the binary.\<close>

record ('vk, 'sk, 'sg) push_env =
  px_oci :: "('vk, 'sk, 'sg) oci_env"
  px_server :: push_server
  px_config_json :: string
  px_manifest_json :: "push_manifest \<Rightarrow> (string, string) outcome"
  px_sig_manifest_json :: "sig_manifest \<Rightarrow> (string, string) outcome"

definition new_request :: "http_method \<Rightarrow> string \<Rightarrow> push_request" where
  "new_request method url = \<lparr>pq_method = method, pq_url = url, pq_headers = [], pq_body = None, pq_auth = None\<rparr>"

definition push_bearer :: "string \<Rightarrow> push_request \<Rightarrow> push_request" where
  "push_bearer t r = r\<lparr>pq_auth := Some (''Bearer '' @ t)\<rparr>"

definition push_apply_bearer :: "credentials option \<Rightarrow> push_state \<Rightarrow> push_request \<Rightarrow> push_request" where
  "push_apply_bearer creds n r =
     (case token (pn_net n) of
        Some tok \<Rightarrow> push_bearer tok r
      | None \<Rightarrow> (case creds of Some (Bearer tok) \<Rightarrow> push_bearer tok r | _ \<Rightarrow> r))"

text \<open>A call of the client for \<open>GET\<close> as a step of the pusher.\<close>

definition on_net :: "(net \<Rightarrow> ('e, 'a) outcome \<times> net) \<Rightarrow> push_state \<Rightarrow> ('e, 'a) outcome \<times> push_state" where
  "on_net m n = (case m (pn_net n) of (r, n') \<Rightarrow> (r, n\<lparr>pn_net := n'\<rparr>))"

definition push_send ::
  "('vk, 'sk, 'sg) push_env \<Rightarrow> push_request \<Rightarrow> push_state \<Rightarrow> (push_error, push_response) outcome \<times> push_state"
where
  "push_send env r n =
     (omap_err (\<lambda>e. PushTransport (TransportHttp (pq_url r) e)) (px_server env (sent (pn_net n)) (pn_pushed n) r),
      n\<lparr>pn_pushed := pn_pushed n @ [r]\<rparr>)"

definition push_status :: "push_response \<Rightarrow> nat" where
  "push_status resp = rs_status (ps_response resp)"

definition send_with_auth_raw ::
  "('vk, 'sk, 'sg) push_env \<Rightarrow> string \<Rightarrow> credentials option \<Rightarrow> push_request \<Rightarrow> push_state
     \<Rightarrow> (push_error, push_response) outcome \<times> push_state"
where
  "send_with_auth_raw env registry creds req n =
     nbind (push_send env (push_apply_bearer creds n req)) (\<lambda>resp.
       if push_status resp \<noteq> 401 then nret (Ok resp)
       else case challenge_from_resp (ps_response resp) of
         None \<Rightarrow> nret (Err (PushTransport (AuthRequired registry)))
       | Some challenge \<Rightarrow>
           nbind (nmap_err PushTransport (on_net
               (fetch_token (env_codecs (px_oci env)) (env_server (px_oci env)) (env_json_token (px_oci env))
                  challenge creds))) (\<lambda>tok.
           nbind (on_net (set_token tok)) (\<lambda>_.
           nbind (push_send env (push_bearer tok req)) (\<lambda>retry.
           nret (if push_status retry = 401 then Err (PushTransport (AuthRequired registry)) else Ok retry))))) n"

definition send_with_auth ::
  "('vk, 'sk, 'sg) push_env \<Rightarrow> string \<Rightarrow> credentials option \<Rightarrow> push_request \<Rightarrow> push_state
     \<Rightarrow> (push_error, unit) outcome \<times> push_state"
where
  "send_with_auth env registry creds req =
     nbind (send_with_auth_raw env registry creds req) (\<lambda>resp.
     nret (if is_success (push_status resp) then Ok ()
           else Err (UploadFailed (push_status resp) (body_text (ps_response resp)))))"

section \<open>Blobs\<close>

definition upload_url :: "oci_ref \<Rightarrow> string \<Rightarrow> string \<Rightarrow> string" where
  "upload_url parsed location digest =
     (let put_url = (if prefix ''http://'' location \<or> prefix ''https://'' location then location
                     else registry_scheme (ref_registry parsed) @ ''://'' @ ref_registry parsed @ location)
      in put_url @ [if CHR ''?'' \<in> set put_url then CHR ''&'' else CHR ''?''] @ ''digest='' @ digest)"

definition upload_blob ::
  "('vk, 'sk, 'sg) push_env \<Rightarrow> oci_ref \<Rightarrow> string \<Rightarrow> string \<Rightarrow> credentials option \<Rightarrow> push_state
     \<Rightarrow> (push_error, unit) outcome \<times> push_state"
where
  "upload_blob env parsed bytes digest creds =
     nbind (send_with_auth_raw env (ref_registry parsed) creds
         ((new_request Post (registry_url parsed ''blobs'' ''uploads/''))\<lparr>pq_headers := [(''Content-Length'', ''0'')]\<rparr>)) (\<lambda>resp.
     nbind (nret (ok_or MissingUploadLocation (ps_location resp))) (\<lambda>location.
     nbind (send_with_auth_raw env (ref_registry parsed) creds
         ((new_request Put (upload_url parsed location digest))\<lparr>
            pq_headers := [(''Content-Type'', ''application/octet-stream'')], pq_body := Some bytes\<rparr>)) (\<lambda>put_resp.
     nret (if push_status put_resp = 201 \<or> push_status put_resp = 202 then Ok ()
           else Err (UploadFailed (push_status put_resp) (body_text (ps_response put_resp)))))))"

definition put_manifest ::
  "('vk, 'sk, 'sg) push_env \<Rightarrow> oci_ref \<Rightarrow> string \<Rightarrow> string \<Rightarrow> credentials option \<Rightarrow> push_state
     \<Rightarrow> (push_error, unit) outcome \<times> push_state"
where
  "put_manifest env parsed tag manifest_bytes creds =
     send_with_auth env (ref_registry parsed) creds
       ((new_request Put (registry_url parsed ''manifests'' tag))\<lparr>
          pq_headers := [(''Content-Type'', OCI_MANIFEST_MEDIA_TYPE)], pq_body := Some manifest_bytes\<rparr>)"

section \<open>The package\<close>

definition AKUA_PACKAGE_CONFIG_MEDIA_TYPE :: string where
  "AKUA_PACKAGE_CONFIG_MEDIA_TYPE = ''application/vnd.akua.package.config.v1+json''"

record publish_digests =
  pd_layer_digest :: string
  pd_layer_size :: nat
  pd_config_digest :: string
  pd_config_bytes :: string
  pd_manifest_digest :: string
  pd_manifest_bytes :: string

definition publish_manifest :: "('vk, 'sk, 'sg) push_env \<Rightarrow> string \<Rightarrow> push_manifest" where
  "publish_manifest env layer_bytes =
     \<lparr>pm_schema_version = 2, pm_media_type = OCI_MANIFEST_MEDIA_TYPE,
      pm_config = \<lparr>ds_media_type = AKUA_PACKAGE_CONFIG_MEDIA_TYPE, ds_size = length (px_config_json env),
                   ds_digest = digest_of_bytes (px_oci env) (px_config_json env)\<rparr>,
      pm_layers = [\<lparr>ds_media_type = AKUA_PACKAGE_LAYER_MEDIA_TYPE, ds_size = length layer_bytes,
                    ds_digest = digest_of_bytes (px_oci env) layer_bytes\<rparr>]\<rparr>"

definition compute_publish_digests ::
  "('vk, 'sk, 'sg) push_env \<Rightarrow> string \<Rightarrow> ('e, publish_digests) outcome"
where
  "compute_publish_digests env layer_bytes =
     obind (expect_ok (px_manifest_json env (publish_manifest env layer_bytes))) (\<lambda>manifest_bytes.
     Ok \<lparr>pd_layer_digest = digest_of_bytes (px_oci env) layer_bytes, pd_layer_size = length layer_bytes,
         pd_config_digest = digest_of_bytes (px_oci env) (px_config_json env),
         pd_config_bytes = px_config_json env,
         pd_manifest_digest = digest_of_bytes (px_oci env) manifest_bytes,
         pd_manifest_bytes = manifest_bytes\<rparr>)"

record pushed_artifact =
  pa_oci_ref :: string
  pa_tag :: string
  pa_manifest_digest :: string
  pa_layer_digest :: string
  pa_layer_size :: nat

definition push_start :: "('vk, 'sk, 'sg) push_env \<Rightarrow> string \<Rightarrow> push_state \<Rightarrow> (push_error, oci_ref) outcome \<times> push_state" where
  "push_start env oci_ref n =
     (obind (omap_err PushTransport (parse_ref oci_ref)) (\<lambda>parsed.
      obind (omap_err PushTransport (build_client (px_oci env))) (\<lambda>_. Ok parsed)),
      n\<lparr>pn_net := (pn_net n)\<lparr>token := None\<rparr>\<rparr>)"

definition push ::
  "('vk, 'sk, 'sg) push_env \<Rightarrow> string \<Rightarrow> string \<Rightarrow> string \<Rightarrow> creds_store \<Rightarrow> push_state
     \<Rightarrow> (push_error, pushed_artifact) outcome \<times> push_state"
where
  "push env oci_ref tag layer_bytes creds =
     nbind (push_start env oci_ref) (\<lambda>parsed.
     let registry_creds = for_registry creds (ref_registry parsed)
     in nbind (nret (compute_publish_digests env layer_bytes)) (\<lambda>d.
        nbind (upload_blob env parsed layer_bytes (pd_layer_digest d) registry_creds) (\<lambda>_.
        nbind (upload_blob env parsed (pd_config_bytes d) (pd_config_digest d) registry_creds) (\<lambda>_.
        nbind (put_manifest env parsed tag (pd_manifest_bytes d) registry_creds) (\<lambda>_.
        nret (Ok \<lparr>pa_oci_ref = oci_ref, pa_tag = tag, pa_manifest_digest = pd_manifest_digest d,
                  pa_layer_digest = pd_layer_digest d, pa_layer_size = pd_layer_size d\<rparr>))))))"

section \<open>The sidecars\<close>

definition OCI_IMAGE_CONFIG_MEDIA_TYPE :: string where
  "OCI_IMAGE_CONFIG_MEDIA_TYPE = ''application/vnd.oci.image.config.v1+json''"

definition empty_config :: "('vk, 'sk, 'sg) push_env \<Rightarrow> descriptor" where
  "empty_config env = \<lparr>ds_media_type = OCI_IMAGE_CONFIG_MEDIA_TYPE, ds_size = 2,
     ds_digest = digest_of_bytes (px_oci env) ''{}''\<rparr>"

definition push_attestation ::
  "('vk, 'sk, 'sg) push_env \<Rightarrow> string \<Rightarrow> string \<Rightarrow> string \<Rightarrow> creds_store \<Rightarrow> push_state
     \<Rightarrow> (push_error, string) outcome \<times> push_state"
where
  "push_attestation env oci_ref manifest_digest envelope_bytes creds =
     nbind (push_start env oci_ref) (\<lambda>parsed.
     let registry_creds = for_registry creds (ref_registry parsed);
         payload_digest = digest_of_bytes (px_oci env) envelope_bytes
     in nbind (upload_blob env parsed envelope_bytes payload_digest registry_creds) (\<lambda>_.
        nbind (upload_blob env parsed ''{}'' (ds_digest (empty_config env)) registry_creds) (\<lambda>_.
        nbind (nret (omap_err ManifestEncode (px_manifest_json env
            \<lparr>pm_schema_version = 2, pm_media_type = OCI_MANIFEST_MEDIA_TYPE, pm_config = empty_config env,
             pm_layers = [\<lparr>ds_media_type = DSSE_ENVELOPE_MEDIA_TYPE, ds_size = length envelope_bytes,
                           ds_digest = payload_digest\<rparr>]\<rparr>))) (\<lambda>manifest_bytes.
        nbind (put_manifest env parsed (att_tag_of manifest_digest) manifest_bytes registry_creds) (\<lambda>_.
        nret (Ok (att_tag_of manifest_digest)))))))"

definition push_cosign_signature ::
  "('vk, 'sk, 'sg) push_env \<Rightarrow> string \<Rightarrow> string \<Rightarrow> string \<Rightarrow> string \<Rightarrow> creds_store \<Rightarrow> push_state
     \<Rightarrow> (push_error, string) outcome \<times> push_state"
where
  "push_cosign_signature env oci_ref manifest_digest payload_bytes signature_b64 creds =
     nbind (push_start env oci_ref) (\<lambda>parsed.
     let registry_creds = for_registry creds (ref_registry parsed);
         payload_digest = digest_of_bytes (px_oci env) payload_bytes
     in nbind (upload_blob env parsed payload_bytes payload_digest registry_creds) (\<lambda>_.
        nbind (upload_blob env parsed ''{}'' (ds_digest (empty_config env)) registry_creds) (\<lambda>_.
        nbind (nret (omap_err ManifestEncode (px_sig_manifest_json env
            \<lparr>sm_schema_version = 2, sm_media_type = OCI_MANIFEST_MEDIA_TYPE, sm_config = empty_config env,
             sm_layers = [\<lparr>sl_media_type = COSIGN_SIG_LAYER_MEDIA_TYPE, sl_size = length payload_bytes,
                           sl_digest = payload_digest,
                           sl_annotations = bt_insert COSIGN_SIGNATURE_ANNOTATION signature_b64 []\<rparr>]\<rparr>))) (\<lambda>manifest_bytes.
        nbind (put_manifest env parsed (sig_tag_of manifest_digest) manifest_bytes registry_creds) (\<lambda>_.
        nret (Ok (sig_tag_of manifest_digest)))))))"

section \<open>What an upload has sent\<close>

text \<open>The log of uploads only grows.\<close>

lemma push_send_log: "push_send env r n = (x, n') \<Longrightarrow> pn_pushed n' = pn_pushed n @ [r]"
  by (auto simp: push_send_def)

lemma on_net_log: "on_net m n = (x, n') \<Longrightarrow> pn_pushed n' = pn_pushed n"
  by (auto simp: on_net_def split: prod.splits)

text \<open>A request of the kind \<open>req\<close>, whatever authorisation it carries, that was answered with \<open>resp\<close>.\<close>

definition answered ::
  "('vk, 'sk, 'sg) push_env \<Rightarrow> push_request \<Rightarrow> push_response \<Rightarrow> push_request list \<Rightarrow> bool"
where
  "answered env req resp log \<longleftrightarrow>
     (\<exists>q h l rest. q\<lparr>pq_auth := None\<rparr> = req\<lparr>pq_auth := None\<rparr> \<and> px_server env h l q = Ok resp \<and> log = l @ q # rest)"

lemma answered_append: "answered env req resp log \<Longrightarrow> answered env req resp (log @ later)"
  by (fastforce simp: answered_def)

lemma push_apply_bearer_request: "(push_apply_bearer creds n r)\<lparr>pq_auth := None\<rparr> = r\<lparr>pq_auth := None\<rparr>"
  by (auto simp: push_apply_bearer_def push_bearer_def split: option.splits credentials.splits)

lemma push_send_answered:
  assumes "push_send env q n = (Ok resp, n')" and "q\<lparr>pq_auth := None\<rparr> = req\<lparr>pq_auth := None\<rparr>"
  shows "answered env req resp (pn_pushed n') \<and> (\<exists>later. pn_pushed n' = pn_pushed n @ later)"
proof -
  from assms(1) have sent: "px_server env (sent (pn_net n)) (pn_pushed n) q = Ok resp"
    and log: "pn_pushed n' = pn_pushed n @ [q]" by (auto simp: push_send_def outcome_simps)
  have "answered env req resp (pn_pushed n')"
    unfolding answered_def
    by (rule exI [of _ q], rule exI [of _ "sent (pn_net n)"], rule exI [of _ "pn_pushed n"], rule exI [of _ "[]"])
      (simp add: sent log assms(2))
  with log show ?thesis by blast
qed

lemma send_with_auth_raw_Ok:
  assumes "send_with_auth_raw env registry creds req n = (Ok resp, n')"
  shows "answered env req resp (pn_pushed n') \<and> (\<exists>later. pn_pushed n' = pn_pushed n @ later)"
proof -
  let ?q = "push_apply_bearer creds n req"
  from assms obtain resp1 n1 where first: "push_send env ?q n = (Ok resp1, n1)"
    by (auto simp: send_with_auth_raw_def outcome_simps)
  note one = push_send_answered [OF first push_apply_bearer_request]
  show ?thesis
  proof (cases "push_status resp1 = 401")
    case False
    with assms first one show ?thesis by (simp add: send_with_auth_raw_def nbind_def nret_def)
  next
    case True
    with assms first obtain tok n2 where
      retry: "pn_pushed n2 = pn_pushed n1" "push_send env (push_bearer tok req) n2 = (Ok resp, n')"
      by (auto simp: send_with_auth_raw_def outcome_simps split: option.splits if_splits dest!: on_net_log)
    have "(push_bearer tok req)\<lparr>pq_auth := None\<rparr> = req\<lparr>pq_auth := None\<rparr>" by (simp add: push_bearer_def)
    from push_send_answered [OF retry(2) this] retry(1) one show ?thesis by auto
  qed
qed

text \<open>A blob that was stored: its bytes were sent to an upload URL for the digest, and accepted.\<close>

definition blob_stored :: "('vk, 'sk, 'sg) push_env \<Rightarrow> oci_ref \<Rightarrow> string \<Rightarrow> string \<Rightarrow> push_request list \<Rightarrow> bool" where
  "blob_stored env parsed digest bytes log \<longleftrightarrow>
     (\<exists>location resp. answered env ((new_request Put (upload_url parsed location digest))\<lparr>
          pq_headers := [(''Content-Type'', ''application/octet-stream'')], pq_body := Some bytes\<rparr>) resp log
        \<and> push_status resp \<in> {201, 202})"

definition manifest_stored :: "('vk, 'sk, 'sg) push_env \<Rightarrow> oci_ref \<Rightarrow> string \<Rightarrow> string \<Rightarrow> push_request list \<Rightarrow> bool" where
  "manifest_stored env parsed tag bytes log \<longleftrightarrow>
     (\<exists>resp. answered env ((new_request Put (registry_url parsed ''manifests'' tag))\<lparr>
          pq_headers := [(''Content-Type'', OCI_MANIFEST_MEDIA_TYPE)], pq_body := Some bytes\<rparr>) resp log
        \<and> is_success (push_status resp))"

lemma upload_blob_Ok:
  assumes "upload_blob env parsed bytes digest creds n = (Ok u, n')"
  shows "blob_stored env parsed digest bytes (pn_pushed n') \<and> (\<exists>later. pn_pushed n' = pn_pushed n @ later)"
proof -
  from assms obtain resp n1 location put_resp where
    raw: "send_with_auth_raw env (ref_registry parsed) creds
        ((new_request Post (registry_url parsed ''blobs'' ''uploads/''))\<lparr>pq_headers := [(''Content-Length'', ''0'')]\<rparr>) n
        = (Ok resp, n1)"
      "send_with_auth_raw env (ref_registry parsed) creds
        ((new_request Put (upload_url parsed location digest))\<lparr>
           pq_headers := [(''Content-Type'', ''application/octet-stream'')], pq_body := Some bytes\<rparr>) n1 = (Ok put_resp, n')"
    and status: "push_status put_resp \<in> {201, 202}"
    by (auto simp: upload_blob_def outcome_simps split: if_splits)
  from send_with_auth_raw_Ok [OF raw(1)] send_with_auth_raw_Ok [OF raw(2)] status show ?thesis
    unfolding blob_stored_def by auto
qed

lemma put_manifest_Ok:
  assumes "put_manifest env parsed tag bytes creds n = (Ok u, n')"
  shows "manifest_stored env parsed tag bytes (pn_pushed n') \<and> (\<exists>later. pn_pushed n' = pn_pushed n @ later)"
proof -
  from assms obtain resp where
    raw: "send_with_auth_raw env (ref_registry parsed) creds
        ((new_request Put (registry_url parsed ''manifests'' tag))\<lparr>
           pq_headers := [(''Content-Type'', OCI_MANIFEST_MEDIA_TYPE)], pq_body := Some bytes\<rparr>) n = (Ok resp, n')"
    and status: "is_success (push_status resp)"
    by (auto simp: put_manifest_def send_with_auth_def outcome_simps split: if_splits)
  from send_with_auth_raw_Ok [OF raw] status show ?thesis unfolding manifest_stored_def by auto
qed

lemma blob_stored_append: "blob_stored env parsed digest bytes log \<Longrightarrow> blob_stored env parsed digest bytes (log @ later)"
  unfolding blob_stored_def by (blast intro: answered_append)

lemma compute_publish_digests_Ok:
  "compute_publish_digests env bytes = Ok d \<longleftrightarrow>
     (\<exists>m. px_manifest_json env (publish_manifest env bytes) = Ok m
       \<and> d = \<lparr>pd_layer_digest = digest_of_bytes (px_oci env) bytes, pd_layer_size = length bytes,
              pd_config_digest = digest_of_bytes (px_oci env) (px_config_json env),
              pd_config_bytes = px_config_json env, pd_manifest_digest = digest_of_bytes (px_oci env) m,
              pd_manifest_bytes = m\<rparr>)"
  by (cases "px_manifest_json env (publish_manifest env bytes)")
    (auto simp: compute_publish_digests_def)

text \<open>
  A push that succeeds has stored the layer and the configuration under their digests before it stored the
  manifest that names them, and reports the digests \<open>compute_publish_digests\<close> gives without a network.
\<close>

lemma push_Ok:
  assumes "push env oci_ref tag bytes creds n = (Ok a, n')"
  shows "\<exists>parsed d blobs rest.
      parse_ref oci_ref = Ok parsed
    \<and> (compute_publish_digests env bytes :: (unit, publish_digests) outcome) = Ok d
    \<and> a = \<lparr>pa_oci_ref = oci_ref, pa_tag = tag, pa_manifest_digest = pd_manifest_digest d,
            pa_layer_digest = pd_layer_digest d, pa_layer_size = pd_layer_size d\<rparr>
    \<and> pn_pushed n' = pn_pushed n @ blobs @ rest
    \<and> blob_stored env parsed (pd_layer_digest d) bytes (pn_pushed n @ blobs)
    \<and> blob_stored env parsed (pd_config_digest d) (pd_config_bytes d) (pn_pushed n @ blobs)
    \<and> manifest_stored env parsed tag (pd_manifest_bytes d) (pn_pushed n')"
proof -
  let ?n0 = "n\<lparr>pn_net := (pn_net n)\<lparr>token := None\<rparr>\<rparr>"
  from assms obtain parsed d n2 n3 where
    start: "parse_ref oci_ref = Ok parsed"
    and d: "(compute_publish_digests env bytes :: (push_error, publish_digests) outcome) = Ok d"
    and layer: "upload_blob env parsed bytes (pd_layer_digest d) (for_registry creds (ref_registry parsed)) ?n0 = (Ok (), n2)"
    and config: "upload_blob env parsed (pd_config_bytes d) (pd_config_digest d)
        (for_registry creds (ref_registry parsed)) n2 = (Ok (), n3)"
    and manifest: "put_manifest env parsed tag (pd_manifest_bytes d) (for_registry creds (ref_registry parsed)) n3 = (Ok (), n')"
    and a: "a = \<lparr>pa_oci_ref = oci_ref, pa_tag = tag, pa_manifest_digest = pd_manifest_digest d,
        pa_layer_digest = pd_layer_digest d, pa_layer_size = pd_layer_size d\<rparr>"
    by (auto simp: push_def push_start_def Let_def outcome_simps)
  from upload_blob_Ok [OF layer] obtain l1 where l1: "pn_pushed n2 = pn_pushed n @ l1"
    "blob_stored env parsed (pd_layer_digest d) bytes (pn_pushed n2)" by auto
  from upload_blob_Ok [OF config] obtain l2 where l2: "pn_pushed n3 = pn_pushed n @ l1 @ l2"
    "blob_stored env parsed (pd_config_digest d) (pd_config_bytes d) (pn_pushed n3)" using l1(1) by auto
  from put_manifest_Ok [OF manifest] obtain l3 where l3: "pn_pushed n' = pn_pushed n @ (l1 @ l2) @ l3"
    "manifest_stored env parsed tag (pd_manifest_bytes d) (pn_pushed n')" using l2(1) by auto
  from d have d': "(compute_publish_digests env bytes :: (unit, publish_digests) outcome) = Ok d"
    by (simp add: compute_publish_digests_Ok)
  from blob_stored_append [OF l1(2), of l2] l1(1)
  have "blob_stored env parsed (pd_layer_digest d) bytes (pn_pushed n @ l1 @ l2)" by simp
  with start d' a l3 l2 show ?thesis
    by (intro exI [of _ parsed] exI [of _ d] exI [of _ "l1 @ l2"] exI [of _ l3]) simp
qed

section \<open>Push, then pull\<close>

text \<open>A registry that gives back what it has stored, and a reader of manifests that reads what is written.\<close>

definition gives_back :: "('vk, 'sk, 'sg) push_env \<Rightarrow> server \<Rightarrow> oci_ref \<Rightarrow> push_request list \<Rightarrow> bool" where
  "gives_back env srv parsed log \<longleftrightarrow>
     (\<forall>digest bytes h r. blob_stored env parsed digest bytes log \<and> rq_url r = registry_url parsed ''blobs'' digest
        \<longrightarrow> srv h r = Ok (ok_response bytes))
   \<and> (\<forall>tag bytes h r. manifest_stored env parsed tag bytes log \<and> rq_url r = registry_url parsed ''manifests'' tag
        \<longrightarrow> srv h r = Ok (ok_response bytes))"

definition reads_written :: "('vk, 'sk, 'sg) push_env \<Rightarrow> ('vk, 'sk, 'sg) pull_env \<Rightarrow> bool" where
  "reads_written env penv \<longleftrightarrow>
     env_sha256 (pe_oci penv) = env_sha256 (px_oci env)
   \<and> (\<forall>m b. px_manifest_json env m = Ok b \<longrightarrow>
        pull_layers_of_json penv b = Ok (map (\<lambda>d. \<lparr>pl_media_type = ds_media_type d, pl_digest = ds_digest d\<rparr>) (pm_layers m)))"

lemma get_ok_response:
  assumes "\<And>h r. rq_url r = url \<Longrightarrow> server h r = Ok (ok_response b)" "length b \<le> MAX_BLOB_BYTES"
  shows "\<exists>n'. get_with_auth cs server jt url registry creds accept n = (Ok b, n')"
proof -
  let ?r = "apply_bearer creds n ((get url)\<lparr>rq_accept := accept\<rparr>)"
  have "server (sent n) ?r = Ok (ok_response b)" by (rule assms(1)) (simp add: get_def)
  with assms(2) show ?thesis
    by (simp add: get_with_auth_def get_with_auth_capped_def Let_def nbind_def nret_def send_def ok_response_def
        ensure_ok_def is_success_def read_body_capped_def declared_too_large_def)
qed

text \<open>
  C6. What was pushed is what is pulled: the tarball, byte for byte, with the digests the push reported.
\<close>

theorem push_then_pull:
  assumes "push env oci_ref tag bytes creds n = (Ok a, n')" and "parse_ref oci_ref = Ok parsed"
    and "gives_back env (env_server (pe_oci penv)) parsed (pn_pushed n')" and "reads_written env penv"
    and "length bytes \<le> MAX_BLOB_BYTES"
    and "\<forall>m. px_manifest_json env (publish_manifest env bytes) = Ok m \<longrightarrow> length m \<le> MAX_BLOB_BYTES"
    and "env_client (pe_oci penv) = Ok ()"
  shows "\<exists>k'. pull penv oci_ref tag creds' k
    = (Ok \<lparr>pp_tarball = bytes, pp_manifest_digest = pa_manifest_digest a, pp_layer_digest = pa_layer_digest a\<rparr>, k')"
proof -
  from push_Ok [OF assms(1)] assms(2) obtain d blobs rest where
    d: "(compute_publish_digests env bytes :: (unit, publish_digests) outcome) = Ok d"
    and a: "pa_manifest_digest a = pd_manifest_digest d" "pa_layer_digest a = pd_layer_digest d"
    and log: "pn_pushed n' = (pn_pushed n @ blobs) @ rest"
      "blob_stored env parsed (pd_layer_digest d) bytes (pn_pushed n @ blobs)"
      "manifest_stored env parsed tag (pd_manifest_bytes d) (pn_pushed n')" by auto
  from log(2) have blob: "blob_stored env parsed (pd_layer_digest d) bytes (pn_pushed n')"
    unfolding log(1) by (rule blob_stored_append)
  from d obtain m where m: "px_manifest_json env (publish_manifest env bytes) = Ok m" "pd_manifest_bytes d = m"
    "pd_manifest_digest d = digest_of_bytes (px_oci env) m" "pd_layer_digest d = digest_of_bytes (px_oci env) bytes"
    by (auto simp: compute_publish_digests_Ok)
  have same: "digest_of_bytes (pe_oci penv) = digest_of_bytes (px_oci env)"
    using assms(4) by (auto simp: reads_written_def digest_of_bytes_def)
  from assms(4) m(1) have layers: "pull_layers_of_json penv m
      = Ok [\<lparr>pl_media_type = AKUA_PACKAGE_LAYER_MEDIA_TYPE, pl_digest = digest_of_bytes (px_oci env) bytes\<rparr>]"
    by (auto simp: reads_written_def publish_manifest_def)
  let ?creds = "for_registry creds' (ref_registry parsed)"
  have "\<exists>k1. pull_get penv (registry_url parsed ''manifests'' tag) (ref_registry parsed) ?creds
      [OCI_MANIFEST_MEDIA_TYPE] (k\<lparr>token := None\<rparr>) = (Ok m, k1)"
    unfolding pull_get_def using assms(3,6) log(3) m by (intro get_ok_response) (auto simp: gives_back_def)
  then obtain k1 where k1: "pull_get penv (registry_url parsed ''manifests'' tag) (ref_registry parsed) ?creds
      [OCI_MANIFEST_MEDIA_TYPE] (k\<lparr>token := None\<rparr>) = (Ok m, k1)" by blast
  have "\<exists>k2. pull_get penv (registry_url parsed ''blobs'' (digest_of_bytes (px_oci env) bytes)) (ref_registry parsed)
      ?creds [] k1 = (Ok bytes, k2)"
    unfolding pull_get_def using assms(3,5) blob m(4) by (intro get_ok_response) (auto simp: gives_back_def)
  then obtain k2 where k2: "pull_get penv (registry_url parsed ''blobs'' (digest_of_bytes (px_oci env) bytes))
      (ref_registry parsed) ?creds [] k1 = (Ok bytes, k2)" by blast
  show ?thesis
    using k1 k2 layers a m assms(2,7)
    by (simp add: pull_def pull_start_def build_client_def Let_def nbind_def nret_def nmap_err_def layer_of_type_def same)
qed

text \<open>A registry that accepts everything, and keeps one blob and one manifest.\<close>

definition accepting_server :: push_server where
  "accepting_server gets pushes q = Ok \<lparr>
     ps_response = \<lparr>rs_status = (if pq_method q = Post then 202 else 201), rs_www_authenticate = None,
                    rs_content_length = None, rs_body = ([], None)\<rparr>,
     ps_location = (if pq_method q = Post then Some ''/upload'' else None)\<rparr>"

definition toy_push_env :: "(unit, unit, string) push_env" where
  "toy_push_env = \<lparr>px_oci = toy_oci_env, px_server = accepting_server, px_config_json = ''{}'',
     px_manifest_json = (\<lambda>m. if map ds_media_type (pm_layers m) = [AKUA_PACKAGE_LAYER_MEDIA_TYPE]
         \<and> map ds_digest (pm_layers m) = [digest_of_bytes toy_oci_env ''{}''] then Ok ''M'' else Err []),
     px_sig_manifest_json = (\<lambda>_. Err [])\<rparr>"

definition toy_pull_env :: "(unit, unit, string) pull_env" where
  "toy_pull_env = \<lparr>pe_oci = toy_oci_env\<lparr>env_server := (\<lambda>_ r. Ok (ok_response
         (if prefix ''https://r/v2/p/manifests/'' (rq_url r) then ''M'' else ''{}'')))\<rparr>,
     pull_layers_of_json = (\<lambda>_. Ok [\<lparr>pl_media_type = AKUA_PACKAGE_LAYER_MEDIA_TYPE,
         pl_digest = digest_of_bytes toy_oci_env ''{}''\<rparr>])\<rparr>"

definition fresh_push :: push_state where
  "fresh_push = \<lparr>pn_net = fresh_net, pn_pushed = []\<rparr>"

lemma push_then_pull_witness:
  "\<exists>a n' k'. push toy_push_env ''oci://r/p'' ''1.0.0'' ''{}'' [] fresh_push = (Ok a, n')
     \<and> length (pn_pushed n') = 5
     \<and> pull toy_pull_env ''oci://r/p'' ''1.0.0'' [] fresh_net
         = (Ok \<lparr>pp_tarball = ''{}'', pp_manifest_digest = pa_manifest_digest a, pp_layer_digest = pa_layer_digest a\<rparr>, k')"
proof -
  let ?parsed = "\<lparr>ref_registry = ''r'', ref_repository = ''p''\<rparr>"
  have "case push toy_push_env ''oci://r/p'' ''1.0.0'' ''{}'' [] fresh_push of
      (Ok a, n') \<Rightarrow> length (pn_pushed n') = 5
        \<and> list_all (\<lambda>q. pq_headers q = [(''Content-Type'', ''application/octet-stream'')] \<longrightarrow> pq_body q = Some ''{}'')
            (pn_pushed n')
        \<and> list_all (\<lambda>q. pq_headers q = [(''Content-Type'', OCI_MANIFEST_MEDIA_TYPE)] \<longrightarrow> pq_body q = Some ''M'')
            (pn_pushed n')
    | _ \<Rightarrow> False" by code_simp
  then obtain a n' where push: "push toy_push_env ''oci://r/p'' ''1.0.0'' ''{}'' [] fresh_push = (Ok a, n')"
    and five: "length (pn_pushed n') = 5"
    and blob: "\<And>q. q \<in> set (pn_pushed n') \<Longrightarrow> pq_headers q = [(''Content-Type'', ''application/octet-stream'')]
        \<Longrightarrow> pq_body q = Some ''{}''"
    and manifest: "\<And>q. q \<in> set (pn_pushed n') \<Longrightarrow> pq_headers q = [(''Content-Type'', OCI_MANIFEST_MEDIA_TYPE)]
        \<Longrightarrow> pq_body q = Some ''M''"
    by (fastforce simp: list_all_iff split: prod.splits outcome.splits)
  have sent: "\<exists>q \<in> set log. pq_headers q = pq_headers req \<and> pq_body q = pq_body req"
    if "answered toy_push_env req resp log" for req resp log
  proof -
    from that obtain q l rest where q: "q\<lparr>pq_auth := None\<rparr> = req\<lparr>pq_auth := None\<rparr>" "log = l @ q # rest"
      by (auto simp: answered_def)
    from arg_cong [OF q(1), of pq_headers] arg_cong [OF q(1), of pq_body] q(2) show ?thesis by auto
  qed
  have parsed: "parse_ref ''oci://r/p'' = Ok ?parsed" by code_simp
  have gives: "gives_back toy_push_env (env_server (pe_oci toy_pull_env)) ?parsed (pn_pushed n')"
    unfolding gives_back_def
    by (auto simp: blob_stored_def manifest_stored_def toy_pull_env_def registry_url_def registry_scheme_def
        registry_host_def dest!: sent dest: blob manifest)
  have reads: "reads_written toy_push_env toy_pull_env"
    by (auto simp: reads_written_def toy_push_env_def toy_pull_env_def split: if_splits)
  have size: "length ''{}'' \<le> MAX_BLOB_BYTES"
    "\<forall>m. px_manifest_json toy_push_env (publish_manifest toy_push_env ''{}'') = Ok m \<longrightarrow> length m \<le> MAX_BLOB_BYTES"
    by (auto simp: toy_push_env_def MAX_BLOB_BYTES_def)
  have client: "env_client (pe_oci toy_pull_env) = Ok ()" by (simp add: toy_pull_env_def toy_oci_env_def)
  from push_then_pull [OF push parsed gives reads size client, of "[]" fresh_net] push five show ?thesis by blast
qed

end
