(* ===== verification/VerifySpec.thy ===== *)
theory VerifySpec
  imports Verify OciPusher
begin

text \<open>
  What a verdict of \<open>akua verify\<close> means, what it misses, and how it meets what \<open>akua publish\<close> uploads.
\<close>

section \<open>A clean verdict\<close>

lemma declared_iff: "declared m name \<longleftrightarrow> name \<in> set (bt_keys (m_dependencies m))"
  by (auto simp: declared_def bt_keys_def bt_get_def map_of_eq_None_iff)

lemma verify_check_Ok:
  assumes "verify_check env workspace w n = Some (Ok out, n')"
  shows "\<exists>m lock r n1 drift atts.
      load_manifest (ve_manifest_toml env) w workspace = Ok m \<and> load_lock (ve_lock_toml env) w workspace = Ok lock
    \<and> resolve (ve_resolver env) m workspace w n = Some (r, n1)
    \<and> drift_violations m lock r = Ok drift \<and> attestation_check env m lock workspace w n1 = (Ok atts, n')
    \<and> out = verify_verdict m lock (unlocked_deps m lock @ orphans m lock @ missing_signatures m lock @ drift @ atts)"
  using assms
  by (auto simp: verify_check_def outcome_simps split: outcome.splits)

text \<open>An entry whose bytes are vouched for: a signed statement describes its digest.\<close>

definition attested ::
  "('vk, 'sk, 'sg, 'v, 'r, 'g) verify_env \<Rightarrow> string \<Rightarrow> locked_package \<Rightarrow> bool"
where
  "attested env pem p \<longleftrightarrow>
     (\<exists>envelope body stmt. verify_dsse (env_crypto (r_oci (ve_resolver env))) pem envelope = Ok body
        \<and> ve_statement_of_json env body = Ok stmt \<and> describes stmt (lp_digest p))"

lemma verify_attestation_None:
  "verify_attestation env name d envelope pem = Ok None \<longleftrightarrow>
     (\<exists>body stmt. verify_dsse (env_crypto (r_oci (ve_resolver env))) pem envelope = Ok body
        \<and> ve_statement_of_json env body = Ok stmt \<and> describes stmt d)"
  by (auto simp: verify_attestation_def describes_def Let_def split: outcome.splits prod.splits)

lemma attestation_violation_Nil:
  assumes "attestation_violation env creds pem p n = (Ok [], n')"
  shows "attested env pem p"
proof -
  from assms obtain envelope where
    "verify_attestation env (lp_name p) (lp_digest p) envelope pem = Ok None"
    by (auto simp: attestation_violation_def outcome_simps split: prod.splits outcome.splits option.splits)
  then show ?thesis unfolding verify_attestation_None attested_def by blast
qed

lemma walk_entries_Nil:
  assumes "walk_entries f ps n = (Ok [], n')"
  shows "\<forall>p \<in> set ps. \<exists>k k'. f p k = (Ok [], k')"
  using assms
proof (induction ps arbitrary: n)
  case (Cons p ps)
  from Cons.prems obtain n1 n2 where "f p n = (Ok [], n1)" "walk_entries f ps n1 = (Ok [], n2)"
    by (auto simp: outcome_simps)
  with Cons.IH [of n1] Cons.prems show ?case by (auto simp: nbind_def nret_def)
qed simp

lemma unlocked_deps_Nil:
  "unlocked_deps m lock = [] \<longleftrightarrow> set (bt_keys (m_dependencies m)) \<subseteq> lp_name ` set (packages lock)"
  by (auto simp: unlocked_deps_def filter_empty_conv)

lemma orphans_Nil: "orphans m lock = [] \<longleftrightarrow> lp_name ` set (packages lock) \<subseteq> set (bt_keys (m_dependencies m))"
  by (auto simp: orphans_def filter_empty_conv declared_iff)

lemma missing_signatures_Nil:
  "missing_signatures m lock = [] \<longleftrightarrow>
     (strict_signing (m_package m) \<longrightarrow> (\<forall>p \<in> set (packages lock). lp_is_path p \<or> lp_signature p \<noteq> None))"
  by (auto simp: missing_signatures_def filter_empty_conv)

lemma path_drift_Nil:
  assumes "path_drift m resolved p = []" and "declared m (lp_name p)"
  shows "\<exists>c. bt_get resolved (lp_name p) = Some c \<and> rc_sha256 c = lp_digest p"
  using assms by (auto simp: path_drift_def split: option.splits if_splits)

text \<open>
  C5. A clean verdict is a guarantee: manifest and lock name the same packages; under strict signing the lock
  records a signature for everything fetched; with a public key configured, every OCI entry has a statement
  signed by that key about its digest; the offline resolution met no missing directory, and where it succeeds
  for the manifest as a whole, every local package has the locked digest. (Where it fails for another
  reason, nothing is said about the local trees.)
\<close>

theorem verify_ok_means:
  assumes "verify_check env workspace w n = Some (Ok out, n')" and "verify_is_ok out"
  shows "\<exists>m lock. load_manifest (ve_manifest_toml env) w workspace = Ok m
    \<and> load_lock (ve_lock_toml env) w workspace = Ok lock
    \<and> lp_name ` set (packages lock) = set (bt_keys (m_dependencies m))
    \<and> (strict_signing (m_package m) \<longrightarrow> (\<forall>p \<in> set (packages lock). lp_is_path p \<or> lp_signature p \<noteq> None))
    \<and> (\<forall>resolved w' n1. resolve (ve_resolver env) m workspace w n = Some (Ok (resolved, w'), n1) \<longrightarrow>
         (\<forall>p \<in> set (packages lock). lp_is_path p \<longrightarrow>
            (\<exists>c. bt_get resolved (lp_name p) = Some c \<and> rc_sha256 c = lp_digest p)))
    \<and> (\<forall>name dir n1. resolve (ve_resolver env) m workspace w n \<noteq> Some (Err (ChartPathMissing name dir), n1)
          \<and> resolve (ve_resolver env) m workspace w n \<noteq> Some (Err (ChartNotADirectory name dir), n1))
    \<and> (\<forall>pem. verify_cosign_pub_key w m workspace = Ok (Some pem) \<longrightarrow>
         (\<forall>p \<in> set (packages lock). lp_is_oci p \<longrightarrow> attested env pem p))"
proof -
  from verify_check_Ok [OF assms(1)] assms(2) obtain m lock r n1 where
    loaded: "load_manifest (ve_manifest_toml env) w workspace = Ok m" "load_lock (ve_lock_toml env) w workspace = Ok lock"
    and r: "resolve (ve_resolver env) m workspace w n = Some (r, n1)" "drift_violations m lock r = Ok []"
    and atts: "attestation_check env m lock workspace w n1 = (Ok [], n')"
    and none: "unlocked_deps m lock = []" "orphans m lock = []" "missing_signatures m lock = []"
    by (auto simp: verify_is_ok_def verify_verdict_def)
  from none(1,2) have names: "lp_name ` set (packages lock) = set (bt_keys (m_dependencies m))"
    by (auto simp: unlocked_deps_Nil orphans_Nil)
  have "\<exists>c. bt_get resolved (lp_name p) = Some c \<and> rc_sha256 c = lp_digest p"
    if "resolve (ve_resolver env) m workspace w n = Some (Ok (resolved, w'), n2)" "p \<in> set (packages lock)" "lp_is_path p"
    for resolved w' n2 p
  proof (rule path_drift_Nil)
    from that r show "path_drift m resolved p = []" by auto
    from that(2) names show "declared m (lp_name p)" by (auto simp: declared_iff)
  qed
  moreover have "attested env pem p"
    if "verify_cosign_pub_key w m workspace = Ok (Some pem)" "p \<in> set (packages lock)" "lp_is_oci p" for pem p
  proof -
    from atts that(1) obtain creds n2 where
      "walk_entries (attestation_violation env creds pem) (filter lp_is_oci (packages lock)) n2 = (Ok [], n')"
      by (auto simp: attestation_check_def walk_attestations_def outcome_simps)
    from walk_entries_Nil [OF this] that(2,3) show ?thesis by (auto dest: attestation_violation_Nil)
  qed
  moreover have "resolve (ve_resolver env) m workspace w n \<noteq> Some (Err (ChartPathMissing name dir), n2)
      \<and> resolve (ve_resolver env) m workspace w n \<noteq> Some (Err (ChartNotADirectory name dir), n2)" for name dir n2
    using r by auto
  ultimately show ?thesis using loaded names none(3) unfolding missing_signatures_Nil by blast
qed

section \<open>What it misses\<close>

text \<open>A dependency that comes from a registry or repository and is not vendored does not resolve offline.\<close>

fun from_elsewhere :: "dependency_spec \<Rightarrow> bool" where
  "from_elsewhere (SpecPath _) = False"
| "from_elsewhere _ = True"

lemma resolve_source_elsewhere:
  assumes "from_elsewhere s"
  shows "resolve_source R root offline_options name dep s w n \<noteq> Some (Ok x, n')"
proof (cases s)
  case (SpecOci oci version)
  then show ?thesis
    by (auto simp: resolve_source_def resolve_oci_def offline_options_def bt_get_def unsupported_def outcome_simps Let_def)
next
  case (SpecGit git t r)
  then show ?thesis
    by (auto simp: resolve_source_def resolve_git_def offline_options_def bt_get_def unsupported_def expected_commit_def
        outcome_simps Let_def split: outcome.splits)
next
  case (SpecHelm repo chart version)
  then show ?thesis
    by (auto simp: resolve_source_def resolve_helm_def offline_options_def bt_get_def unsupported_def outcome_simps Let_def)
qed (use assms in auto)

lemma resolve_dep_elsewhere:
  assumes "dep_replace dep = None" "spec dep = (Ok s :: (chart_error, dependency_spec) outcome)" "from_elsewhere s"
    "\<not> is_dir w (vendor_path root name)"
  shows "resolve_dep R root offline_options name dep w n \<noteq> Some (Ok x, n')"
proof -
  from assms(4) have "resolve_vendored R w name root s = Ok None"
    by (auto simp: resolve_vendored_def resolve_from_vendor_def Let_def split: option.split)
  with assms resolve_source_elsewhere [OF assms(3)] show ?thesis by (simp add: resolve_dep_def)
qed

lemma resolve_deps_blocked:
  assumes "(name, dep) \<in> set ds" "\<And>n x n'. resolve_dep R root offline_options name dep w n \<noteq> Some (Ok x, n')"
  shows "resolve_deps R root offline_options ds acc w n \<noteq> Some (Ok x, n')"
  using assms(1)
proof (induction ds arbitrary: acc n)
  case (Cons d ds)
  obtain name' dep' where d: "d = (name', dep')" by (cases d)
  show ?case
  proof (cases "(name, dep) = (name', dep')")
    case True
    with assms(2) d show ?thesis by (auto split: option.splits outcome.splits)
  next
    case False
    show ?thesis
    proof
      assume ok: "resolve_deps R root offline_options (d # ds) acc w n = Some (Ok x, n')"
      with d obtain c w1 n1 where step: "resolve_dep R root offline_options name' dep' w n = Some (Ok (c, w1), n1)"
        "resolve_deps R root offline_options ds (bt_insert name' c acc) w1 n1 = Some (Ok x, n')"
        by (auto split: option.splits outcome.splits)
      have "w1 = w" by (rule resolve_dep_offline_world [OF _ step(1)]) (simp add: offline_options_def)
      with Cons d False step(2) show False by auto
    qed
  qed
qed simp

text \<open>
  C36. One dependency from a registry, not vendored, and no local dependency is compared with the lock any
  more: the verdict never reports drift, whatever the trees on disk hold.
\<close>

theorem verify_blind_to_drift:
  assumes "verify_check env workspace w n = Some (Ok out, n')"
    and "load_manifest (ve_manifest_toml env) w workspace = Ok m" and "(name, dep) \<in> set (m_dependencies m)"
    and "dep_replace dep = None" and "spec dep = (Ok s :: (chart_error, dependency_spec) outcome)" and "from_elsewhere s"
    and "\<not> is_dir w (vendor_path workspace name)"
  shows "PathDigestDrift p expected actual \<notin> set (vo_violations out)"
proof -
  from verify_check_Ok [OF assms(1)] assms(2) obtain lock r n1 drift atts where
    r: "resolve (ve_resolver env) m workspace w n = Some (r, n1)" "drift_violations m lock r = Ok drift"
    and atts: "attestation_check env m lock workspace w n1 = (Ok atts, n')"
    and out: "out = verify_verdict m lock (unlocked_deps m lock @ orphans m lock @ missing_signatures m lock @ drift @ atts)"
    by auto
  have "resolve_deps (ve_resolver env) workspace offline_options (m_dependencies m) [] w n \<noteq> Some (Ok x, n1)" for x
    by (rule resolve_deps_blocked [OF assms(3)]) (rule resolve_dep_elsewhere [OF assms(4-7)])
  with r(1) have "r \<noteq> Ok x" for x by (auto simp: resolve_def resolve_with_options_def)
  with r(2) have "PathDigestDrift p expected actual \<notin> set drift"
    by (cases "(m, lock, r)" rule: drift_violations.cases) auto
  moreover have "PathDigestDrift p expected actual \<notin> set vs"
    if "attestation_violation env creds pem q k = (Ok vs, k')" for creds pem q k k' vs
    using that
    by (auto simp: attestation_violation_def outcome_simps verify_attestation_def Let_def
        split: prod.splits outcome.splits option.splits if_splits)
  then have "PathDigestDrift p expected actual \<notin> set vs"
    if "walk_entries (attestation_violation env creds pem) ps k = (Ok vs, k')" for creds pem ps k k' vs
    using that by (induction ps arbitrary: k vs) (auto simp: outcome_simps)
  then have "PathDigestDrift p expected actual \<notin> set atts"
    using atts
    by (auto simp: attestation_check_def walk_attestations_def outcome_simps split: option.splits)
  ultimately show ?thesis
    by (auto simp: out verify_verdict_def unlocked_deps_def orphans_def missing_signatures_def)
qed

section \<open>Published attestations\<close>

text \<open>
  C37. \<open>akua publish\<close> attests the digest of the manifest and tags the attestation with it; \<open>akua.lock\<close> pins the
  digest of the layer, and \<open>akua verify\<close> looks for an attestation of that. So the attestation of a package
  that akua published is not found under the tag that is asked for, and is refused where it is found.
\<close>

theorem published_attestation_refused:
  assumes "(compute_publish_digests env bytes :: (unit, publish_digests) outcome) = Ok d"
    and "env_sha256 (px_oci env) (pd_manifest_bytes d) \<noteq> env_sha256 (px_oci env) bytes"
    and "verify_dsse (env_crypto (r_oci (ve_resolver venv))) pem envelope = Ok body"
    and "ve_statement_of_json venv body = Ok (build_publish_attestation v subject_name (pd_manifest_digest d) r t lock)"
    and "store_blob (px_oci env) oci_ref version cache_root opts chosen bytes w = Ok (a, w')"
  shows "att_tag_of (blob_digest a) \<noteq> att_tag_of (pd_manifest_digest d)
    \<and> verify_attestation venv name (blob_digest a) envelope pem
        = Ok (Some (AttestationSubjectMismatch name (blob_digest a) (pd_manifest_digest d)))"
proof -
  from assms(1) obtain m where m: "pd_manifest_bytes d = m" "pd_manifest_digest d = digest_of_bytes (px_oci env) m"
    by (auto simp: compute_publish_digests_Ok)
  have a: "blob_digest a = digest_of_bytes (px_oci env) bytes"
    using assms(5) by (auto simp: store_blob_def Let_def outcome_simps split: if_splits)
  have parts: "split_digest (digest_of_bytes (px_oci env) x) = (''sha256'', hex_encode (env_sha256 (px_oci env) x))" for x
    unfolding digest_of_bytes_def by (rule split_digest_sha256)
  have neq: "hex_encode (env_sha256 (px_oci env) m) \<noteq> hex_encode (env_sha256 (px_oci env) bytes)"
    using assms(2) m(1) by (auto dest: hex_encode_inject)
  have "att_tag_of (blob_digest a) \<noteq> att_tag_of (pd_manifest_digest d)"
    using att_tag_of_inject [of "px_oci env" bytes m] assms(2) m a by auto
  moreover have "verify_attestation venv name (blob_digest a) envelope pem
      = Ok (Some (AttestationSubjectMismatch name (blob_digest a) (pd_manifest_digest d)))"
    using assms(3,4) neq
    by (simp add: verify_attestation_def a m parts build_publish_attestation_def digest_map_def bt_get_def Let_def)
      (simp add: digest_of_bytes_def)
  ultimately show ?thesis by blast
qed

section \<open>Instances\<close>

definition toy_verify_env :: "manifest \<Rightarrow> akua_lock \<Rightarrow> in_toto_statement \<Rightarrow> (unit, unit, string, nat, nat, unit) verify_env" where
  "toy_verify_env m lock stmt = \<lparr>ve_resolver = toy_resolver, ve_pull_layers = (\<lambda>_. Ok []),
     ve_manifest_toml = (\<lambda>_. Ok m), ve_lock_toml = (\<lambda>_. Ok lock), ve_statement_of_json = (\<lambda>_. Ok stmt),
     ve_show_cosign = (\<lambda>_. []), ve_show_pull = (\<lambda>_. []), ve_show_auth = (\<lambda>_. []), ve_output_json = (\<lambda>_. [])\<rparr>"

definition web_entry :: "string \<Rightarrow> string \<Rightarrow> string \<Rightarrow> locked_package" where
  "web_entry name src digest = \<lparr>lp_name = name, lp_version = ''local'', lp_source = src, lp_digest = digest,
     lp_vendor_digest = None, lp_signature = None, lp_dependencies = [], lp_attestation = None,
     lp_replaced = None, lp_yanked = None, lp_kyverno_source_digest = None, lp_converter_version = None\<rparr>"

definition no_statement :: in_toto_statement where
  "no_statement = build_publish_attestation [] [] [] [] [] None"

definition web_lock :: "string \<Rightarrow> akua_lock" where
  "web_lock digest = \<lparr>lock_version = 1, packages = [web_entry ''web'' ''path+file://web'' digest]\<rparr>"

definition oci_dep :: dependency where
  "oci_dep = \<lparr>dep_oci = Some ''oci://r/p'', dep_git = None, dep_path = None, dep_repo = None, dep_chart = None,
     dep_version = Some ''1'', dep_tag = None, dep_rev = None, dep_replace = None\<rparr>"

text \<open>A strict package with one local dependency and one from a registry that is signed and attested.\<close>

definition strict_manifest :: manifest where
  "strict_manifest = \<lparr>m_package = \<lparr>pkg_name = ''p'', pkg_version = ''1'', pkg_edition = ''akua.dev/v1alpha1'',
     strict_signing = True\<rparr>, m_workspace = None,
     m_signing = Some \<lparr>cosign_public_key = Some ''k.pub'', cosign_private_key = None\<rparr>,
     m_dependencies = [(''web'', path_dep ''web''), (''zoo'', oci_dep)]\<rparr>"

definition zoo_entry :: locked_package where
  "zoo_entry = (web_entry ''zoo'' ''oci://r/p'' ''sha256:78'')\<lparr>lp_signature := Some ''cosign:sig''\<rparr>"

definition strict_lock :: akua_lock where
  "strict_lock = \<lparr>lock_version = 1, packages = [web_entry ''web'' ''path+file://web'' ''sha256:'', zoo_entry]\<rparr>"

definition strict_env :: "(unit, unit, string, nat, nat, unit) verify_env" where
  "strict_env = (toy_verify_env strict_manifest strict_lock
       (build_publish_attestation ''0'' ''r/p'' ''sha256:78'' ''oci://r/p'' ''1'' None))\<lparr>
     ve_pull_layers := (\<lambda>_. Ok [\<lparr>pl_media_type = DSSE_ENVELOPE_MEDIA_TYPE, pl_digest = ''sha256:78''\<rparr>])\<rparr>"

lemma strict_pull: "\<exists>n'. pull_attestation (ve_puller strict_env) ''oci://r/p'' ''sha256:78'' creds n = (Ok (Some ''x''), n')"
proof -
  let ?layer = "\<lparr>pl_media_type = DSSE_ENVELOPE_MEDIA_TYPE, pl_digest = ''sha256:78''\<rparr>"
  let ?penv = "\<lparr>pe_oci = toy_oci_env, pull_layers_of_json = (\<lambda>_. Ok [?layer])\<rparr> :: (unit, unit, string) pull_env"
  have penv: "ve_puller strict_env = ?penv"
    by (simp add: ve_puller_def strict_env_def toy_verify_env_def toy_resolver_def)
  have got: "\<exists>n'. pull_get ?penv url registry c accept k = (Ok ''x'', n')" for url registry c accept k
    unfolding pull_get_def by (rule get_ok_response) (simp_all add: toy_oci_env_def MAX_BLOB_BYTES_def)
  have "case parse_ref ''oci://r/p'' of Ok _ \<Rightarrow> True | _ \<Rightarrow> False" by code_simp
  then obtain parsed where parsed: "parse_ref ''oci://r/p'' = Ok parsed" by (auto split: outcome.splits)
  have client: "build_client toy_oci_env = Ok ()" by (simp add: build_client_def toy_oci_env_def)
  let ?creds = "for_registry creds (ref_registry parsed)"
  from got obtain n1 where 1: "pull_get ?penv (registry_url parsed ''manifests'' (att_tag_of ''sha256:78''))
      (ref_registry parsed) ?creds [OCI_MANIFEST_MEDIA_TYPE] (n\<lparr>token := None\<rparr>) = (Ok ''x'', n1)" by blast
  from got obtain n2 where 2: "pull_get ?penv (registry_url parsed ''blobs'' ''sha256:78'')
      (ref_registry parsed) ?creds [] n1 = (Ok ''x'', n2)" by blast
  show ?thesis unfolding penv
    by (simp add: pull_attestation_def pull_start_def nbind_def nret_def parsed client 1 2 Let_def layer_of_type_def
        nmap_err_def)
qed

lemma strict_check: "\<exists>out n'. verify_check strict_env ws_root (text_world []) fresh_net = Some (Ok out, n') \<and> verify_is_ok out"
proof -
  have env: "ve_manifest_toml strict_env = (\<lambda>_. Ok strict_manifest)" "ve_lock_toml strict_env = (\<lambda>_. Ok strict_lock)"
    "ve_resolver strict_env = toy_resolver"
    by (simp_all add: strict_env_def toy_verify_env_def)
  have loads: "load_manifest (\<lambda>_. Ok strict_manifest) (text_world []) ws_root = Ok strict_manifest"
    "load_lock (\<lambda>_. Ok strict_lock) (text_world []) ws_root = Ok strict_lock"
    "verify_cosign_pub_key (text_world []) strict_manifest ws_root = Ok (Some [])" by code_simp+
  have "case resolve toy_resolver strict_manifest ws_root (text_world []) fresh_net of
      Some (r, n1) \<Rightarrow> drift_violations strict_manifest strict_lock r = Ok [] | None \<Rightarrow> False" by code_simp
  then obtain r n1 where r: "resolve toy_resolver strict_manifest ws_root (text_world []) fresh_net = Some (r, n1)"
    "drift_violations strict_manifest strict_lock r = Ok []" by (auto split: option.splits)
  have "case load_creds (env_codecs (r_oci toy_resolver)) (text_world []) of Ok _ \<Rightarrow> True | _ \<Rightarrow> False" by code_simp
  then obtain creds where creds: "load_creds (env_codecs (r_oci toy_resolver)) (text_world []) = Ok creds"
    by (auto split: outcome.splits)
  obtain n2 where pull: "pull_attestation (ve_puller strict_env) ''oci://r/p'' ''sha256:78'' creds n1 = (Ok (Some ''x''), n2)"
    using strict_pull by blast
  have att: "verify_attestation strict_env ''zoo'' ''sha256:78'' ''x'' [] = Ok None" by code_simp
  have zoo: "lp_name zoo_entry = ''zoo''" "lp_source zoo_entry = ''oci://r/p''" "lp_digest zoo_entry = ''sha256:78''"
    "filter lp_is_oci (packages strict_lock) = [zoo_entry]" by code_simp+
  have atts: "attestation_check strict_env strict_manifest strict_lock ws_root (text_world []) n1 = (Ok [], n2)"
    by (simp add: attestation_check_def walk_attestations_def nbind_def nret_def loads(3) env creds zoo
        attestation_violation_def pull att)
  have none: "unlocked_deps strict_manifest strict_lock = []" "orphans strict_manifest strict_lock = []"
    "missing_signatures strict_manifest strict_lock = []" by code_simp+
  show ?thesis
    by (simp add: verify_check_def env loads r nbind_def nret_def atts none verify_verdict_def verify_is_ok_def)
qed

lemma verify_ok_means_witness:
  "(\<exists>out n'. verify_check strict_env ws_root (text_world []) fresh_net = Some (Ok out, n') \<and> verify_is_ok out
      \<and> attested strict_env [] zoo_entry \<and> strict_signing (m_package strict_manifest) \<and> lp_signature zoo_entry \<noteq> None)
   \<and> (\<exists>out n' resolved w' n1.
     verify_check (toy_verify_env (manifest_with [(''web'', path_dep ''web'')]) (web_lock ''sha256:'') no_statement)
       ws_root (text_world []) fresh_net = Some (Ok out, n') \<and> verify_is_ok out
     \<and> resolve toy_resolver (manifest_with [(''web'', path_dep ''web'')]) ws_root (text_world []) fresh_net
       = Some (Ok (resolved, w'), n1)
     \<and> map_option rc_sha256 (bt_get resolved ''web'') = Some ''sha256:'')"
proof
  from strict_check obtain out n' where check: "verify_check strict_env ws_root (text_world []) fresh_net = Some (Ok out, n')"
    and ok: "verify_is_ok out" by blast
  have env: "ve_manifest_toml strict_env = (\<lambda>_. Ok strict_manifest)" "ve_lock_toml strict_env = (\<lambda>_. Ok strict_lock)"
    by (simp_all add: strict_env_def toy_verify_env_def)
  have loads: "load_manifest (\<lambda>_. Ok strict_manifest) (text_world []) ws_root = Ok strict_manifest"
    "load_lock (\<lambda>_. Ok strict_lock) (text_world []) ws_root = Ok strict_lock"
    "verify_cosign_pub_key (text_world []) strict_manifest ws_root = Ok (Some [])" by code_simp+
  have zoo: "zoo_entry \<in> set (packages strict_lock)" "lp_is_oci zoo_entry" "\<not> lp_is_path zoo_entry"
    "strict_signing (m_package strict_manifest)" by (simp add: strict_lock_def) code_simp+
  from verify_ok_means [OF check ok] have "attested strict_env [] zoo_entry \<and> lp_signature zoo_entry \<noteq> None"
    unfolding env loads using zoo loads(3) by auto
  with check ok zoo(4) show "\<exists>out n'. verify_check strict_env ws_root (text_world []) fresh_net = Some (Ok out, n')
      \<and> verify_is_ok out \<and> attested strict_env [] zoo_entry \<and> strict_signing (m_package strict_manifest)
      \<and> lp_signature zoo_entry \<noteq> None" by blast
next
  let ?m = "manifest_with [(''web'', path_dep ''web'')]"
  let ?env = "toy_verify_env ?m (web_lock ''sha256:'') no_statement"
  have "case verify_check ?env ws_root (text_world []) fresh_net of Some (Ok out, n') \<Rightarrow> verify_is_ok out | _ \<Rightarrow> False"
    by code_simp
  then obtain out n' where check: "verify_check ?env ws_root (text_world []) fresh_net = Some (Ok out, n')"
    and ok: "verify_is_ok out" by (auto split: option.splits outcome.splits)
  have "case resolve toy_resolver ?m ws_root (text_world []) fresh_net of Some (Ok _, _) \<Rightarrow> True | _ \<Rightarrow> False"
    by code_simp
  then obtain resolved w' n1 where run: "resolve toy_resolver ?m ws_root (text_world []) fresh_net
      = Some (Ok (resolved, w'), n1)" by (auto split: option.splits outcome.splits)
  have env: "ve_resolver ?env = toy_resolver" "ve_manifest_toml ?env = (\<lambda>_. Ok ?m)"
      "ve_lock_toml ?env = (\<lambda>_. Ok (web_lock ''sha256:''))" by (simp_all add: toy_verify_env_def)
  have loads: "load_manifest (\<lambda>_. Ok ?m) (text_world []) ws_root = Ok ?m"
    "load_lock (\<lambda>_. Ok (web_lock ''sha256:'')) (text_world []) ws_root = Ok (web_lock ''sha256:'')" by code_simp+
  from verify_ok_means [OF check ok] run have
    "\<forall>p \<in> set (packages (web_lock ''sha256:'')). lp_is_path p \<longrightarrow>
       (\<exists>c. bt_get resolved (lp_name p) = Some c \<and> rc_sha256 c = lp_digest p)"
    unfolding env loads by fastforce
  moreover have "lp_is_path (web_entry ''web'' ''path+file://web'' ''sha256:'')" by code_simp
  ultimately have "map_option rc_sha256 (bt_get resolved ''web'') = Some ''sha256:''"
    by (auto simp: web_lock_def web_entry_def)
  with check ok run show "\<exists>out n' resolved w' n1. verify_check ?env ws_root (text_world []) fresh_net = Some (Ok out, n')
     \<and> verify_is_ok out \<and> resolve toy_resolver ?m ws_root (text_world []) fresh_net = Some (Ok (resolved, w'), n1)
     \<and> map_option rc_sha256 (bt_get resolved ''web'') = Some ''sha256:''" by blast
qed

text \<open>The tree on disk has the digest \<open>sha256:\<close>, the lock another one.\<close>

lemma verify_blind_to_drift_witness:
  "\<exists>out n'. verify_check (toy_verify_env (manifest_with [(''web'', path_dep ''web''), (''zoo'', oci_dep)])
        (web_lock ''sha256:00'') no_statement) ws_root (text_world []) fresh_net = Some (Ok out, n')
     \<and> PathDigestDrift ''web'' ''sha256:00'' ''sha256:'' \<notin> set (vo_violations out)"
proof -
  let ?m = "manifest_with [(''web'', path_dep ''web''), (''zoo'', oci_dep)]"
  let ?env = "toy_verify_env ?m (web_lock ''sha256:00'') no_statement"
  have "case verify_check ?env ws_root (text_world []) fresh_net of Some (Ok out, n') \<Rightarrow> True | _ \<Rightarrow> False"
    by code_simp
  then obtain out n' where check: "verify_check ?env ws_root (text_world []) fresh_net = Some (Ok out, n')"
    by (auto split: option.splits outcome.splits)
  have env: "ve_manifest_toml ?env = (\<lambda>_. Ok ?m)" by (simp add: toy_verify_env_def)
  have "load_manifest (\<lambda>_. Ok ?m) (text_world []) ws_root = Ok ?m" by code_simp
  then have m: "load_manifest (ve_manifest_toml ?env) (text_world []) ws_root = Ok ?m" unfolding env .
  have dep: "(''zoo'', oci_dep) \<in> set (m_dependencies ?m)" "dep_replace oci_dep = None"
    by (simp_all add: manifest_with_def oci_dep_def)
  have spec: "spec oci_dep = (Ok (SpecOci ''oci://r/p'' ''1'') :: (chart_error, dependency_spec) outcome)" by code_simp
  have nv: "\<not> is_dir (text_world []) (vendor_path ws_root ''zoo'')" by code_simp
  from verify_blind_to_drift [OF check m dep spec _ nv, of "''web''" "''sha256:00''" "''sha256:''"] check
  show ?thesis by auto
qed

definition tar_layer :: detected_layer where
  "tar_layer = \<lparr>detected_kind = KclModule, detected_layer = \<lparr>media_type = AKUA_PACKAGE_LAYER_MEDIA_TYPE,
     layer_digest = digest_of_bytes toy_oci_env ''{}'', layer_size = 2\<rparr>, detected_format = GzipTar\<rparr>"

lemma published_attestation_refused_witness:
  "\<exists>stmt. verify_attestation (toy_verify_env (manifest_with []) empty_lock stmt) ''web''
       (digest_of_bytes toy_oci_env ''{}'') ''env'' ''pub''
     = Ok (Some (AttestationSubjectMismatch ''web'' (digest_of_bytes toy_oci_env ''{}'')
         (digest_of_bytes toy_oci_env ''M'')))"
proof -
  have "case (compute_publish_digests toy_push_env ''{}'' :: (unit, publish_digests) outcome) of
      Ok d \<Rightarrow> pd_manifest_bytes d = ''M'' \<and> pd_manifest_digest d = digest_of_bytes toy_oci_env ''M'' | _ \<Rightarrow> False"
    by code_simp
  then obtain d where d: "(compute_publish_digests toy_push_env ''{}'' :: (unit, publish_digests) outcome) = Ok d"
    "pd_manifest_bytes d = ''M''" "pd_manifest_digest d = digest_of_bytes toy_oci_env ''M''"
    by (auto split: outcome.splits)
  let ?stmt = "build_publish_attestation ''0'' ''r/p'' (pd_manifest_digest d) ''oci://r/p'' ''1'' None"
  let ?env = "toy_verify_env (manifest_with []) empty_lock ?stmt"
  have neq: "env_sha256 (px_oci toy_push_env) (pd_manifest_bytes d) \<noteq> env_sha256 (px_oci toy_push_env) ''{}''"
    by (simp add: d toy_push_env_def toy_oci_env_def)
  have crypto: "env_crypto (r_oci (ve_resolver ?env)) = toy_crypto"
    by (simp add: toy_verify_env_def toy_resolver_def toy_oci_env_def)
  have signed: "verify_dsse (env_crypto (r_oci (ve_resolver ?env))) ''pub'' ''env'' = Ok ''b''"
    unfolding crypto by code_simp
  have stmt: "ve_statement_of_json ?env ''b'' = Ok ?stmt" by (simp add: toy_verify_env_def)
  have "case store_blob (px_oci toy_push_env) ''oci://r/p'' ''1'' toy_cache (toy_opts None) tar_layer ''{}'' (text_world []) of
      Ok (a, w') \<Rightarrow> blob_digest a = digest_of_bytes toy_oci_env ''{}'' | _ \<Rightarrow> False" by code_simp
  then obtain a w' where blob: "store_blob (px_oci toy_push_env) ''oci://r/p'' ''1'' toy_cache (toy_opts None) tar_layer
      ''{}'' (text_world []) = Ok (a, w')" "blob_digest a = digest_of_bytes toy_oci_env ''{}''"
    by (auto split: outcome.splits)
  from published_attestation_refused [OF d(1) neq signed stmt blob(1), of "''web''"] show ?thesis
    unfolding blob(2) d(3) by blast
qed

end
