(* ===== verification/TreeFs.thy ===== *)
theory TreeFs
  imports TreeHash Fetch
begin

text \<open>
  Directory trees that change: \<open>std::fs\<close> calls that create, copy and remove, with the answers of the world
  about a path, its ancestors and everything below it kept in step. Paths are compared as they are
  written; a symbolic link is not followed. \<open>copy_tree\<close> of \<open>vendor.rs\<close> is here because the sequence of its calls
  is shown to have one net effect.
\<close>

section \<open>Placing a node in a tree\<close>

text \<open>The tree with \<open>n\<close> at the given names, or without an entry there; missing directories are made.\<close>

fun graft :: "component list \<Rightarrow> node option \<Rightarrow> node \<Rightarrow> node" where
  "graft [] (Some n) m = n"
| "graft [] None m = m"
| "graft [Normal s] None (Dir es) = Dir (filter (\<lambda>(t, _). t \<noteq> s) es)"
| "graft (Normal s # p) n (Dir es) =
     (case map_of es s of
        Some m \<Rightarrow> Dir (map (\<lambda>(t, x). (t, if t = s then graft p n x else x)) es)
      | None \<Rightarrow> (case n of None \<Rightarrow> Dir es | Some _ \<Rightarrow> Dir (es @ [(s, graft p n (Dir []))])))"
| "graft _ n m = m"

definition below :: "node option \<Rightarrow> path \<Rightarrow> node option" where
  "below n p = (case n of None \<Rightarrow> None | Some m \<Rightarrow> node_at m p)"

definition bytes_of :: "node option \<Rightarrow> (io_error, string) outcome" where
  "bytes_of n = (case n of None \<Rightarrow> Err not_found | Some m \<Rightarrow> read_file m)"

text \<open>The world with \<open>n\<close> at \<open>p\<close>.\<close>

definition put :: "path \<Rightarrow> node option \<Rightarrow> world \<Rightarrow> world" where
  "put p n w = w\<lparr>
     tree_at := (\<lambda>q. if prefix p q
         then (case below n (drop (length p) q) of Some m \<Rightarrow> Ok m | None \<Rightarrow> Err not_found)
         else if prefix q p
         then (case tree_at w q of
                 Ok m \<Rightarrow> Ok (graft (drop (length q) p) n m)
               | r \<Rightarrow> (if n = None then r else Ok (graft (drop (length q) p) n (Dir []))))
         else tree_at w q),
     is_dir := (\<lambda>q. if prefix p q
         then (case below n (drop (length p) q) of Some m \<Rightarrow> is_directory m | None \<Rightarrow> False)
         else (prefix q p \<and> n \<noteq> None) \<or> is_dir w q),
     is_file := (\<lambda>q. if prefix p q
         then (case below n (drop (length p) q) of Some m \<Rightarrow> is_regular m | None \<Rightarrow> False)
         else is_file w q),
     exists := (\<lambda>q. if prefix p q then below n (drop (length p) q) \<noteq> None
         else (prefix q p \<and> n \<noteq> None) \<or> exists w q),
     read_to_string := (\<lambda>q. if prefix p q then bytes_of (below n (drop (length p) q)) else read_to_string w q)\<rparr>"

section \<open>The calls\<close>

definition mkdir_all :: "path \<Rightarrow> world \<Rightarrow> (io_error, world) outcome" where
  "mkdir_all p w =
     (case create_dir_error w p of
        Some e \<Rightarrow> Err e
      | None \<Rightarrow> Ok (if is_dir w p then w else put p (Some (Dir [])) w))"

definition remove_dir_all :: "path \<Rightarrow> world \<Rightarrow> (io_error, world) outcome" where
  "remove_dir_all p w =
     (case remove_error w p of
        Some e \<Rightarrow> Err e
      | None \<Rightarrow> if is_dir w p then Ok (put p None w) else Err not_a_directory)"

definition copy_file :: "path \<Rightarrow> path \<Rightarrow> world \<Rightarrow> (io_error, world) outcome" where
  "copy_file from to w =
     obind (obind (tree_at w from) read_file) (\<lambda>bytes.
     case write_error w to of Some e \<Rightarrow> Err e | None \<Rightarrow> Ok (put to (Some (File bytes)) w))"

section \<open>Laws of \<open>put\<close>\<close>

lemma below_simps [simp]: "below None p = None" "below (Some m) p = node_at m p"
  by (simp_all add: below_def)

lemma put_fields [simp]:
  "create_dir_error (put p n w) = create_dir_error w" "write_error (put p n w) = write_error w"
  "remove_error (put p n w) = remove_error w" "canonicalize (put p n w) = canonicalize w"
  "env_var (put p n w) = env_var w" "metadata_is_dir (put p n w) = metadata_is_dir w"
  "rename_error (put p n w) = rename_error w"
  by (simp_all add: put_def)

lemma put_elsewhere:
  assumes "\<not> prefix p q" "\<not> prefix q p"
  shows "tree_at (put p n w) q = tree_at w q" "is_dir (put p n w) q = is_dir w q"
    "is_file (put p n w) q = is_file w q" "exists (put p n w) q = exists w q"
    "read_to_string (put p n w) q = read_to_string w q"
  using assms by (simp_all add: put_def)

lemma put_at:
  "tree_at (put p (Some m) w) p = Ok m" "is_dir (put p (Some m) w) p = is_directory m"
  "tree_at (put p None w) p = Err not_found" "\<not> is_dir (put p None w) p" "\<not> exists (put p None w) p"
  "exists (put p (Some m) w) p"
  by (simp_all add: put_def)

lemma map_of_keyed_map:
  "map_of (map (\<lambda>(t, x). (t, if t = s then f x else x)) es) s = map_option f (map_of es s)"
  by (induction es) auto

lemma keyed_map_id: "map_of es s = None \<Longrightarrow> map (\<lambda>(t, x). (t, if t = s then f x else x)) es = es"
  by (induction es) (auto split: if_splits)

lemma graft_Some_Dir:
  "graft (Normal s # p) (Some n) (Dir es) =
     (case map_of es s of
        Some m \<Rightarrow> Dir (map (\<lambda>(t, x). (t, if t = s then graft p (Some n) x else x)) es)
      | None \<Rightarrow> Dir (es @ [(s, graft p (Some n) (Dir []))]))"
  by (cases p) (auto split: option.splits)

lemma graft_Nil: "graft [] (Some n) m = n" "graft [] None m = m" by simp_all

lemma graft_blocked: "(\<forall>s. c \<noteq> Normal s) \<or> (\<forall>es. m \<noteq> Dir es) \<Longrightarrow> graft (c # p) n m = m"
  by (cases "(c # p, n, m)" rule: graft.cases) auto

declare graft.simps [simp del] graft_Nil [simp]

lemma graft_graft:
  assumes "s \<notin> fst ` set es"
  shows "graft (p @ [Normal s]) (Some a) (graft p (Some (Dir es)) m) = graft p (Some (Dir (es @ [(s, a)]))) m"
proof (induction p arbitrary: m)
  case Nil
  from assms have "map_of es s = None" by (simp add: map_of_eq_None_iff)
  then show ?case by (simp add: graft_Some_Dir)
next
  case (Cons c p)
  show ?case
  proof (cases "\<exists>t fs. c = Normal t \<and> m = Dir fs")
    case True
    then obtain t fs where c: "c = Normal t" "m = Dir fs" by blast
    show ?thesis
    proof (cases "map_of fs t")
      case None
      then show ?thesis by (simp add: c graft_Some_Dir keyed_map_id Cons.IH map_add_def)
    next
      case (Some x)
      then show ?thesis
        by (simp add: c graft_Some_Dir map_of_keyed_map) (auto simp: o_def split_def Cons.IH)
    qed
  next
    case False
    then have "(\<forall>s. c \<noteq> Normal s) \<or> (\<forall>es. m \<noteq> Dir es)" by blast
    then have "graft (c # q) n m = m" for q n using graft_blocked [of c m q n] by blast
    then show ?thesis by simp
  qed
qed

text \<open>Adding an entry to a directory that was just placed.\<close>

lemma node_at_snoc_entry:
  assumes "map_of es s = None"
  shows "node_at (Dir (es @ [(s, a)])) (c # q) = (if c = Normal s then node_at a q else node_at (Dir es) (c # q))"
proof (cases c)
  case (Normal t)
  with assms show ?thesis by (auto simp: map_add_def split: option.splits)
qed simp_all

lemma prefix_cases:
  assumes "prefix d q"
  obtains "q = d" | c r where "q = d @ c # r"
proof -
  from assms obtain r where "q = d @ r" by (auto simp: prefix_def)
  with that show thesis by (cases r) auto
qed

lemma put_put:
  assumes "s \<notin> fst ` set es"
  shows "put (d @ [Normal s]) (Some a) (put d (Some (Dir es)) w) = put d (Some (Dir (es @ [(s, a)]))) w"
    (is "?L = ?R")
proof -
  from assms have new: "map_of es s = None" by (simp add: map_of_eq_None_iff)
  have tree: "tree_at ?L q = tree_at ?R q \<and> is_dir ?L q = is_dir ?R q \<and> is_file ?L q = is_file ?R q
      \<and> exists ?L q = exists ?R q \<and> read_to_string ?L q = read_to_string ?R q" for q
  proof (cases "prefix d q")
    case True
    then show ?thesis
    proof (cases rule: prefix_cases)
      case 1
      with new show ?thesis by (simp add: put_def bytes_of_def graft_Some_Dir)
    next
      case (2 c r)
      then show ?thesis
        using new by (auto simp: put_def node_at_snoc_entry simp del: node_at.simps)
    qed
  next
    case False
    then have "\<not> prefix (d @ [Normal s]) q" by (auto dest: append_prefixD)
    with False show ?thesis
      using graft_graft [OF assms, of "drop (length q) d"]
      by (auto simp: put_def prefix_snoc split: outcome.splits)
        (metis drop_append length_append prefix_length_le diff_is_0_eq drop0)+
  qed
  then have "tree_at ?L = tree_at ?R" "is_dir ?L = is_dir ?R" "is_file ?L = is_file ?R" "exists ?L = exists ?R"
    "read_to_string ?L = read_to_string ?R" by (auto intro!: ext)
  then show ?thesis by (simp add: put_def)
qed

lemma child_eq: "child d s = d @ [Normal s]"
  by (simp add: child_def path_join_name)

section \<open>Copying a tree\<close>

text \<open>
  \<open>copy_tree\<close> with a bound on the depth of the recursion, \<open>None\<close> where it is reached. The listing of a
  directory is the one at the time it is opened; symbolic links and other special files are left out.
\<close>

fun copy_entries ::
  "(path \<Rightarrow> path \<Rightarrow> world \<Rightarrow> ((path \<times> io_error, unit) outcome \<times> world) option) \<Rightarrow> path \<Rightarrow> path
     \<Rightarrow> (string \<times> node) list \<Rightarrow> world \<Rightarrow> ((path \<times> io_error, unit) outcome \<times> world) option"
where
  "copy_entries sub src dst [] w = Some (Ok (), w)"
| "copy_entries sub src dst ((name, n) # es) w =
     (let from = child src name; to = child dst name
      in if is_directory n then rbind (sub from to) (\<lambda>_. copy_entries sub src dst es) w
         else if is_regular n
         then (case copy_file from to w of
                 Ok w' \<Rightarrow> copy_entries sub src dst es w'
               | Err e \<Rightarrow> Some (Err (from, e), w)
               | Panic \<Rightarrow> Some (Panic, w))
         else copy_entries sub src dst es w)"

fun copy_tree :: "nat \<Rightarrow> path \<Rightarrow> path \<Rightarrow> world \<Rightarrow> ((path \<times> io_error, unit) outcome \<times> world) option" where
  "copy_tree 0 src dst w = None"
| "copy_tree (Suc k) src dst w =
     (case mkdir_all dst w of
        Err e \<Rightarrow> Some (Err (dst, e), w)
      | Panic \<Rightarrow> Some (Panic, w)
      | Ok w \<Rightarrow>
          (case fs_read_dir w src of
             Err e \<Rightarrow> Some (Err (src, e), w)
           | Panic \<Rightarrow> Some (Panic, w)
           | Ok es \<Rightarrow> copy_entries (copy_tree k) src dst es w))"

text \<open>What of a tree is copied, how deep it is, and whether all of it can be read.\<close>

fun kept_node :: "node \<Rightarrow> node" where
  "kept_node (Dir es) =
     Dir (map (\<lambda>(s, n). (s, kept_node n)) (filter (\<lambda>(s, n). is_directory n \<or> is_regular n) es))"
| "kept_node n = n"

fun height :: "node \<Rightarrow> nat" where
  "height (Dir es) = Suc (foldr max (map (\<lambda>(s, n). height n) es) 0)"
| "height _ = 0"

fun readable :: "node \<Rightarrow> bool" where
  "readable (Dir es) \<longleftrightarrow> (\<forall>(s, n) \<in> set es. readable n)"
| "readable (BadFile _) \<longleftrightarrow> False"
| "readable (BadDir _) \<longleftrightarrow> False"
| "readable _ \<longleftrightarrow> True"

definition kept_entries :: "(string \<times> node) list \<Rightarrow> (string \<times> node) list" where
  "kept_entries es = map (\<lambda>(s, n). (s, kept_node n)) (filter (\<lambda>(s, n). is_directory n \<or> is_regular n) es)"

lemma kept_entries_simps [simp]:
  "kept_entries [] = []"
  "kept_entries ((s, n) # es) = (if is_directory n \<or> is_regular n then (s, kept_node n) # kept_entries es else kept_entries es)"
  by (simp_all add: kept_entries_def)

lemma kept_node_Dir: "kept_node (Dir es) = Dir (kept_entries es)"
  by (simp add: kept_entries_def)

declare kept_node.simps(1) [simp del]

lemma height_mem: "(s, n) \<in> set es \<Longrightarrow> height n < height (Dir es)"
proof -
  have "x \<in> set xs \<Longrightarrow> x \<le> foldr max xs 0" for x :: nat and xs by (induction xs) auto
  moreover have "(s, n) \<in> set es \<Longrightarrow> height n \<in> set (map (\<lambda>(s, n). height n) es)" by force
  ultimately show "(s, n) \<in> set es \<Longrightarrow> height n < height (Dir es)" by (simp add: less_Suc_eq_le del: set_map)
qed

text \<open>The world shows the tree \<open>n\<close> at \<open>p\<close>, and nothing keeps a tree from being written at \<open>p\<close>.\<close>

definition shows_tree :: "world \<Rightarrow> path \<Rightarrow> node \<Rightarrow> bool" where
  "shows_tree w p n \<longleftrightarrow> (\<forall>q m. node_at n q = Some m \<longrightarrow> tree_at w (p @ q) = Ok m)"

definition writable_below :: "world \<Rightarrow> path \<Rightarrow> bool" where
  "writable_below w p \<longleftrightarrow> (\<forall>q. create_dir_error w (p @ q) = None \<and> write_error w (p @ q) = None)"

lemma shows_tree_child:
  assumes "shows_tree w p (Dir es)" "(s, n) \<in> set es" "distinct (map fst es)"
  shows "shows_tree w (p @ [Normal s]) n" "tree_at w (p @ [Normal s]) = Ok n"
proof -
  from assms(2,3) have m: "map_of es s = Some n" by simp
  have at: "tree_at w (p @ Normal s # q) = Ok x" if "node_at n q = Some x" for q x
  proof -
    from m that have "node_at (Dir es) (Normal s # q) = Some x" by simp
    with assms(1) show ?thesis unfolding shows_tree_def by blast
  qed
  then show "shows_tree w (p @ [Normal s]) n" by (simp add: shows_tree_def)
  from at [of "[]" n] show "tree_at w (p @ [Normal s]) = Ok n" by simp
qed

lemma shows_tree_put:
  assumes "shows_tree w p n" "\<not> prefix d p" "\<not> prefix p d"
  shows "shows_tree (put d m w) p n"
proof -
  have "\<not> prefix d (p @ q) \<and> \<not> prefix (p @ q) d" for q
    using assms(2,3) by (metis append_prefixD prefix_same_cases prefix_def)
  with assms(1) show ?thesis by (simp add: shows_tree_def put_elsewhere)
qed

lemma apart_child:
  assumes "\<not> prefix a b" "\<not> prefix b a"
  shows "\<not> prefix (a @ x) (b @ y)" "\<not> prefix (b @ y) (a @ x)"
  using assms by (metis append_prefixD prefix_same_cases prefix_def)+

lemma writable_below_put [simp]: "writable_below (put d m w) p = writable_below w p"
  by (simp add: writable_below_def)

lemma writable_below_child: "writable_below w p \<Longrightarrow> writable_below w (p @ q)"
  by (simp add: writable_below_def)

lemma is_dir_fresh_entry: "s \<notin> fst ` set es \<Longrightarrow> \<not> is_dir (put d (Some (Dir es)) w) (d @ [Normal s])"
  by (simp add: put_def map_of_eq_None_iff [symmetric])

text \<open>
  All the calls of a copy together place the kept part of the tree at the target and change nothing else.
\<close>

lemma copy_tree_put:
  assumes "shows_tree w src n" "wf_node n" "readable n" "is_directory n" "height n \<le> k"
    "\<not> prefix src dst" "\<not> prefix dst src" "\<not> is_dir w dst" "writable_below w dst"
  shows "copy_tree k src dst w = Some (Ok (), put dst (Some (kept_node n)) w)"
  using assms
proof (induction k arbitrary: n src dst w)
  case 0
  then show ?case by (cases n) auto
next
  case (Suc k)
  from Suc.prems(3,4) obtain es where n: "n = Dir es" by (cases n) auto
  from Suc.prems(2) n have dist: "distinct (map fst es)" by simp
  have entries: "copy_entries (copy_tree k) src dst fs (put dst (Some (Dir copied)) w)
      = Some (Ok (), put dst (Some (Dir (copied @ kept_entries fs))) w)"
    if "fst ` set copied \<inter> fst ` set fs = {}" "set fs \<subseteq> set es" "distinct (map fst fs)" for copied fs
    using that
  proof (induction fs arbitrary: copied)
    case (Cons f fs)
    obtain s m where f: "f = (s, m)" by (cases f)
    let ?w = "put dst (Some (Dir copied)) w"
    from Cons.prems f have mem: "(s, m) \<in> set es" and fresh: "s \<notin> fst ` set copied" by auto
    note sub = shows_tree_child [OF shows_tree_put [OF Suc.prems(1) Suc.prems(7,6), of "Some (Dir copied)", unfolded n] mem dist]
    have rest: "copy_entries (copy_tree k) src dst fs (put dst (Some (Dir (copied @ [(s, x)]))) w)
        = Some (Ok (), put dst (Some (Dir (copied @ (s, x) # kept_entries fs))) w)" for x
      using Cons.IH [of "copied @ [(s, x)]"] Cons.prems f by auto
    consider (dir) "is_directory m" | (plain) b where "m = File b" | (special) "m = Special"
      using Suc.prems(3) n mem by (cases m) auto
    then show ?case
    proof cases
      case dir
      have "copy_tree k (src @ [Normal s]) (dst @ [Normal s]) ?w
          = Some (Ok (), put (dst @ [Normal s]) (Some (kept_node m)) ?w)"
      proof (rule Suc.IH)
        show "shows_tree ?w (src @ [Normal s]) m" by (rule sub)
        show "wf_node m" "readable m" using Suc.prems(2,3) n mem by auto
        show "height m \<le> k" using height_mem [OF mem] Suc.prems(5) n by simp
        show "\<not> prefix (src @ [Normal s]) (dst @ [Normal s])" "\<not> prefix (dst @ [Normal s]) (src @ [Normal s])"
          by (rule apart_child [OF Suc.prems(6,7)])+
        show "\<not> is_dir ?w (dst @ [Normal s])" by (rule is_dir_fresh_entry [OF fresh])
        show "writable_below ?w (dst @ [Normal s])" using Suc.prems(9) by (simp add: writable_below_child)
      qed (rule dir)
      then show ?thesis
        by (simp add: f dir child_eq rbind_def put_put [OF fresh] rest)
    next
      case (plain b)
      have "write_error w (dst @ [Normal s]) = None" using Suc.prems(9) by (simp add: writable_below_def)
      then have "copy_file (src @ [Normal s]) (dst @ [Normal s]) ?w = Ok (put (dst @ [Normal s]) (Some (File b)) ?w)"
        using sub(2) plain by (simp add: copy_file_def)
      then show ?thesis by (simp add: f plain child_eq put_put [OF fresh] rest)
    next
      case special
      then show ?thesis using Cons.IH [of copied] Cons.prems f by auto
    qed
  qed simp
  have "mkdir_all dst w = Ok (put dst (Some (Dir [])) w)"
    using Suc.prems(8) writable_below_def [of w dst] Suc.prems(9)
    by (simp add: mkdir_all_def) (metis append_Nil2 option.simps(4))
  moreover have "tree_at (put dst (Some (Dir [])) w) src = Ok (Dir es)"
    using shows_tree_put [OF Suc.prems(1) Suc.prems(7,6), of "Some (Dir [])"] n
    by (auto simp: shows_tree_def dest: spec [of _ "[]"])
  ultimately show ?case
    using entries [of "[]" es] dist by (simp add: fs_read_dir_def n kept_node_Dir)
qed

section \<open>The hash of a copy\<close>

lemma concat_ok_filter:
  assumes "\<forall>x \<in> set xs. \<not> P x \<longrightarrow> g x = Ok []"
  shows "concat_ok (map g (filter P xs)) = concat_ok (map g xs)"
  using assms
proof (induction xs)
  case (Cons x xs)
  then show ?case by (cases "concat_ok (map g xs)") auto
qed simp

lemma walk_kept:
  "readable n \<Longrightarrow> walk_tree (\<lambda>_. False) (\<lambda>_ f. is_regular f) (\<lambda>_. False) pre (kept_node n)
     = walk_tree (\<lambda>_. False) (\<lambda>_ f. is_regular f) (\<lambda>_. False) pre n"
proof (induction n arbitrary: pre rule: kept_node.induct)
  case (1 es)
  have "map (walk_entry (\<lambda>_. False) (\<lambda>_ f. is_regular f) (\<lambda>_. False) pre) (kept_entries fs)
      = map (walk_entry (\<lambda>_. False) (\<lambda>_ f. is_regular f) (\<lambda>_. False) pre)
          (filter (\<lambda>(s, n). is_directory n \<or> is_regular n) fs)" if "set fs \<subseteq> set es" for fs
    using that
  proof (induction fs)
    case (Cons f fs)
    obtain s m where f: "f = (s, m)" by (cases f)
    have "is_directory (kept_node m) = is_directory m" "is_regular (kept_node m) = is_regular m"
      by (cases m; simp add: kept_node_Dir)+
    moreover have "walk_tree (\<lambda>_. False) (\<lambda>_ f. is_regular f) (\<lambda>_. False) (pre @ [Normal s]) (kept_node m)
        = walk_tree (\<lambda>_. False) (\<lambda>_ f. is_regular f) (\<lambda>_. False) (pre @ [Normal s]) m"
      if "is_directory m" using 1 Cons.prems f that by auto
    moreover have "is_regular m \<Longrightarrow> kept_node m = m" by (cases m) auto
    ultimately show ?case using Cons f by (auto simp: walk_entry_def)
  qed simp
  moreover have "concat_ok (map g (filter P es)) = concat_ok (map g es)" if "\<forall>x \<in> set es. \<not> P x \<longrightarrow> g x = Ok []"
    for g :: "string \<times> node \<Rightarrow> (io_error, (path \<times> node) list) outcome" and P
    by (rule concat_ok_filter [OF that])
  moreover have "\<forall>x \<in> set es. \<not> (case x of (s, n) \<Rightarrow> is_directory n \<or> is_regular n)
      \<longrightarrow> walk_entry (\<lambda>_. False) (\<lambda>_ f. is_regular f) (\<lambda>_. False) pre x = Ok []"
    by (auto simp: walk_entry_def split: if_splits)
  ultimately show ?case by (simp add: kept_node_Dir walk_tree_Dir)
qed simp_all

lemma copy_hash_same: "readable n \<Longrightarrow> hash_dir sha256 (kept_node n) = hash_dir sha256 n"
  by (simp add: hash_dir_def hash_collect_files_def walk_kept)

end
