(* ===== verification/Vendor.thy ===== *)
theory Vendor
  imports TreeFs Resolver
begin

text \<open>
  \<open>vendor.rs\<close>: the trees below \<open>.akua/vendor\<close>: adding a declared dependency, listing what is there, and
  comparing it with what manifest and lock expect. The state is the world and the log of the HTTP client;
  a result is \<open>None\<close> only when the bound of the git checkout or of the tree copy is reached. Modelled with both
  fetch features on, as the CLI is built.
\<close>

section \<open>The data\<close>

record vendor_list_entry =
  vl_name :: string
  vl_path :: path
  vl_digest :: string
  vl_size :: int
  vl_orphan :: bool

record vendor_check_entry =
  vc_name :: string
  vc_path :: path
  vc_source_kind :: "string option"
  vc_source_ref :: "string option"
  vc_expected_digest :: "string option"
  vc_actual_digest :: "string option"
  vc_orphan :: bool
  vc_missing_vendor :: bool
  vc_missing_source :: bool

record vendor_check_output =
  vco_drift :: bool
  vco_entries :: "vendor_check_entry list"
  vco_orphaned :: "string list"
  vco_missing :: "string list"

record vendor_add_output =
  va_name :: string
  va_source_kind :: string
  va_source_ref :: string
  va_path :: path
  va_digest :: string
  va_size :: int
  va_wrote :: bool
  va_replaced :: bool

datatype vendor_error =
  VdManifest manifest_load_error
| VdLock lock_load_error
| VdAuthConfig string
| VdMissingDependency string
| VdSourceMissing path
| VdAbsolutePathRejected string path
| VdPathEscape string path path path
| VdIo path io_error
| VdOciFetch string oci_fetch_error
| VdGitFetch string git_error
| VdDrift vendor_check_output
| VdUnsupportedSource string string

text \<open>The texts of the errors; those of other modules are parameters.\<close>

record vendor_texts =
  vt_manifest :: "manifest_error \<Rightarrow> string"
  vt_lock :: "lock_error \<Rightarrow> string"
  vt_oci :: "oci_fetch_error \<Rightarrow> string"
  vt_git :: "git_error \<Rightarrow> string"

definition quoted_path :: "path \<Rightarrow> string" where
  "quoted_path p = ''`'' @ path_str p @ ''`''"

definition declare_hint :: "string \<Rightarrow> string" where
  "declare_hint name = ''declare `path = '' @ [CHR 0x22] @ ''.akua/vendor/'' @ name @ [CHR 0x22] @ ''`''"

fun vendor_to_structured :: "vendor_texts \<Rightarrow> vendor_error \<Rightarrow> structured_error" where
  "vendor_to_structured t (VdManifest e) = manifest_load_to_structured (vt_manifest t) e"
| "vendor_to_structured t (VdLock e) = lock_load_to_structured (vt_lock t) e"
| "vendor_to_structured t (VdAuthConfig detail) = with_default_docs (structured_new E_IO detail)"
| "vendor_to_structured t (VdMissingDependency name) =
     with_default_docs (with_suggestion (declare_hint name @ '' in `akua.toml` first'')
       (structured_new ''E_VENDOR_DEP_MISSING''
          (''dep `'' @ name @ ''` is not declared in akua.toml; '' @ declare_hint name @ '' first'')))"
| "vendor_to_structured t (VdSourceMissing p) =
     with_default_docs (with_path (path_str p)
       (structured_new E_IO (''source path '' @ quoted_path p @ '' does not exist'')))"
| "vendor_to_structured t (VdAbsolutePathRejected name p) =
     with_default_docs (with_suggestion
       (''use a relative path under the workspace, or vendor the dep via `oci = '' @ [CHR 0x22] @ ''...'' @ [CHR 0x22]
        @ ''` / `git = '' @ [CHR 0x22] @ ''...'' @ [CHR 0x22] @ ''`'')
       (with_path (path_str p) (structured_new E_PATH_ESCAPE
         (''dep `'' @ name @ ''`: absolute path '' @ quoted_path p @ '' is rejected '' @ em_dash
          @ '' path deps must stay under the workspace root''))))"
| "vendor_to_structured t (VdPathEscape name requested resolved workspace_root) =
     with_default_docs (with_suggestion
       ''rewrite the path to stay under the workspace, or move the source into the workspace''
       (with_path (path_str resolved) (structured_new E_PATH_ESCAPE
         (''dep `'' @ name @ ''`: path '' @ quoted_path requested @ '' resolves to '' @ quoted_path resolved
          @ '', which escapes the workspace root '' @ quoted_path workspace_root))))"
| "vendor_to_structured t (VdIo p e) = with_default_docs (with_path (path_str p) (structured_new E_IO (io_msg e)))"
| "vendor_to_structured t (VdOciFetch name e) =
     with_default_docs (structured_new ''E_DEP_RESOLVE'' (''fetching OCI dep `'' @ name @ ''`: '' @ vt_oci t e))"
| "vendor_to_structured t (VdGitFetch name e) =
     with_default_docs (structured_new ''E_DEP_RESOLVE'' (''fetching git dep `'' @ name @ ''`: '' @ vt_git t e))"
| "vendor_to_structured t (VdDrift out) =
     with_default_docs (structured_new ''E_VENDOR_DRIFT'' ''vendor tree drift detected'')"
| "vendor_to_structured t (VdUnsupportedSource name kind) =
     with_default_docs (structured_new ''E_DEP_RESOLVE''
       (''dep `'' @ name @ ''`: '' @ kind @ '' source not yet supported by `akua vendor`''))"

fun vendor_is_system :: "vendor_error \<Rightarrow> bool" where
  "vendor_is_system (VdIo _ _) = True"
| "vendor_is_system (VdManifest e) = manifest_load_is_system e"
| "vendor_is_system (VdLock e) = lock_load_is_system e"
| "vendor_is_system _ = False"

definition vendor_exit_code :: "vendor_error \<Rightarrow> exit_code" where
  "vendor_exit_code e = (if vendor_is_system e then SystemError else UserError)"

interpretation vendor_errors: reported_error "vendor_to_structured t" vendor_is_system vendor_exit_code for t
proof unfold_locales
  fix e
  show "docs (vendor_to_structured t e) = Some (error_docs_base @ ''/'' @ code (vendor_to_structured t e))"
  proof (cases e)
    case (VdManifest m)
    then show ?thesis by (cases m) (simp_all add: structured_defs)
  next
    case (VdLock l)
    then show ?thesis by (cases l) (simp_all add: structured_defs)
  qed (simp_all add: structured_defs)
  show "level (vendor_to_structured t e) = Error"
  proof (cases e)
    case (VdManifest m)
    then show ?thesis by (cases m) (simp_all add: structured_defs)
  next
    case (VdLock l)
    then show ?thesis by (cases l) (simp_all add: structured_defs)
  qed (simp_all add: structured_defs)
qed (simp_all add: vendor_exit_code_def)

section \<open>Where the bytes of a dependency come from\<close>

record ('vk, 'sk, 'sg, 'v, 'r, 'g) vendor_env =
  vn_resolver :: "('vk, 'sk, 'sg, 'v, 'r, 'g) resolver_env"
  vn_manifest_toml :: "string \<Rightarrow> (string, manifest) outcome"
  vn_lock_toml :: "string \<Rightarrow> (string, akua_lock) outcome"
  vn_lock_to_toml :: "akua_lock \<Rightarrow> (string, string) outcome"
  vn_copy_depth :: nat

record vendor_state =
  vs_world :: world
  vs_net :: net

record source_resolution =
  sr_kind :: string
  sr_ref :: string
  sr_root :: path
  sr_lock_digest :: "string option"

definition vendor_sha256 :: "('vk, 'sk, 'sg, 'v, 'r, 'g) vendor_env \<Rightarrow> string \<Rightarrow> string" where
  "vendor_sha256 env = env_sha256 (r_oci (vn_resolver env))"

definition hash_path ::
  "('vk, 'sk, 'sg, 'v, 'r, 'g) vendor_env \<Rightarrow> world \<Rightarrow> path \<Rightarrow> (vendor_error, string \<times> int) outcome"
where
  "hash_path env w p = omap_err (VdIo p) (obind (tree_at w p) (hash_dir (vendor_sha256 env)))"

fun vendor_path_error :: "string \<Rightarrow> string \<Rightarrow> workspace_path_error \<Rightarrow> vendor_error" where
  "vendor_path_error name requested (WsAbsoluteRejected p) = VdAbsolutePathRejected name p"
| "vendor_path_error name requested (WsNotFound p) = VdSourceMissing p"
| "vendor_path_error name requested (WsIo p e) = VdIo p e"
| "vendor_path_error name requested (WsEscape resolved ws) = VdPathEscape name (path_of requested) resolved ws"

definition resolve_path_dep :: "world \<Rightarrow> path \<Rightarrow> string \<Rightarrow> string \<Rightarrow> (vendor_error, path) outcome" where
  "resolve_path_dep w workspace name requested =
     obind (omap_err (VdIo workspace) (canonicalize w workspace)) (\<lambda>workspace_canon.
     obind (omap_err (vendor_path_error name requested)
              (validate_workspace_path w workspace_canon workspace requested)) (\<lambda>canon.
     if is_dir w canon then Ok canon else Err (VdSourceMissing canon)))"

definition locked_source_meta :: "locked_package \<Rightarrow> string \<times> string" where
  "locked_source_meta p =
     (if lp_is_path p then ''path'' else if lp_is_oci p then ''oci'' else ''git'', lp_source p)"

definition expected_digest_from_lock ::
  "('vk, 'sk, 'sg, 'v, 'r, 'g) vendor_env \<Rightarrow> world \<Rightarrow> path \<Rightarrow> string \<Rightarrow> string \<Rightarrow> string option"
where
  "expected_digest_from_lock env w workspace name kind =
     (case load_lock (vn_lock_toml env) w workspace of
        Ok lock \<Rightarrow>
          Option.bind (find_locked lock name) (\<lambda>p.
            if kind = ''oci'' \<and> lp_is_oci p then Some (lp_digest p)
            else if kind = ''git'' \<and> prefix ''git+'' (lp_source p) then Some (lp_digest p)
            else None)
      | _ \<Rightarrow> None)"

definition resolve_oci_source ::
  "('vk, 'sk, 'sg, 'v, 'r, 'g) vendor_env \<Rightarrow> path \<Rightarrow> string \<Rightarrow> string \<Rightarrow> string \<Rightarrow> vendor_state
     \<Rightarrow> ((vendor_error, source_resolution) outcome \<times> vendor_state) option"
where
  "resolve_oci_source env workspace name oci version s =
     (let w = vs_world s; R = vn_resolver env
      in case omap_err (\<lambda>e. VdAuthConfig (r_show_auth R e)) (load_creds (env_codecs (r_oci R)) w) of
           Err e \<Rightarrow> Some (Err e, s)
         | Panic \<Rightarrow> Some (Panic, s)
         | Ok creds \<Rightarrow>
             (case oci_fetch_with_opts (r_oci R) oci version (default_cache_root w ''oci'')
                 \<lparr>oci_fetch_opts.expected_digest = expected_digest_from_lock env w workspace name ''oci'',
                  fo_creds = creds, fo_cosign_key = None\<rparr> w (vs_net s) of
                (Ok (a, w'), n) \<Rightarrow>
                  Some (Ok \<lparr>sr_kind = ''oci'', sr_ref = oci @ ''@'' @ version, sr_root = root_dir a,
                            sr_lock_digest = None\<rparr>, s\<lparr>vs_world := w', vs_net := n\<rparr>)
              | (Err e, n) \<Rightarrow> Some (Err (VdOciFetch name e), s\<lparr>vs_net := n\<rparr>)
              | (Panic, n) \<Rightarrow> Some (Panic, s\<lparr>vs_net := n\<rparr>)))"

definition vendor_ref_spec :: "string option \<Rightarrow> string option \<Rightarrow> ('e, ref_spec) outcome" where
  "vendor_ref_spec t r =
     (case t of Some x \<Rightarrow> Ok (Tag x) | None \<Rightarrow> (case r of Some x \<Rightarrow> Ok (Rev x) | None \<Rightarrow> Panic))"

definition resolve_git_source ::
  "('vk, 'sk, 'sg, 'v, 'r, 'g) vendor_env \<Rightarrow> path \<Rightarrow> string \<Rightarrow> string \<Rightarrow> string option \<Rightarrow> string option
     \<Rightarrow> host_auth_map option \<Rightarrow> vendor_state \<Rightarrow> ((vendor_error, source_resolution) outcome \<times> vendor_state) option"
where
  "resolve_git_source env workspace name git t r auth s =
     (let w = vs_world s; R = vn_resolver env
      in case vendor_ref_spec t r of
           Err e \<Rightarrow> Some (Err e, s)
         | Panic \<Rightarrow> Some (Panic, s)
         | Ok ref \<Rightarrow>
             map_option (\<lambda>f. case f of
                 Ok (repo, w') \<Rightarrow>
                   (Ok \<lparr>sr_kind = ''git'', sr_ref = canonicalize_url git @ ''@'' @ label ref,
                        sr_root = chart_dir repo,
                        sr_lock_digest = Some (GIT_DIGEST_PREFIX @ commit_sha repo)\<rparr>, s\<lparr>vs_world := w'\<rparr>)
               | Err e \<Rightarrow> (Err (VdGitFetch name e), s)
               | Panic \<Rightarrow> (Panic, s))
               (git_fetch (r_git_depth R) (r_gix R) git ref (default_cache_root w ''git'')
                  (Option.bind (expected_digest_from_lock env w workspace name ''git'') (strip_prefix GIT_DIGEST_PREFIX))
                  auth w))"

definition vendor_resolve_source ::
  "('vk, 'sk, 'sg, 'v, 'r, 'g) vendor_env \<Rightarrow> path \<Rightarrow> string \<Rightarrow> dependency \<Rightarrow> host_auth_map option \<Rightarrow> vendor_state
     \<Rightarrow> ((vendor_error, source_resolution) outcome \<times> vendor_state) option"
where
  "vendor_resolve_source env workspace name dep auth s =
     (case spec dep of
        Err e \<Rightarrow> Some (Err e, s)
      | Panic \<Rightarrow> Some (Panic, s)
      | Ok (SpecPath declared) \<Rightarrow>
          Some (obind (resolve_path_dep (vs_world s) workspace name declared) (\<lambda>root.
            Ok \<lparr>sr_kind = ''path'', sr_ref = declared, sr_root = root, sr_lock_digest = None\<rparr>), s)
      | Ok (SpecOci oci version) \<Rightarrow> resolve_oci_source env workspace name oci version s
      | Ok (SpecGit git t r) \<Rightarrow> resolve_git_source env workspace name git t r auth s
      | Ok (SpecHelm repo chart version) \<Rightarrow> Some (Err (VdUnsupportedSource name ''helm''), s))"

section \<open>Steps\<close>

definition vread :: "(world \<Rightarrow> ('e, 'a) outcome) \<Rightarrow> vendor_state \<Rightarrow> (('e, 'a) outcome \<times> vendor_state) option" where
  "vread f s = Some (f (vs_world s), s)"

definition vwrite ::
  "(world \<Rightarrow> ('e, world) outcome) \<Rightarrow> vendor_state \<Rightarrow> (('e, unit) outcome \<times> vendor_state) option"
where
  "vwrite f s =
     (case f (vs_world s) of
        Ok w \<Rightarrow> Some (Ok (), s\<lparr>vs_world := w\<rparr>)
      | Err e \<Rightarrow> Some (Err e, s)
      | Panic \<Rightarrow> Some (Panic, s))"

definition vendor_copy_tree ::
  "('vk, 'sk, 'sg, 'v, 'r, 'g) vendor_env \<Rightarrow> path \<Rightarrow> path \<Rightarrow> vendor_state
     \<Rightarrow> ((vendor_error, unit) outcome \<times> vendor_state) option"
where
  "vendor_copy_tree env src dst s =
     map_option (\<lambda>(r, w). (omap_err (\<lambda>(p, e). VdIo p e) r, s\<lparr>vs_world := w\<rparr>))
       (copy_tree (vn_copy_depth env) src dst (vs_world s))"

section \<open>The lock entry of a vendored dependency\<close>

definition vendor_lock_source :: "dependency \<Rightarrow> string \<Rightarrow> ('e, resolved_source \<times> string) outcome" where
  "vendor_lock_source dep lock_digest =
     obind (spec dep) (\<lambda>sp. case sp of
         SpecPath declared \<Rightarrow> Ok (ResolvedPath declared, lock_digest)
       | SpecOci oci version \<Rightarrow> Ok (ResolvedOci oci version lock_digest, lock_digest)
       | SpecGit git t r \<Rightarrow>
           (let raw = (case strip_prefix GIT_DIGEST_PREFIX lock_digest of Some c \<Rightarrow> c | None \<Rightarrow> lock_digest)
            in Ok (ResolvedGit git
                     (case tag_or_rev (SpecGit git t r) of Some x \<Rightarrow> x | None \<Rightarrow> VENDORED_LOCK_FALLBACK) raw,
                   GIT_DIGEST_PREFIX @ raw))
       | SpecHelm repo chart version \<Rightarrow> Panic)"

definition set_vendor_digest :: "akua_lock \<Rightarrow> string \<Rightarrow> string \<Rightarrow> string \<Rightarrow> ('e, akua_lock) outcome" where
  "set_vendor_digest lock name version vd =
     (case find_slot lock name version of
        None \<Rightarrow> Ok lock
      | Some i \<Rightarrow>
          if i < length (packages lock)
          then Ok (lock\<lparr>packages := (packages lock)[i := (packages lock ! i)\<lparr>lp_vendor_digest := Some vd\<rparr>]\<rparr>)
          else Panic)"

definition load_lock_or_empty ::
  "('vk, 'sk, 'sg, 'v, 'r, 'g) vendor_env \<Rightarrow> world \<Rightarrow> path \<Rightarrow> (vendor_error, akua_lock) outcome"
where
  "load_lock_or_empty env w workspace =
     (case load_lock (vn_lock_toml env) w workspace of
        Ok l \<Rightarrow> Ok l
      | Err (LockMissing _) \<Rightarrow> Ok empty_lock
      | Err e \<Rightarrow> Err (VdLock e)
      | Panic \<Rightarrow> Panic)"

definition vendored_lock ::
  "akua_lock \<Rightarrow> string \<Rightarrow> dependency \<Rightarrow> string \<Rightarrow> string option \<Rightarrow> ('e, akua_lock) outcome"
where
  "vendored_lock lock name dep lock_digest vendor_digest =
     obind (vendor_lock_source dep lock_digest) (\<lambda>(src, digest).
     obind (upsert_locked_from_source lock name src digest) (\<lambda>lock.
     case vendor_digest of
       None \<Rightarrow> Ok lock
     | Some vd \<Rightarrow> set_vendor_digest lock name (fst (snd (to_locked_fields src))) vd))"

definition upsert_vendor_lock_entry ::
  "('vk, 'sk, 'sg, 'v, 'r, 'g) vendor_env \<Rightarrow> path \<Rightarrow> string \<Rightarrow> dependency \<Rightarrow> string \<Rightarrow> string option
     \<Rightarrow> world \<Rightarrow> (vendor_error, world) outcome"
where
  "upsert_vendor_lock_entry env workspace name dep lock_digest vendor_digest w =
     obind (load_lock_or_empty env w workspace) (\<lambda>lock.
     obind (vendored_lock lock name dep lock_digest vendor_digest) (\<lambda>lock.
     omap_err VdLock (save_lock (vn_lock_to_toml env) lock workspace w)))"

section \<open>\<open>akua vendor add\<close>\<close>

definition vendor_root :: "path \<Rightarrow> path" where
  "vendor_root workspace = path_join workspace (path_of VENDOR_DIR)"

text \<open>Whether something is at the target, and whether it already hashes to the digest.\<close>

definition target_state ::
  "('vk, 'sk, 'sg, 'v, 'r, 'g) vendor_env \<Rightarrow> path \<Rightarrow> string \<Rightarrow> world \<Rightarrow> (vendor_error, bool \<times> bool) outcome"
where
  "target_state env target digest w =
     (if exists w target
      then obind (hash_path env w target) (\<lambda>(d, _). Ok (True, d = digest))
      else Ok (False, False))"

definition materialize ::
  "('vk, 'sk, 'sg, 'v, 'r, 'g) vendor_env \<Rightarrow> path \<Rightarrow> path \<Rightarrow> bool \<Rightarrow> vendor_state
     \<Rightarrow> ((vendor_error, unit) outcome \<times> vendor_state) option"
where
  "materialize env src target existed =
     rbind (if existed then vwrite (\<lambda>w. omap_err (VdIo target) (remove_dir_all target w)) else rpure (Ok ())) (\<lambda>_.
     rbind (case parent target of
              None \<Rightarrow> rpure (Ok ())
            | Some p \<Rightarrow> vwrite (\<lambda>w. omap_err (VdIo p) (mkdir_all p w))) (\<lambda>_.
     vendor_copy_tree env src target))"

definition vendor_add_impl ::
  "('vk, 'sk, 'sg, 'v, 'r, 'g) vendor_env \<Rightarrow> path \<Rightarrow> string \<Rightarrow> bool \<Rightarrow> host_auth_map option \<Rightarrow> vendor_state
     \<Rightarrow> ((vendor_error, vendor_add_output) outcome \<times> vendor_state) option"
where
  "vendor_add_impl env workspace name do_write auth =
     rbind (vread (\<lambda>w. omap_err VdManifest (load_manifest (vn_manifest_toml env) w workspace))) (\<lambda>manifest.
     rbind (rpure (ok_or (VdMissingDependency name) (bt_get (m_dependencies manifest) name))) (\<lambda>dep.
     rbind (vendor_resolve_source env workspace name dep auth) (\<lambda>src.
     let target = path_join (vendor_root workspace) (path_of name)
     in rbind (vread (\<lambda>w. hash_path env w (sr_root src))) (\<lambda>(digest, size_bytes).
     rbind (vread (target_state env target digest)) (\<lambda>(existed, matches).
     rbind (if matches then rpure (Ok (False, False))
            else if do_write
            then rbind (materialize env (sr_root src) target existed) (\<lambda>_. rpure (Ok (True, existed)))
            else rpure (Ok (True, existed))) (\<lambda>(wrote, replaced).
     rbind (if do_write
            then let lock_digest = (case sr_lock_digest src of Some d \<Rightarrow> d | None \<Rightarrow> digest)
                 in vwrite (upsert_vendor_lock_entry env workspace name dep lock_digest
                      (if lock_digest \<noteq> digest then Some digest else None))
            else rpure (Ok ())) (\<lambda>_.
     rpure (Ok \<lparr>va_name = name, va_source_kind = sr_kind src, va_source_ref = sr_ref src, va_path = target,
                va_digest = digest, va_size = size_bytes, va_wrote = wrote, va_replaced = replaced\<rparr>))))))))"

definition vendor_add ::
  "('vk, 'sk, 'sg, 'v, 'r, 'g) vendor_env \<Rightarrow> path \<Rightarrow> string \<Rightarrow> host_auth_map option \<Rightarrow> vendor_state
     \<Rightarrow> ((vendor_error, vendor_add_output) outcome \<times> vendor_state) option"
where
  "vendor_add env workspace name auth = vendor_add_impl env workspace name True auth"

definition vendor_plan_add ::
  "('vk, 'sk, 'sg, 'v, 'r, 'g) vendor_env \<Rightarrow> path \<Rightarrow> string \<Rightarrow> host_auth_map option \<Rightarrow> vendor_state
     \<Rightarrow> ((vendor_error, vendor_add_output) outcome \<times> vendor_state) option"
where
  "vendor_plan_add env workspace name auth = vendor_add_impl env workspace name False auth"

section \<open>\<open>akua vendor list\<close> and \<open>check\<close>\<close>

record expected_dep =
  ed_name :: string
  ed_source_kind :: string
  ed_source_ref :: string
  ed_digest :: string
  ed_vendor_digest :: "string option"

record expected_set =
  es_names :: "string set"
  es_entries :: "expected_dep list"

definition expected_of_locked :: "string \<Rightarrow> locked_package \<Rightarrow> expected_dep" where
  "expected_of_locked name p =
     (case locked_source_meta p of (kind, ref) \<Rightarrow>
        \<lparr>ed_name = name, ed_source_kind = kind, ed_source_ref = ref, ed_digest = lp_digest p,
         ed_vendor_digest = lp_vendor_digest p\<rparr>)"

fun expected_of_manifest ::
  "('vk, 'sk, 'sg, 'v, 'r, 'g) vendor_env \<Rightarrow> path \<Rightarrow> akua_lock option \<Rightarrow> (string \<times> dependency) list \<Rightarrow> vendor_state
     \<Rightarrow> ((vendor_error, expected_dep list) outcome \<times> vendor_state) option"
where
  "expected_of_manifest env workspace lock [] = rpure (Ok [])"
| "expected_of_manifest env workspace lock ((name, dep) # ds) =
     rbind (case Option.bind lock (\<lambda>l. find_locked l name) of
              Some p \<Rightarrow> rpure (Ok (expected_of_locked name p))
            | None \<Rightarrow>
                rbind (vendor_resolve_source env workspace name dep None) (\<lambda>src.
                rbind (vread (\<lambda>w. hash_path env w (sr_root src))) (\<lambda>(digest, _).
                rpure (Ok \<lparr>ed_name = name, ed_source_kind = sr_kind src, ed_source_ref = sr_ref src,
                           ed_digest = digest, ed_vendor_digest = None\<rparr>)))) (\<lambda>e.
     rbind (expected_of_manifest env workspace lock ds) (\<lambda>es. rpure (Ok (e # es))))"

definition expected_set_of :: "manifest \<Rightarrow> akua_lock option \<Rightarrow> expected_dep list \<Rightarrow> expected_set" where
  "expected_set_of manifest lock declared =
     (let locked = (case lock of None \<Rightarrow> [] | Some l \<Rightarrow> packages l);
          extra = filter (\<lambda>p. bt_get (m_dependencies manifest) (lp_name p) = None) locked
      in \<lparr>es_names = set (map fst (m_dependencies manifest)) \<union> set (map lp_name locked),
          es_entries = sort_key ed_name (declared @ map (\<lambda>p. expected_of_locked (lp_name p) p) extra)\<rparr>)"

definition expected_entries ::
  "('vk, 'sk, 'sg, 'v, 'r, 'g) vendor_env \<Rightarrow> path \<Rightarrow> vendor_state
     \<Rightarrow> ((vendor_error, expected_set) outcome \<times> vendor_state) option"
where
  "expected_entries env workspace =
     rbind (vread (\<lambda>w. omap_err VdManifest (load_manifest (vn_manifest_toml env) w workspace))) (\<lambda>manifest.
     rbind (vread (\<lambda>w. case load_lock (vn_lock_toml env) w workspace of
                Ok l \<Rightarrow> Ok (Some l)
              | Err (LockMissing _) \<Rightarrow> Ok None
              | Err e \<Rightarrow> Err (VdLock e)
              | Panic \<Rightarrow> Panic)) (\<lambda>lock.
     rbind (expected_of_manifest env workspace lock (m_dependencies manifest)) (\<lambda>declared.
     rpure (Ok (expected_set_of manifest lock declared)))))"

fun scan_entries ::
  "('vk, 'sk, 'sg, 'v, 'r, 'g) vendor_env \<Rightarrow> world \<Rightarrow> path \<Rightarrow> string set \<Rightarrow> (string \<times> node) list
     \<Rightarrow> (vendor_error, vendor_list_entry list) outcome"
where
  "scan_entries env w root names [] = Ok []"
| "scan_entries env w root names ((name, n) # es) =
     (let p = child root name
      in if \<not> is_dir w p then scan_entries env w root names es
         else obind (hash_path env w p) (\<lambda>(digest, size_bytes).
              obind (scan_entries env w root names es) (\<lambda>rest.
              Ok (\<lparr>vl_name = name, vl_path = p, vl_digest = digest, vl_size = size_bytes,
                   vl_orphan = (name \<notin> names)\<rparr> # rest))))"

definition scan_vendor_entries ::
  "('vk, 'sk, 'sg, 'v, 'r, 'g) vendor_env \<Rightarrow> path \<Rightarrow> string set \<Rightarrow> world
     \<Rightarrow> (vendor_error, vendor_list_entry list) outcome"
where
  "scan_vendor_entries env root names w =
     (case fs_read_dir w root of
        Err e \<Rightarrow> (if io_kind e = NotFound then Ok [] else Err (VdIo root e))
      | Panic \<Rightarrow> Panic
      | Ok es \<Rightarrow> obind (scan_entries env w root names es) (\<lambda>entries. Ok (sort_key vl_name entries)))"

definition vendor_list ::
  "('vk, 'sk, 'sg, 'v, 'r, 'g) vendor_env \<Rightarrow> path \<Rightarrow> vendor_state
     \<Rightarrow> ((vendor_error, vendor_list_entry list) outcome \<times> vendor_state) option"
where
  "vendor_list env workspace =
     rbind (expected_entries env workspace) (\<lambda>ex.
     vread (scan_vendor_entries env (vendor_root workspace) (es_names ex)))"

text \<open>The digest the tree of an expected dependency must have.\<close>

definition wanted_digest :: "expected_dep \<Rightarrow> string" where
  "wanted_digest e = (case ed_vendor_digest e of Some d \<Rightarrow> d | None \<Rightarrow> ed_digest e)"

definition check_entry :: "path \<Rightarrow> expected_dep \<Rightarrow> vendor_list_entry option \<Rightarrow> vendor_check_entry" where
  "check_entry root e actual =
     \<lparr>vc_name = ed_name e, vc_path = path_join root (path_of (ed_name e)), vc_source_kind = Some (ed_source_kind e),
      vc_source_ref = Some (ed_source_ref e), vc_expected_digest = Some (wanted_digest e),
      vc_actual_digest = map_option vl_digest actual, vc_orphan = False, vc_missing_vendor = (actual = None),
      vc_missing_source = False\<rparr>"

definition orphan_entry :: "vendor_list_entry \<Rightarrow> vendor_check_entry" where
  "orphan_entry d =
     \<lparr>vc_name = vl_name d, vc_path = vl_path d, vc_source_kind = None, vc_source_ref = None,
      vc_expected_digest = None, vc_actual_digest = Some (vl_digest d), vc_orphan = True,
      vc_missing_vendor = False, vc_missing_source = False\<rparr>"

definition compare_vendor :: "path \<Rightarrow> expected_set \<Rightarrow> vendor_list_entry list \<Rightarrow> vendor_check_output" where
  "compare_vendor root ex on_disk =
     (let disk_map = map_of (rev (map (\<lambda>d. (vl_name d, d)) on_disk));
          found = map (\<lambda>e. (e, disk_map (ed_name e))) (es_entries ex);
          orphans = filter (\<lambda>d. vl_name d \<notin> es_names ex) on_disk
      in \<lparr>vco_drift =
            (\<exists>(e, a) \<in> set found. case a of None \<Rightarrow> True | Some d \<Rightarrow> vl_digest d \<noteq> wanted_digest e)
            \<or> orphans \<noteq> [],
          vco_entries = sort_key vc_name (map (\<lambda>(e, a). check_entry root e a) found @ map orphan_entry orphans),
          vco_orphaned = sort (map vl_name orphans),
          vco_missing = sort (map (\<lambda>(e, _). ed_name e) (filter (\<lambda>(_, a). a = None) found))\<rparr>)"

definition vendor_check ::
  "('vk, 'sk, 'sg, 'v, 'r, 'g) vendor_env \<Rightarrow> path \<Rightarrow> vendor_state
     \<Rightarrow> ((vendor_error, vendor_check_output) outcome \<times> vendor_state) option"
where
  "vendor_check env workspace =
     rbind (expected_entries env workspace) (\<lambda>ex.
     rbind (vread (scan_vendor_entries env (vendor_root workspace) (es_names ex))) (\<lambda>on_disk.
     let output = compare_vendor (vendor_root workspace) ex on_disk
     in rpure (if vco_drift output then Err (VdDrift output) else Ok output)))"

end
