(* ===== verification/VendorSpec.thy ===== *)
theory VendorSpec
  imports Vendor ResolverSpec
begin

text \<open>
  What the operations on \<open>.akua/vendor\<close> guarantee: the steps of \<open>add\<close>, that a plan predicts the run, that the
  bytes placed hash to the digest reported, when \<open>check\<close> finds no drift, and what becomes of the entries that
  \<open>add\<close> leaves in \<open>akua.lock\<close>.
\<close>

section \<open>Steps\<close>

lemma vread_Ok [outcome_simps]: "vread f s = Some (Ok a, s') \<longleftrightarrow> f (vs_world s) = Ok a \<and> s' = s"
  by (auto simp: vread_def)

lemma vwrite_Ok [outcome_simps]:
  "vwrite f s = Some (Ok u, s') \<longleftrightarrow> (\<exists>w. f (vs_world s) = Ok w \<and> s' = s\<lparr>vs_world := w\<rparr>)"
  by (auto simp: vwrite_def split: outcome.splits)

lemma vendor_copy_tree_Ok [outcome_simps]:
  "vendor_copy_tree env src dst s = Some (Ok u, s') \<longleftrightarrow>
     (\<exists>w. copy_tree (vn_copy_depth env) src dst (vs_world s) = Some (Ok (), w) \<and> s' = s\<lparr>vs_world := w\<rparr>)"
  by (auto simp: vendor_copy_tree_def outcome_simps)

lemma fs_write_tree: "fs_write p b w = Ok w' \<Longrightarrow> tree_at w' = tree_at w \<and> is_dir w' = is_dir w"
  by (auto simp: fs_write_def split: option.splits)

lemma upsert_vendor_lock_entry_tree:
  "upsert_vendor_lock_entry env ws name dep d vd w = Ok w' \<Longrightarrow> tree_at w' = tree_at w \<and> is_dir w' = is_dir w"
  by (auto simp: upsert_vendor_lock_entry_def save_lock_def Let_def outcome_simps dest: fs_write_tree)

text \<open>What an \<open>add\<close> or its plan went through.\<close>

lemma vendor_add_implE:
  assumes "vendor_add_impl env ws name do_write auth s = Some (Ok out, s')"
  obtains manifest dep src s1 existed matches s2 where
    "load_manifest (vn_manifest_toml env) (vs_world s) ws = Ok manifest"
    "bt_get (m_dependencies manifest) name = Some dep"
    "vendor_resolve_source env ws name dep auth s = Some (Ok src, s1)"
    "hash_path env (vs_world s1) (sr_root src) = Ok (va_digest out, va_size out)"
    "target_state env (va_path out) (va_digest out) (vs_world s1) = Ok (existed, matches)"
    "if matches \<or> \<not> do_write then s2 = s1
     else materialize env (sr_root src) (va_path out) existed s1 = Some (Ok (), s2)"
    "if do_write
     then \<exists>w. upsert_vendor_lock_entry env ws name dep
            (case sr_lock_digest src of Some d \<Rightarrow> d | None \<Rightarrow> va_digest out)
            (if (case sr_lock_digest src of Some d \<Rightarrow> d | None \<Rightarrow> va_digest out) \<noteq> va_digest out
             then Some (va_digest out) else None) (vs_world s2) = Ok w
          \<and> s' = s2\<lparr>vs_world := w\<rparr>
     else s' = s2"
    "out = \<lparr>va_name = name, va_source_kind = sr_kind src, va_source_ref = sr_ref src,
            va_path = path_join (vendor_root ws) (path_of name), va_digest = va_digest out,
            va_size = va_size out, va_wrote = (\<not> matches), va_replaced = (\<not> matches \<and> existed)\<rparr>"
proof -
  from assms obtain manifest dep src s1 digest size_bytes existed matches wrote replaced s2 where
    steps: "load_manifest (vn_manifest_toml env) (vs_world s) ws = Ok manifest"
      "bt_get (m_dependencies manifest) name = Some dep"
      "vendor_resolve_source env ws name dep auth s = Some (Ok src, s1)"
      "hash_path env (vs_world s1) (sr_root src) = Ok (digest, size_bytes)"
      "target_state env (path_join (vendor_root ws) (path_of name)) digest (vs_world s1) = Ok (existed, matches)"
    and place: "(if matches then rpure (Ok (False, False))
        else if do_write
        then rbind (materialize env (sr_root src) (path_join (vendor_root ws) (path_of name)) existed)
               (\<lambda>_. rpure (Ok (True, existed)))
        else rpure (Ok (True, existed))) s1 = Some (Ok (wrote, replaced), s2)"
    and pin: "(if do_write
        then let lock_digest = (case sr_lock_digest src of Some d \<Rightarrow> d | None \<Rightarrow> digest)
             in vwrite (upsert_vendor_lock_entry env ws name dep lock_digest
                  (if lock_digest \<noteq> digest then Some digest else None))
        else rpure (Ok ())) s2 = Some (Ok (), s')"
    and out: "out = \<lparr>va_name = name, va_source_kind = sr_kind src, va_source_ref = sr_ref src,
        va_path = path_join (vendor_root ws) (path_of name), va_digest = digest, va_size = size_bytes,
        va_wrote = wrote, va_replaced = replaced\<rparr>"
    unfolding vendor_add_impl_def Let_def by (auto simp: outcome_simps)
  have vd: "va_digest out = digest" by (simp add: out)
  show thesis
  proof (rule that [OF steps(1-3)])
    show "hash_path env (vs_world s1) (sr_root src) = Ok (va_digest out, va_size out)"
      "target_state env (va_path out) (va_digest out) (vs_world s1) = Ok (existed, matches)"
      using steps(4,5) by (simp_all add: out)
    show "if matches \<or> \<not> do_write then s2 = s1
        else materialize env (sr_root src) (va_path out) existed s1 = Some (Ok (), s2)"
      using place by (auto simp: out outcome_simps split: if_splits)
    show "if do_write
        then \<exists>w. upsert_vendor_lock_entry env ws name dep
            (case sr_lock_digest src of Some d \<Rightarrow> d | None \<Rightarrow> va_digest out)
            (if (case sr_lock_digest src of Some d \<Rightarrow> d | None \<Rightarrow> va_digest out) \<noteq> va_digest out
             then Some (va_digest out) else None) (vs_world s2) = Ok w
          \<and> s' = s2\<lparr>vs_world := w\<rparr>
        else s' = s2"
      unfolding vd using pin by (cases do_write) (simp_all add: outcome_simps Let_def)
    show "out = \<lparr>va_name = name, va_source_kind = sr_kind src, va_source_ref = sr_ref src,
            va_path = path_join (vendor_root ws) (path_of name), va_digest = va_digest out,
            va_size = va_size out, va_wrote = (\<not> matches), va_replaced = (\<not> matches \<and> existed)\<rparr>"
      using place by (auto simp: out outcome_simps split: if_splits)
  qed
qed

section \<open>The plan\<close>

lemma vendor_plan_addI:
  assumes "load_manifest (vn_manifest_toml env) (vs_world s) ws = Ok manifest"
    "bt_get (m_dependencies manifest) name = Some dep"
    "vendor_resolve_source env ws name dep auth s = Some (Ok src, s1)"
    "hash_path env (vs_world s1) (sr_root src) = Ok (digest, size_bytes)"
    "target_state env (path_join (vendor_root ws) (path_of name)) digest (vs_world s1) = Ok (existed, matches)"
  shows "vendor_plan_add env ws name auth s =
     Some (Ok \<lparr>va_name = name, va_source_kind = sr_kind src, va_source_ref = sr_ref src,
               va_path = path_join (vendor_root ws) (path_of name), va_digest = digest, va_size = size_bytes,
               va_wrote = (\<not> matches), va_replaced = (\<not> matches \<and> existed)\<rparr>, s1)"
  using assms
  by (cases matches) (simp_all add: vendor_plan_add_def vendor_add_impl_def rbind_def vread_def rpure_def Let_def)

text \<open>
  C14. A plan predicts the run: where \<open>vendor add\<close> succeeds, \<open>plan_add\<close> from the same state reports exactly what \<open>add\<close>
  reports (the digest, the size, whether it writes and whether it replaces), and it leaves everything as
  resolving the source left it.
\<close>

theorem plan_predicts_add:
  assumes "vendor_add env ws name auth s = Some (Ok out, s')"
  shows "\<exists>manifest dep src s1.
      load_manifest (vn_manifest_toml env) (vs_world s) ws = Ok manifest
    \<and> bt_get (m_dependencies manifest) name = Some dep
    \<and> vendor_resolve_source env ws name dep auth s = Some (Ok src, s1)
    \<and> vendor_plan_add env ws name auth s = Some (Ok out, s1)"
proof -
  from assms [unfolded vendor_add_def] obtain manifest dep src s1 existed matches s2 where
    steps: "load_manifest (vn_manifest_toml env) (vs_world s) ws = Ok manifest"
      "bt_get (m_dependencies manifest) name = Some dep"
      "vendor_resolve_source env ws name dep auth s = Some (Ok src, s1)"
      "hash_path env (vs_world s1) (sr_root src) = Ok (va_digest out, va_size out)"
      "target_state env (va_path out) (va_digest out) (vs_world s1) = Ok (existed, matches)"
    and out: "out = \<lparr>va_name = name, va_source_kind = sr_kind src, va_source_ref = sr_ref src,
            va_path = path_join (vendor_root ws) (path_of name), va_digest = va_digest out,
            va_size = va_size out, va_wrote = (\<not> matches), va_replaced = (\<not> matches \<and> existed)\<rparr>"
    by (rule vendor_add_implE)
  have "va_path out = path_join (vendor_root ws) (path_of name)" by (subst out) simp
  with steps(5) have t: "target_state env (path_join (vendor_root ws) (path_of name)) (va_digest out) (vs_world s1)
      = Ok (existed, matches)" by simp
  from vendor_plan_addI [OF steps(1-4) t] out have "vendor_plan_add env ws name auth s = Some (Ok out, s1)" by simp
  with steps(1-3) show ?thesis by blast
qed

section \<open>The bytes placed\<close>

lemma mkdir_parent_keeps:
  assumes "mkdir_all p w = Ok w'" "shows_tree w src n" "\<not> prefix p src" "\<not> prefix src p"
    "\<not> is_dir w (p @ c # q)"
  shows "shows_tree w' src n" "\<not> is_dir w' (p @ c # q)" "writable_below w' d = writable_below w d"
proof -
  from assms(1) have w': "w' = w \<or> w' = put p (Some (Dir [])) w"
    by (auto simp: mkdir_all_def split: option.splits if_splits)
  with assms(2-4) show "shows_tree w' src n" by (auto simp: shows_tree_put)
  have "\<not> is_dir (put p (Some (Dir [])) w) (p @ c # q)" by (cases c) (simp_all add: put_def)
  with w' assms(5) show "\<not> is_dir w' (p @ c # q)" by auto
  from w' show "writable_below w' d = writable_below w d" by auto
qed

lemma materialize_places:
  assumes run: "materialize env src target existed s = Some (Ok (), s')"
    and src: "shows_tree (vs_world s) src n" "wf_node n" "readable n" "is_directory n" "height n \<le> vn_copy_depth env"
    and apart: "target = d @ [c]" "d \<noteq> []" "c \<noteq> RootDir" "\<not> prefix d src" "\<not> prefix src target"
    and target: "existed \<or> \<not> is_dir (vs_world s) target" "writable_below (vs_world s) target"
  shows "tree_at (vs_world s') target = Ok (kept_node n)"
proof -
  have d: "\<not> prefix target src" "\<not> prefix src d"
    using apart by (auto simp: prefix_def)
  from run obtain s1 s2 where
    s1: "(if existed then vwrite (\<lambda>w. omap_err (VdIo target) (remove_dir_all target w)) else rpure (Ok ())) s = Some (Ok (), s1)"
    and s2: "(case parent target of None \<Rightarrow> rpure (Ok ())
        | Some p \<Rightarrow> vwrite (\<lambda>w. omap_err (VdIo p) (mkdir_all p w))) s1 = Some (Ok (), s2)"
    and s3: "vendor_copy_tree env src target s2 = Some (Ok (), s')"
    unfolding materialize_def by (auto simp: outcome_simps)
  have one: "shows_tree (vs_world s1) src n" "\<not> is_dir (vs_world s1) target" "writable_below (vs_world s1) target"
    using s1 src(1) target d(1) apart(5)
    by (auto simp: outcome_simps remove_dir_all_def shows_tree_put put_at split: if_splits option.splits)
  have "parent target = Some d" using apart(1,2,3) by (simp add: parent_def)
  with s2 obtain w where w: "mkdir_all d (vs_world s1) = Ok w" "s2 = s1\<lparr>vs_world := w\<rparr>"
    by (auto simp: outcome_simps)
  note two = mkdir_parent_keeps [OF w(1) one(1) apart(4) d(2), of c "[]", folded apart(1), OF one(2)]
  have "copy_tree (vn_copy_depth env) src target (vs_world s2)
      = Some (Ok (), put target (Some (kept_node n)) (vs_world s2))"
    using two one(3) w(2) d(1) apart(5) src(2-5) by (intro copy_tree_put) simp_all
  with s3 show ?thesis by (auto simp: outcome_simps put_at)
qed

lemma hash_dir_is_directory: "hash_dir sha256 n = Ok r \<Longrightarrow> is_directory n"
  by (cases n) (auto simp: hash_dir_def hash_collect_files_def outcome_simps)

lemma hash_path_shown:
  assumes "hash_path env w p = Ok r" "shows_tree w p n"
  shows "hash_dir (vendor_sha256 env) n = Ok r"
proof -
  from assms(2) have "tree_at w p = Ok n" unfolding shows_tree_def by (auto dest: spec [of _ "[]"])
  with assms(1) show ?thesis by (simp add: hash_path_def outcome_simps)
qed

lemma add_places_core:
  assumes add: "vendor_add env ws name auth s = Some (Ok out, s')"
    and source: "load_manifest (vn_manifest_toml env) (vs_world s) ws = Ok manifest"
      "bt_get (m_dependencies manifest) name = Some dep"
      "vendor_resolve_source env ws name dep auth s = Some (Ok src, s1)"
    and tree: "shows_tree (vs_world s1) (sr_root src) n" "wf_node n" "readable n" "height n \<le> vn_copy_depth env"
    and target: "path_join (vendor_root ws) (path_of name) = d @ [c]" "d \<noteq> []" "c \<noteq> RootDir"
      "\<not> prefix d (sr_root src)" "\<not> prefix (sr_root src) (d @ [c])"
    and fs: "is_dir (vs_world s1) (d @ [c]) \<longrightarrow> exists (vs_world s1) (d @ [c])" "writable_below (vs_world s1) (d @ [c])"
  shows "va_path out = d @ [c]"
    "\<exists>size_bytes. hash_path env (vs_world s') (va_path out) = Ok (va_digest out, size_bytes)"
    "va_wrote out \<Longrightarrow> tree_at (vs_world s') (va_path out) = Ok (kept_node n)"
proof -
  from add [unfolded vendor_add_def] obtain manifest' dep' src' s1' existed matches s2 where
    steps: "load_manifest (vn_manifest_toml env) (vs_world s) ws = Ok manifest'"
      "bt_get (m_dependencies manifest') name = Some dep'"
      "vendor_resolve_source env ws name dep' auth s = Some (Ok src', s1')"
    and h: "hash_path env (vs_world s1') (sr_root src') = Ok (va_digest out, va_size out)"
    and t: "target_state env (va_path out) (va_digest out) (vs_world s1') = Ok (existed, matches)"
    and place: "if matches \<or> \<not> True then s2 = s1'
     else materialize env (sr_root src') (va_path out) existed s1' = Some (Ok (), s2)"
    and pin: "if True
     then \<exists>w. upsert_vendor_lock_entry env ws name dep'
            (case sr_lock_digest src' of Some d \<Rightarrow> d | None \<Rightarrow> va_digest out)
            (if (case sr_lock_digest src' of Some d \<Rightarrow> d | None \<Rightarrow> va_digest out) \<noteq> va_digest out
             then Some (va_digest out) else None) (vs_world s2) = Ok w
          \<and> s' = s2\<lparr>vs_world := w\<rparr>
     else s' = s2"
    and out: "out = \<lparr>va_name = name, va_source_kind = sr_kind src', va_source_ref = sr_ref src',
            va_path = path_join (vendor_root ws) (path_of name), va_digest = va_digest out,
            va_size = va_size out, va_wrote = (\<not> matches), va_replaced = (\<not> matches \<and> existed)\<rparr>"
    by (rule vendor_add_implE)
  have same: "src' = src" "s1' = s1" using steps source by auto
  show p: "va_path out = d @ [c]" using target(1) by (subst out) simp
  have wrote: "va_wrote out \<longleftrightarrow> \<not> matches" by (subst out) simp
  have hn: "hash_dir (vendor_sha256 env) n = Ok (va_digest out, va_size out)"
    using hash_path_shown [OF _ tree(1)] h same by simp
  from pin have frame: "tree_at (vs_world s') = tree_at (vs_world s2)"
    by (auto dest: upsert_vendor_lock_entry_tree)
  have placed: "tree_at (vs_world s2) (va_path out) = Ok (kept_node n)" if "\<not> matches"
  proof (rule materialize_places [where src = "sr_root src" and d = d and c = c and existed = existed and s = s1])
    show "materialize env (sr_root src) (va_path out) existed s1 = Some (Ok (), s2)" using place that same by simp
    show "existed \<or> \<not> is_dir (vs_world s1) (va_path out)"
      using t fs(1) p same by (auto simp: target_state_def outcome_simps split: if_splits)
  qed (use tree target fs(2) p hash_dir_is_directory [OF hn] in simp_all)
  then show "va_wrote out \<Longrightarrow> tree_at (vs_world s') (va_path out) = Ok (kept_node n)"
    using frame wrote by simp
  show "\<exists>size_bytes. hash_path env (vs_world s') (va_path out) = Ok (va_digest out, size_bytes)"
  proof (cases matches)
    case True
    with place t same have "hash_path env (vs_world s2) (va_path out) = Ok (va_digest out, b)" if
      "hash_path env (vs_world s1) (va_path out) = Ok (va_digest out, b)" for b using that by simp
    moreover from True t same obtain b where "hash_path env (vs_world s1) (va_path out) = Ok (va_digest out, b)"
      by (auto simp: target_state_def outcome_simps split: if_splits)
    ultimately show ?thesis using frame by (auto simp: hash_path_def)
  next
    case False
    from placed [OF this] frame have "hash_path env (vs_world s') (va_path out) = Ok (va_digest out, va_size out)"
      using hn copy_hash_same [OF tree(3), of "vendor_sha256 env"] by (simp add: hash_path_def)
    then show ?thesis by blast
  qed
qed

text \<open>A dependency with a plain name.\<close>

lemma vendor_add_digest:
  assumes "vendor_add env ws name auth s = Some (Ok out, s')"
    and "load_manifest (vn_manifest_toml env) (vs_world s) ws = Ok manifest"
      "bt_get (m_dependencies manifest) name = Some dep"
      "vendor_resolve_source env ws name dep auth s = Some (Ok src, s1)"
    and "shows_tree (vs_world s1) (sr_root src) n" "wf_node n" "readable n" "height n \<le> vn_copy_depth env"
    and name: "path_of name = [Normal name]"
    and apart: "\<not> prefix (vendor_root ws) (sr_root src)" "\<not> prefix (sr_root src) (vendor_root ws @ [Normal name])"
    and "is_dir (vs_world s1) (vendor_root ws @ [Normal name]) \<longrightarrow> exists (vs_world s1) (vendor_root ws @ [Normal name])"
      "writable_below (vs_world s1) (vendor_root ws @ [Normal name])"
  shows "va_path out = vendor_root ws @ [Normal name]
    \<and> (\<exists>size_bytes. hash_path env (vs_world s') (va_path out) = Ok (va_digest out, size_bytes))
    \<and> (va_wrote out \<longrightarrow> tree_at (vs_world s') (va_path out) = Ok (kept_node n))"
proof -
  have target: "path_join (vendor_root ws) (path_of name) = vendor_root ws @ [Normal name]"
    by (simp add: name path_join_name)
  have "vendor_root ws \<noteq> []"
    by (simp add: vendor_root_def path_join_def VENDOR_DIR_def) code_simp
  note core = add_places_core [OF assms(1-8) target this component.distinct(5) [symmetric] apart assms(12,13)]
  from core show ?thesis by blast
qed

section \<open>An add succeeds\<close>

lemma locked_source_total:
  assumes "(vendor_lock_source dep d :: ('e, resolved_source \<times> string) outcome) = Ok (src, digest)"
  shows "\<exists>lock'. (vendored_lock lock name dep d vd :: ('e, akua_lock) outcome) = Ok lock'"
proof -
  let ?c = "\<lparr>rc_name = name, abs_path = [], rc_sha256 = digest, rc_kind = HelmChart, rc_source = src\<rparr>"
  have "(upsert_locked_from_source lock name src digest :: ('e, akua_lock) outcome) = Ok (upserted (locked_of lock ?c) lock)"
    using upsert_locked_Ok [of lock ?c] by simp
  with assms show ?thesis
    by (auto simp: vendored_lock_def set_vendor_digest_def find_slot_def dest: position_Some split: option.splits)
qed

lemma vendor_addI:
  assumes "load_manifest (vn_manifest_toml env) (vs_world s) ws = Ok manifest"
    "bt_get (m_dependencies manifest) name = Some dep"
    "vendor_resolve_source env ws name dep auth s = Some (Ok src, s1)"
    "hash_path env (vs_world s1) (sr_root src) = Ok (digest, size_bytes)"
    "target_state env (path_join (vendor_root ws) (path_of name)) digest (vs_world s1) = Ok (existed, matches)"
    "if matches then s2 = s1
     else materialize env (sr_root src) (path_join (vendor_root ws) (path_of name)) existed s1 = Some (Ok (), s2)"
    "\<And>d vd. (case sr_lock_digest src of Some d \<Rightarrow> d | None \<Rightarrow> digest) = d \<Longrightarrow>
       \<exists>w. upsert_vendor_lock_entry env ws name dep d vd (vs_world s2) = Ok w"
  shows "\<exists>w. vendor_add env ws name auth s =
     Some (Ok \<lparr>va_name = name, va_source_kind = sr_kind src, va_source_ref = sr_ref src,
               va_path = path_join (vendor_root ws) (path_of name), va_digest = digest, va_size = size_bytes,
               va_wrote = (\<not> matches), va_replaced = (\<not> matches \<and> existed)\<rparr>, s2\<lparr>vs_world := w\<rparr>)"
proof -
  obtain w where w: "upsert_vendor_lock_entry env ws name dep (case sr_lock_digest src of Some d \<Rightarrow> d | None \<Rightarrow> digest)
      (if (case sr_lock_digest src of Some d \<Rightarrow> d | None \<Rightarrow> digest) \<noteq> digest then Some digest else None) (vs_world s2) = Ok w"
    using assms(7) by blast
  have place: "(if matches then rpure (Ok (False, False))
        else if True
        then rbind (materialize env (sr_root src) (path_join (vendor_root ws) (path_of name)) existed)
               (\<lambda>_. rpure (Ok (True, existed)))
        else rpure (Ok (True, existed))) s1 = Some (Ok (\<not> matches, \<not> matches \<and> existed), s2)"
    using assms(6) by (auto simp: rbind_def rpure_def)
  have "vendor_add env ws name auth s =
     Some (Ok \<lparr>va_name = name, va_source_kind = sr_kind src, va_source_ref = sr_ref src,
               va_path = path_join (vendor_root ws) (path_of name), va_digest = digest, va_size = size_bytes,
               va_wrote = (\<not> matches), va_replaced = (\<not> matches \<and> existed)\<rparr>, s2\<lparr>vs_world := w\<rparr>)"
    unfolding vendor_add_def vendor_add_impl_def Let_def rbind_def [of "vread _"] rbind_def [of "rpure _"] vread_def
      rpure_def [of "ok_or _ _"] rbind_def [of "vendor_resolve_source _ _ _ _ _"]
    using assms(1-5) place w by (simp add: rbind_def vwrite_def rpure_def)
  then show ?thesis by blast
qed

lemma put_read: "\<not> prefix p q \<Longrightarrow> read_to_string (put p n w) q = read_to_string w q"
  by (simp add: put_def)

lemma materialize_runs:
  assumes src: "shows_tree (vs_world s) src n" "wf_node n" "readable n" "is_directory n" "height n \<le> vn_copy_depth env"
    and apart: "target = d @ [c]" "d \<noteq> []" "c \<noteq> RootDir" "\<not> prefix d src" "\<not> prefix src target"
    and fs: "existed = is_dir (vs_world s) target" "remove_error (vs_world s) target = None"
      "create_dir_error (vs_world s) d = None" "writable_below (vs_world s) target"
  obtains w where "materialize env src target existed s = Some (Ok (), s\<lparr>vs_world := w\<rparr>)"
    "\<And>q. \<not> prefix d q \<Longrightarrow> read_to_string w q = read_to_string (vs_world s) q"
    "write_error w = write_error (vs_world s)"
proof -
  have d: "\<not> prefix target src" "\<not> prefix src d" "prefix d target"
    using apart by (auto simp: prefix_def)
  define w1 where "w1 = (if existed then put target None (vs_world s) else vs_world s)"
  define w2 where "w2 = (if is_dir w1 d then w1 else put d (Some (Dir [])) w1)"
  let ?w = "put target (Some (kept_node n)) w2"
  have one: "shows_tree w1 src n" "\<not> is_dir w1 target" "writable_below w1 target" "create_dir_error w1 d = None"
    using src(1) fs d(1) apart(5) by (auto simp: w1_def shows_tree_put put_at)
  have mk: "mkdir_all d w1 = Ok w2" using one(4) by (simp add: mkdir_all_def w2_def)
  note two = mkdir_parent_keeps [OF mk one(1) apart(4) d(2), of c "[]", folded apart(1), OF one(2)]
  have copy: "copy_tree (vn_copy_depth env) src target w2 = Some (Ok (), ?w)"
    using two one(3) d(1) apart(5) src(2-5) by (intro copy_tree_put) simp_all
  have "parent target = Some d" using apart(1,2,3) by (simp add: parent_def)
  then have run: "materialize env src target existed s = Some (Ok (), s\<lparr>vs_world := ?w\<rparr>)"
    using fs(1,2) mk copy
    by (cases existed) (simp_all add: materialize_def rbind_def vwrite_def rpure_def vendor_copy_tree_def
        remove_dir_all_def w1_def)
  have up: "\<not> prefix d q \<Longrightarrow> \<not> prefix target q" for q using d(3) by (metis prefix_order.trans)
  show thesis
    by (rule that [OF run]) (simp_all add: put_read up w1_def w2_def)
qed

lemma lock_outside_vendor: "\<not> prefix (vendor_root ws) (lock_path ws)"
proof -
  have v: "path_of VENDOR_DIR = [Normal ''.akua'', Normal ''vendor'']" "path_of ''akua.lock'' = [Normal ''akua.lock'']"
    by code_simp+
  show ?thesis by (simp add: vendor_root_def lock_path_def v path_join_def is_absolute_def)
qed

lemma resolved_lock_source:
  assumes "vendor_resolve_source env ws name dep auth s = Some (Ok src, s1)"
  obtains r where "(vendor_lock_source dep d :: ('e, resolved_source \<times> string) outcome) = Ok r"
proof -
  from assms obtain sp where sp: "(spec dep :: (vendor_error, dependency_spec) outcome) = Ok sp" "\<forall>a b c. sp \<noteq> SpecHelm a b c"
    by (auto simp: vendor_resolve_source_def split: outcome.splits dependency_spec.splits)
  have "(spec dep :: ('e, dependency_spec) outcome) = Ok sp"
    using sp(1) by (auto simp: spec_def outcome_simps split: option.splits)
  with sp(2) show thesis using that by (cases sp) (simp_all add: vendor_lock_source_def Let_def)
qed

lemma upsert_vendor_runs:
  assumes "load_lock_or_empty env w ws = Ok lock" "\<And>l. \<exists>b. vn_lock_to_toml env l = Ok b"
    "write_error w (lock_path ws) = None"
    "(vendor_lock_source dep d :: (vendor_error, resolved_source \<times> string) outcome) = Ok r"
  shows "\<exists>w'. upsert_vendor_lock_entry env ws name dep d vd w = Ok w'"
proof -
  obtain lock' where l: "(vendored_lock lock name dep d vd :: (vendor_error, akua_lock) outcome) = Ok lock'"
    using locked_source_total assms(4) by (metis surj_pair)
  obtain b where "vn_lock_to_toml env (sort_lock lock') = Ok b" using assms(2) by blast
  with l assms(1,3) show ?thesis
    by (simp add: upsert_vendor_lock_entry_def save_lock_def fs_write_def)
qed

lemma load_lock_or_empty_cong:
  "read_to_string w (lock_path ws) = read_to_string w' (lock_path ws)
     \<Longrightarrow> load_lock_or_empty env w ws = load_lock_or_empty env w' ws"
  by (simp add: load_lock_or_empty_def load_lock_def)

text \<open>Every branch of the run is taken as the two digests say.\<close>

lemma add_runs_core:
  assumes source: "load_manifest (vn_manifest_toml env) (vs_world s) ws = Ok manifest"
      "bt_get (m_dependencies manifest) name = Some dep"
      "vendor_resolve_source env ws name dep auth s = Some (Ok src, s1)"
      "hash_path env (vs_world s1) (sr_root src) = Ok (digest, size_bytes)"
    and tree: "shows_tree (vs_world s1) (sr_root src) n" "wf_node n" "readable n" "height n \<le> vn_copy_depth env"
    and join: "path_join (vendor_root ws) (path_of name) = d @ [c]" "d \<noteq> []" "c \<noteq> RootDir"
      "\<not> prefix d (lock_path ws)"
    and apart: "\<not> prefix d (sr_root src)" "\<not> prefix (sr_root src) (d @ [c])"
    and target: "target_state env (d @ [c]) digest (vs_world s1) = Ok (existed, matches)"
      "existed = is_dir (vs_world s1) (d @ [c])"
    and fs: "remove_error (vs_world s1) (d @ [c]) = None"
      "create_dir_error (vs_world s1) d = None"
      "writable_below (vs_world s1) (d @ [c])"
      "write_error (vs_world s1) (lock_path ws) = None"
    and lock: "load_lock_or_empty env (vs_world s1) ws = Ok lock" "\<And>l. \<exists>b. vn_lock_to_toml env l = Ok b"
  shows "\<exists>s'. vendor_add env ws name auth s =
     Some (Ok \<lparr>va_name = name, va_source_kind = sr_kind src, va_source_ref = sr_ref src,
               va_path = d @ [c], va_digest = digest, va_size = size_bytes,
               va_wrote = (\<not> matches), va_replaced = (\<not> matches \<and> existed)\<rparr>, s')"
proof -
  have dir: "is_directory n" using hash_dir_is_directory [OF hash_path_shown [OF source(4) tree(1)]] .
  obtain w where w: "materialize env (sr_root src) (d @ [c]) existed s1 = Some (Ok (), s1\<lparr>vs_world := w\<rparr>)"
      "\<And>q. \<not> prefix d q \<Longrightarrow> read_to_string w q = read_to_string (vs_world s1) q"
      "write_error w = write_error (vs_world s1)"
    by (rule materialize_runs [OF tree(1-3) dir tree(4) refl join(2,3) apart target(2) fs(1-3)]) auto
  define s2 where "s2 = (if matches then s1 else s1\<lparr>vs_world := w\<rparr>)"
  have place: "if matches then s2 = s1
     else materialize env (sr_root src) (path_join (vendor_root ws) (path_of name)) existed s1 = Some (Ok (), s2)"
    using w(1) by (simp add: s2_def join)
  have "load_lock_or_empty env (vs_world s2) ws = Ok lock"
    using lock(1) w(2) [OF join(4)]
    by (auto simp: s2_def cong: load_lock_or_empty_cong)
  moreover have "write_error (vs_world s2) (lock_path ws) = None" using fs(4) w(3) by (simp add: s2_def)
  ultimately have up: "\<exists>w'. upsert_vendor_lock_entry env ws name dep d vd (vs_world s2) = Ok w'" for d vd
    using resolved_lock_source [OF source(3)] upsert_vendor_runs lock(2) by metis
  from vendor_addI [OF source _ place up] target(1) join(1) show ?thesis by auto
qed

lemma vendor_root_nonempty: "vendor_root ws \<noteq> []"
  by (simp add: vendor_root_def path_join_def VENDOR_DIR_def) code_simp

lemma vendor_target_name: "path_of name = [Normal name] \<Longrightarrow> path_join (vendor_root ws) (path_of name) = vendor_root ws @ [Normal name]"
  by (simp add: path_join_name)

text \<open>
  C12. \<open>vendor add\<close> is correct: once the source of a dependency with a plain name is resolved to a readable tree no
  deeper than the bound and apart from the vendor directory, what is at the target is nothing or a readable
  directory that can be removed, the places can be written and the lock loads and serializes, it returns a
  report, and the report is true: the tree at \<open>.akua/vendor/<name>\<close> hashes to the digest reported (which is
  the digest of the source: the copy is not hashed), it was written unless it had that digest before, and
  what was written is the source tree without its special files.
\<close>

theorem vendor_add_correct:
  assumes "load_manifest (vn_manifest_toml env) (vs_world s) ws = Ok manifest"
      "bt_get (m_dependencies manifest) name = Some dep"
      "vendor_resolve_source env ws name dep auth s = Some (Ok src, s1)"
      "hash_path env (vs_world s1) (sr_root src) = Ok (digest, size_bytes)"
    and "shows_tree (vs_world s1) (sr_root src) n" "wf_node n" "readable n" "height n \<le> vn_copy_depth env"
    and "path_of name = [Normal name]"
    and "\<not> prefix (vendor_root ws) (sr_root src)" "\<not> prefix (sr_root src) (vendor_root ws @ [Normal name])"
    and "target_state env (vendor_root ws @ [Normal name]) digest (vs_world s1) = Ok (existed, matches)"
      "existed = is_dir (vs_world s1) (vendor_root ws @ [Normal name])"
    and "remove_error (vs_world s1) (vendor_root ws @ [Normal name]) = None"
      "create_dir_error (vs_world s1) (vendor_root ws) = None"
      "writable_below (vs_world s1) (vendor_root ws @ [Normal name])"
      "write_error (vs_world s1) (lock_path ws) = None"
    and "load_lock_or_empty env (vs_world s1) ws = Ok lock" "\<And>l. \<exists>b. vn_lock_to_toml env l = Ok b"
  shows "\<exists>out s'. vendor_add env ws name auth s = Some (Ok out, s')
    \<and> va_path out = vendor_root ws @ [Normal name] \<and> va_digest out = digest \<and> va_size out = size_bytes
    \<and> (\<exists>sz. hash_path env (vs_world s') (va_path out) = Ok (digest, sz))
    \<and> (va_wrote out \<longleftrightarrow> \<not> matches) \<and> (va_replaced out \<longleftrightarrow> existed \<and> \<not> matches)
    \<and> (va_wrote out \<longrightarrow> tree_at (vs_world s') (va_path out) = Ok (kept_node n))"
proof -
  obtain s' out where run: "vendor_add env ws name auth s = Some (Ok out, s')"
    and out: "out = \<lparr>va_name = name, va_source_kind = sr_kind src, va_source_ref = sr_ref src,
               va_path = vendor_root ws @ [Normal name], va_digest = digest, va_size = size_bytes,
               va_wrote = (\<not> matches), va_replaced = (\<not> matches \<and> existed)\<rparr>"
    using add_runs_core [OF assms(1-8) vendor_target_name [OF assms(9)] vendor_root_nonempty _ lock_outside_vendor assms(10-19)] by auto
  have ex: "is_dir (vs_world s1) (vendor_root ws @ [Normal name]) \<longrightarrow> exists (vs_world s1) (vendor_root ws @ [Normal name])"
    using assms(12,13) by (auto simp: target_state_def split: if_splits)
  from vendor_add_digest [OF run assms(1-3,5-11) ex assms(16)] run show ?thesis
    by (intro exI [of _ out] exI [of _ s']) (auto simp: out)
qed

text \<open>A workspace with one path dependency, nothing vendored yet.\<close>

definition toy_vendor_env ::
  "manifest \<Rightarrow> akua_lock \<Rightarrow> (unit, unit, string, nat, nat, unit) vendor_env"
where
  "toy_vendor_env m l =
     \<lparr>vn_resolver = toy_resolver, vn_manifest_toml = (\<lambda>_. Ok m), vn_lock_toml = (\<lambda>_. Ok l),
      vn_lock_to_toml = (\<lambda>_. Ok []), vn_copy_depth = 4\<rparr>"

definition chart_tree :: node where
  "chart_tree = Dir [(''b.yaml'', File ''b''), (''link'', Special), (''a'', Dir [(''c'', File ''c'')])]"

definition unvendored :: vendor_state where
  "unvendored =
     \<lparr>vs_world = put (ws_root @ [Normal ''web'']) (Some chart_tree) ((text_world [])\<lparr>exists := (\<lambda>_. False)\<rparr>),
      vs_net = fresh_net\<rparr>"

definition web_manifest :: manifest where
  "web_manifest = manifest_with [(''web'', path_dep ''web'')]"

definition web_out :: "vendor_add_output" where
  "web_out =
     \<lparr>va_name = ''web'', va_source_kind = ''path'', va_source_ref = ''web'',
      va_path = ws_root @ [Normal ''.akua'', Normal ''vendor'', Normal ''web''],
      va_digest = ''sha256:'' @ hex_encode (''a/c'' @ [CHR 0x00] @ ''c'' @ [CHR 0x0A] @ ''b.yaml'' @ [CHR 0x00] @ ''b'' @ [CHR 0x0A]),
      va_size = 2, va_wrote = True, va_replaced = False\<rparr>"

lemma web_resolved:
  "load_manifest (vn_manifest_toml (toy_vendor_env web_manifest empty_lock)) (vs_world unvendored) ws_root = Ok web_manifest"
  "bt_get (m_dependencies web_manifest) ''web'' = Some (path_dep ''web'')"
  "vendor_resolve_source (toy_vendor_env web_manifest empty_lock) ws_root ''web'' (path_dep ''web'') None unvendored
     = Some (Ok \<lparr>sr_kind = ''path'', sr_ref = ''web'', sr_root = ws_root @ [Normal ''web''], sr_lock_digest = None\<rparr>, unvendored)"
proof -
  have "case vendor_resolve_source (toy_vendor_env web_manifest empty_lock) ws_root ''web'' (path_dep ''web'') None unvendored of
      Some (r, s') \<Rightarrow> r = Ok \<lparr>sr_kind = ''path'', sr_ref = ''web'', sr_root = ws_root @ [Normal ''web''], sr_lock_digest = None\<rparr>
    | None \<Rightarrow> False" by code_simp
  moreover have "vendor_resolve_source E w n (path_dep p) a s = Some (r, s') \<Longrightarrow> s' = s" for E w n p a s r s'
    by (auto simp: vendor_resolve_source_def spec_def path_dep_def)
  ultimately show "vendor_resolve_source (toy_vendor_env web_manifest empty_lock) ws_root ''web'' (path_dep ''web'') None unvendored
     = Some (Ok \<lparr>sr_kind = ''path'', sr_ref = ''web'', sr_root = ws_root @ [Normal ''web''], sr_lock_digest = None\<rparr>, unvendored)"
    by (auto split: option.splits)
qed code_simp+

lemma shows_tree_put_self: "shows_tree (put p (Some n) w) p n"
  by (auto simp: shows_tree_def put_def)

lemma web_conditions:
  "hash_path (toy_vendor_env web_manifest empty_lock) (vs_world unvendored) (ws_root @ [Normal ''web'']) = Ok (va_digest web_out, 2)"
  "shows_tree (vs_world unvendored) (ws_root @ [Normal ''web'']) chart_tree"
  "wf_node chart_tree" "readable chart_tree" "height chart_tree \<le> vn_copy_depth (toy_vendor_env web_manifest empty_lock)"
  "path_of ''web'' = [Normal ''web'']" "\<not> prefix (vendor_root ws_root) (ws_root @ [Normal ''web''])"
  "\<not> prefix (ws_root @ [Normal ''web'']) (vendor_root ws_root @ [Normal ''web''])"
  "target_state (toy_vendor_env web_manifest empty_lock) (vendor_root ws_root @ [Normal ''web'']) (va_digest web_out)
     (vs_world unvendored) = Ok (False, False)"
  "False = is_dir (vs_world unvendored) (vendor_root ws_root @ [Normal ''web''])"
  "remove_error (vs_world unvendored) (vendor_root ws_root @ [Normal ''web'']) = None"
  "create_dir_error (vs_world unvendored) (vendor_root ws_root) = None"
  "writable_below (vs_world unvendored) (vendor_root ws_root @ [Normal ''web''])"
  "write_error (vs_world unvendored) (lock_path ws_root) = None"
  "load_lock_or_empty (toy_vendor_env web_manifest empty_lock) (vs_world unvendored) ws_root = Ok empty_lock"
  "\<exists>b. vn_lock_to_toml (toy_vendor_env web_manifest empty_lock) l = Ok b"
proof -
  show "shows_tree (vs_world unvendored) (ws_root @ [Normal ''web'']) chart_tree"
    by (simp add: unvendored_def shows_tree_put_self)
  show "writable_below (vs_world unvendored) (vendor_root ws_root @ [Normal ''web''])"
    by (simp add: unvendored_def writable_below_def text_world_def)
  show "\<exists>b. vn_lock_to_toml (toy_vendor_env web_manifest empty_lock) l = Ok b"
    by (simp add: toy_vendor_env_def)
qed code_simp+

lemma web_added:
  "\<exists>s'. vendor_add (toy_vendor_env web_manifest empty_lock) ws_root ''web'' None unvendored = Some (Ok web_out, s')"
proof -
  have "\<lparr>va_name = ''web'', va_source_kind = ''path'', va_source_ref = ''web'', va_path = vendor_root ws_root @ [Normal ''web''],
      va_digest = va_digest web_out, va_size = 2, va_wrote = True, va_replaced = False\<rparr> = web_out" by code_simp
  with add_runs_core [OF web_resolved, unfolded source_resolution.simps, OF web_conditions(1-5)
      vendor_target_name [OF web_conditions(6)] vendor_root_nonempty _ lock_outside_vendor web_conditions(7-16)]
  show ?thesis by simp
qed

lemma plan_predicts_add_witness:
  "\<exists>s1. vendor_plan_add (toy_vendor_env web_manifest empty_lock) ws_root ''web'' None unvendored = Some (Ok web_out, s1)"
proof -
  obtain s' where "vendor_add (toy_vendor_env web_manifest empty_lock) ws_root ''web'' None unvendored = Some (Ok web_out, s')"
    using web_added by blast
  from plan_predicts_add [OF this] show ?thesis by blast
qed

lemma vendor_add_correct_witness:
  "\<exists>out s'. vendor_add (toy_vendor_env web_manifest empty_lock) ws_root ''web'' None unvendored = Some (Ok out, s')
     \<and> tree_at (vs_world s') (vendor_root ws_root @ [Normal ''web'']) = Ok (kept_node chart_tree)"
  using vendor_add_correct [OF web_resolved, unfolded source_resolution.simps, OF web_conditions] by force

section \<open>A name that is an absolute path\<close>

text \<open>
  C39. The name of a dependency is joined to \<open>.akua/vendor\<close> as it is, and the manifest accepts any name: under a name
  that is an absolute path, in conditions like those above, \<open>vendor add\<close> succeeds and its target is that path, outside the
  workspace; what was there is replaced by the source tree.
\<close>

theorem vendor_add_escapes:
  assumes "load_manifest (vn_manifest_toml env) (vs_world s) ws = Ok manifest"
      "bt_get (m_dependencies manifest) name = Some dep"
      "vendor_resolve_source env ws name dep auth s = Some (Ok src, s1)"
      "hash_path env (vs_world s1) (sr_root src) = Ok (digest, size_bytes)"
    and "shows_tree (vs_world s1) (sr_root src) n" "wf_node n" "readable n" "height n \<le> vn_copy_depth env"
    and name: "path_of name = RootDir # p @ [Normal x]" "\<not> prefix (RootDir # p) (lock_path ws)"
    and "\<not> prefix (RootDir # p) (sr_root src)" "\<not> prefix (sr_root src) (path_of name)"
    and "target_state env (path_of name) digest (vs_world s1) = Ok (existed, False)"
      "existed = is_dir (vs_world s1) (path_of name)"
    and "remove_error (vs_world s1) (path_of name) = None"
      "create_dir_error (vs_world s1) (RootDir # p) = None"
      "writable_below (vs_world s1) (path_of name)"
      "write_error (vs_world s1) (lock_path ws) = None"
    and "load_lock_or_empty env (vs_world s1) ws = Ok lock" "\<And>l. \<exists>b. vn_lock_to_toml env l = Ok b"
  shows "\<exists>out s'. vendor_add env ws name auth s = Some (Ok out, s')
    \<and> va_path out = path_of name \<and> va_wrote out \<and> (va_replaced out \<longleftrightarrow> existed)
    \<and> tree_at (vs_world s') (path_of name) = Ok (kept_node n)"
proof -
  have split: "path_of name = (RootDir # p) @ [Normal x]" using name by simp
  have join: "path_join (vendor_root ws) (path_of name) = (RootDir # p) @ [Normal x]"
    by (simp add: split path_join_def is_absolute_def)
  obtain out s' where run: "vendor_add env ws name auth s = Some (Ok out, s')"
    and out: "out = \<lparr>va_name = name, va_source_kind = sr_kind src, va_source_ref = sr_ref src,
               va_path = (RootDir # p) @ [Normal x], va_digest = digest, va_size = size_bytes,
               va_wrote = (\<not> False), va_replaced = (\<not> False \<and> existed)\<rparr>"
    using add_runs_core [OF assms(1-8) join _ _ name(2) assms(11) assms(12-20) [unfolded split]] by auto
  have ex: "is_dir (vs_world s1) (path_of name) \<longrightarrow> exists (vs_world s1) (path_of name)"
    using assms(13,14) by (auto simp: target_state_def split: if_splits)
  have wrote: "va_wrote out" by (simp add: out)
  from add_places_core(3) [OF run assms(1-3,5-8) join _ _ assms(11) assms(12) [unfolded split] ex [unfolded split]
      assms(17) [unfolded split] wrote]
  show ?thesis using run out by (intro exI [of _ out] exI [of _ s']) (auto simp: split)
qed

definition srv_name :: string where "srv_name = CHR ''/'' # ''srv/web''"

definition srv_manifest :: manifest where
  "srv_manifest = manifest_with [(srv_name, path_dep ''web'')]"

lemma srv_resolved:
  "load_manifest (vn_manifest_toml (toy_vendor_env srv_manifest empty_lock)) (vs_world unvendored) ws_root = Ok srv_manifest"
  "bt_get (m_dependencies srv_manifest) srv_name = Some (path_dep ''web'')"
  "vendor_resolve_source (toy_vendor_env srv_manifest empty_lock) ws_root srv_name (path_dep ''web'') None unvendored
     = Some (Ok \<lparr>sr_kind = ''path'', sr_ref = ''web'', sr_root = ws_root @ [Normal ''web''], sr_lock_digest = None\<rparr>, unvendored)"
proof -
  have "case vendor_resolve_source (toy_vendor_env srv_manifest empty_lock) ws_root srv_name (path_dep ''web'') None unvendored of
      Some (r, s') \<Rightarrow> r = Ok \<lparr>sr_kind = ''path'', sr_ref = ''web'', sr_root = ws_root @ [Normal ''web''], sr_lock_digest = None\<rparr>
    | None \<Rightarrow> False" by code_simp
  moreover have "vendor_resolve_source E w n (path_dep p) a s = Some (r, s') \<Longrightarrow> s' = s" for E w n p a s r s'
    by (auto simp: vendor_resolve_source_def spec_def path_dep_def)
  ultimately show "vendor_resolve_source (toy_vendor_env srv_manifest empty_lock) ws_root srv_name (path_dep ''web'') None unvendored
     = Some (Ok \<lparr>sr_kind = ''path'', sr_ref = ''web'', sr_root = ws_root @ [Normal ''web''], sr_lock_digest = None\<rparr>, unvendored)"
    by (auto split: option.splits)
qed code_simp+

lemma srv_conditions:
  "hash_path (toy_vendor_env srv_manifest empty_lock) (vs_world unvendored) (ws_root @ [Normal ''web'']) = Ok (va_digest web_out, 2)"
  "shows_tree (vs_world unvendored) (ws_root @ [Normal ''web'']) chart_tree"
  "wf_node chart_tree" "readable chart_tree" "height chart_tree \<le> vn_copy_depth (toy_vendor_env srv_manifest empty_lock)"
  "path_of srv_name = RootDir # [Normal ''srv''] @ [Normal ''web'']"
  "\<not> prefix (RootDir # [Normal ''srv'']) (lock_path ws_root)"
  "\<not> prefix (RootDir # [Normal ''srv'']) (ws_root @ [Normal ''web''])"
  "\<not> prefix (ws_root @ [Normal ''web'']) (path_of srv_name)"
  "target_state (toy_vendor_env srv_manifest empty_lock) (path_of srv_name) (va_digest web_out) (vs_world unvendored) = Ok (False, False)"
  "False = is_dir (vs_world unvendored) (path_of srv_name)"
  "remove_error (vs_world unvendored) (path_of srv_name) = None"
  "create_dir_error (vs_world unvendored) (RootDir # [Normal ''srv'']) = None"
  "writable_below (vs_world unvendored) (path_of srv_name)"
  "write_error (vs_world unvendored) (lock_path ws_root) = None"
  "load_lock_or_empty (toy_vendor_env srv_manifest empty_lock) (vs_world unvendored) ws_root = Ok empty_lock"
  "\<exists>b. vn_lock_to_toml (toy_vendor_env srv_manifest empty_lock) l = Ok b"
proof -
  show "shows_tree (vs_world unvendored) (ws_root @ [Normal ''web'']) chart_tree"
    by (simp add: unvendored_def shows_tree_put_self)
  show "writable_below (vs_world unvendored) (path_of srv_name)"
    by (simp add: unvendored_def writable_below_def text_world_def)
  show "\<exists>b. vn_lock_to_toml (toy_vendor_env srv_manifest empty_lock) l = Ok b"
    by (simp add: toy_vendor_env_def)
qed code_simp+

lemma vendor_add_escapes_witness:
  "\<exists>out s'. vendor_add (toy_vendor_env srv_manifest empty_lock) ws_root srv_name None unvendored = Some (Ok out, s')
     \<and> tree_at (vs_world s') [RootDir, Normal ''srv'', Normal ''web''] = Ok (kept_node chart_tree)"
  using vendor_add_escapes [OF srv_resolved, unfolded source_resolution.simps, OF srv_conditions]
    srv_conditions(6) by force

section \<open>What \<open>check\<close> finds\<close>

definition vendored_dirs :: "world \<Rightarrow> path \<Rightarrow> (string \<times> node) list \<Rightarrow> string set" where
  "vendored_dirs w root es = {name \<in> fst ` set es. is_dir w (child root name)}"

lemma scan_entries_Ok:
  assumes "scan_entries env w root names es = Ok ds"
  shows "vl_name ` set ds = vendored_dirs w root es"
    "d \<in> set ds \<Longrightarrow> hash_path env w (child root (vl_name d)) = Ok (vl_digest d, vl_size d)"
    "distinct (map fst es) \<Longrightarrow> distinct (map vl_name ds)"
proof -
  have "vl_name ` set ds = vendored_dirs w root es
    \<and> (\<forall>d \<in> set ds. hash_path env w (child root (vl_name d)) = Ok (vl_digest d, vl_size d))
    \<and> (distinct (map fst es) \<longrightarrow> distinct (map vl_name ds))"
    using assms
  proof (induction es arbitrary: ds)
    case (Cons e es)
    obtain name n where e: "e = (name, n)" by (cases e)
    show ?case
    proof (cases "is_dir w (child root name)")
      case True
      with Cons.prems e obtain digest size_bytes rest where
        h: "hash_path env w (child root name) = Ok (digest, size_bytes)"
        and rest: "scan_entries env w root names es = Ok rest"
        and ds: "ds = \<lparr>vl_name = name, vl_path = child root name, vl_digest = digest, vl_size = size_bytes,
                   vl_orphan = (name \<notin> names)\<rparr> # rest"
        by (auto simp: outcome_simps Let_def)
      from Cons.IH [OF rest] True h show ?thesis
        by (auto simp: e ds vendored_dirs_def)
    next
      case False
      with Cons e show ?thesis by (auto simp: vendored_dirs_def Let_def)
    qed
  qed (simp add: vendored_dirs_def)
  then show "vl_name ` set ds = vendored_dirs w root es"
    "d \<in> set ds \<Longrightarrow> hash_path env w (child root (vl_name d)) = Ok (vl_digest d, vl_size d)"
    "distinct (map fst es) \<Longrightarrow> distinct (map vl_name ds)" by blast+
qed

lemma scan_entries_total:
  assumes "\<forall>name \<in> vendored_dirs w root es. \<exists>r. hash_path env w (child root name) = Ok r"
  shows "\<exists>ds. scan_entries env w root names es = Ok ds"
  using assms
proof (induction es)
  case (Cons e es)
  obtain name n where e: "e = (name, n)" by (cases e)
  from Cons.prems have "\<forall>name \<in> vendored_dirs w root es. \<exists>r. hash_path env w (child root name) = Ok r"
    by (auto simp: vendored_dirs_def)
  with Cons.IH obtain rest where "scan_entries env w root names es = Ok rest" by blast
  moreover have "is_dir w (child root name) \<Longrightarrow> \<exists>r. hash_path env w (child root name) = Ok r"
    using Cons.prems e by (auto simp: vendored_dirs_def)
  ultimately show ?case by (auto simp: e Let_def)
qed simp

lemma map_of_rev_distinct:
  "distinct (map f xs) \<Longrightarrow> map_of (rev (map (\<lambda>x. (f x, x)) xs)) k = Some x \<longleftrightarrow> x \<in> set xs \<and> f x = k"
  by (subst map_of_eq_Some_iff) (auto simp: rev_map o_def distinct_map inj_on_def)

lemma compare_vendor_clean:
  assumes "distinct (map vl_name disk)"
  shows "\<not> vco_drift (compare_vendor root ex disk) \<longleftrightarrow>
     (\<forall>e \<in> set (es_entries ex). \<exists>d \<in> set disk. vl_name d = ed_name e \<and> vl_digest d = wanted_digest e)
     \<and> vl_name ` set disk \<subseteq> es_names ex"
proof -
  have m: "map_of (rev (map (\<lambda>d. (vl_name d, d)) disk)) k = Some d \<longleftrightarrow> d \<in> set disk \<and> vl_name d = k" for k d
    by (rule map_of_rev_distinct [OF assms])
  have "(case map_of (rev (map (\<lambda>d. (vl_name d, d)) disk)) k of None \<Rightarrow> True | Some d \<Rightarrow> vl_digest d \<noteq> x)
      \<longleftrightarrow> \<not> (\<exists>d \<in> set disk. vl_name d = k \<and> vl_digest d = x)" for k x
    using m [of k] by (auto split: option.splits) (metis m option.simps(3), metis m option.inject)
  then show ?thesis
    by (auto simp: compare_vendor_def Let_def filter_empty_conv simp del: rev_map)
qed

lemma expected_of_manifest_names:
  "expected_of_manifest env ws lock ds s = Some (Ok es, s') \<Longrightarrow> map ed_name es = map fst ds"
proof (induction ds arbitrary: es s)
  case (Cons d ds)
  obtain name dep where d: "d = (name, dep)" by (cases d)
  from Cons.prems d obtain e rest s1 where
    e: "(case Option.bind lock (\<lambda>l. find_locked l name) of
              Some p \<Rightarrow> rpure (Ok (expected_of_locked name p))
            | None \<Rightarrow>
                rbind (vendor_resolve_source env ws name dep None) (\<lambda>src.
                rbind (vread (\<lambda>w. hash_path env w (sr_root src))) (\<lambda>(digest, _).
                rpure (Ok \<lparr>ed_name = name, ed_source_kind = sr_kind src, ed_source_ref = sr_ref src,
                           ed_digest = digest, ed_vendor_digest = None\<rparr>)))) s = Some (Ok e, s1)"
    and rest: "expected_of_manifest env ws lock ds s1 = Some (Ok rest, s')" and es: "es = e # rest"
    by (auto simp: outcome_simps)
  from e have "ed_name e = name"
    by (auto simp: outcome_simps expected_of_locked_def split: option.splits prod.splits)
  with Cons.IH [OF rest] show ?case by (simp add: es d)
qed (simp add: rpure_def)

lemma bt_get_mem: "bt_get m k \<noteq> None \<Longrightarrow> k \<in> fst ` set m"
  by (auto simp: bt_get_def dest: map_of_SomeD intro: rev_image_eqI)

lemma expected_names:
  assumes "expected_entries env ws s = Some (Ok ex, s')"
  shows "ed_name ` set (es_entries ex) = es_names ex"
proof -
  from assms obtain manifest lock declared s1 where
    d: "expected_of_manifest env ws lock (m_dependencies manifest) s1 = Some (Ok declared, s')"
    and ex: "ex = expected_set_of manifest lock declared"
    unfolding expected_entries_def by (auto simp: outcome_simps)
  have "ed_name (expected_of_locked n p) = n" for n p
    by (simp add: expected_of_locked_def split: prod.splits)
  moreover have "ed_name ` set declared = fst ` set (m_dependencies manifest)"
    using expected_of_manifest_names [OF d] by (metis list.set_map)
  ultimately show ?thesis
    using bt_get_mem [of "m_dependencies manifest"]
    by (auto simp: ex expected_set_of_def Let_def image_Un image_image)
      (metis (mono_tags, lifting) imageI mem_Collect_eq not_None_eq)
qed

text \<open>
  C13. \<open>vendor check\<close> passes exactly when \<open>.akua/vendor\<close> is what manifest and lock say: the directories there are the
  declared and locked dependencies, none missing and none extra, and each hashes to the digest wanted for
  it (the vendor digest of its lock entry, or else its digest).
\<close>

theorem vendor_check_clean_iff:
  assumes expected: "expected_entries env ws s = Some (Ok ex, s')"
    and dir: "fs_read_dir (vs_world s') (vendor_root ws) = Ok es" "distinct (map fst es)"
    and readable: "\<forall>name \<in> vendored_dirs (vs_world s') (vendor_root ws) es.
        \<exists>r. hash_path env (vs_world s') (child (vendor_root ws) name) = Ok r"
  shows "(\<exists>out. vendor_check env ws s = Some (Ok out, s')) \<longleftrightarrow>
     vendored_dirs (vs_world s') (vendor_root ws) es = es_names ex
     \<and> (\<forall>e \<in> set (es_entries ex). \<exists>size_bytes.
          hash_path env (vs_world s') (child (vendor_root ws) (ed_name e)) = Ok (wanted_digest e, size_bytes))"
proof -
  let ?w = "vs_world s'" and ?root = "vendor_root ws"
  obtain ds where ds: "scan_entries env ?w ?root (es_names ex) es = Ok ds" using scan_entries_total [OF readable] by blast
  define disk where "disk = sort_key vl_name ds"
  have scan: "scan_vendor_entries env ?root (es_names ex) ?w = Ok disk"
    using dir(1) ds by (simp add: scan_vendor_entries_def disk_def)
  have set: "set disk = set ds" by (simp add: disk_def)
  have "mset (map vl_name disk) = mset (map vl_name ds)" by (simp add: disk_def)
  then have dist: "distinct (map vl_name disk)"
    using scan_entries_Ok(3) [OF ds dir(2)] mset_eq_imp_distinct_iff by blast
  have names: "vl_name ` set disk = vendored_dirs ?w ?root es" using scan_entries_Ok(1) [OF ds] set by simp
  have h: "hash_path env ?w (child ?root (vl_name d)) = Ok (vl_digest d, vl_size d)" if "d \<in> set disk" for d
    using scan_entries_Ok(2) [OF ds] that set by simp
  have ok: "(\<exists>out. vendor_check env ws s = Some (Ok out, s')) \<longleftrightarrow> \<not> vco_drift (compare_vendor ?root ex disk)"
    using expected scan by (simp add: vendor_check_def rbind_def vread_def rpure_def Let_def)
  have "vendored_dirs ?w ?root es = es_names ex \<longleftrightarrow> vl_name ` set disk = ed_name ` set (es_entries ex)"
    using names expected_names [OF expected] by simp
  moreover have "(\<exists>d \<in> set disk. vl_name d = k \<and> vl_digest d = x)
      \<longleftrightarrow> k \<in> vl_name ` set disk \<and> (\<exists>sz. hash_path env ?w (child ?root k) = Ok (x, sz))" for k x
    using h by (auto simp: image_iff)
  moreover have "(\<forall>e \<in> E. ed_name e \<in> V \<and> H e) \<and> V \<subseteq> N \<longleftrightarrow> V = N \<and> (\<forall>e \<in> E. H e)"
    if "ed_name ` E = N" for E V N H using that by blast
  ultimately show ?thesis
    unfolding ok compare_vendor_clean [OF dist] names [symmetric] using expected_names [OF expected] by simp
qed

definition vendored_web_lock :: akua_lock where
  "vendored_web_lock =
     \<lparr>lock_version = 1, packages =
        [locked_entry ''web'' (ResolvedPath ''web'') (va_digest web_out) None]\<rparr>"

definition web_vendored :: vendor_state where
  "web_vendored =
     \<lparr>vs_world = put (vendor_root ws_root @ [Normal ''web'']) (Some (kept_node chart_tree)) (text_world []),
      vs_net = fresh_net\<rparr>"

lemma expected_entries_same:
  assumes "load_manifest (vn_manifest_toml env) (vs_world s) ws = Ok m"
    "load_lock (vn_lock_toml env) (vs_world s) ws = Ok l"
    "\<forall>(name, d) \<in> set (m_dependencies m). \<exists>p. find_locked l name = Some p"
  shows "\<exists>ex. expected_entries env ws s = Some (Ok ex, s)"
proof -
  have "\<exists>es. expected_of_manifest env ws (Some l) ds s = Some (Ok es, s)"
    if "\<forall>(name, d) \<in> set ds. \<exists>p. find_locked l name = Some p" for ds
    using that by (induction ds) (auto simp: rpure_def rbind_def)
  from this [OF assms(3)] assms(1,2) show ?thesis
    by (auto simp: expected_entries_def rbind_def vread_def rpure_def)
qed

lemma vendor_check_clean_iff_witness:
  "\<exists>out. vendor_check (toy_vendor_env web_manifest vendored_web_lock) ws_root web_vendored = Some (Ok out, web_vendored)"
proof -
  let ?E = "toy_vendor_env web_manifest vendored_web_lock"
  have load: "load_manifest (vn_manifest_toml ?E) (vs_world web_vendored) ws_root = Ok web_manifest"
    "load_lock (vn_lock_toml ?E) (vs_world web_vendored) ws_root = Ok vendored_web_lock"
    by code_simp+
  have dir: "fs_read_dir (vs_world web_vendored) (vendor_root ws_root) = Ok [(''web'', kept_node chart_tree)]"
    by code_simp
  have h: "hash_path ?E (vs_world web_vendored) (child (vendor_root ws_root) ''web'') = Ok (va_digest web_out, 2)"
    by code_simp
  have there: "is_dir (vs_world web_vendored) (child (vendor_root ws_root) ''web'')" by code_simp
  then have dirs: "vendored_dirs (vs_world web_vendored) (vendor_root ws_root) [(''web'', kept_node chart_tree)] = {''web''}"
    by (auto simp: vendored_dirs_def)
  have "\<forall>(name, d) \<in> set (m_dependencies web_manifest). \<exists>p. find_locked vendored_web_lock name = Some p"
    by (simp add: web_manifest_def manifest_with_def vendored_web_lock_def find_locked_def locked_entry_def)
  then obtain ex where ex: "expected_entries ?E ws_root web_vendored = Some (Ok ex, web_vendored)"
    using expected_entries_same [OF load] by blast
  have "ex = expected_set_of web_manifest (Some vendored_web_lock)
      [expected_of_locked ''web'' (locked_entry ''web'' (ResolvedPath ''web'') (va_digest web_out) None)]"
    using ex load
    by (simp add: expected_entries_def rbind_def vread_def rpure_def web_manifest_def manifest_with_def
        vendored_web_lock_def find_locked_def locked_entry_def)
  moreover have "es_entries (expected_set_of web_manifest (Some vendored_web_lock)
      [expected_of_locked ''web'' (locked_entry ''web'' (ResolvedPath ''web'') (va_digest web_out) None)])
    = [expected_of_locked ''web'' (locked_entry ''web'' (ResolvedPath ''web'') (va_digest web_out) None)]"
    by code_simp
  ultimately have es: "es_entries ex = [expected_of_locked ''web'' (locked_entry ''web'' (ResolvedPath ''web'') (va_digest web_out) None)]"
    by simp
  have wanted: "ed_name (hd (es_entries ex)) = ''web''" "wanted_digest (hd (es_entries ex)) = va_digest web_out"
    unfolding es by code_simp+
  have names: "es_names ex = {''web''}" using expected_names [OF ex] wanted(1) by (simp add: es)
  from vendor_check_clean_iff [OF ex dir] show ?thesis
    using dirs h names wanted by (simp add: es)
qed

section \<open>What becomes of the lock entry\<close>

definition vendored_entry :: "string \<Rightarrow> resolved_source \<Rightarrow> string \<Rightarrow> string option \<Rightarrow> locked_package" where
  "vendored_entry name src digest vd = (locked_entry name src digest None)\<lparr>lp_vendor_digest := vd\<rparr>"

lemma position_append_last:
  "\<forall>x \<in> set ps. \<not> P x \<Longrightarrow> position P (ps @ [x]) = (if P x then Some (length ps) else None)"
  by (induction ps) auto

lemma locked_entry_fields [simp]:
  "lp_name (locked_entry name src d p) = name" "lp_version (locked_entry name src d p) = fst (snd (to_locked_fields src))"
  "lp_digest (locked_entry name src d p) = d" "lp_vendor_digest (locked_entry name src d None) = None"
  by (cases "to_locked_fields src"; simp add: locked_entry_def)+

text \<open>The entry of a name that was not locked before, and the one that replaces it later.\<close>

lemma vendored_lock_new:
  assumes "find_locked l name = None"
    "(vendor_lock_source dep d :: ('e, resolved_source \<times> string) outcome) = Ok (src, digest)"
    "(vendored_lock l name dep d vd :: ('e, akua_lock) outcome) = Ok l1"
  shows "l1 = l\<lparr>packages := packages l @ [vendored_entry name src digest vd]\<rparr>"
proof -
  let ?v = "fst (snd (to_locked_fields src))"
  have none: "\<forall>p \<in> set (packages l). lp_name p \<noteq> name"
    using assms(1) by (auto simp: find_locked_def find_None_iff)
  then have slot: "find_slot l name ?v = None" by (auto simp: find_slot_def position_None_iff)
  have "find_slot (l\<lparr>packages := packages l @ [locked_entry name src digest None]\<rparr>) name ?v = Some (length (packages l))"
    using none by (simp add: find_slot_def position_append_last)
  with slot assms(2,3) show ?thesis
    by (cases vd) (auto simp: vendored_lock_def upsert_locked_from_source_def upsert_at_def same_digest_def
        set_vendor_digest_def vendored_entry_def locked_entry_def split: prod.splits)
qed

lemma find_locked_last:
  "find_locked l name = None \<Longrightarrow> lp_name p = name \<Longrightarrow> find_locked (l\<lparr>packages := packages l @ [p]\<rparr>) name = Some p"
  by (auto simp: find_locked_def find_append)

lemma upsert_replaces_last:
  assumes "find_locked l name = None" "lp_name p = name" "lp_version p = fst (snd (to_locked_fields src))"
    "lp_digest p \<noteq> digest"
    "(upsert_locked_from_source (l\<lparr>packages := packages l @ [p]\<rparr>) name src digest :: ('e, akua_lock) outcome) = Ok l2"
  shows "l2 = l\<lparr>packages := packages l @ [locked_entry name src digest None]\<rparr>"
proof -
  have none: "\<forall>p \<in> set (packages l). lp_name p \<noteq> name"
    using assms(1) by (auto simp: find_locked_def find_None_iff)
  then have "find_slot (l\<lparr>packages := packages l @ [p]\<rparr>) name (fst (snd (to_locked_fields src))) = Some (length (packages l))"
    using assms(2,3) by (simp add: find_slot_def position_append_last)
  with assms(4,5) show ?thesis
    by (auto simp: upsert_locked_from_source_def upsert_at_def same_digest_def)
qed

lemma hash_path_prefix: "hash_path env w p = Ok (d, sz) \<Longrightarrow> prefix ''sha256:'' d"
  by (auto simp: hash_path_def hash_dir_def outcome_simps)

lemma resolve_from_vendor_git:
  assumes "resolve_from_vendor R w name ws (VendorGit git ref) = Ok (Some c)"
  obtains raw where "rc_name c = name" "rc_source c = ResolvedGit git ref raw" "rc_sha256 c = GIT_DIGEST_PREFIX @ raw"
  using assms that
  by (auto simp: resolve_from_vendor_def resolve_path_def patch_vendored_def outcome_simps Let_def
      split: if_splits prod.splits option.splits)

text \<open>
  A vendored git dependency drifts for good once it is locked again. After \<open>vendor add\<close> of a dependency that was
  not locked, its entry wants the digest of the vendored tree; but resolving it, which takes the vendored tree,
  and locking the result drops that digest and pins the hash of the tree as if it were a commit, so that the entry
  then wants a digest no tree ever has, and \<open>vendor check\<close> reports drift whatever is on disk.
\<close>

theorem relock_makes_vendored_git_drift:
  assumes new: "find_locked l name = None"
    and dep: "(spec dep :: (vendor_error, dependency_spec) outcome) = Ok (SpecGit git t r)"
    and add: "(vendored_lock l name dep (GIT_DIGEST_PREFIX @ commit) (Some tree_digest)
        :: (vendor_error, akua_lock) outcome) = Ok l1"
    and vendored: "vendor_kind_of (SpecGit git t r) = Some k" "resolve_from_vendor R w name ws k = Ok (Some c)"
      "rc_sha256 c \<noteq> GIT_DIGEST_PREFIX @ commit"
    and relock: "(upsert_locked_from_source l1 (rc_name c) (rc_source c) (rc_sha256 c)
        :: (vendor_error, akua_lock) outcome) = Ok l2"
  shows "\<exists>p1 p2. find_locked l1 name = Some p1 \<and> wanted_digest (expected_of_locked name p1) = tree_digest
    \<and> find_locked l2 name = Some p2
    \<and> (\<forall>w' q sz. hash_path env w' q \<noteq> Ok (wanted_digest (expected_of_locked name p2), sz))"
proof -
  let ?ref = "case tag_or_rev (SpecGit git t r) of Some x \<Rightarrow> x | None \<Rightarrow> VENDORED_LOCK_FALLBACK"
  let ?p1 = "vendored_entry name (ResolvedGit git ?ref commit) (GIT_DIGEST_PREFIX @ commit) (Some tree_digest)"
  have source: "(vendor_lock_source dep (GIT_DIGEST_PREFIX @ commit) :: (vendor_error, resolved_source \<times> string) outcome)
      = Ok (ResolvedGit git ?ref commit, GIT_DIGEST_PREFIX @ commit)"
    using dep by (simp add: vendor_lock_source_def strip_prefix_def)
  from vendored_lock_new [OF new source add] have l1: "l1 = l\<lparr>packages := packages l @ [?p1]\<rparr>" .
  from vendored(1) have "k = VendorGit git ?ref" by simp
  with vendored(2) obtain raw where c: "rc_name c = name" "rc_source c = ResolvedGit git ?ref raw"
      "rc_sha256 c = GIT_DIGEST_PREFIX @ raw" by (auto elim: resolve_from_vendor_git)
  let ?p2 = "locked_entry name (rc_source c) (rc_sha256 c) None"
  have p1: "lp_name ?p1 = name" "lp_version ?p1 = fst (snd (to_locked_fields (rc_source c)))" "lp_digest ?p1 \<noteq> rc_sha256 c"
    using vendored(3) by (simp_all add: vendored_entry_def c)
  from upsert_replaces_last [OF new p1 relock [unfolded l1 c(1)]]
  have l2: "l2 = l\<lparr>packages := packages l @ [?p2]\<rparr>" .
  have "find_locked l1 name = Some ?p1" "find_locked l2 name = Some ?p2"
    unfolding l1 l2 by (rule find_locked_last [OF new]; simp add: vendored_entry_def)+
  moreover have "wanted_digest (expected_of_locked name ?p1) = tree_digest"
    "wanted_digest (expected_of_locked name ?p2) = GIT_DIGEST_PREFIX @ raw"
    by (simp_all add: wanted_digest_def expected_of_locked_def vendored_entry_def c(3) split: prod.splits)
  moreover have "hash_path env w' q \<noteq> Ok (GIT_DIGEST_PREFIX @ raw, sz)" for w' q sz
    using hash_path_prefix [of env w' q "GIT_DIGEST_PREFIX @ raw" sz] by (auto simp: GIT_DIGEST_PREFIX_def prefix_def)
  ultimately show ?thesis by metis
qed

text \<open>
  \<open>vendor add\<close> of an OCI dependency can be done once: it pins the digest of the unpacked tree where the fetch
  expects the digest of the archive, so that a later fetch of the same dependency succeeds only if the
  archive's own digest is that of the tree it holds, or an earlier fetch filed something under it.
\<close>

theorem vendored_oci_not_fetched_again:
  assumes new: "find_locked l name = None"
    and dep: "(spec dep :: (vendor_error, dependency_spec) outcome) = Ok (SpecOci oci version)"
    and add: "(vendored_lock l name dep tree_digest None :: (vendor_error, akua_lock) outcome) = Ok l1"
    and oci: "prefix ''oci://'' oci"
    and lock: "load_lock (vn_lock_toml env) (vs_world s) ws = Ok l1"
    and again: "resolve_oci_source env ws name oci version s = Some (Ok src, s')"
  shows "cache_hit (vs_world s) (default_cache_root (vs_world s) ''oci'') (Some tree_digest) \<noteq> None
    \<or> (\<exists>archive. tree_digest = digest_of_bytes (r_oci (vn_resolver env)) archive)"
proof -
  let ?root = "default_cache_root (vs_world s) ''oci''"
  let ?p = "vendored_entry name (ResolvedOci oci version tree_digest) tree_digest None"
  have source: "(vendor_lock_source dep tree_digest :: (vendor_error, resolved_source \<times> string) outcome)
      = Ok (ResolvedOci oci version tree_digest, tree_digest)"
    using dep by (simp add: vendor_lock_source_def)
  have "find_locked l1 name = Some ?p"
    unfolding vendored_lock_new [OF new source add] by (rule find_locked_last [OF new]) (simp add: vendored_entry_def)
  moreover have "lp_is_oci ?p" "lp_digest ?p = tree_digest"
    using oci by (simp_all add: vendored_entry_def locked_entry_def lp_is_oci_def)
  ultimately have pinned: "expected_digest_from_lock env (vs_world s) ws name ''oci'' = Some tree_digest"
    using lock by (simp add: expected_digest_from_lock_def)
  from again obtain creds a w' n where
    "oci_fetch_with_opts (r_oci (vn_resolver env)) oci version ?root
       \<lparr>oci_fetch_opts.expected_digest = Some tree_digest, fo_creds = creds, fo_cosign_key = None\<rparr>
       (vs_world s) (vs_net s) = (Ok (a, w'), n)"
    unfolding resolve_oci_source_def Let_def pinned by (auto split: outcome.splits prod.splits)
  then show ?thesis
  proof (cases rule: oci_fetch_with_opts_cases)
    case hit
    then show ?thesis by auto
  next
    case pull
    from oci_pull_Ok [OF pull(3)] show ?thesis by (auto simp: pulled_ok_def)
  qed
qed

definition git_dep :: dependency where
  "git_dep = (path_dep [])\<lparr>dep_path := None, dep_git := Some ''https://h/r'', dep_tag := Some ''v1''\<rparr>"

definition oci_dep_v1 :: dependency where
  "oci_dep_v1 = (path_dep [])\<lparr>dep_path := None, dep_oci := Some ''oci://r/p'', dep_version := Some ''1''\<rparr>"

lemma relock_makes_vendored_git_drift_witness:
  "\<exists>l1 l2 p1 p2. vendored_lock empty_lock ''up'' git_dep (GIT_DIGEST_PREFIX @ ''c0ffee'') (Some ''sha256:00'')
       = (Ok l1 :: (vendor_error, akua_lock) outcome)
     \<and> find_locked l1 ''up'' = Some p1 \<and> wanted_digest (expected_of_locked ''up'' p1) = ''sha256:00''
     \<and> find_locked l2 ''up'' = Some p2
     \<and> (\<forall>w q sz. hash_path (toy_vendor_env web_manifest empty_lock) w q
          \<noteq> Ok (wanted_digest (expected_of_locked ''up'' p2), sz))"
proof -
  let ?w = "(text_world [])\<lparr>is_dir := (\<lambda>_. True), tree_at := (\<lambda>_. Ok chart_tree)\<rparr>"
  have new: "find_locked empty_lock ''up'' = None" by code_simp
  have dep: "(spec git_dep :: (vendor_error, dependency_spec) outcome) = Ok (SpecGit ''https://h/r'' (Some ''v1'') None)"
    by code_simp
  obtain l1 where add: "(vendored_lock empty_lock ''up'' git_dep (GIT_DIGEST_PREFIX @ ''c0ffee'') (Some ''sha256:00'')
      :: (vendor_error, akua_lock) outcome) = Ok l1"
  proof -
    have "is_Ok (vendored_lock empty_lock ''up'' git_dep (GIT_DIGEST_PREFIX @ ''c0ffee'') (Some ''sha256:00'')
      :: (vendor_error, akua_lock) outcome)" by code_simp
    then show thesis using that by (auto simp: is_Ok_iff)
  qed
  have k: "vendor_kind_of (SpecGit ''https://h/r'' (Some ''v1'') None) = Some (VendorGit ''https://h/r'' ''v1'')" by code_simp
  have "case resolve_from_vendor toy_resolver ?w ''up'' ws_root (VendorGit ''https://h/r'' ''v1'') of
      Ok (Some c) \<Rightarrow> rc_sha256 c \<noteq> GIT_DIGEST_PREFIX @ ''c0ffee'' | _ \<Rightarrow> False" by code_simp
  then obtain c where c: "resolve_from_vendor toy_resolver ?w ''up'' ws_root (VendorGit ''https://h/r'' ''v1'') = Ok (Some c)"
      "rc_sha256 c \<noteq> GIT_DIGEST_PREFIX @ ''c0ffee''" by (auto split: outcome.splits option.splits)
  have again: "(upsert_locked_from_source l1 (rc_name c) (rc_source c) (rc_sha256 c) :: (vendor_error, akua_lock) outcome)
      = Ok (upserted (locked_of l1 c) l1)" by (rule upsert_locked_Ok)
  from relock_makes_vendored_git_drift [OF new dep add k c again] add show ?thesis by blast
qed

lemma vendored_oci_not_fetched_again_witness:
  "cache_hit ((text_world [])\<lparr>is_file := (\<lambda>_. True)\<rparr>)
     (default_cache_root ((text_world [])\<lparr>is_file := (\<lambda>_. True)\<rparr>) ''oci'') (Some ''sha256:78'') \<noteq> None
   \<or> (\<exists>archive. ''sha256:78'' = digest_of_bytes toy_oci_env archive)"
proof -
  let ?L = "empty_lock\<lparr>packages := [vendored_entry ''web'' (ResolvedOci ''oci://r/p'' ''1'' ''sha256:78'') ''sha256:78'' None]\<rparr>"
  let ?E = "toy_vendor_env web_manifest ?L"
  let ?s = "\<lparr>vs_world = (text_world [])\<lparr>is_file := (\<lambda>_. True)\<rparr>, vs_net = fresh_net\<rparr>"
  have new: "find_locked empty_lock ''web'' = None" by code_simp
  have dep: "(spec oci_dep_v1 :: (vendor_error, dependency_spec) outcome) = Ok (SpecOci ''oci://r/p'' ''1'')"
    by code_simp
  have add: "(vendored_lock empty_lock ''web'' oci_dep_v1 ''sha256:78'' None :: (vendor_error, akua_lock) outcome) = Ok ?L"
    by code_simp
  have oci: "prefix ''oci://'' ''oci://r/p''" by code_simp
  have lock: "load_lock (vn_lock_toml ?E) (vs_world ?s) ws_root = Ok ?L" by code_simp
  have "case resolve_oci_source ?E ws_root ''web'' ''oci://r/p'' ''1'' ?s of Some (Ok _, _) \<Rightarrow> True | _ \<Rightarrow> False"
    by code_simp
  then obtain src s' where again: "resolve_oci_source ?E ws_root ''web'' ''oci://r/p'' ''1'' ?s = Some (Ok src, s')"
    by (auto split: option.splits outcome.splits)
  from vendored_oci_not_fetched_again [OF new dep add oci lock again]
  show ?thesis by (simp add: toy_vendor_env_def toy_resolver_def)
qed

end
