(* ===== verification/PackageTar.thy ===== *)
theory PackageTar
  imports TreeFs Manifest DirDiff
begin

text \<open>
  \<open>package_tar.rs\<close>: packing a workspace into the archive that is published, unpacking it, and looking into
  one. The \<open>tar\<close> and \<open>flate2\<close> crates are parameters: a builder that takes one entry at a time, a reader that
  lists the entries of an archive, and \<open>unpack\<close>. What \<open>append_file\<close> takes from a file besides its bytes
  (mode, owner and modification time) is the record \<open>tar_meta\<close>, which \<open>tar_stat\<close> reads.
\<close>

record tar_meta =
  tm_mode :: nat
  tm_uid :: nat
  tm_gid :: nat
  tm_mtime :: nat

record tar_entry =
  te_path :: path
  te_meta :: tar_meta
  te_bytes :: string

text \<open>An entry as the reader gives it: its name as written, whether it is a file, its bytes and its size.\<close>

record read_entry =
  re_name :: string
  re_is_file :: bool
  re_bytes :: string

datatype package_tar_error =
  TarNotADirectory path
| TarMissingManifest path
| MissingPackageSource
| TarIo path io_error
| TarManifest path manifest_error

record 'b tar_env =
  tar_manifest_of_toml :: "string \<Rightarrow> (string, manifest) outcome"
  tar_manifest_to_toml :: "manifest \<Rightarrow> (string, string) outcome"
  tar_stat :: "path \<Rightarrow> tar_meta"
  tar_new :: 'b
  tar_append :: "'b \<Rightarrow> tar_entry \<Rightarrow> (io_error, 'b) outcome"
  tar_finish :: "'b \<Rightarrow> (io_error, string) outcome"
  tar_entries :: "string \<Rightarrow> (io_error, (io_error, read_entry) outcome list) outcome"
  tar_utf8 :: "string \<Rightarrow> (io_error, string) outcome"
  tar_unpack :: "string \<Rightarrow> path \<Rightarrow> world \<Rightarrow> (io_error, world) outcome"
  tar_sha256 :: "string \<Rightarrow> string"

section \<open>Packing\<close>

definition should_skip_file :: "string \<Rightarrow> bool" where
  "should_skip_file name \<longleftrightarrow> prefix ''.'' name \<or> name = ''inputs.yaml''"

definition clear_replace :: "manifest \<Rightarrow> manifest" where
  "clear_replace m = m\<lparr>m_dependencies := map (\<lambda>(k, d). (k, d\<lparr>dep_replace := None\<rparr>)) (m_dependencies m)\<rparr>"

definition manifest_without_replace ::
  "'b tar_env \<Rightarrow> path \<Rightarrow> world \<Rightarrow> (package_tar_error, string) outcome"
where
  "manifest_without_replace env akua_toml w =
     obind (omap_err (TarIo akua_toml) (read_to_string w akua_toml)) (\<lambda>text.
     obind (omap_err (TarManifest akua_toml) (parse_manifest (tar_manifest_of_toml env) text)) (\<lambda>m.
     omap_err (TarManifest akua_toml) (manifest_to_toml (tar_manifest_to_toml env) (clear_replace m))))"

text \<open>The header of the rewritten manifest does not come from the file.\<close>

definition fresh_meta :: tar_meta where
  "fresh_meta = \<lparr>tm_mode = 0x1A4, tm_uid = 0, tm_gid = 0, tm_mtime = 0\<rparr>"

definition entry_of_file ::
  "'b tar_env \<Rightarrow> world \<Rightarrow> path \<times> path \<times> node \<Rightarrow> (package_tar_error, tar_entry) outcome"
where
  "entry_of_file env w = (\<lambda>(rel, full, f).
     if rel = [Normal ''akua.toml'']
     then obind (manifest_without_replace env full w) (\<lambda>bytes.
            Ok \<lparr>te_path = rel, te_meta = fresh_meta, te_bytes = bytes\<rparr>)
     else obind (omap_err (TarIo full) (read_file f)) (\<lambda>bytes.
            Ok \<lparr>te_path = rel, te_meta = tar_stat env full, te_bytes = bytes\<rparr>))"

definition append_entry ::
  "'b tar_env \<Rightarrow> world \<Rightarrow> 'b \<Rightarrow> path \<times> path \<times> node \<Rightarrow> (package_tar_error, 'b) outcome"
where
  "append_entry env w b = (\<lambda>(rel, full, f).
     obind (entry_of_file env w (rel, full, f)) (\<lambda>e. omap_err (TarIo full) (tar_append env b e)))"

text \<open>The files of a directory with their paths inside and outside the archive.\<close>

definition files_below ::
  "world \<Rightarrow> path \<Rightarrow> (string \<Rightarrow> bool) \<Rightarrow> path \<Rightarrow> (package_tar_error, (path \<times> path \<times> node) list) outcome"
where
  "files_below w dir keep inside =
     obind (omap_err (TarIo dir) (obind (tree_at w dir) (collect_files keep))) (\<lambda>fs.
     Ok (map (\<lambda>(rel, f). (path_join inside rel, path_join dir rel, f)) fs))"

fun vendored_files ::
  "world \<Rightarrow> (string \<times> path) list \<Rightarrow> (package_tar_error, (path \<times> path \<times> node) list) outcome"
where
  "vendored_files w [] = Ok []"
| "vendored_files w ((name, chart_dir) # vs) =
     obind (files_below w chart_dir (\<lambda>_. True) (path_join (path_of ''.akua/vendor'') (path_of name))) (\<lambda>fs.
     obind (vendored_files w vs) (\<lambda>rest. Ok (fs @ rest)))"

definition pack_workspace_with_vendored_deps ::
  "'b tar_env \<Rightarrow> path \<Rightarrow> (string \<times> path) list \<Rightarrow> world \<Rightarrow> (package_tar_error, string) outcome"
where
  "pack_workspace_with_vendored_deps env root vendored w =
     (if \<not> is_dir w root then Err (TarNotADirectory root)
      else if \<not> is_file w (child root ''akua.toml'') then Err (TarMissingManifest root)
      else obind (files_below w root (\<lambda>name. \<not> should_skip_file name) []) (\<lambda>entries.
           obind (vendored_files w vendored) (\<lambda>vendor_entries.
           obind (fold_outcome (append_entry env w) (tar_new env) (entries @ sort_key fst vendor_entries)) (\<lambda>b.
           omap_err (TarIo root) (tar_finish env b)))))"

definition pack_workspace :: "'b tar_env \<Rightarrow> path \<Rightarrow> world \<Rightarrow> (package_tar_error, string) outcome" where
  "pack_workspace env root w = pack_workspace_with_vendored_deps env root [] w"

definition unpack_to :: "'b tar_env \<Rightarrow> string \<Rightarrow> path \<Rightarrow> world \<Rightarrow> (package_tar_error, world) outcome" where
  "unpack_to env tar_gz target w =
     obind (omap_err (TarIo target) (mkdir_all target w)) (\<lambda>w.
     omap_err (TarIo target) (tar_unpack env tar_gz target w))"

definition tarball_digest :: "'b tar_env \<Rightarrow> string \<Rightarrow> string" where
  "tarball_digest env tar_gz = ''sha256:'' @ hex_encode (tar_sha256 env tar_gz)"

section \<open>Inspecting\<close>

record tarball_inspection =
  ti_layer_digest :: string
  ti_compressed_size :: nat
  ti_uncompressed_size :: nat
  ti_file_count :: nat
  ti_package_name :: "string option"
  ti_package_version :: "string option"
  ti_package_edition :: "string option"
  ti_vendored_deps :: "string list"

record tarball_scan =
  ts_uncompressed_size :: nat
  ts_file_count :: nat
  ts_manifest_text :: "string option"
  ts_package_source :: "string option"
  ts_vendored_deps :: "string list"

text \<open>The name of the dependency an entry below \<open>.akua/vendor\<close> belongs to.\<close>

fun os_str_of :: "component \<Rightarrow> string" where
  "os_str_of RootDir = ''/''"
| "os_str_of CurDir = ''.''"
| "os_str_of ParentDir = ''..''"
| "os_str_of (Normal s) = s"

definition vendored_name :: "path \<Rightarrow> string option" where
  "vendored_name p =
     (let base = path_of ''.akua/vendor''
      in if prefix base p \<and> drop (length base) p \<noteq> [] then Some (os_str_of (hd (drop (length base) p))) else None)"

definition scan_entry ::
  "'b tar_env \<Rightarrow> bool \<Rightarrow> tarball_scan \<Rightarrow> (io_error, read_entry) outcome \<Rightarrow> (package_tar_error, tarball_scan) outcome"
where
  "scan_entry env read_package_source s entry =
     obind (omap_err (TarIo (path_of ''<tarball>'')) entry) (\<lambda>e.
     if \<not> re_is_file e then Ok s
     else let p = path_of (re_name e);
              s1 = s\<lparr>ts_file_count := ts_file_count s + 1,
                     ts_uncompressed_size := ts_uncompressed_size s + length (re_bytes e)\<rparr>;
              s2 = s1\<lparr>ts_vendored_deps := ts_vendored_deps s1
                       @ (case vendored_name p of Some n \<Rightarrow> [n] | None \<Rightarrow> [])\<rparr>
          in obind (if re_name e = ''akua.toml''
                    then obind (omap_err (TarIo p) (tar_utf8 env (re_bytes e))) (\<lambda>t.
                           Ok (s2\<lparr>ts_manifest_text := Some t\<rparr>))
                    else Ok s2) (\<lambda>s3.
             if read_package_source \<and> re_name e = ''package.k''
             then obind (omap_err (TarIo p) (tar_utf8 env (re_bytes e))) (\<lambda>t.
                    Ok (s3\<lparr>ts_package_source := Some t\<rparr>))
             else Ok s3))"

definition scan_tarball :: "'b tar_env \<Rightarrow> string \<Rightarrow> bool \<Rightarrow> (package_tar_error, tarball_scan) outcome" where
  "scan_tarball env tar_gz read_package_source =
     obind (omap_err (TarIo (path_of ''<tarball>'')) (tar_entries env tar_gz)) (\<lambda>es.
     obind (fold_outcome (scan_entry env read_package_source)
        \<lparr>ts_uncompressed_size = 0, ts_file_count = 0, ts_manifest_text = None, ts_package_source = None,
         ts_vendored_deps = []\<rparr> es) (\<lambda>s.
     Ok (s\<lparr>ts_vendored_deps := sort_dedup (ts_vendored_deps s)\<rparr>)))"

definition manifest_in :: "'b tar_env \<Rightarrow> tarball_scan \<Rightarrow> ('e, manifest option) outcome" where
  "manifest_in env s =
     (case ts_manifest_text s of
        None \<Rightarrow> Ok None
      | Some t \<Rightarrow>
          (case parse_manifest (tar_manifest_of_toml env) t of
             Ok m \<Rightarrow> Ok (Some m) | Err _ \<Rightarrow> Ok None | Panic \<Rightarrow> Panic))"

definition inspect_with_layer_digest ::
  "'b tar_env \<Rightarrow> string \<Rightarrow> string \<Rightarrow> bool \<Rightarrow> (package_tar_error, tarball_inspection \<times> string option) outcome"
where
  "inspect_with_layer_digest env tar_gz digest read_package_source =
     obind (scan_tarball env tar_gz read_package_source) (\<lambda>s.
     obind (manifest_in env s) (\<lambda>m.
     Ok (\<lparr>ti_layer_digest = digest, ti_compressed_size = length tar_gz,
          ti_uncompressed_size = ts_uncompressed_size s, ti_file_count = ts_file_count s,
          ti_package_name = map_option (\<lambda>m. pkg_name (m_package m)) m,
          ti_package_version = map_option (\<lambda>m. pkg_version (m_package m)) m,
          ti_package_edition = map_option (\<lambda>m. pkg_edition (m_package m)) m,
          ti_vendored_deps = ts_vendored_deps s\<rparr>, ts_package_source s)))"

definition inspect :: "'b tar_env \<Rightarrow> string \<Rightarrow> (package_tar_error, tarball_inspection) outcome" where
  "inspect env tar_gz =
     obind (inspect_with_layer_digest env tar_gz (tarball_digest env tar_gz) False) (\<lambda>(t, _). Ok t)"

definition inspect_with_package_source ::
  "'b tar_env \<Rightarrow> string \<Rightarrow> string \<Rightarrow> (package_tar_error, tarball_inspection \<times> string) outcome"
where
  "inspect_with_package_source env tar_gz digest =
     obind (inspect_with_layer_digest env tar_gz digest True) (\<lambda>(t, src).
     obind (ok_or MissingPackageSource src) (\<lambda>s. Ok (t, s)))"

definition read_package_source :: "'b tar_env \<Rightarrow> string \<Rightarrow> (package_tar_error, string) outcome" where
  "read_package_source env tar_gz =
     obind (scan_tarball env tar_gz True) (\<lambda>s. ok_or MissingPackageSource (ts_package_source s))"

section \<open>What an archive holds\<close>

text \<open>An archive that was built from entries is read back as these entries.\<close>

definition as_read :: "tar_entry \<Rightarrow> read_entry" where
  "as_read e = \<lparr>re_name = path_str (te_path e), re_is_file = True, re_bytes = te_bytes e\<rparr>"

definition archive_inverse :: "'b tar_env \<Rightarrow> bool" where
  "archive_inverse env \<longleftrightarrow>
     (\<forall>es b bytes. fold_outcome (tar_append env) (tar_new env) es = Ok b \<longrightarrow> tar_finish env b = Ok bytes \<longrightarrow>
        tar_entries env bytes = Ok (map (\<lambda>e. Ok (as_read e)) es))"

lemma append_entries_Ok:
  "fold_outcome (append_entry env w) b xs = Ok b' \<longleftrightarrow>
     (\<exists>es. list_all2 (\<lambda>f e. entry_of_file env w f = Ok e) xs es \<and> fold_outcome (tar_append env) b es = Ok b')"
  (is "?L b xs \<longleftrightarrow> ?R b xs")
proof (induction xs arbitrary: b)
  case (Cons f xs)
  obtain rel full n where f: "f = (rel, full, n)" by (cases f)
  have "?L b (f # xs) \<longleftrightarrow> (\<exists>e b1. entry_of_file env w f = Ok e \<and> tar_append env b e = Ok b1 \<and> ?L b1 xs)"
    by (auto simp: f append_entry_def outcome_simps)
  also have "\<dots> \<longleftrightarrow> (\<exists>e b1 es. entry_of_file env w f = Ok e \<and> tar_append env b e = Ok b1
      \<and> list_all2 (\<lambda>f e. entry_of_file env w f = Ok e) xs es \<and> fold_outcome (tar_append env) b1 es = Ok b')"
    unfolding Cons.IH by blast
  also have "\<dots> \<longleftrightarrow> ?R b (f # xs)"
  proof
    assume "?R b (f # xs)"
    then obtain e es where "entry_of_file env w f = Ok e" "list_all2 (\<lambda>f e. entry_of_file env w f = Ok e) xs es"
      "fold_outcome (tar_append env) b (e # es) = Ok b'" unfolding list_all2_Cons1 by blast
    then show "\<exists>e b1 es. entry_of_file env w f = Ok e \<and> tar_append env b e = Ok b1
      \<and> list_all2 (\<lambda>f e. entry_of_file env w f = Ok e) xs es \<and> fold_outcome (tar_append env) b1 es = Ok b'"
      by (auto simp: obind_Ok_iff)
  next
    assume "\<exists>e b1 es. entry_of_file env w f = Ok e \<and> tar_append env b e = Ok b1
      \<and> list_all2 (\<lambda>f e. entry_of_file env w f = Ok e) xs es \<and> fold_outcome (tar_append env) b1 es = Ok b'"
    then obtain e b1 es where "entry_of_file env w f = Ok e" "tar_append env b e = Ok b1"
      "list_all2 (\<lambda>f e. entry_of_file env w f = Ok e) xs es" "fold_outcome (tar_append env) b1 es = Ok b'" by blast
    then show "?R b (f # xs)" by (intro exI [of _ "e # es"]) simp
  qed
  finally show ?case .
qed simp

lemma manifest_without_replace_Ok:
  "manifest_without_replace env p w = Ok bytes \<longleftrightarrow>
     (\<exists>text m. read_to_string w p = Ok text \<and> parse_manifest (tar_manifest_of_toml env) text = Ok m
        \<and> tar_manifest_to_toml env (clear_replace m) = Ok bytes)"
  by (auto simp: manifest_without_replace_def manifest_to_toml_def outcome_simps)

text \<open>What an entry holds: the bytes and metadata of the file, but for the manifest.\<close>

definition holds_file :: "'b tar_env \<Rightarrow> world \<Rightarrow> path \<Rightarrow> node \<Rightarrow> tar_entry \<Rightarrow> bool" where
  "holds_file env w full f e \<longleftrightarrow>
     (if te_path e = [Normal ''akua.toml'']
      then te_meta e = fresh_meta
         \<and> (\<exists>text m. read_to_string w full = Ok text \<and> parse_manifest (tar_manifest_of_toml env) text = Ok m
              \<and> tar_manifest_to_toml env (clear_replace m) = Ok (te_bytes e))
      else te_meta e = tar_stat env full \<and> f = File (te_bytes e))"

lemma entry_of_file_Ok:
  "entry_of_file env w (rel, full, f) = Ok e \<longleftrightarrow> te_path e = rel \<and> holds_file env w full f e"
proof (cases "rel = [Normal ''akua.toml'']")
  case True
  then show ?thesis
    by (cases e) (auto simp: entry_of_file_def holds_file_def manifest_without_replace_Ok outcome_simps)
next
  case False
  then show ?thesis
    by (cases e) (auto simp: entry_of_file_def holds_file_def outcome_simps read_file_Ok)
qed

lemma clear_replace_none: "(k, d) \<in> set (m_dependencies (clear_replace m)) \<Longrightarrow> dep_replace d = None"
  by (auto simp: clear_replace_def)

text \<open>The files an archive is made of.\<close>

definition packed_file ::
  "path \<Rightarrow> node \<Rightarrow> path \<Rightarrow> path \<Rightarrow> node \<Rightarrow> bool"
where
  "packed_file root n rel full f \<longleftrightarrow>
     (\<exists>names. rel = map Normal names \<and> names \<noteq> [] \<and> list_all (\<lambda>s. \<not> should_skip_dir s) names
        \<and> node_at n rel = Some f \<and> is_regular f \<and> last names \<noteq> ''inputs.yaml'' \<and> full = path_join root rel)"

lemma collect_files_visible:
  assumes "wf_node n" "collect_files keep n = Ok fs"
  shows "(p, f) \<in> set fs \<longleftrightarrow>
         (\<exists>names. p = map Normal names \<and> names \<noteq> [] \<and> list_all (\<lambda>s. \<not> should_skip_dir s) names
            \<and> node_at n p = Some f \<and> is_regular f \<and> keep (last names))"
    and "sorted_wrt (<) (map fst fs)"
proof -
  from assms(2) obtain ys where ys: "walk keep n = Ok ys" and xs: "fs = sort_key fst ys"
    by (auto simp: collect_files_def outcome_simps)
  note correct = walk_tree_correct [OF assms(1) ys [unfolded walk_def]]
  show "sorted_wrt (<) (map fst fs)" using correct(2) by (simp add: xs strict_sorted_iff distinct_map)
  show "(p, f) \<in> set fs \<longleftrightarrow>
         (\<exists>names. p = map Normal names \<and> names \<noteq> [] \<and> list_all (\<lambda>s. \<not> should_skip_dir s) names
            \<and> node_at n p = Some f \<and> is_regular f \<and> keep (last names))"
    using correct(1) by (auto simp: xs visible_def is_regular_not_directory)
qed

lemma path_join_empty_names: "path_join [] (map Normal names) = map Normal names"
  by (cases names) (simp_all add: path_join_def is_absolute_def)

lemma files_below_root:
  assumes "files_below w root (\<lambda>name. \<not> should_skip_file name) [] = Ok fs" "tree_at w root = Ok n" "wf_node n"
  shows "(rel, full, f) \<in> set fs \<longleftrightarrow> packed_file root n rel full f" "sorted_wrt (<) (map fst fs)"
proof -
  from assms(1,2) obtain cs where cs: "collect_files (\<lambda>name. \<not> should_skip_file name) n = Ok cs"
    and fs: "fs = map (\<lambda>(rel, f). (path_join [] rel, path_join root rel, f)) cs"
    by (auto simp: files_below_def outcome_simps)
  note vis = collect_files_visible [OF assms(3) cs]
  have join: "path_join [] rel = rel" if "(rel, f) \<in> set cs" for rel f
    using that vis(1) path_join_empty_names by auto
  have "map fst fs = map fst cs" unfolding fs by (auto simp: join)
  then show "sorted_wrt (<) (map fst fs)" using vis(2) by simp
  have "(rel, full, f) \<in> set fs \<longleftrightarrow> (rel, f) \<in> set cs \<and> full = path_join root rel"
    using join by (force simp: fs)
  also have "\<dots> \<longleftrightarrow> packed_file root n rel full f"
  proof -
    have "should_skip_file s \<longleftrightarrow> s = ''inputs.yaml''" if "\<not> should_skip_dir s" for s
      using that by (auto simp: should_skip_file_def should_skip_dir_def)
    then have "list_all (\<lambda>s. \<not> should_skip_dir s) names \<Longrightarrow> names \<noteq> [] \<Longrightarrow>
        should_skip_file (last names) \<longleftrightarrow> last names = ''inputs.yaml''" for names
      by (simp add: list_all_iff)
    then show ?thesis unfolding vis(1) packed_file_def by blast
  qed
  finally show "(rel, full, f) \<in> set fs \<longleftrightarrow> packed_file root n rel full f" .
qed

text \<open>
  C19. A packed workspace holds exactly what it should: reading the archive gives, in ascending order of their
  paths and each once, the regular files on whose path nothing is hidden, a build output or a package
  directory, except \<open>inputs.yaml\<close>; byte for byte with the metadata of the file, but for the root
  \<open>akua.toml\<close>, which is written anew from the manifest without any replacement.
\<close>

theorem pack_workspace_exact:
  assumes pack: "pack_workspace env root w = Ok bytes"
    and inv: "archive_inverse env"
    and tree: "tree_at w root = Ok n" "wf_node n"
  shows "\<exists>es. tar_entries env bytes = Ok (map (\<lambda>e. Ok (as_read e)) es) \<and> sorted_wrt (<) (map te_path es)
    \<and> te_path ` set es = {rel. \<exists>full f. packed_file root n rel full f}
    \<and> (\<forall>e. e \<in> set es \<longleftrightarrow> (\<exists>full f. packed_file root n (te_path e) full f \<and> holds_file env w full f e))"
proof -
  from pack obtain fs b where fs: "files_below w root (\<lambda>name. \<not> should_skip_file name) [] = Ok fs"
    and b: "fold_outcome (append_entry env w) (tar_new env) fs = Ok b" and fin: "tar_finish env b = Ok bytes"
    by (auto simp: pack_workspace_def pack_workspace_with_vendored_deps_def outcome_simps split: if_splits)
  from b obtain es where es: "list_all2 (\<lambda>f e. entry_of_file env w f = Ok e) fs es"
    and run: "fold_outcome (tar_append env) (tar_new env) es = Ok b"
    unfolding append_entries_Ok by blast
  note below = files_below_root [OF fs tree]
  have paths: "map te_path es = map fst fs"
    using es by (induction rule: list_all2_induct) (auto simp: entry_of_file_Ok)
  have "e \<in> set es \<longleftrightarrow> (\<exists>f \<in> set fs. entry_of_file env w f = Ok e)" for e
    using es by (induction rule: list_all2_induct) auto
  also have "(\<exists>f \<in> set fs. entry_of_file env w f = Ok e)
      \<longleftrightarrow> (\<exists>rel full f. (rel, full, f) \<in> set fs \<and> entry_of_file env w (rel, full, f) = Ok e)" for e
    by (simp add: Bex_def)
  finally have mem: "e \<in> set es \<longleftrightarrow> (\<exists>full f. packed_file root n (te_path e) full f \<and> holds_file env w full f e)" for e
    by (simp add: entry_of_file_Ok below(1))
  have read: "tar_entries env bytes = Ok (map (\<lambda>e. Ok (as_read e)) es)"
    using inv run fin unfolding archive_inverse_def by blast
  have names: "te_path ` set es = {rel. \<exists>full f. packed_file root n rel full f}"
  proof -
    have "te_path ` set es = fst ` set fs" using arg_cong [OF paths, of set] by simp
    also have "\<dots> = {rel. \<exists>full f. (rel, full, f) \<in> set fs}" by force
    finally show ?thesis by (simp add: below(1))
  qed
  show ?thesis
    by (intro exI [of _ es] conjI allI read names mem) (simp add: paths below(2))
qed

text \<open>An archive of two files, which this reader and this builder agree on.\<close>

definition toy_entries :: "tar_entry list" where
  "toy_entries =
     [\<lparr>te_path = [Normal ''akua.toml''], te_meta = fresh_meta, te_bytes = ''m''\<rparr>,
      \<lparr>te_path = [Normal ''src'', Normal ''b.k''], te_meta = fresh_meta\<lparr>tm_mtime := 7\<rparr>, te_bytes = ''k''\<rparr>]"

definition toy_manifest :: manifest where
  "toy_manifest =
     \<lparr>m_package = \<lparr>pkg_name = ''p'', pkg_version = ''1'', pkg_edition = ''akua.dev/v1alpha1'', strict_signing = False\<rparr>,
      m_workspace = None, m_signing = None, m_dependencies = []\<rparr>"

definition toy_tar_env :: "tar_entry list tar_env" where
  "toy_tar_env =
     \<lparr>tar_manifest_of_toml = (\<lambda>s. if s = ''m'' then Ok toy_manifest else Err []),
      tar_manifest_to_toml = (\<lambda>m. if m = toy_manifest then Ok ''m'' else Err []),
      tar_stat = (\<lambda>_. fresh_meta\<lparr>tm_mtime := 7\<rparr>), tar_new = [], tar_append = (\<lambda>b e. Ok (b @ [e])),
      tar_finish = (\<lambda>b. if b = toy_entries then Ok ''tgz'' else Err not_found),
      tar_entries = (\<lambda>_. Ok (map (\<lambda>e. Ok (as_read e)) toy_entries)), tar_utf8 = Ok,
      tar_unpack = (\<lambda>_ _ w. Ok w), tar_sha256 = (\<lambda>s. s)\<rparr>"

definition toy_source :: node where
  "toy_source = Dir [(''src'', Dir [(''b.k'', File ''k''), (''.x'', File ''x'')]), (''inputs.yaml'', File ''i''),
     (''akua.toml'', File ''m'')]"

definition toy_source_world :: world where
  "toy_source_world = (text_world ''m'')\<lparr>tree_at := (\<lambda>_. Ok toy_source), is_dir := (\<lambda>_. True), is_file := (\<lambda>_. True)\<rparr>"

lemma toy_packed: "pack_workspace toy_tar_env [RootDir, Normal ''ws''] toy_source_world = Ok ''tgz''"
  by code_simp

lemma toy_archive_inverse: "archive_inverse toy_tar_env"
proof -
  have append: "tar_append toy_tar_env = (\<lambda>b e. Ok (b @ [e]))" by (simp add: toy_tar_env_def)
  have "fold_outcome (\<lambda>b e. Ok (b @ [e])) b es = (Ok (b @ es) :: (io_error, tar_entry list) outcome)" for b es
    by (induction es arbitrary: b) auto
  then have "fold_outcome (tar_append toy_tar_env) b es = Ok (b @ es)" for b es unfolding append .
  then show ?thesis by (auto simp: archive_inverse_def toy_tar_env_def)
qed

lemma pack_workspace_exact_witness:
  "\<exists>es. tar_entries toy_tar_env ''tgz'' = Ok (map (\<lambda>e. Ok (as_read e)) es) \<and> sorted_wrt (<) (map te_path es)"
proof -
  have "tree_at toy_source_world [RootDir, Normal ''ws''] = Ok toy_source" "wf_node toy_source" by code_simp+
  from pack_workspace_exact [OF toy_packed toy_archive_inverse this] show ?thesis by blast
qed

section \<open>Inspecting what was packed\<close>

lemma path_str_manifest: "names \<noteq> [] \<Longrightarrow> path_str (map Normal names) = ''akua.toml'' \<longleftrightarrow> names = [''akua.toml'']"
proof (cases names rule: remdups_adj.cases)
  case (3 x y xs)
  have "path_str (map Normal names) = x @ CHR ''/'' # join_with ''/'' (y # map (show_component \<circ> Normal) xs)"
    by (simp add: 3 path_str_def)
  then have "CHR ''/'' \<in> set (path_str (map Normal names))" by simp
  then have "path_str (map Normal names) \<noteq> ''akua.toml''" by auto
  with 3 show ?thesis by simp
qed (auto simp: path_str_def)

lemma scan_packed:
  assumes "\<forall>e \<in> set es. path_str (te_path e) = ''akua.toml'' \<longrightarrow> te_bytes e = B" "tar_utf8 env B = Ok B"
  shows "\<exists>s'. fold_outcome (scan_entry env False) s (map (\<lambda>e. Ok (as_read e)) es) = Ok s'
    \<and> ts_file_count s' = ts_file_count s + length es
    \<and> ts_uncompressed_size s' = ts_uncompressed_size s + sum_list (map (\<lambda>e. length (te_bytes e)) es)
    \<and> ts_manifest_text s' = (if \<exists>e \<in> set es. path_str (te_path e) = ''akua.toml'' then Some B else ts_manifest_text s)"
  using assms(1)
proof (induction es arbitrary: s)
  case (Cons e es)
  from Cons.prems assms(2) obtain s1 where
    s1: "scan_entry env False s (Ok (as_read e)) = Ok s1" "ts_file_count s1 = Suc (ts_file_count s)"
      "ts_uncompressed_size s1 = ts_uncompressed_size s + length (te_bytes e)"
      "ts_manifest_text s1 = (if path_str (te_path e) = ''akua.toml'' then Some B else ts_manifest_text s)"
    by (cases "path_str (te_path e) = ''akua.toml''") (auto simp: scan_entry_def as_read_def Let_def)
  with Cons.IH [of s1] Cons.prems show ?case by auto
qed simp

lemma validate_clear_replace: "validate_manifest m = Ok () \<Longrightarrow> validate_manifest (clear_replace m) = Ok ()"
proof -
  have fields: "source (d\<lparr>dep_replace := None\<rparr>) = source d" "source_count (d\<lparr>dep_replace := None\<rparr>) = source_count d"
    "dep_oci (d\<lparr>dep_replace := None\<rparr>) = dep_oci d" "dep_git (d\<lparr>dep_replace := None\<rparr>) = dep_git d"
    "dep_repo (d\<lparr>dep_replace := None\<rparr>) = dep_repo d" "dep_chart (d\<lparr>dep_replace := None\<rparr>) = dep_chart d"
    "dep_version (d\<lparr>dep_replace := None\<rparr>) = dep_version d" "dep_tag (d\<lparr>dep_replace := None\<rparr>) = dep_tag d"
    "dep_rev (d\<lparr>dep_replace := None\<rparr>) = dep_rev d" for d
    by (simp_all add: source_def source_count_def)
  have "validate_dep k (d\<lparr>dep_replace := None\<rparr>) = validate_dep k d" for k d
    unfolding validate_dep_def fields ..
  then show "validate_manifest m = Ok () \<Longrightarrow> validate_manifest (clear_replace m) = Ok ()"
    by (auto simp: validate_manifest_def clear_replace_def outcome_simps split: if_splits)
qed

text \<open>
  \<open>inspect\<close> tells the truth about a packed workspace: its digest and size are those of the archive, its
  counts those of the files packed, and the name, version and edition are those of the workspace's
  manifest.
\<close>

theorem inspect_packed:
  assumes pack: "pack_workspace env root w = Ok bytes"
    and inv: "archive_inverse env"
    and toml: "\<And>m b. tar_manifest_to_toml env m = Ok b \<Longrightarrow> tar_manifest_of_toml env b = Ok m \<and> tar_utf8 env b = Ok b"
    and tree: "tree_at w root = Ok n" "wf_node n" "node_at n [Normal ''akua.toml''] = Some (File text0)"
  shows "\<exists>m t es. load_manifest (tar_manifest_of_toml env) w root = Ok m \<and> inspect env bytes = Ok t
    \<and> tar_entries env bytes = Ok (map (\<lambda>e. Ok (as_read e)) es)
    \<and> ti_layer_digest t = tarball_digest env bytes \<and> ti_compressed_size t = length bytes
    \<and> ti_file_count t = length es \<and> ti_uncompressed_size t = sum_list (map (\<lambda>e. length (te_bytes e)) es)
    \<and> ti_package_name t = Some (pkg_name (m_package m)) \<and> ti_package_version t = Some (pkg_version (m_package m))
    \<and> ti_package_edition t = Some (pkg_edition (m_package m))"
proof -
  let ?p = "[Normal ''akua.toml'']" and ?abs = "child root ''akua.toml''"
  from pack_workspace_exact [OF pack inv tree(1,2)] obtain es where
    es: "tar_entries env bytes = Ok (map (\<lambda>e. Ok (as_read e)) es)"
    and all: "te_path ` set es = {rel. \<exists>full f. packed_file root n rel full f}"
    and mem: "\<forall>e. e \<in> set es \<longleftrightarrow> (\<exists>full f. packed_file root n (te_path e) full f \<and> holds_file env w full f e)"
    by blast
  have here: "packed_file root n ?p full f \<longleftrightarrow> full = ?abs \<and> f = File text0" for full f
    using tree(3) by (auto simp: packed_file_def child_def should_skip_dir_def intro!: exI [of _ "[''akua.toml'']"])
  then have "?p \<in> te_path ` set es" unfolding all by blast
  then obtain e0 where e0: "e0 \<in> set es" "te_path e0 = ?p" by auto
  with mem here obtain body m where
    m: "read_to_string w ?abs = Ok body" "parse_manifest (tar_manifest_of_toml env) body = Ok m"
      "tar_manifest_to_toml env (clear_replace m) = Ok (te_bytes e0)" by (auto simp: holds_file_def)
  have load: "load_manifest (tar_manifest_of_toml env) w root = Ok m"
  proof -
    have "path_join root (path_of ''akua.toml'') = ?abs" by (simp add: child_def) code_simp
    with m show ?thesis by (simp add: load_manifest_def)
  qed
  have unique: "path_str (te_path e) = ''akua.toml'' \<longleftrightarrow> te_path e = ?p" if "e \<in> set es" for e
  proof -
    from that mem obtain names where "te_path e = map Normal names" "names \<noteq> []" by (auto simp: packed_file_def)
    then show ?thesis using path_str_manifest by (auto simp: map_eq_Cons_conv)
  qed
  have same: "\<forall>e \<in> set es. path_str (te_path e) = ''akua.toml'' \<longrightarrow> te_bytes e = te_bytes e0"
  proof (intro ballI impI)
    fix e assume e: "e \<in> set es" "path_str (te_path e) = ''akua.toml''"
    with unique have p: "te_path e = ?p" by simp
    from e(1) mem obtain full f where "packed_file root n (te_path e) full f" "holds_file env w full f e" by blast
    with p here m show "te_bytes e = te_bytes e0" by (auto simp: holds_file_def)
  qed
  have some: "\<exists>e \<in> set es. path_str (te_path e) = ''akua.toml''" using e0 unique by blast
  let ?s0 = "\<lparr>ts_uncompressed_size = 0, ts_file_count = 0, ts_manifest_text = None, ts_package_source = None,
      ts_vendored_deps = []\<rparr>"
  from toml [OF m(3)] have "tar_utf8 env (te_bytes e0) = Ok (te_bytes e0)" by simp
  from scan_packed [OF same this, of ?s0] some obtain s' where
    s': "fold_outcome (scan_entry env False) \<lparr>ts_uncompressed_size = 0, ts_file_count = 0, ts_manifest_text = None,
         ts_package_source = None, ts_vendored_deps = []\<rparr> (map (\<lambda>e. Ok (as_read e)) es) = Ok s'"
      "ts_file_count s' = length es" "ts_uncompressed_size s' = sum_list (map (\<lambda>e. length (te_bytes e)) es)"
      "ts_manifest_text s' = Some (te_bytes e0)"
    by auto
  have "validate_manifest m = Ok ()" using m(2) by (auto simp: parse_manifest_def outcome_simps)
  then have "parse_manifest (tar_manifest_of_toml env) (te_bytes e0) = Ok (clear_replace m)"
    using toml [OF m(3)] validate_clear_replace [of m] by (simp add: parse_manifest_def)
  then have found: "(manifest_in env (s'\<lparr>ts_vendored_deps := sort_dedup (ts_vendored_deps s')\<rparr>)
      :: (package_tar_error, manifest option) outcome) = Ok (Some (clear_replace m))"
    using s'(4) by (simp add: manifest_in_def)
  have "m_package (clear_replace m) = m_package m" by (simp add: clear_replace_def)
  with s' es found obtain t where "inspect env bytes = Ok t" "ti_layer_digest t = tarball_digest env bytes"
      "ti_compressed_size t = length bytes" "ti_file_count t = length es"
      "ti_uncompressed_size t = sum_list (map (\<lambda>e. length (te_bytes e)) es)"
      "ti_package_name t = Some (pkg_name (m_package m))" "ti_package_version t = Some (pkg_version (m_package m))"
      "ti_package_edition t = Some (pkg_edition (m_package m))"
    by (simp add: inspect_def inspect_with_layer_digest_def scan_tarball_def)
  with load es show ?thesis by blast
qed

lemma inspect_packed_witness:
  "\<exists>t. inspect toy_tar_env ''tgz'' = Ok t \<and> ti_package_name t = Some ''p'' \<and> ti_file_count t = 2"
proof -
  have toml: "tar_manifest_to_toml toy_tar_env m = Ok b \<Longrightarrow>
      tar_manifest_of_toml toy_tar_env b = Ok m \<and> tar_utf8 toy_tar_env b = Ok b" for m b
    by (simp add: toy_tar_env_def split: if_splits)
  have tree: "tree_at toy_source_world [RootDir, Normal ''ws''] = Ok toy_source" "wf_node toy_source"
    "node_at toy_source [Normal ''akua.toml''] = Some (File ''m'')" by code_simp+
  obtain m t es where mt: "load_manifest (tar_manifest_of_toml toy_tar_env) toy_source_world [RootDir, Normal ''ws''] = Ok m"
    "inspect toy_tar_env ''tgz'' = Ok t" "tar_entries toy_tar_env ''tgz'' = Ok (map (\<lambda>e. Ok (as_read e)) es)"
    "ti_file_count t = length es" "ti_package_name t = Some (pkg_name (m_package m))"
    using inspect_packed [OF toy_packed toy_archive_inverse toml tree] by blast
  have "load_manifest (tar_manifest_of_toml toy_tar_env) toy_source_world [RootDir, Normal ''ws''] = Ok toy_manifest" by code_simp
  with mt(1) have "m = toy_manifest" by simp
  with mt(5) have "ti_package_name t = Some ''p''" by (simp add: toy_manifest_def)
  moreover from mt(3) have "length es = length toy_entries"
    by (simp add: toy_tar_env_def) (metis length_map)
  ultimately show ?thesis using mt(2,4) by (simp add: toy_entries_def)
qed

end
