(* ===== verification/Distribute.thy ===== *)
theory Distribute
  imports PackageTar OciPusher Slsa Resolver
begin

text \<open>
  The verbs that move packages: \<open>pack\<close> (\<open>verbs/pack.rs\<close>), \<open>sign\<close> (\<open>verbs/sign.rs\<close>), \<open>push\<close>
  (\<open>verbs/push.rs\<close>), \<open>publish\<close> (\<open>verbs/publish.rs\<close>) and \<open>pull\<close> (\<open>verbs/pull.rs\<close>), with
  \<open>collect_vendor_pairs\<close> of \<open>verbs/vendor.rs\<close>. The state is the world and the logs of the HTTP client; a result is
  \<open>None\<close> only where the bound of a git checkout is reached. Built with cosign, as the CLI is.
\<close>

section \<open>Steps\<close>

text \<open>The texts that other modules' errors and the libraries give, and the JSON of the results.\<close>

record dist_texts =
  dt_auth :: "auth_load_error \<Rightarrow> string"
  dt_manifest :: "manifest_error \<Rightarrow> string"
  dt_manifest_load :: "manifest_load_error \<Rightarrow> string"
  dt_lock_load :: "lock_load_error \<Rightarrow> string"
  dt_tar :: "package_tar_error \<Rightarrow> string"
  dt_push :: "push_error \<Rightarrow> string"
  dt_pull :: "pull_error \<Rightarrow> string"
  dt_cosign :: "cosign_error \<Rightarrow> string"
  dt_sidecar :: "sidecar_error \<Rightarrow> string"

record ('vk, 'sk, 'sg, 'v, 'r, 'g, 'b) dist_env =
  de_resolver :: "('vk, 'sk, 'sg, 'v, 'r, 'g) resolver_env"
  de_push :: "('vk, 'sk, 'sg) push_env"
  de_pull :: "('vk, 'sk, 'sg) pull_env"
  de_tar :: "'b tar_env"
  de_lock_toml :: "string \<Rightarrow> (string, akua_lock) outcome"
  de_statement_json :: "in_toto_statement \<Rightarrow> (string, string) outcome"
  de_sidecar_to_json :: "sign_sidecar \<Rightarrow> (string, string) outcome"
  de_sidecar_of_json :: "string \<Rightarrow> (string, sign_sidecar) outcome"
  de_version :: string
  de_texts :: dist_texts

record dist_state =
  dx_world :: world
  dx_push :: push_state

definition dread :: "(world \<Rightarrow> ('e, 'a) outcome) \<Rightarrow> dist_state \<Rightarrow> (('e, 'a) outcome \<times> dist_state) option" where
  "dread f s = Some (f (dx_world s), s)"

definition dwrite ::
  "(world \<Rightarrow> ('e, world) outcome) \<Rightarrow> dist_state \<Rightarrow> (('e, unit) outcome \<times> dist_state) option"
where
  "dwrite f s =
     (case f (dx_world s) of
        Ok w \<Rightarrow> Some (Ok (), s\<lparr>dx_world := w\<rparr>)
      | Err e \<Rightarrow> Some (Err e, s)
      | Panic \<Rightarrow> Some (Panic, s))"

definition dpush ::
  "(push_state \<Rightarrow> ('e, 'a) outcome \<times> push_state) \<Rightarrow> dist_state \<Rightarrow> (('e, 'a) outcome \<times> dist_state) option"
where
  "dpush m s = (case m (dx_push s) of (r, n) \<Rightarrow> Some (r, s\<lparr>dx_push := n\<rparr>))"

definition dist_crypto :: "('vk, 'sk, 'sg, 'v, 'r, 'g, 'b) dist_env \<Rightarrow> ('vk, 'sk, 'sg) crypto" where
  "dist_crypto env = env_crypto (px_oci (de_push env))"

definition dist_codecs :: "('vk, 'sk, 'sg, 'v, 'r, 'g, 'b) dist_env \<Rightarrow> codecs" where
  "dist_codecs env = env_codecs (px_oci (de_push env))"

definition dist_creds ::
  "('vk, 'sk, 'sg, 'v, 'r, 'g, 'b) dist_env \<Rightarrow> (string \<Rightarrow> 'e) \<Rightarrow> world \<Rightarrow> ('e, creds_store) outcome"
where
  "dist_creds env mk w = omap_err (\<lambda>e. mk (dt_auth (de_texts env) e)) (load_creds (dist_codecs env) w)"

definition dist_manifest ::
  "('vk, 'sk, 'sg, 'v, 'r, 'g, 'b) dist_env \<Rightarrow> path \<Rightarrow> world \<Rightarrow> (manifest_load_error, manifest) outcome"
where
  "dist_manifest env workspace w = load_manifest (tar_manifest_of_toml (de_tar env)) w workspace"

text \<open>\<open>std::fs::read\<close> and \<open>write\<close> of bytes.\<close>

definition fs_read :: "path \<Rightarrow> world \<Rightarrow> (io_error, string) outcome" where
  "fs_read p w = obind (tree_at w p) read_file"

definition fs_write_bytes :: "path \<Rightarrow> string \<Rightarrow> world \<Rightarrow> (io_error, world) outcome" where
  "fs_write_bytes p bytes w = (case write_error w p of Some e \<Rightarrow> Err e | None \<Rightarrow> Ok (put p (Some (File bytes)) w))"

definition without_scheme :: "string \<Rightarrow> string" where
  "without_scheme oci_ref = (case strip_prefix ''oci://'' oci_ref of Some r \<Rightarrow> r | None \<Rightarrow> oci_ref)"

definition cosign_passphrase :: "world \<Rightarrow> string option" where
  "cosign_passphrase w = env_nonempty w ''AKUA_COSIGN_PASSPHRASE''"

section \<open>The dependencies packed along\<close>

fun is_fetched_source :: "resolved_source \<Rightarrow> bool" where
  "is_fetched_source (ResolvedOci _ _ _) = True"
| "is_fetched_source (ResolvedGit _ _ _) = True"
| "is_fetched_source _ = False"

definition pairs_of :: "resolved_charts \<Rightarrow> (string \<times> path) list" where
  "pairs_of cs = map (\<lambda>(_, c). (rc_name c, abs_path c)) (filter (\<lambda>(_, c). is_fetched_source (rc_source c)) cs)"

definition pack_digests ::
  "('vk, 'sk, 'sg, 'v, 'r, 'g, 'b) dist_env \<Rightarrow> path \<Rightarrow> world \<Rightarrow> ('e, (string, string) btree) outcome"
where
  "pack_digests env workspace w =
     (case load_lock (de_lock_toml env) w workspace of
        Ok l \<Rightarrow> Ok (foldl (\<lambda>m p. bt_insert (lp_name p) (lp_digest p) m) [] (filter lp_is_oci (packages l)))
      | Err _ \<Rightarrow> Ok []
      | Panic \<Rightarrow> Panic)"

text \<open>A failing resolution is only warned about: nothing is packed along then.\<close>

definition collect_vendor_pairs ::
  "('vk, 'sk, 'sg, 'v::linorder, 'r, 'g, 'b) dist_env \<Rightarrow> path \<Rightarrow> manifest \<Rightarrow> dist_state
     \<Rightarrow> (('e, (string \<times> path) list) outcome \<times> dist_state) option"
where
  "collect_vendor_pairs env workspace m =
     rbind (dread (pack_digests env workspace)) (\<lambda>digests s.
     let opts = (online_with (dx_world s) digests);
         net_of = (\<lambda>n. s\<lparr>dx_push := (dx_push s)\<lparr>pn_net := n\<rparr>\<rparr>)
     in map_option (\<lambda>(r, n). case r of
            Ok (cs, w) \<Rightarrow> (Ok (pairs_of cs), (net_of n)\<lparr>dx_world := w\<rparr>)
          | Err _ \<Rightarrow> (Ok [], net_of n)
          | Panic \<Rightarrow> (Panic, net_of n))
        (resolve_with_options (de_resolver env) m workspace opts (dx_world s) (pn_net (dx_push s))))"

section \<open>\<open>akua pack\<close>\<close>

record pack_output =
  po_path :: path
  po_size :: nat
  po_layer_digest :: string
  po_vendored_deps :: "string list"

datatype pack_error =
  PkManifest manifest_load_error
| PkPack package_tar_error
| PkWrite path io_error
| PkStdoutWrite io_error

fun pack_to_structured :: "dist_texts \<Rightarrow> pack_error \<Rightarrow> structured_error" where
  "pack_to_structured t (PkManifest e) = with_default_docs (structured_new E_MANIFEST_PARSE (dt_manifest_load t e))"
| "pack_to_structured t (PkPack e) = with_default_docs (structured_new E_IO (dt_tar t e))"
| "pack_to_structured t (PkWrite p e) = with_default_docs (structured_new E_IO (io_msg e))"
| "pack_to_structured t (PkStdoutWrite e) = with_default_docs (structured_new E_IO (io_msg e))"

fun pack_is_system :: "pack_error \<Rightarrow> bool" where
  "pack_is_system (PkStdoutWrite _) = True"
| "pack_is_system (PkWrite _ _) = True"
| "pack_is_system _ = False"

definition pack_exit_code :: "pack_error \<Rightarrow> exit_code" where
  "pack_exit_code e = (if pack_is_system e then SystemError else UserError)"

definition default_out_path :: "path \<Rightarrow> manifest \<Rightarrow> path" where
  "default_out_path workspace m =
     path_join (path_join workspace (path_of ''dist''))
       (path_of (pkg_name (m_package m) @ ''-'' @ pkg_version (m_package m) @ ''.tar.gz''))"

definition pack_write :: "path \<Rightarrow> string \<Rightarrow> world \<Rightarrow> (pack_error, world) outcome" where
  "pack_write out tar_gz w =
     obind (case parent out of
              None \<Rightarrow> Ok w
            | Some p \<Rightarrow> if p = [] then Ok w else omap_err (PkWrite p) (mkdir_all p w)) (\<lambda>w.
     omap_err (PkWrite out) (fs_write_bytes out tar_gz w))"

definition pack ::
  "('vk, 'sk, 'sg, 'v::linorder, 'r, 'g, 'b) dist_env \<Rightarrow> path \<Rightarrow> path option \<Rightarrow> bool \<Rightarrow> dist_state
     \<Rightarrow> ((pack_error, pack_output) outcome \<times> dist_state) option"
where
  "pack env workspace out_arg no_vendor =
     rbind (dread (\<lambda>w. omap_err PkManifest (dist_manifest env workspace w))) (\<lambda>m.
     rbind (if no_vendor then rpure (Ok []) else collect_vendor_pairs env workspace m) (\<lambda>pairs.
     rbind (dread (\<lambda>w. omap_err PkPack (pack_workspace_with_vendored_deps (de_tar env) workspace pairs w))) (\<lambda>tar_gz.
     let out = (case out_arg of Some p \<Rightarrow> p | None \<Rightarrow> default_out_path workspace m)
     in rbind (dwrite (pack_write out tar_gz)) (\<lambda>_.
        rpure (Ok \<lparr>po_path = out, po_size = length tar_gz, po_layer_digest = tarball_digest (de_tar env) tar_gz,
                   po_vendored_deps = map fst pairs\<rparr>)))))"

definition pack_text :: "pack_output \<Rightarrow> string \<Rightarrow> string" where
  "pack_text out buf =
     buf @ ''packed: '' @ path_str (po_path out) @ ''\<newline>''
     @ ''  layer  '' @ po_layer_digest out @ ''\<newline>''
     @ ''  size   '' @ show_nat (po_size out) @ '' bytes\<newline>''
     @ (if po_vendored_deps out \<noteq> []
        then ''  vendored: '' @ join_with '', '' (po_vendored_deps out) @ ''\<newline>'' else [])"

section \<open>\<open>akua pull\<close>\<close>

record pull_output =
  plo_oci_ref :: string
  plo_tag :: string
  plo_manifest_digest :: string
  plo_layer_digest :: string
  plo_out :: path

datatype pull_verb_error =
  PlAuthConfig string
| PlPull pull_error
| PlUnpack package_tar_error
| PlStdoutWrite io_error

fun pull_to_structured :: "dist_texts \<Rightarrow> pull_verb_error \<Rightarrow> structured_error" where
  "pull_to_structured t (PlAuthConfig detail) = with_default_docs (structured_new E_IO detail)"
| "pull_to_structured t (PlPull e) = with_default_docs (structured_new ''E_PULL_FAILED'' (dt_pull t e))"
| "pull_to_structured t (PlUnpack e) = with_default_docs (structured_new E_IO (dt_tar t e))"
| "pull_to_structured t (PlStdoutWrite e) = with_default_docs (structured_new E_IO (io_msg e))"

fun pull_is_system :: "pull_verb_error \<Rightarrow> bool" where
  "pull_is_system (PlStdoutWrite _) = True"
| "pull_is_system _ = False"

definition pull_exit_code :: "pull_verb_error \<Rightarrow> exit_code" where
  "pull_exit_code e = (if pull_is_system e then SystemError else UserError)"

definition pull_verb ::
  "('vk, 'sk, 'sg, 'v, 'r, 'g, 'b) dist_env \<Rightarrow> string \<Rightarrow> string \<Rightarrow> path \<Rightarrow> dist_state
     \<Rightarrow> ((pull_verb_error, pull_output) outcome \<times> dist_state) option"
where
  "pull_verb env oci_ref tag out =
     rbind (dread (dist_creds env PlAuthConfig)) (\<lambda>creds.
     rbind (dpush (nmap_err PlPull (on_net (pull (de_pull env) oci_ref tag creds)))) (\<lambda>pulled.
     rbind (dwrite (\<lambda>w. omap_err PlUnpack (unpack_to (de_tar env) (pp_tarball pulled) out w))) (\<lambda>_.
     rpure (Ok \<lparr>plo_oci_ref = oci_ref, plo_tag = tag, plo_manifest_digest = pp_manifest_digest pulled,
                plo_layer_digest = pp_layer_digest pulled, plo_out = out\<rparr>))))"

definition right_arrow :: string where "right_arrow = [CHR 0xE2, CHR 0x86, CHR 0x92]"

definition pull_text :: "pull_output \<Rightarrow> string \<Rightarrow> string" where
  "pull_text out buf =
     buf @ ''pulled: '' @ plo_oci_ref out @ '':'' @ plo_tag out @ '' '' @ right_arrow @ '' '' @ path_str (plo_out out) @ ''\<newline>''
     @ ''  manifest  '' @ plo_manifest_digest out @ ''\<newline>''
     @ ''  layer     '' @ plo_layer_digest out @ ''\<newline>''"

section \<open>\<open>akua sign\<close>\<close>

record sign_args =
  sa_tarball :: path
  sa_oci_ref :: string
  sa_tag :: string
  sa_key :: "path option"
  sa_workspace :: path
  sa_out :: "path option"

record sign_output =
  so_tarball :: path
  so_sidecar :: path
  so_oci_ref :: string
  so_tag :: string
  so_manifest_digest :: string

datatype sign_error =
  SgReadInput string path io_error
| SgEmptyTarball path
| SgManifest manifest_load_error
| SgNoKey
| SgCrypto cosign_error
| SgSidecar sidecar_error
| SgStdoutWrite io_error

definition backquoted :: "path \<Rightarrow> string" where
  "backquoted p = ''`'' @ path_str p @ ''`''"

fun sign_error_text :: "dist_texts \<Rightarrow> sign_error \<Rightarrow> string" where
  "sign_error_text t (SgReadInput what p e) = ''reading '' @ what @ '' '' @ backquoted p @ '': '' @ io_msg e"
| "sign_error_text t (SgEmptyTarball p) =
     ''tarball '' @ backquoted p @ '' is empty '' @ em_dash @ '' nothing to sign''"
| "sign_error_text t (SgManifest e) = dt_manifest_load t e"
| "sign_error_text t SgNoKey =
     ''no signing key '' @ em_dash @ '' pass `--key <path>` or set `[signing].cosign_private_key` in akua.toml''"
| "sign_error_text t (SgCrypto e) = dt_cosign t e"
| "sign_error_text t (SgSidecar e) = dt_sidecar t e"
| "sign_error_text t (SgStdoutWrite e) = ''write to stdout failed: '' @ io_msg e"

definition sign_error_code :: "sign_error \<Rightarrow> string" where
  "sign_error_code e =
     (case e of
        SgManifest _ \<Rightarrow> E_MANIFEST_PARSE
      | SgCrypto _ \<Rightarrow> ''E_COSIGN_VERIFY''
      | SgNoKey \<Rightarrow> E_MANIFEST_PARSE
      | _ \<Rightarrow> E_IO)"

definition sign_to_structured :: "dist_texts \<Rightarrow> sign_error \<Rightarrow> structured_error" where
  "sign_to_structured t e = with_default_docs (structured_new (sign_error_code e) (sign_error_text t e))"

fun sign_is_system :: "sign_error \<Rightarrow> bool" where
  "sign_is_system (SgStdoutWrite _) = True"
| "sign_is_system _ = False"

definition sign_exit_code :: "sign_error \<Rightarrow> exit_code" where
  "sign_exit_code e = (if sign_is_system e then SystemError else UserError)"

definition sign_load_key ::
  "('vk, 'sk, 'sg, 'v, 'r, 'g, 'b) dist_env \<Rightarrow> sign_args \<Rightarrow> world \<Rightarrow> (sign_error, string) outcome"
where
  "sign_load_key env args w =
     (case sa_key args of
        Some p \<Rightarrow> omap_err (SgReadInput ''signing key'' p) (read_to_string w p)
      | None \<Rightarrow>
          obind (omap_err SgManifest (dist_manifest env (sa_workspace args) w)) (\<lambda>m.
          obind (ok_or SgNoKey (m_signing m)) (\<lambda>signing.
          obind (ok_or SgNoKey (cosign_private_key signing)) (\<lambda>rel.
          let key_path = path_join (sa_workspace args) (path_of rel)
          in omap_err (SgReadInput ''signing key'' key_path) (read_to_string w key_path)))))"

definition sign_out_path :: "sign_args \<Rightarrow> path" where
  "sign_out_path args = (case sa_out args of Some p \<Rightarrow> p | None \<Rightarrow> default_sidecar_path (sa_tarball args))"

definition read_tarball ::
  "(path \<Rightarrow> io_error \<Rightarrow> 'e) \<Rightarrow> (path \<Rightarrow> 'e) \<Rightarrow> path \<Rightarrow> world \<Rightarrow> ('e, string) outcome"
where
  "read_tarball unreadable no_bytes p w =
     obind (omap_err (unreadable p) (fs_read p w)) (\<lambda>bytes. if bytes = [] then Err (no_bytes p) else Ok bytes)"

definition make_sidecar ::
  "('vk, 'sk, 'sg, 'v, 'r, 'g, 'b) dist_env \<Rightarrow> sign_args \<Rightarrow> string option \<Rightarrow> world \<Rightarrow> (sign_error, sign_sidecar) outcome"
where
  "make_sidecar env args passphrase w =
     obind (read_tarball (SgReadInput ''tarball'') SgEmptyTarball (sa_tarball args) w) (\<lambda>bytes.
     obind (compute_publish_digests (de_push env) bytes) (\<lambda>digests.
     obind (sign_load_key env args w) (\<lambda>key_pem.
     obind (build_simple_signing_payload (dist_crypto env) (without_scheme (sa_oci_ref args))
              (pd_manifest_digest digests)) (\<lambda>payload_bytes.
     obind (omap_err SgCrypto (sign_keyed (dist_crypto env) key_pem payload_bytes passphrase)) (\<lambda>signature_b64.
     obind (expect (if utf8_valid payload_bytes then Some payload_bytes else None)) (\<lambda>payload_text.
     Ok \<lparr>sc_oci_ref = sa_oci_ref args, sc_tag = sa_tag args, sc_manifest_digest = pd_manifest_digest digests,
         sc_payload = payload_text, sc_signature_b64 = signature_b64, sc_akua_version = de_version env\<rparr>))))))"

definition sign_verb ::
  "('vk, 'sk, 'sg, 'v, 'r, 'g, 'b) dist_env \<Rightarrow> sign_args \<Rightarrow> string option \<Rightarrow> world \<Rightarrow> (sign_error, sign_output \<times> world) outcome"
where
  "sign_verb env args passphrase w =
     obind (make_sidecar env args passphrase w) (\<lambda>sc.
     obind (omap_err SgSidecar (sidecar_write_to (de_sidecar_to_json env) sc (sign_out_path args) w)) (\<lambda>w'.
     Ok (\<lparr>so_tarball = sa_tarball args, so_sidecar = sign_out_path args, so_oci_ref = sa_oci_ref args,
          so_tag = sa_tag args, so_manifest_digest = sc_manifest_digest sc\<rparr>, w')))"

definition sign_text :: "sign_output \<Rightarrow> string \<Rightarrow> string" where
  "sign_text out buf =
     buf @ ''signed: '' @ path_str (so_tarball out) @ ''\<newline>''
     @ ''  ref       '' @ so_oci_ref out @ '':'' @ so_tag out @ ''\<newline>''
     @ ''  manifest  '' @ so_manifest_digest out @ ''\<newline>''
     @ ''  sidecar   '' @ path_str (so_sidecar out) @ ''\<newline>''"

section \<open>\<open>akua push\<close>\<close>

record push_args =
  pu_tarball :: path
  pu_oci_ref :: string
  pu_tag :: string
  pu_sig :: "path option"

record push_output =
  puo_pushed :: pushed_artifact
  puo_tarball :: path
  puo_signature_tag :: "string option"

datatype push_verb_error =
  PuReadTarball path io_error
| PuEmptyTarball path
| PuAuthConfig string
| PuPush push_error
| PuSidecar sidecar_error
| PuSidecarDigestMismatch string string
| PuSidecarRefMismatch string string string string
| PuStdoutWrite io_error

fun push_to_structured :: "dist_texts \<Rightarrow> push_verb_error \<Rightarrow> structured_error" where
  "push_to_structured t (PuReadTarball p e) = with_default_docs (structured_new E_IO (io_msg e))"
| "push_to_structured t (PuEmptyTarball p) =
     with_default_docs (structured_new E_IO (''tarball '' @ backquoted p @ '' is empty''))"
| "push_to_structured t (PuAuthConfig detail) = with_default_docs (structured_new E_IO detail)"
| "push_to_structured t (PuPush e) = with_default_docs (structured_new ''E_PUBLISH_FAILED'' (dt_push t e))"
| "push_to_structured t (PuSidecar e) = with_default_docs (structured_new E_IO (dt_sidecar t e))"
| "push_to_structured t (PuSidecarDigestMismatch sidecar pushed) =
     with_default_docs (structured_new ''E_COSIGN_VERIFY''
       (''sidecar manifest digest `'' @ sidecar @ ''` doesn't match pushed manifest `'' @ pushed @ ''` '' @ em_dash
        @ '' signature was produced for a different artifact; skipping .sig upload''))"
| "push_to_structured t (PuSidecarRefMismatch sref stag pref ptag) =
     with_default_docs (structured_new ''E_COSIGN_VERIFY''
       (''sidecar ref/tag (`'' @ sref @ '':'' @ stag @ ''`) doesn't match push target (`'' @ pref @ '':'' @ ptag @ ''`)''))"
| "push_to_structured t (PuStdoutWrite e) = with_default_docs (structured_new E_IO (io_msg e))"

fun push_is_system :: "push_verb_error \<Rightarrow> bool" where
  "push_is_system (PuStdoutWrite _) = True"
| "push_is_system (PuPush _) = True"
| "push_is_system (PuAuthConfig _) = True"
| "push_is_system _ = False"

definition push_exit_code :: "push_verb_error \<Rightarrow> exit_code" where
  "push_exit_code e = (if push_is_system e then SystemError else UserError)"

definition read_and_validate_sidecar ::
  "('vk, 'sk, 'sg, 'v, 'r, 'g, 'b) dist_env \<Rightarrow> push_args \<Rightarrow> string \<Rightarrow> world \<Rightarrow> (push_verb_error, sign_sidecar option) outcome"
where
  "read_and_validate_sidecar env args layer_bytes w =
     (case pu_sig args of
        None \<Rightarrow> Ok None
      | Some p \<Rightarrow>
          obind (omap_err PuSidecar (sidecar_read_from (de_sidecar_of_json env) p w)) (\<lambda>sc.
          if sc_oci_ref sc \<noteq> pu_oci_ref args \<or> sc_tag sc \<noteq> pu_tag args
          then Err (PuSidecarRefMismatch (sc_oci_ref sc) (sc_tag sc) (pu_oci_ref args) (pu_tag args))
          else obind (compute_publish_digests (de_push env) layer_bytes) (\<lambda>expected.
               if sc_manifest_digest sc \<noteq> pd_manifest_digest expected
               then Err (PuSidecarDigestMismatch (sc_manifest_digest sc) (pd_manifest_digest expected))
               else Ok (Some sc))))"

definition push_sidecar ::
  "('vk, 'sk, 'sg, 'v, 'r, 'g, 'b) dist_env \<Rightarrow> creds_store \<Rightarrow> pushed_artifact \<Rightarrow> sign_sidecar option \<Rightarrow> dist_state
     \<Rightarrow> ((push_verb_error, string option) outcome \<times> dist_state) option"
where
  "push_sidecar env creds pushed sidecar =
     (case sidecar of
        None \<Rightarrow> rpure (Ok None)
      | Some sc \<Rightarrow>
          if sc_manifest_digest sc \<noteq> pa_manifest_digest pushed
          then rpure (Err (PuSidecarDigestMismatch (sc_manifest_digest sc) (pa_manifest_digest pushed)))
          else rbind (dpush (nmap_err PuPush (push_cosign_signature (de_push env) (pa_oci_ref pushed)
                  (pa_manifest_digest pushed) (sc_payload sc) (sc_signature_b64 sc) creds))) (\<lambda>tag.
               rpure (Ok (Some tag))))"

definition push_verb ::
  "('vk, 'sk, 'sg, 'v, 'r, 'g, 'b) dist_env \<Rightarrow> push_args \<Rightarrow> dist_state
     \<Rightarrow> ((push_verb_error, push_output) outcome \<times> dist_state) option"
where
  "push_verb env args =
     rbind (dread (read_tarball PuReadTarball PuEmptyTarball (pu_tarball args))) (\<lambda>bytes.
     rbind (dread (read_and_validate_sidecar env args bytes)) (\<lambda>sidecar.
     rbind (dread (dist_creds env PuAuthConfig)) (\<lambda>creds.
     rbind (dpush (nmap_err PuPush (push (de_push env) (pu_oci_ref args) (pu_tag args) bytes creds))) (\<lambda>pushed.
     rbind (push_sidecar env creds pushed sidecar) (\<lambda>signature_tag.
     rpure (Ok \<lparr>puo_pushed = pushed, puo_tarball = pu_tarball args, puo_signature_tag = signature_tag\<rparr>))))))"

definition push_text :: "push_output \<Rightarrow> string \<Rightarrow> string" where
  "push_text out buf =
     buf @ ''pushed: '' @ pa_oci_ref (puo_pushed out) @ '':'' @ pa_tag (puo_pushed out) @ ''\<newline>''
     @ ''  tarball   '' @ path_str (puo_tarball out) @ ''\<newline>''
     @ ''  manifest  '' @ pa_manifest_digest (puo_pushed out) @ ''\<newline>''
     @ ''  layer     '' @ pa_layer_digest (puo_pushed out) @ '' ('' @ show_nat (pa_layer_size (puo_pushed out)) @ '' bytes)\<newline>''
     @ (case puo_signature_tag out of Some s \<Rightarrow> ''  signed    '' @ s @ ''\<newline>'' | None \<Rightarrow> [])"

section \<open>\<open>akua publish\<close>\<close>

record publish_args =
  pb_workspace :: path
  pb_oci_ref :: string
  pb_tag :: "string option"
  pb_no_sign :: bool
  pb_no_attest :: bool

record publish_output =
  pbo_pushed :: pushed_artifact
  pbo_signature_tag :: "string option"
  pbo_attestation_tag :: "string option"

datatype publish_error =
  PbManifest manifest_load_error
| PbAuthConfig string
| PbTarball package_tar_error
| PbPush push_error
| PbSigningKeyIo path io_error
| PbCrypto cosign_error
| PbLockLoad string
| PbStdoutWrite io_error

fun publish_to_structured :: "dist_texts \<Rightarrow> publish_error \<Rightarrow> structured_error" where
  "publish_to_structured t (PbManifest e) = manifest_load_to_structured (dt_manifest t) e"
| "publish_to_structured t (PbAuthConfig detail) = with_default_docs (structured_new E_IO detail)"
| "publish_to_structured t (PbTarball e) = with_default_docs (structured_new E_IO (dt_tar t e))"
| "publish_to_structured t (PbPush e) = with_default_docs (structured_new ''E_PUBLISH_FAILED'' (dt_push t e))"
| "publish_to_structured t (PbSigningKeyIo p e) =
     with_default_docs (with_suggestion
       ''akua.toml [signing].cosign_private_key must resolve to a PEM-encoded PKCS#8 P-256 private key file.''
       (with_path (path_str p) (structured_new ''E_PUBLISH_FAILED'' (io_msg e))))"
| "publish_to_structured t (PbCrypto e) = with_default_docs (structured_new ''E_PUBLISH_FAILED'' (dt_cosign t e))"
| "publish_to_structured t (PbLockLoad detail) = with_default_docs (structured_new E_LOCK_PARSE detail)"
| "publish_to_structured t (PbStdoutWrite e) = with_default_docs (structured_new E_IO (io_msg e))"

fun publish_is_system :: "publish_error \<Rightarrow> bool" where
  "publish_is_system (PbManifest e) = manifest_load_is_system e"
| "publish_is_system (PbStdoutWrite _) = True"
| "publish_is_system _ = False"

definition publish_exit_code :: "publish_error \<Rightarrow> exit_code" where
  "publish_exit_code e = (if publish_is_system e then SystemError else UserError)"

definition load_signing_key :: "path \<Rightarrow> manifest \<Rightarrow> world \<Rightarrow> (publish_error, string option) outcome" where
  "load_signing_key workspace m w =
     (case m_signing m of
        None \<Rightarrow> Ok None
      | Some signing \<Rightarrow>
          (case cosign_private_key signing of
             None \<Rightarrow> Ok None
           | Some rel \<Rightarrow>
               let key_path = path_join workspace (path_of rel)
               in obind (omap_err (PbSigningKeyIo key_path) (read_to_string w key_path)) (\<lambda>body. Ok (Some body))))"

definition sign_published_artifact ::
  "('vk, 'sk, 'sg, 'v, 'r, 'g, 'b) dist_env \<Rightarrow> string \<Rightarrow> string \<Rightarrow> string option \<Rightarrow> string \<Rightarrow> creds_store
     \<Rightarrow> push_state \<Rightarrow> (publish_error, string) outcome \<times> push_state"
where
  "sign_published_artifact env oci_ref private_pem passphrase manifest_digest creds =
     nbind (nret (build_simple_signing_payload (dist_crypto env) (without_scheme oci_ref) manifest_digest)) (\<lambda>payload_bytes.
     nbind (nret (omap_err PbCrypto (sign_keyed (dist_crypto env) private_pem payload_bytes passphrase))) (\<lambda>signature.
     nmap_err PbPush (push_cosign_signature (de_push env) oci_ref manifest_digest payload_bytes signature creds)))"

definition attest_published_artifact ::
  "('vk, 'sk, 'sg, 'v, 'r, 'g, 'b) dist_env \<Rightarrow> path \<Rightarrow> string \<Rightarrow> string \<Rightarrow> string \<Rightarrow> string \<Rightarrow> string option
     \<Rightarrow> creds_store \<Rightarrow> world \<Rightarrow> push_state \<Rightarrow> (publish_error, string) outcome \<times> push_state"
where
  "attest_published_artifact env workspace oci_ref tag manifest_digest private_pem passphrase creds w =
     nbind (nret (case load_lock (de_lock_toml env) w workspace of
         Ok l \<Rightarrow> Ok (Some l)
       | Err (LockMissing _) \<Rightarrow> Ok None
       | Err e \<Rightarrow> Err (PbLockLoad (dt_lock_load (de_texts env) e))
       | Panic \<Rightarrow> Panic)) (\<lambda>lock.
     let statement = build_publish_attestation (de_version env) (without_scheme oci_ref) manifest_digest oci_ref tag lock
     in nbind (nret (omap_err (\<lambda>e. PbCrypto (BadPayload e)) (de_statement_json env statement))) (\<lambda>statement_bytes.
        nbind (nret (omap_err PbCrypto (sign_dsse (dist_crypto env) private_pem ''application/vnd.in-toto+json''
           statement_bytes passphrase))) (\<lambda>envelope_bytes.
        nmap_err PbPush (push_attestation (de_push env) oci_ref manifest_digest envelope_bytes creds))))"

definition publish_sidecars ::
  "('vk, 'sk, 'sg, 'v, 'r, 'g, 'b) dist_env \<Rightarrow> publish_args \<Rightarrow> string option \<Rightarrow> creds_store \<Rightarrow> pushed_artifact
     \<Rightarrow> string option \<Rightarrow> dist_state \<Rightarrow> ((publish_error, string option \<times> string option) outcome \<times> dist_state) option"
where
  "publish_sidecars env args passphrase creds pushed private_pem =
     (case private_pem of
        None \<Rightarrow> rpure (Ok (None, None))
      | Some pem \<Rightarrow>
          rbind (dpush (sign_published_artifact env (pb_oci_ref args) pem passphrase (pa_manifest_digest pushed) creds))
            (\<lambda>signature_tag.
          rbind (if pb_no_attest args then rpure (Ok None)
                 else (\<lambda>s. rbind (dpush (attest_published_artifact env (pb_workspace args) (pb_oci_ref args) (pa_tag pushed)
                         (pa_manifest_digest pushed) pem passphrase creds (dx_world s))) (\<lambda>t. rpure (Ok (Some t))) s))
            (\<lambda>attestation_tag.
          rpure (Ok (Some signature_tag, attestation_tag)))))"

definition publish ::
  "('vk, 'sk, 'sg, 'v::linorder, 'r, 'g, 'b) dist_env \<Rightarrow> publish_args \<Rightarrow> string option \<Rightarrow> dist_state
     \<Rightarrow> ((publish_error, publish_output) outcome \<times> dist_state) option"
where
  "publish env args passphrase =
     rbind (dread (\<lambda>w. omap_err PbManifest (dist_manifest env (pb_workspace args) w))) (\<lambda>m.
     let tag = (case pb_tag args of Some t \<Rightarrow> t | None \<Rightarrow> pkg_version (m_package m))
     in rbind (dread (dist_creds env PbAuthConfig)) (\<lambda>creds.
        rbind (collect_vendor_pairs env (pb_workspace args) m) (\<lambda>pairs.
        rbind (dread (\<lambda>w. omap_err PbTarball
                 (pack_workspace_with_vendored_deps (de_tar env) (pb_workspace args) pairs w))) (\<lambda>tar_gz.
        rbind (dpush (nmap_err PbPush (push (de_push env) (pb_oci_ref args) tag tar_gz creds))) (\<lambda>pushed.
        rbind (if pb_no_sign args then rpure (Ok None)
               else dread (load_signing_key (pb_workspace args) m)) (\<lambda>private_pem.
        rbind (publish_sidecars env args passphrase creds pushed private_pem) (\<lambda>(signature_tag, attestation_tag).
        rpure (Ok \<lparr>pbo_pushed = pushed, pbo_signature_tag = signature_tag,
                   pbo_attestation_tag = attestation_tag\<rparr>))))))))"

definition publish_text :: "publish_output \<Rightarrow> string \<Rightarrow> string" where
  "publish_text out buf =
     buf @ ''published: '' @ pa_oci_ref (pbo_pushed out) @ '':'' @ pa_tag (pbo_pushed out) @ ''\<newline>''
     @ ''  manifest  '' @ pa_manifest_digest (pbo_pushed out) @ ''\<newline>''
     @ ''  layer     '' @ pa_layer_digest (pbo_pushed out) @ '' ('' @ show_nat (pa_layer_size (pbo_pushed out)) @ '' bytes)\<newline>''
     @ (case pbo_signature_tag out of Some s \<Rightarrow> ''  signed    '' @ s @ ''\<newline>'' | None \<Rightarrow> [])
     @ (case pbo_attestation_tag out of Some s \<Rightarrow> ''  attested  '' @ s @ ''\<newline>'' | None \<Rightarrow> [])"

section \<open>How their errors are reported\<close>

lemmas dist_reports = structured_defs sign_to_structured_def sign_error_code_def
  pack_exit_code_def pull_exit_code_def sign_exit_code_def push_exit_code_def publish_exit_code_def

interpretation pack_errors: reported_error "pack_to_structured t" pack_is_system pack_exit_code for t
proof unfold_locales
  fix e
  show "docs (pack_to_structured t e) = Some (error_docs_base @ ''/'' @ code (pack_to_structured t e))"
    "level (pack_to_structured t e) = Error" by (cases e; simp add: dist_reports)+
qed (simp_all add: dist_reports)

interpretation pull_errors: reported_error "pull_to_structured t" pull_is_system pull_exit_code for t
proof unfold_locales
  fix e
  show "docs (pull_to_structured t e) = Some (error_docs_base @ ''/'' @ code (pull_to_structured t e))"
    "level (pull_to_structured t e) = Error" by (cases e; simp add: dist_reports)+
qed (simp_all add: dist_reports)

interpretation sign_errors: reported_error "sign_to_structured t" sign_is_system sign_exit_code for t
proof unfold_locales
  fix e
  show "docs (sign_to_structured t e) = Some (error_docs_base @ ''/'' @ code (sign_to_structured t e))"
    "level (sign_to_structured t e) = Error" by (simp_all add: dist_reports)
qed (simp_all add: dist_reports)

interpretation push_errors: reported_error "push_to_structured t" push_is_system push_exit_code for t
proof unfold_locales
  fix e
  show "docs (push_to_structured t e) = Some (error_docs_base @ ''/'' @ code (push_to_structured t e))"
    "level (push_to_structured t e) = Error" by (cases e; simp add: dist_reports)+
qed (simp_all add: dist_reports)

interpretation publish_errors: reported_error "publish_to_structured t" publish_is_system publish_exit_code for t
proof unfold_locales
  fix e
  show "docs (publish_to_structured t e) = Some (error_docs_base @ ''/'' @ code (publish_to_structured t e))"
  proof (cases e)
    case (PbManifest m)
    then show ?thesis by (cases m) (simp_all add: structured_defs)
  qed (simp_all add: structured_defs)
  show "level (publish_to_structured t e) = Error"
  proof (cases e)
    case (PbManifest m)
    then show ?thesis by (cases m) (simp_all add: structured_defs)
  qed (simp_all add: structured_defs)
qed (simp_all add: dist_reports)

end
