(* ===== verification/DistributeSpec.thy ===== *)
theory DistributeSpec
  imports Distribute ResolverSpec
begin

text \<open>
  What the verbs that move packages guarantee: a signature file is checked before anything is sent and an
  offline signature fits what is pushed; what a publication has stored, and in which order.
\<close>

section \<open>Steps\<close>

lemma dread_Ok [outcome_simps]: "dread f s = Some (Ok a, s') \<longleftrightarrow> f (dx_world s) = Ok a \<and> s' = s"
  by (auto simp: dread_def)

lemma dread_Err [outcome_simps]: "dread f s = Some (Err e, s') \<longleftrightarrow> f (dx_world s) = Err e \<and> s' = s"
  by (auto simp: dread_def)

lemma dpush_Ok [outcome_simps]:
  "dpush m s = Some (Ok a, s') \<longleftrightarrow> (\<exists>n. m (dx_push s) = (Ok a, n) \<and> s' = s\<lparr>dx_push := n\<rparr>)"
  by (auto simp: dpush_def split: prod.splits)

lemma dpush_Err [outcome_simps]:
  "dpush m s = Some (Err e, s') \<longleftrightarrow> (\<exists>n. m (dx_push s) = (Err e, n) \<and> s' = s\<lparr>dx_push := n\<rparr>)"
  by (auto simp: dpush_def split: prod.splits)

lemma nmap_err_Err: "nmap_err g m n = (Err e, n') \<longleftrightarrow> (\<exists>e'. m n = (Err e', n') \<and> e = g e')"
  by (auto simp: nmap_err_def outcome_simps split: prod.splits)

lemma rbind_Err:
  "rbind m f s = Some (Err e, s') \<longleftrightarrow>
     m s = Some (Err e, s') \<or> (\<exists>a s1. m s = Some (Ok a, s1) \<and> f a s1 = Some (Err e, s'))"
  by (auto simp: rbind_def split: option.splits prod.splits outcome.splits)

lemma rpure_Err: "rpure r s = Some (Err e, s') \<longleftrightarrow> r = Err e \<and> s' = s"
  by (auto simp: rpure_def)

lemma nbind_Err:
  "nbind m f n = (Err e, n') \<longleftrightarrow> m n = (Err e, n') \<or> (\<exists>a n1. m n = (Ok a, n1) \<and> f a n1 = (Err e, n'))"
  by (auto simp: nbind_def split: prod.splits outcome.splits)

lemma nret_Err: "nret r n = (Err e, n') \<longleftrightarrow> r = Err e \<and> n' = n"
  by (auto simp: nret_def)

lemmas step_errors = rbind_Err rpure_Err dread_Err dpush_Err nmap_err_Err nbind_Err nret_Err

section \<open>What is stored\<close>

lemma manifest_stored_append: "manifest_stored env parsed tag b log \<Longrightarrow> manifest_stored env parsed tag b (log @ later)"
  unfolding manifest_stored_def by (blast intro: answered_append)

definition log_grows :: "push_state \<Rightarrow> push_state \<Rightarrow> bool" where
  "log_grows n n' \<longleftrightarrow> prefix (pn_pushed n) (pn_pushed n')"

lemma log_grows_trans: "log_grows a b \<Longrightarrow> log_grows b c \<Longrightarrow> log_grows a c"
  by (simp add: log_grows_def)

text \<open>
  A signature and an attestation that are in the registry: the blob under its digest, and a manifest whose one
  layer it is under the tag of the digest they are about.
\<close>

definition signature_manifest :: "('vk, 'sk, 'sg) push_env \<Rightarrow> string \<Rightarrow> string \<Rightarrow> sig_manifest" where
  "signature_manifest env body sig_b64 =
     \<lparr>sm_schema_version = 2, sm_media_type = OCI_MANIFEST_MEDIA_TYPE, sm_config = empty_config env,
      sm_layers = [\<lparr>sl_media_type = COSIGN_SIG_LAYER_MEDIA_TYPE, sl_size = length body,
        sl_digest = digest_of_bytes (px_oci env) body,
        sl_annotations = bt_insert COSIGN_SIGNATURE_ANNOTATION sig_b64 []\<rparr>]\<rparr>"

definition signature_stored ::
  "('vk, 'sk, 'sg) push_env \<Rightarrow> string \<Rightarrow> string \<Rightarrow> string \<Rightarrow> string \<Rightarrow> push_state \<Rightarrow> bool"
where
  "signature_stored env oci_ref d body sig_b64 n \<longleftrightarrow>
     (\<exists>parsed b. parse_ref oci_ref = Ok parsed
        \<and> blob_stored env parsed (digest_of_bytes (px_oci env) body) body (pn_pushed n)
        \<and> px_sig_manifest_json env (signature_manifest env body sig_b64) = Ok b
        \<and> manifest_stored env parsed (sig_tag_of d) b (pn_pushed n))"

definition attestation_manifest :: "('vk, 'sk, 'sg) push_env \<Rightarrow> string \<Rightarrow> push_manifest" where
  "attestation_manifest env envelope =
     \<lparr>pm_schema_version = 2, pm_media_type = OCI_MANIFEST_MEDIA_TYPE, pm_config = empty_config env,
      pm_layers = [\<lparr>ds_media_type = DSSE_ENVELOPE_MEDIA_TYPE, ds_size = length envelope,
        ds_digest = digest_of_bytes (px_oci env) envelope\<rparr>]\<rparr>"

definition attestation_stored ::
  "('vk, 'sk, 'sg) push_env \<Rightarrow> string \<Rightarrow> string \<Rightarrow> string \<Rightarrow> push_state \<Rightarrow> bool"
where
  "attestation_stored env oci_ref d envelope n \<longleftrightarrow>
     (\<exists>parsed b. parse_ref oci_ref = Ok parsed
        \<and> blob_stored env parsed (digest_of_bytes (px_oci env) envelope) envelope (pn_pushed n)
        \<and> px_manifest_json env (attestation_manifest env envelope) = Ok b
        \<and> manifest_stored env parsed (att_tag_of d) b (pn_pushed n))"

lemma signature_stored_grows:
  "signature_stored env r d p b n \<Longrightarrow> log_grows n n' \<Longrightarrow> signature_stored env r d p b n'"
  unfolding signature_stored_def log_grows_def prefix_def
  by (metis blob_stored_append manifest_stored_append)

lemma push_cosign_signature_stores:
  assumes "push_cosign_signature env oci_ref d p sg creds n = (Ok t, n')"
  shows "signature_stored env oci_ref d p sg n'" "log_grows n n'" "t = sig_tag_of d"
proof -
  from assms obtain parsed n1 n2 b where
    parsed: "parse_ref oci_ref = Ok parsed"
    and json: "px_sig_manifest_json env (signature_manifest env p sg) = Ok b"
    and run: "upload_blob env parsed p (digest_of_bytes (px_oci env) p) (for_registry creds (ref_registry parsed))
       (n\<lparr>pn_net := (pn_net n)\<lparr>token := None\<rparr>\<rparr>) = (Ok (), n1)"
    "upload_blob env parsed ''{}'' (ds_digest (empty_config env)) (for_registry creds (ref_registry parsed)) n1 = (Ok (), n2)"
    "put_manifest env parsed (sig_tag_of d) b (for_registry creds (ref_registry parsed)) n2 = (Ok (), n')"
    and t: "t = sig_tag_of d"
    by (auto simp: push_cosign_signature_def signature_manifest_def push_start_def Let_def outcome_simps)
  note up = upload_blob_Ok [OF run(1)] upload_blob_Ok [OF run(2)] put_manifest_Ok [OF run(3)]
  show "log_grows n n'" using up by (auto simp: log_grows_def)
  have "blob_stored env parsed (digest_of_bytes (px_oci env) p) p (pn_pushed n')"
    using up blob_stored_append by metis
  with parsed json up show "signature_stored env oci_ref d p sg n'" unfolding signature_stored_def by blast
  show "t = sig_tag_of d" by (rule t)
qed

lemma push_attestation_stores:
  assumes "push_attestation env oci_ref d e creds n = (Ok t, n')"
  shows "attestation_stored env oci_ref d e n'" "log_grows n n'" "t = att_tag_of d"
proof -
  from assms obtain parsed n1 n2 b where
    parsed: "parse_ref oci_ref = Ok parsed"
    and json: "px_manifest_json env (attestation_manifest env e) = Ok b"
    and run: "upload_blob env parsed e (digest_of_bytes (px_oci env) e) (for_registry creds (ref_registry parsed))
       (n\<lparr>pn_net := (pn_net n)\<lparr>token := None\<rparr>\<rparr>) = (Ok (), n1)"
    "upload_blob env parsed ''{}'' (ds_digest (empty_config env)) (for_registry creds (ref_registry parsed)) n1 = (Ok (), n2)"
    "put_manifest env parsed (att_tag_of d) b (for_registry creds (ref_registry parsed)) n2 = (Ok (), n')"
    and t: "t = att_tag_of d"
    by (auto simp: push_attestation_def attestation_manifest_def push_start_def Let_def outcome_simps)
  note up = upload_blob_Ok [OF run(1)] upload_blob_Ok [OF run(2)] put_manifest_Ok [OF run(3)]
  show "log_grows n n'" using up by (auto simp: log_grows_def)
  have "blob_stored env parsed (digest_of_bytes (px_oci env) e) e (pn_pushed n')"
    using up blob_stored_append by metis
  with parsed json up show "attestation_stored env oci_ref d e n'" unfolding attestation_stored_def by blast
  show "t = att_tag_of d" by (rule t)
qed

text \<open>A package that is in the registry: its archive under its digest, and a manifest that names it under a tag.\<close>

definition package_stored ::
  "('vk, 'sk, 'sg) push_env \<Rightarrow> string \<Rightarrow> string \<Rightarrow> string \<Rightarrow> push_state \<Rightarrow> bool"
where
  "package_stored env oci_ref tag bytes n \<longleftrightarrow>
     (\<exists>parsed d. parse_ref oci_ref = Ok parsed
        \<and> (compute_publish_digests env bytes :: (unit, publish_digests) outcome) = Ok d
        \<and> blob_stored env parsed (pd_layer_digest d) bytes (pn_pushed n)
        \<and> manifest_stored env parsed tag (pd_manifest_bytes d) (pn_pushed n))"

lemma package_stored_grows: "package_stored env r t b n \<Longrightarrow> log_grows n n' \<Longrightarrow> package_stored env r t b n'"
  unfolding package_stored_def log_grows_def prefix_def
  by (metis blob_stored_append manifest_stored_append)

lemma push_stores:
  assumes "push env oci_ref tag bytes creds n = (Ok a, n')"
  shows "package_stored env oci_ref tag bytes n'" "log_grows n n'"
    "pa_oci_ref a = oci_ref" "pa_tag a = tag" "pa_layer_digest a = digest_of_bytes (px_oci env) bytes"
  using push_Ok [OF assms]
  by (fastforce simp: package_stored_def log_grows_def compute_publish_digests_Ok dest: blob_stored_append)+

section \<open>Signature files\<close>

lemma push_manifest_digest:
  assumes "push env oci_ref tag bytes creds n = (Ok a, n')"
  shows "\<exists>d. (compute_publish_digests env bytes :: ('e, publish_digests) outcome) = Ok d
    \<and> pa_manifest_digest a = pd_manifest_digest d \<and> pa_oci_ref a = oci_ref \<and> pa_tag a = tag"
  using push_Ok [OF assms] by (auto simp: compute_publish_digests_Ok)

lemma read_and_validate_sidecar_Some:
  assumes "pu_sig args = Some p"
  shows "read_and_validate_sidecar env args bytes w = Ok sc' \<longleftrightarrow>
     (\<exists>sc d. sc' = Some sc \<and> sidecar_read_from (de_sidecar_of_json env) p w = Ok sc
        \<and> sc_oci_ref sc = pu_oci_ref args \<and> sc_tag sc = pu_tag args
        \<and> (compute_publish_digests (de_push env) bytes :: (push_verb_error, publish_digests) outcome) = Ok d
        \<and> sc_manifest_digest sc = pd_manifest_digest d)"
  using assms by (auto simp: read_and_validate_sidecar_def outcome_simps)

definition sidecar_fits ::
  "('vk, 'sk, 'sg, 'v, 'r, 'g, 'b) dist_env \<Rightarrow> push_args \<Rightarrow> path \<Rightarrow> world \<Rightarrow> bool"
where
  "sidecar_fits env args p w \<longleftrightarrow>
     (case read_tarball PuReadTarball PuEmptyTarball (pu_tarball args) w of
        Ok bytes \<Rightarrow>
          (case sidecar_read_from (de_sidecar_of_json env) p w of
             Ok sc \<Rightarrow>
               sc_oci_ref sc = pu_oci_ref args \<and> sc_tag sc = pu_tag args
               \<and> (case compute_publish_digests (de_push env) bytes :: (push_verb_error, publish_digests) outcome of
                     Ok d \<Rightarrow> sc_manifest_digest sc = pd_manifest_digest d | _ \<Rightarrow> False)
           | _ \<Rightarrow> False)
      | _ \<Rightarrow> False)"

lemma push_verb_validated:
  assumes "push_verb env args s = Some (r, s')" and "s' \<noteq> s \<or> is_Ok r" and "pu_sig args = Some p"
  obtains bytes sc creds r1 n where
    "read_tarball PuReadTarball PuEmptyTarball (pu_tarball args) (dx_world s) = Ok bytes"
    "read_and_validate_sidecar env args bytes (dx_world s) = Ok (Some sc)"
    "nmap_err PuPush (push (de_push env) (pu_oci_ref args) (pu_tag args) bytes creds) (dx_push s) = (r1, n)"
    "(case r1 of Ok pushed \<Rightarrow> rbind (push_sidecar env creds pushed (Some sc)) (\<lambda>signature_tag.
        rpure (Ok \<lparr>puo_pushed = pushed, puo_tarball = pu_tarball args, puo_signature_tag = signature_tag\<rparr>)) (s\<lparr>dx_push := n\<rparr>)
      | Err e \<Rightarrow> Some (Err e, s\<lparr>dx_push := n\<rparr>) | Panic \<Rightarrow> Some (Panic, s\<lparr>dx_push := n\<rparr>)) = Some (r, s')"
proof -
  show thesis
    using assms that read_and_validate_sidecar_Some [OF assms(3), of env]
    by (auto simp: push_verb_def rbind_def dread_def dpush_def is_Ok_iff split: outcome.splits prod.splits option.splits)
qed

text \<open>
  C16. \<open>akua push --sig\<close> sends nothing for a signature file that does not fit: where the archive or the file cannot be
  read, or the file names another reference, another tag or another manifest digest than this archive will
  have, the push fails with the state unchanged. Whatever else goes wrong, other than a request to the
  registry that fails, goes wrong before the first request, so the check of the digest after the push never
  fires. Where the push succeeds, the file fitted the manifest that was stored, and its payload and signature
  are in the registry under the signature tag of that manifest.
\<close>

theorem push_checks_sidecar_first:
  assumes run: "push_verb env args s = Some (r, s')" and sig: "pu_sig args = Some p"
  shows "(\<not> sidecar_fits env args p (dx_world s) \<longrightarrow> \<not> is_Ok r \<and> s' = s)
    \<and> (\<forall>e. r = Err e \<and> (\<forall>pe. e \<noteq> PuPush pe) \<longrightarrow> s' = s)
    \<and> (\<forall>out. r = Ok out \<longrightarrow> (\<exists>sc. sidecar_read_from (de_sidecar_of_json env) p (dx_world s) = Ok sc
         \<and> sc_oci_ref sc = pu_oci_ref args \<and> sc_tag sc = pu_tag args
         \<and> sc_manifest_digest sc = pa_manifest_digest (puo_pushed out)
         \<and> puo_signature_tag out = Some (sig_tag_of (pa_manifest_digest (puo_pushed out)))
         \<and> signature_stored (de_push env) (pu_oci_ref args) (pa_manifest_digest (puo_pushed out))
             (sc_payload sc) (sc_signature_b64 sc) (dx_push s')))"
proof (cases "s' \<noteq> s \<or> is_Ok r")
  case True
  obtain bytes sc creds r1 n where
    bytes: "read_tarball PuReadTarball PuEmptyTarball (pu_tarball args) (dx_world s) = Ok bytes"
    and v: "read_and_validate_sidecar env args bytes (dx_world s) = Ok (Some sc)"
    and p: "nmap_err PuPush (push (de_push env) (pu_oci_ref args) (pu_tag args) bytes creds) (dx_push s) = (r1, n)"
    and rest: "(case r1 of Ok pushed \<Rightarrow> rbind (push_sidecar env creds pushed (Some sc)) (\<lambda>signature_tag.
        rpure (Ok \<lparr>puo_pushed = pushed, puo_tarball = pu_tarball args, puo_signature_tag = signature_tag\<rparr>)) (s\<lparr>dx_push := n\<rparr>)
      | Err e \<Rightarrow> Some (Err e, s\<lparr>dx_push := n\<rparr>) | Panic \<Rightarrow> Some (Panic, s\<lparr>dx_push := n\<rparr>)) = Some (r, s')"
    using push_verb_validated [OF run True sig] by blast
  from v [unfolded read_and_validate_sidecar_Some [OF sig]] obtain d where
    sc: "sidecar_read_from (de_sidecar_of_json env) p (dx_world s) = Ok sc"
      "sc_oci_ref sc = pu_oci_ref args" "sc_tag sc = pu_tag args"
      "(compute_publish_digests (de_push env) bytes :: (push_verb_error, publish_digests) outcome) = Ok d"
      "sc_manifest_digest sc = pd_manifest_digest d" by blast
  have fits: "sidecar_fits env args p (dx_world s)" using bytes sc by (simp add: sidecar_fits_def)
  show ?thesis
  proof (cases r1)
    case (Ok pushed)
    from p Ok have p': "push (de_push env) (pu_oci_ref args) (pu_tag args) bytes creds (dx_push s) = (Ok pushed, n)"
      by (simp add: outcome_simps)
    from push_manifest_digest [OF p', where 'e = push_verb_error] sc have same:
      "sc_manifest_digest sc = pa_manifest_digest pushed" "pa_oci_ref pushed = pu_oci_ref args" by auto
    note after = rest [unfolded Ok outcome.case, unfolded push_sidecar_def option.case]
    have "r = Err e \<Longrightarrow> \<exists>pe. e = PuPush pe" for e
      using after same by (auto simp: step_errors)
    moreover have "puo_signature_tag out = Some (sig_tag_of (pa_manifest_digest (puo_pushed out)))
        \<and> sc_manifest_digest sc = pa_manifest_digest (puo_pushed out)
        \<and> signature_stored (de_push env) (pu_oci_ref args) (pa_manifest_digest (puo_pushed out))
             (sc_payload sc) (sc_signature_b64 sc) (dx_push s')" if "r = Ok out" for out
    proof -
      from after same that obtain t n' where
        "push_cosign_signature (de_push env) (pu_oci_ref args) (pa_manifest_digest pushed) (sc_payload sc)
           (sc_signature_b64 sc) creds n = (Ok t, n')"
        "out = \<lparr>puo_pushed = pushed, puo_tarball = pu_tarball args, puo_signature_tag = Some t\<rparr>"
        "s' = s\<lparr>dx_push := n'\<rparr>"
        by (auto simp: outcome_simps)
      with push_cosign_signature_stores [OF this(1)] same(1) show ?thesis by simp
    qed
    ultimately show ?thesis using fits sc by metis
  next
    case (Err e)
    with p have "\<exists>pe. e = PuPush pe" by (auto simp: nmap_err_Err)
    with rest Err fits show ?thesis by auto
  qed (use rest fits in auto)
qed auto

lemma make_sidecar_Ok:
  assumes "make_sidecar env args pass w = Ok sc"
  obtains bytes d pem where
    "read_tarball (SgReadInput ''tarball'') SgEmptyTarball (sa_tarball args) w = Ok bytes"
    "(compute_publish_digests (de_push env) bytes :: (sign_error, publish_digests) outcome) = Ok d"
    "sign_load_key env args w = Ok pem"
    "(build_simple_signing_payload (dist_crypto env) (without_scheme (sa_oci_ref args)) (pd_manifest_digest d)
        :: (sign_error, string) outcome) = Ok (sc_payload sc)"
    "sign_keyed (dist_crypto env) pem (sc_payload sc) pass = Ok (sc_signature_b64 sc)"
    "sc_oci_ref sc = sa_oci_ref args" "sc_tag sc = sa_tag args" "sc_manifest_digest sc = pd_manifest_digest d"
  using assms by (auto simp: make_sidecar_def outcome_simps split: if_splits)

lemma signed_payload_verifies:
  assumes "key_pair k private_pem public_pem" "codecs_invert k" "\<not> is_encrypted_pem private_pem"
    "(build_simple_signing_payload k reference digest :: ('e, string) outcome) = Ok p"
    "sign_keyed k private_pem p pass = Ok s"
  shows "verify_keyed k public_pem p s digest = Ok ()"
proof -
  have j: "digest_from_json k p = Ok digest"
    using assms(2,4) by (auto simp: build_simple_signing_payload_def codecs_invert_def elim!: expect_ok.elims)
  obtain s' vk where "sign_keyed k private_pem p pass = Ok s'" "trim s' = s'"
    "public_key_of_pem k public_pem = Ok vk" "signed_by k vk p s'"
    using sign_keyed_signed_by [OF assms(1-3), of p pass] by metis
  with assms(5) j show ?thesis by (auto simp: verify_keyed_def signed_by_def outcome_simps)
qed

lemma read_tarball_Ok: "read_tarball u e p w = Ok bytes \<longleftrightarrow> fs_read p w = Ok bytes \<and> bytes \<noteq> []"
  by (auto simp: read_tarball_def outcome_simps split: if_splits)

text \<open>
  C17. Signing offline and pushing elsewhere fit together: the signature file that \<open>akua sign\<close> makes for a tarball is
  accepted by \<open>akua push\<close> of the same tarball to the same reference and tag, and its signature verifies, under the
  public key of the pair, for the digest of the manifest that the push stores.
\<close>

theorem offline_signature_fits:
  assumes signed: "make_sidecar env sargs pass w = Ok sc" "sign_load_key env sargs w = Ok pem"
    and keys: "key_pair (dist_crypto env) pem public_pem" "codecs_invert (dist_crypto env)" "\<not> is_encrypted_pem pem"
    and moved: "pu_sig pargs = Some p" "sidecar_read_from (de_sidecar_of_json env) p w2 = Ok sc"
      "pu_oci_ref pargs = sa_oci_ref sargs" "pu_tag pargs = sa_tag sargs"
      "fs_read (sa_tarball sargs) w = Ok bytes" "bytes \<noteq> []"
  shows "read_and_validate_sidecar env pargs bytes w2 = Ok (Some sc)
    \<and> (\<forall>creds n a n'. push (de_push env) (pu_oci_ref pargs) (pu_tag pargs) bytes creds n = (Ok a, n') \<longrightarrow>
         verify_keyed (dist_crypto env) public_pem (sc_payload sc) (sc_signature_b64 sc) (pa_manifest_digest a) = Ok ())"
proof -
  from signed(1) obtain bytes' d pem' where
    m: "read_tarball (SgReadInput ''tarball'') SgEmptyTarball (sa_tarball sargs) w = Ok bytes'"
      "(compute_publish_digests (de_push env) bytes' :: (sign_error, publish_digests) outcome) = Ok d"
      "sign_load_key env sargs w = Ok pem'"
      "(build_simple_signing_payload (dist_crypto env) (without_scheme (sa_oci_ref sargs)) (pd_manifest_digest d)
        :: (sign_error, string) outcome) = Ok (sc_payload sc)"
      "sign_keyed (dist_crypto env) pem' (sc_payload sc) pass = Ok (sc_signature_b64 sc)"
      "sc_oci_ref sc = sa_oci_ref sargs" "sc_tag sc = sa_tag sargs" "sc_manifest_digest sc = pd_manifest_digest d"
    by (rule make_sidecar_Ok)
  from m(1) moved(5) have b: "bytes' = bytes" by (simp add: read_tarball_Ok)
  from m(3) signed(2) have pem: "pem' = pem" by simp
  from m(2) b have d: "(compute_publish_digests (de_push env) bytes :: (push_verb_error, publish_digests) outcome) = Ok d"
    by (simp add: compute_publish_digests_Ok)
  have ok: "verify_keyed (dist_crypto env) public_pem (sc_payload sc) (sc_signature_b64 sc) (pd_manifest_digest d) = Ok ()"
    using signed_payload_verifies [OF keys m(4)] m(5) pem by simp
  have "pa_manifest_digest a = pd_manifest_digest d"
    if "push (de_push env) (pu_oci_ref pargs) (pu_tag pargs) bytes creds n = (Ok a, n')" for creds n a n'
    using push_manifest_digest [OF that, where 'e = push_verb_error] d by auto
  with ok d m(6-8) moved(1-4) show ?thesis by (auto simp: read_and_validate_sidecar_Some)
qed

section \<open>Publishing\<close>

definition signing_key_configured :: "manifest \<Rightarrow> bool" where
  "signing_key_configured m \<longleftrightarrow> Option.bind (m_signing m) cosign_private_key \<noteq> None"

lemma load_signing_key_Ok:
  "load_signing_key ws m w = Ok k \<Longrightarrow> (k \<noteq> None) = signing_key_configured m"
  by (auto simp: load_signing_key_def signing_key_configured_def Let_def outcome_simps split: option.splits)

lemma collect_vendor_pairs_no_Err: "collect_vendor_pairs env ws m s \<noteq> Some (Err e, s')"
  by (auto simp: collect_vendor_pairs_def pack_digests_def step_errors split: outcome.splits lock_load_error.splits)

definition publish_tag :: "publish_args \<Rightarrow> manifest \<Rightarrow> string" where
  "publish_tag args m = (case pb_tag args of Some t \<Rightarrow> t | None \<Rightarrow> pkg_version (m_package m))"

lemma publish_Ok:
  assumes "publish env args pass s = Some (Ok out, s')"
  obtains m pairs s1 tar_gz creds n private_pem where
    "dist_manifest env (pb_workspace args) (dx_world s) = Ok m"
    "collect_vendor_pairs env (pb_workspace args) m s = Some (Ok pairs :: (publish_error, _) outcome, s1)"
    "pack_workspace_with_vendored_deps (de_tar env) (pb_workspace args) pairs (dx_world s1) = Ok tar_gz"
    "push (de_push env) (pb_oci_ref args) (publish_tag args m) tar_gz creds (dx_push s1) = (Ok (pbo_pushed out), n)"
    "if pb_no_sign args then private_pem = None else load_signing_key (pb_workspace args) m (dx_world s1) = Ok private_pem"
    "publish_sidecars env args pass creds (pbo_pushed out) private_pem (s1\<lparr>dx_push := n\<rparr>)
       = Some (Ok (pbo_signature_tag out, pbo_attestation_tag out), s')"
proof -
  from assms obtain m creds pairs s1 tar_gz pushed n private_pem s2 sig_tag att_tag where
    f: "dist_manifest env (pb_workspace args) (dx_world s) = Ok m"
      "collect_vendor_pairs env (pb_workspace args) m s = Some (Ok pairs :: (publish_error, _) outcome, s1)"
      "pack_workspace_with_vendored_deps (de_tar env) (pb_workspace args) pairs (dx_world s1) = Ok tar_gz"
      "push (de_push env) (pb_oci_ref args) (publish_tag args m) tar_gz creds (dx_push s1) = (Ok pushed, n)"
    and key: "(if pb_no_sign args then rpure (Ok None) else dread (load_signing_key (pb_workspace args) m))
        (s1\<lparr>dx_push := n\<rparr>) = Some (Ok private_pem, s2)"
    and side: "publish_sidecars env args pass creds pushed private_pem s2 = Some (Ok (sig_tag, att_tag), s')"
    and out: "out = \<lparr>pbo_pushed = pushed, pbo_signature_tag = sig_tag, pbo_attestation_tag = att_tag\<rparr>"
    unfolding publish_def Let_def publish_tag_def [symmetric]
    by (auto simp: outcome_simps)
  show thesis
    by (rule that [OF f(1-3), of creds n private_pem])
      (use f(4) key side in \<open>auto simp: out outcome_simps split: if_splits\<close>)
qed

lemma build_payload_error:
  "build_simple_signing_payload k r d \<noteq> (Err (PbSigningKeyIo p e) :: (publish_error, string) outcome)"
  by (auto simp: build_simple_signing_payload_def elim!: expect_ok.elims)

lemma sign_published_no_key_error:
  "sign_published_artifact env r k pw d c t \<noteq> (Err (PbSigningKeyIo p e), t')"
  by (auto simp: sign_published_artifact_def step_errors outcome_simps build_payload_error)

lemma attest_published_no_key_error:
  "attest_published_artifact env ws r g d k pw c w t \<noteq> (Err (PbSigningKeyIo p e), t')"
  by (auto simp: attest_published_artifact_def Let_def step_errors outcome_simps
      split: outcome.splits lock_load_error.splits)

lemma publish_sidecars_no_key_error:
  "publish_sidecars env args pass creds pushed k s2 \<noteq> Some (Err (PbSigningKeyIo p e), s3)"
  by (cases k)
    (auto simp: publish_sidecars_def step_errors sign_published_no_key_error attest_published_no_key_error split: if_splits)

lemma publish_key_error:
  assumes "publish env args pass s = Some (Err (PbSigningKeyIo p e), s')"
  obtains m pairs s1 tar_gz creds pushed n where
    "dist_manifest env (pb_workspace args) (dx_world s) = Ok m"
    "collect_vendor_pairs env (pb_workspace args) m s = Some (Ok pairs :: (publish_error, _) outcome, s1)"
    "pack_workspace_with_vendored_deps (de_tar env) (pb_workspace args) pairs (dx_world s1) = Ok tar_gz"
    "push (de_push env) (pb_oci_ref args) (publish_tag args m) tar_gz creds (dx_push s1) = (Ok pushed, n)"
    "s' = s1\<lparr>dx_push := n\<rparr>"
  using assms that unfolding publish_def Let_def publish_tag_def [symmetric]
  by (auto simp: step_errors outcome_simps dist_creds_def collect_vendor_pairs_no_Err publish_sidecars_no_key_error
      split: if_splits)

text \<open>What a signed and an attested publication has stored.\<close>

definition publication_signed ::
  "('vk, 'sk, 'sg, 'v, 'r, 'g, 'b) dist_env \<Rightarrow> publish_args \<Rightarrow> string option \<Rightarrow> string \<Rightarrow> string \<Rightarrow> push_state \<Rightarrow> bool"
where
  "publication_signed env args pass pem d n \<longleftrightarrow>
     (\<exists>body sg. (build_simple_signing_payload (dist_crypto env) (without_scheme (pb_oci_ref args)) d
           :: (publish_error, string) outcome) = Ok body
        \<and> sign_keyed (dist_crypto env) pem body pass = Ok sg
        \<and> signature_stored (de_push env) (pb_oci_ref args) d body sg n)"

definition publication_attested ::
  "('vk, 'sk, 'sg, 'v, 'r, 'g, 'b) dist_env \<Rightarrow> publish_args \<Rightarrow> string option \<Rightarrow> string \<Rightarrow> string \<Rightarrow> string \<Rightarrow> world
     \<Rightarrow> push_state \<Rightarrow> bool"
where
  "publication_attested env args pass pem d tag w n \<longleftrightarrow>
     (\<exists>lock statement envelope.
        lock = (case load_lock (de_lock_toml env) w (pb_workspace args) of Ok l \<Rightarrow> Some l | _ \<Rightarrow> None)
        \<and> de_statement_json env (build_publish_attestation (de_version env) (without_scheme (pb_oci_ref args)) d
              (pb_oci_ref args) tag lock) = Ok statement
        \<and> sign_dsse (dist_crypto env) pem ''application/vnd.in-toto+json'' statement pass = Ok envelope
        \<and> attestation_stored (de_push env) (pb_oci_ref args) d envelope n)"

lemma sign_published_stores:
  assumes "sign_published_artifact env (pb_oci_ref args) pem pass d creds n = (Ok t, n')"
  shows "publication_signed env args pass pem d n'" "log_grows n n'" "t = sig_tag_of d"
proof -
  from assms obtain p sg where
    "(build_simple_signing_payload (dist_crypto env) (without_scheme (pb_oci_ref args)) d
       :: (publish_error, string) outcome) = Ok p"
    "sign_keyed (dist_crypto env) pem p pass = Ok sg"
    and r: "push_cosign_signature (de_push env) (pb_oci_ref args) d p sg creds n = (Ok t, n')"
    by (auto simp: sign_published_artifact_def outcome_simps)
  with push_cosign_signature_stores [OF r] show "publication_signed env args pass pem d n'" "log_grows n n'" "t = sig_tag_of d"
    unfolding publication_signed_def by blast+
qed

lemma attest_published_stores:
  assumes "attest_published_artifact env (pb_workspace args) (pb_oci_ref args) tag d pem pass creds w n = (Ok t, n')"
  shows "publication_attested env args pass pem d tag w n'" "log_grows n n'" "t = att_tag_of d"
proof -
  let ?lock = "case load_lock (de_lock_toml env) w (pb_workspace args) of Ok l \<Rightarrow> Some l | _ \<Rightarrow> None"
  from assms obtain statement e where
    "de_statement_json env (build_publish_attestation (de_version env) (without_scheme (pb_oci_ref args)) d
        (pb_oci_ref args) tag ?lock) = Ok statement"
    "sign_dsse (dist_crypto env) pem ''application/vnd.in-toto+json'' statement pass = Ok e"
    and r: "push_attestation (de_push env) (pb_oci_ref args) d e creds n = (Ok t, n')"
    by (auto simp: attest_published_artifact_def Let_def outcome_simps split: outcome.splits lock_load_error.splits)
  with push_attestation_stores [OF r] show "publication_attested env args pass pem d tag w n'" "log_grows n n'" "t = att_tag_of d"
    unfolding publication_attested_def by blast+
qed

lemma publish_sidecars_unsigned:
  "publish_sidecars env args pass creds pushed None s2 = Some (Ok (st, at), s3) \<Longrightarrow> st = None \<and> at = None \<and> s3 = s2"
  by (auto simp: publish_sidecars_def outcome_simps)

lemma publish_sidecars_signed:
  assumes "publish_sidecars env args pass creds pushed (Some pem) s2 = Some (Ok (st, at), s3)"
  defines "d \<equiv> pa_manifest_digest pushed"
  shows "st = Some (sig_tag_of d)" "publication_signed env args pass pem d (dx_push s3)"
    "at = (if pb_no_attest args then None else Some (att_tag_of d))"
    "\<not> pb_no_attest args \<Longrightarrow> publication_attested env args pass pem d (pa_tag pushed) (dx_world s2) (dx_push s3)"
    "log_grows (dx_push s2) (dx_push s3)"
proof -
  from assms(1) obtain t n where t: "sign_published_artifact env (pb_oci_ref args) pem pass d creds (dx_push s2) = (Ok t, n)"
    "st = Some t"
    and rest: "(if pb_no_attest args then rpure (Ok None)
                 else (\<lambda>s. rbind (dpush (attest_published_artifact env (pb_workspace args) (pb_oci_ref args) (pa_tag pushed)
                         d pem pass creds (dx_world s))) (\<lambda>t. rpure (Ok (Some t))) s))
            (s2\<lparr>dx_push := n\<rparr>) = Some (Ok at, s3)"
    using that unfolding d_def by (auto simp: publish_sidecars_def outcome_simps simp del: if_split)
  note signed = sign_published_stores [OF t(1)]
  have "at = (if pb_no_attest args then None else Some (att_tag_of d)) \<and> log_grows n (dx_push s3)
    \<and> (\<not> pb_no_attest args \<longrightarrow> publication_attested env args pass pem d (pa_tag pushed) (dx_world s2) (dx_push s3))"
  proof (cases "pb_no_attest args")
    case True
    with rest show ?thesis by (simp add: outcome_simps log_grows_def)
  next
    case False
    with rest obtain a n' where a: "attest_published_artifact env (pb_workspace args) (pb_oci_ref args) (pa_tag pushed)
        d pem pass creds (dx_world s2) n = (Ok a, n')" "at = Some a" "s3 = s2\<lparr>dx_push := n'\<rparr>"
      by (auto simp: outcome_simps)
    with attest_published_stores [OF a(1)] False show ?thesis by simp
  qed
  then show "at = (if pb_no_attest args then None else Some (att_tag_of d))"
    "\<not> pb_no_attest args \<Longrightarrow> publication_attested env args pass pem d (pa_tag pushed) (dx_world s2) (dx_push s3)"
    "log_grows (dx_push s2) (dx_push s3)" "publication_signed env args pass pem d (dx_push s3)"
    using signed log_grows_trans signature_stored_grows unfolding publication_signed_def by blast+
  show "st = Some (sig_tag_of d)" using signed(3) t(2) by simp
qed

text \<open>
  C15. A publication that succeeds has stored what was packed: the archive of the workspace, with its vendored
  dependencies, lies in the registry under its own digest, and its manifest under the tag (the version of the
  package where none is given). Where a key is configured and signing is not turned off, the registry also holds
  the signature of the pushed digest made with that key, under the signature tag, and, unless attesting is
  turned off, the signed statement about that digest and the lockfile, under the attestation tag; where it
  is not signed nothing more is sent. The reported tags say exactly that.
\<close>

theorem publish_ok_means:
  assumes run: "publish env args pass s = Some (Ok out, s')"
    and m: "dist_manifest env (pb_workspace args) (dx_world s) = Ok m"
  defines "d \<equiv> pa_manifest_digest (pbo_pushed out)"
    and "signed \<equiv> \<not> pb_no_sign args \<and> signing_key_configured m"
  shows "(\<exists>pairs s1 tar_gz creds n. collect_vendor_pairs env (pb_workspace args) m s
            = Some (Ok pairs :: (publish_error, _) outcome, s1)
        \<and> pack_workspace_with_vendored_deps (de_tar env) (pb_workspace args) pairs (dx_world s1) = Ok tar_gz
        \<and> push (de_push env) (pb_oci_ref args) (publish_tag args m) tar_gz creds (dx_push s1) = (Ok (pbo_pushed out), n)
        \<and> package_stored (de_push env) (pb_oci_ref args) (publish_tag args m) tar_gz (dx_push s')
        \<and> pa_layer_digest (pbo_pushed out) = digest_of_bytes (px_oci (de_push env)) tar_gz
        \<and> (if signed then \<exists>pem. load_signing_key (pb_workspace args) m (dx_world s1) = Ok (Some pem)
              \<and> publication_signed env args pass pem d (dx_push s')
              \<and> (\<not> pb_no_attest args \<longrightarrow>
                   publication_attested env args pass pem d (publish_tag args m) (dx_world s1) (dx_push s'))
            else dx_push s' = n))
    \<and> pbo_signature_tag out = (if signed then Some (sig_tag_of d) else None)
    \<and> pbo_attestation_tag out = (if signed \<and> \<not> pb_no_attest args then Some (att_tag_of d) else None)"
proof -
  from run obtain m' pairs s1 tar_gz creds n k where
    m': "dist_manifest env (pb_workspace args) (dx_world s) = Ok m'"
    and c: "collect_vendor_pairs env (pb_workspace args) m' s = Some (Ok pairs :: (publish_error, _) outcome, s1)"
    and t: "pack_workspace_with_vendored_deps (de_tar env) (pb_workspace args) pairs (dx_world s1) = Ok tar_gz"
    and p: "push (de_push env) (pb_oci_ref args) (publish_tag args m') tar_gz creds (dx_push s1) = (Ok (pbo_pushed out), n)"
    and k: "if pb_no_sign args then k = None else load_signing_key (pb_workspace args) m' (dx_world s1) = Ok k"
    and side: "publish_sidecars env args pass creds (pbo_pushed out) k (s1\<lparr>dx_push := n\<rparr>)
       = Some (Ok (pbo_signature_tag out, pbo_attestation_tag out), s')"
    by (rule publish_Ok)
  from m m' have [simp]: "m' = m" by simp
  from k have signed: "(k \<noteq> None) = signed"
    by (auto simp: signed_def split: if_splits dest: load_signing_key_Ok)
  note stored = push_stores [OF p]
  show ?thesis
  proof (cases k)
    case None
    with signed publish_sidecars_unsigned [of env args pass creds "pbo_pushed out" "s1\<lparr>dx_push := n\<rparr>"] side
    have "\<not> signed" "pbo_signature_tag out = None" "pbo_attestation_tag out = None" "dx_push s' = n" by auto
    with c t p stored show ?thesis by auto
  next
    case (Some pem)
    with signed k have s: "signed" "load_signing_key (pb_workspace args) m (dx_world s1) = Ok (Some pem)"
      by (auto simp: signed_def)
    note sides = publish_sidecars_signed [OF side [unfolded Some], folded d_def]
    have "package_stored (de_push env) (pb_oci_ref args) (publish_tag args m) tar_gz (dx_push s')"
      using package_stored_grows [OF stored(1)] sides(5) by simp
    with c t p stored(4,5) s sides(1-4) show ?thesis by auto
  qed
qed

text \<open>
  The signing key is read last. A publication that reports that the key of \<open>[signing]\<close> cannot be read has by then
  stored the package under its tag, unsigned: what the user is told failed is what others can pull.
\<close>

theorem publish_key_checked_last:
  assumes run: "publish env args pass s = Some (Err (PbSigningKeyIo p e), s')"
    and m: "dist_manifest env (pb_workspace args) (dx_world s) = Ok m"
  shows "\<exists>tar_gz. package_stored (de_push env) (pb_oci_ref args) (publish_tag args m) tar_gz (dx_push s')"
proof -
  from run obtain m' pairs s1 tar_gz creds pushed n where
    "dist_manifest env (pb_workspace args) (dx_world s) = Ok m'"
    "collect_vendor_pairs env (pb_workspace args) m' s = Some (Ok pairs :: (publish_error, _) outcome, s1)"
    "pack_workspace_with_vendored_deps (de_tar env) (pb_workspace args) pairs (dx_world s1) = Ok tar_gz"
    "push (de_push env) (pb_oci_ref args) (publish_tag args m') tar_gz creds (dx_push s1) = (Ok pushed, n)"
    "s' = s1\<lparr>dx_push := n\<rparr>"
    by (rule publish_key_error)
  with m show ?thesis using push_stores(1) by fastforce
qed

section \<open>Instances\<close>

definition signing_manifest :: manifest where
  "signing_manifest = toy_manifest\<lparr>m_signing := Some
     \<lparr>cosign_public_key = None, cosign_private_key = Some ''k.pem''\<rparr>\<rparr>"

definition toy_sidecar :: sign_sidecar where
  "toy_sidecar = \<lparr>sc_oci_ref = ''oci://r/p'', sc_tag = ''1'', sc_manifest_digest = digest_of_bytes toy_oci_env ''M'',
     sc_payload = digest_of_bytes toy_oci_env ''M'', sc_signature_b64 = ''<'' @ digest_of_bytes toy_oci_env ''M'' @ ''>'',
     sc_akua_version = ''0''\<rparr>"

text \<open>The registry of the pusher's instance; an archive that is always \<open>{}\<close>.\<close>

definition toy_dist_env :: "(unit, unit, string, nat, nat, unit, tar_entry list) dist_env" where
  "toy_dist_env = \<lparr>de_resolver = toy_resolver,
     de_push = toy_push_env\<lparr>px_manifest_json := (\<lambda>_. Ok ''M''), px_sig_manifest_json := (\<lambda>_. Ok ''S'')\<rparr>,
     de_pull = toy_pull_env,
     de_tar = toy_tar_env\<lparr>tar_manifest_of_toml := (\<lambda>_. Ok signing_manifest), tar_manifest_to_toml := (\<lambda>_. Ok ''m''),
       tar_finish := (\<lambda>_. Ok ''{}'')\<rparr>,
     de_lock_toml = (\<lambda>_. Err []), de_statement_json = (\<lambda>_. Ok ''stmt''), de_sidecar_to_json = (\<lambda>_. Ok []),
     de_sidecar_of_json = (\<lambda>_. Ok toy_sidecar), de_version = ''0'',
     de_texts = \<lparr>dt_auth = (\<lambda>_. []), dt_manifest = (\<lambda>_. []), dt_manifest_load = (\<lambda>_. []), dt_lock_load = (\<lambda>_. []),
       dt_tar = (\<lambda>_. []), dt_push = (\<lambda>_. []), dt_pull = (\<lambda>_. []), dt_cosign = (\<lambda>_. []), dt_sidecar = (\<lambda>_. [])\<rparr>\<rparr>"

definition toy_tarball_state :: dist_state where
  "toy_tarball_state = \<lparr>dx_world = (text_world [])\<lparr>tree_at := (\<lambda>_. Ok (File ''{}''))\<rparr>, dx_push = fresh_push\<rparr>"

definition toy_push_args :: push_args where
  "toy_push_args = \<lparr>pu_tarball = [Normal ''t''], pu_oci_ref = ''oci://r/p'', pu_tag = ''1'', pu_sig = Some [Normal ''s'']\<rparr>"

lemma push_checks_sidecar_first_witness:
  "(\<exists>out s' (sc :: sign_sidecar). push_verb toy_dist_env toy_push_args toy_tarball_state = Some (Ok out, s')
     \<and> sc_manifest_digest sc = pa_manifest_digest (puo_pushed out)
     \<and> signature_stored (de_push toy_dist_env) ''oci://r/p'' (pa_manifest_digest (puo_pushed out))
         (sc_payload sc) (sc_signature_b64 sc) (dx_push s'))
   \<and> \<not> sidecar_fits toy_dist_env (toy_push_args\<lparr>pu_tag := ''2''\<rparr>) [Normal ''s''] (dx_world toy_tarball_state)
   \<and> (\<exists>r. push_verb toy_dist_env (toy_push_args\<lparr>pu_tag := ''2''\<rparr>) toy_tarball_state = Some (r, toy_tarball_state) \<and> \<not> is_Ok r)"
proof -
  let ?bad = "toy_push_args\<lparr>pu_tag := ''2''\<rparr>"
  have "case push_verb toy_dist_env toy_push_args toy_tarball_state of Some (Ok _, _) \<Rightarrow> True | _ \<Rightarrow> False"
    by code_simp
  then obtain out s' where run: "push_verb toy_dist_env toy_push_args toy_tarball_state = Some (Ok out, s')"
    by (auto split: option.splits outcome.splits)
  have sig: "pu_sig toy_push_args = Some [Normal ''s'']" "pu_sig ?bad = Some [Normal ''s'']"
    "pu_oci_ref toy_push_args = ''oci://r/p''" by (simp_all add: toy_push_args_def)
  have "push_verb toy_dist_env ?bad toy_tarball_state \<noteq> None" by code_simp
  then obtain r2 s2 where bad: "push_verb toy_dist_env ?bad toy_tarball_state = Some (r2, s2)" by auto
  have unfit: "\<not> sidecar_fits toy_dist_env ?bad [Normal ''s''] (dx_world toy_tarball_state)" by code_simp
  from push_checks_sidecar_first [OF bad sig(2)] unfit bad
  have 1: "\<exists>r. push_verb toy_dist_env ?bad toy_tarball_state = Some (r, toy_tarball_state) \<and> \<not> is_Ok r" by blast
  from push_checks_sidecar_first [OF run sig(1)] sig(3)
  have "\<exists>sc :: sign_sidecar. sc_manifest_digest sc = pa_manifest_digest (puo_pushed out)
     \<and> signature_stored (de_push toy_dist_env) ''oci://r/p'' (pa_manifest_digest (puo_pushed out))
         (sc_payload sc) (sc_signature_b64 sc) (dx_push s')" by metis
  with run unfit 1 show ?thesis by blast
qed

definition toy_sign_args :: sign_args where
  "toy_sign_args = \<lparr>sa_tarball = [Normal ''t''], sa_oci_ref = ''oci://r/p'', sa_tag = ''1'', sa_key = Some [Normal ''k''],
     sa_workspace = [], sa_out = None\<rparr>"

lemma offline_signature_fits_witness:
  "\<exists>sc. make_sidecar toy_dist_env toy_sign_args None (dx_world toy_tarball_state) = Ok sc
     \<and> read_and_validate_sidecar (toy_dist_env\<lparr>de_sidecar_of_json := (\<lambda>_. Ok sc)\<rparr>) toy_push_args ''{}''
         (dx_world toy_tarball_state) = Ok (Some sc)"
proof -
  let ?w = "dx_world toy_tarball_state"
  have "case make_sidecar toy_dist_env toy_sign_args None ?w of Ok _ \<Rightarrow> True | _ \<Rightarrow> False" by code_simp
  then obtain sc where sc: "make_sidecar toy_dist_env toy_sign_args None ?w = Ok sc" by (auto split: outcome.splits)
  let ?env = "toy_dist_env\<lparr>de_sidecar_of_json := (\<lambda>_. Ok sc)\<rparr>"
  have same: "de_push ?env = de_push toy_dist_env" "dist_crypto ?env = toy_crypto" "de_version ?env = de_version toy_dist_env"
    "de_tar ?env = de_tar toy_dist_env" "dist_crypto toy_dist_env = toy_crypto"
    by (simp_all add: toy_dist_env_def dist_crypto_def toy_push_env_def toy_oci_env_def)
  have key: "sign_load_key env toy_sign_args ?w = Ok []" for env :: "(unit, unit, string, nat, nat, unit, tar_entry list) dist_env"
    by (simp add: sign_load_key_def toy_sign_args_def toy_tarball_state_def text_world_def)
  have made: "make_sidecar ?env toy_sign_args None ?w = Ok sc"
    using sc by (simp add: make_sidecar_def key same)
  have pair: "key_pair (dist_crypto ?env) [] []" unfolding same by (simp add: key_pair_def toy_crypto_def)
  have inv: "codecs_invert (dist_crypto ?env)" unfolding same by (rule toy_codecs_invert)
  have rest: "\<not> is_encrypted_pem []" "fs_read (sa_tarball toy_sign_args) ?w = Ok ''{}''" by code_simp+
  have args: "pu_sig toy_push_args = Some [Normal ''s'']" "pu_oci_ref toy_push_args = sa_oci_ref toy_sign_args"
    "pu_tag toy_push_args = sa_tag toy_sign_args"
    "sidecar_read_from (de_sidecar_of_json ?env) [Normal ''s''] ?w = Ok sc"
    by (simp_all add: toy_push_args_def toy_sign_args_def sidecar_read_from_def toy_tarball_state_def text_world_def)
  from offline_signature_fits [OF made key pair inv rest(1) args(1,4,2,3) rest(2)] sc show ?thesis by simp
qed

definition toy_publish_args :: publish_args where
  "toy_publish_args = \<lparr>pb_workspace = ws_root, pb_oci_ref = ''oci://r/p'', pb_tag = None, pb_no_sign = False,
     pb_no_attest = False\<rparr>"

definition toy_lock_env :: "(unit, unit, string, nat, nat, unit, tar_entry list) dist_env" where
  "toy_lock_env = toy_dist_env\<lparr>de_lock_toml := (\<lambda>_. Ok empty_lock),
     de_push := (de_push toy_dist_env)\<lparr>px_oci := toy_oci_env\<lparr>env_crypto :=
       toy_crypto\<lparr>envelope_to_json := (\<lambda>_. Ok ''env'')\<rparr>\<rparr>\<rparr>\<rparr>"

definition toy_workspace_state :: dist_state where
  "toy_workspace_state = \<lparr>dx_world = toy_source_world, dx_push = fresh_push\<rparr>"

lemma publish_ok_means_witness:
  "\<exists>out s' pem tag w. publish toy_lock_env toy_publish_args None toy_workspace_state = Some (Ok out, s')
     \<and> publication_signed toy_lock_env toy_publish_args None pem (pa_manifest_digest (pbo_pushed out)) (dx_push s')
     \<and> publication_attested toy_lock_env toy_publish_args None pem (pa_manifest_digest (pbo_pushed out)) tag w (dx_push s')
     \<and> pbo_attestation_tag out = Some (att_tag_of (pa_manifest_digest (pbo_pushed out)))"
proof -
  have "case publish toy_lock_env toy_publish_args None toy_workspace_state of Some (Ok _, _) \<Rightarrow> True | _ \<Rightarrow> False"
    by code_simp
  then obtain out s' where run: "publish toy_lock_env toy_publish_args None toy_workspace_state = Some (Ok out, s')"
    by (auto split: option.splits outcome.splits)
  have m: "dist_manifest toy_lock_env (pb_workspace toy_publish_args) (dx_world toy_workspace_state) = Ok signing_manifest"
    by code_simp
  have key: "signing_key_configured signing_manifest" "\<not> pb_no_sign toy_publish_args" "\<not> pb_no_attest toy_publish_args"
    by code_simp+
  from publish_ok_means [OF run m] key run show ?thesis by auto
qed

text \<open>The key that the manifest names is not there.\<close>

definition toy_keyless_state :: dist_state where
  "toy_keyless_state = \<lparr>dx_world = toy_source_world\<lparr>read_to_string := (\<lambda>p. if p = ws_root @ [Normal ''akua.toml'']
     then Ok ''m'' else Err not_found)\<rparr>, dx_push = fresh_push\<rparr>"

lemma publish_key_checked_last_witness:
  "\<exists>p e s' tar_gz. publish toy_dist_env toy_publish_args None toy_keyless_state = Some (Err (PbSigningKeyIo p e), s')
     \<and> package_stored (de_push toy_dist_env) ''oci://r/p'' ''1'' tar_gz (dx_push s')"
proof -
  have "case publish toy_dist_env toy_publish_args None toy_keyless_state of
      Some (Err (PbSigningKeyIo _ _), _) \<Rightarrow> True | _ \<Rightarrow> False"
    by code_simp
  then obtain x s' where err: "publish toy_dist_env toy_publish_args None toy_keyless_state = Some (Err x, s')"
    "case x of PbSigningKeyIo _ _ \<Rightarrow> True | _ \<Rightarrow> False"
    by (auto split: option.splits outcome.splits)
  then obtain p e where run:
    "publish toy_dist_env toy_publish_args None toy_keyless_state = Some (Err (PbSigningKeyIo p e), s')"
    by (cases x) auto
  have m: "dist_manifest toy_dist_env (pb_workspace toy_publish_args) (dx_world toy_keyless_state) = Ok signing_manifest"
    by code_simp
  have tag: "publish_tag toy_publish_args signing_manifest = ''1''" "pb_oci_ref toy_publish_args = ''oci://r/p''"
    by code_simp+
  from publish_key_checked_last [OF run m] run show ?thesis unfolding tag by blast
qed

end
