(* ===== verification/LockVerbs.thy ===== *)
theory LockVerbs
  imports Resolver
begin

text \<open>
  The verbs that edit \<open>akua.toml\<close> and \<open>akua.lock\<close>: \<open>lock\<close>, \<open>update\<close>, \<open>add\<close> and
  \<open>remove\<close> (\<open>verbs/lock.rs\<close>, \<open>update.rs\<close>, \<open>add.rs\<close>, \<open>remove.rs\<close>). The state is
  the world and the log of requests; a result is \<open>None\<close> only where the bound of a git checkout is reached. What a
  resolution that fails has written to the caches is not kept.
\<close>

section \<open>Steps\<close>

record dep_texts =
  lt_manifest :: "manifest_error \<Rightarrow> string"
  lt_manifest_load :: "manifest_load_error \<Rightarrow> string"
  lt_lock :: "lock_error \<Rightarrow> string"
  lt_lock_load :: "lock_load_error \<Rightarrow> string"
  lt_chart :: "chart_error \<Rightarrow> string"

record ('vk, 'sk, 'sg, 'v, 'r, 'g) dep_env =
  dv_resolver :: "('vk, 'sk, 'sg, 'v, 'r, 'g) resolver_env"
  dv_manifest_of_toml :: "string \<Rightarrow> (string, manifest) outcome"
  dv_manifest_to_toml :: "manifest \<Rightarrow> (string, string) outcome"
  dv_lock_of_toml :: "string \<Rightarrow> (string, akua_lock) outcome"
  dv_lock_to_toml :: "akua_lock \<Rightarrow> (string, string) outcome"

type_synonym dep_state = "world \<times> net"

definition dep_read :: "(world \<Rightarrow> ('e, 'a) outcome) \<Rightarrow> dep_state \<Rightarrow> (('e, 'a) outcome \<times> dep_state) option" where
  "dep_read f s = Some (f (fst s), s)"

definition dep_write ::
  "(world \<Rightarrow> ('e, world) outcome) \<Rightarrow> dep_state \<Rightarrow> (('e, unit) outcome \<times> dep_state) option"
where
  "dep_write f s =
     (case f (fst s) of
        Ok w \<Rightarrow> Some (Ok (), (w, snd s))
      | Err e \<Rightarrow> Some (Err e, s)
      | Panic \<Rightarrow> Some (Panic, s))"

definition dep_resolve ::
  "('vk, 'sk, 'sg, 'v::linorder, 'r, 'g) dep_env \<Rightarrow> manifest \<Rightarrow> path \<Rightarrow> (string, string) btree \<Rightarrow> dep_state
     \<Rightarrow> ((chart_error, resolved_charts) outcome \<times> dep_state) option"
where
  "dep_resolve env m workspace pins s =
     map_option (\<lambda>(r, n). case r of
           Ok (cs, w) \<Rightarrow> (Ok cs, (w, n))
         | Err e \<Rightarrow> (Err e, (fst s, n))
         | Panic \<Rightarrow> (Panic, (fst s, n)))
       (resolve_with_options (dv_resolver env) m workspace (online_with (fst s) pins) (fst s) (snd s))"

definition dep_map_err ::
  "('e \<Rightarrow> 'f) \<Rightarrow> ('s \<Rightarrow> (('e, 'a) outcome \<times> 's) option) \<Rightarrow> 's \<Rightarrow> (('f, 'a) outcome \<times> 's) option"
where
  "dep_map_err g m s = map_option (\<lambda>(r, s'). (omap_err g r, s')) (m s)"

definition dep_manifest ::
  "('vk, 'sk, 'sg, 'v, 'r, 'g) dep_env \<Rightarrow> (manifest_load_error \<Rightarrow> 'e) \<Rightarrow> path \<Rightarrow> world \<Rightarrow> ('e, manifest) outcome"
where
  "dep_manifest env mk workspace w = omap_err mk (load_manifest (dv_manifest_of_toml env) w workspace)"

definition write_manifest ::
  "('vk, 'sk, 'sg, 'v, 'r, 'g) dep_env \<Rightarrow> (manifest_error \<Rightarrow> 'e) \<Rightarrow> (path \<Rightarrow> io_error \<Rightarrow> 'e) \<Rightarrow> path \<Rightarrow> manifest
     \<Rightarrow> world \<Rightarrow> ('e, world) outcome"
where
  "write_manifest env unserializable unwritable workspace m w =
     obind (omap_err unserializable (manifest_to_toml (dv_manifest_to_toml env) m)) (\<lambda>serialized.
     let p = path_join workspace (path_of ''akua.toml'')
     in omap_err (unwritable p) (fs_write p serialized w))"

definition write_lock ::
  "('vk, 'sk, 'sg, 'v, 'r, 'g) dep_env \<Rightarrow> (lock_load_error \<Rightarrow> 'e) \<Rightarrow> path \<Rightarrow> akua_lock \<Rightarrow> world \<Rightarrow> ('e, world) outcome"
where
  "write_lock env mk workspace l w = omap_err mk (save_lock (dv_lock_to_toml env) l workspace w)"

text \<open>The digests that bind OCI dependencies: of several entries of a name the last one counts.\<close>

definition oci_pins :: "akua_lock \<Rightarrow> (string, string) btree" where
  "oci_pins l = foldl (\<lambda>m p. bt_insert (lp_name p) (lp_digest p) m) [] (filter lp_is_oci (packages l))"

definition lock_or_empty ::
  "('vk, 'sk, 'sg, 'v, 'r, 'g) dep_env \<Rightarrow> path \<Rightarrow> world \<Rightarrow> ('e, akua_lock) outcome"
where
  "lock_or_empty env workspace w =
     (case load_lock (dv_lock_of_toml env) w workspace of
        Ok l \<Rightarrow> Ok l | Err _ \<Rightarrow> Ok empty_lock | Panic \<Rightarrow> Panic)"

fun chart_error_code :: "chart_error \<Rightarrow> string" where
  "chart_error_code (AbsolutePathRejected _ _) = E_PATH_ESCAPE"
| "chart_error_code (PathEscape _ _ _ _) = E_PATH_ESCAPE"
| "chart_error_code _ = ''E_DEP_RESOLVE''"

definition chart_version :: "resolved_chart \<Rightarrow> string" where
  "chart_version c = fst (snd (to_locked_fields (rc_source c)))"

section \<open>\<open>akua lock\<close>\<close>

record locked_summary =
  ls_name :: string
  ls_version :: string
  ls_digest :: string
  ls_source_kind :: string

record lock_output =
  lo_wrote :: bool
  lo_drift :: bool
  lo_locked :: "locked_summary list"

datatype lock_verb_error =
  LkManifest manifest_load_error
| LkLock lock_load_error
| LkResolve chart_error
| LkDrift
| LkKindMismatch string
| LkStdoutWrite io_error

definition lock_drift_text :: string where
  "lock_drift_text = ''lockfile drift detected '' @ em_dash
     @ '' on-disk akua.lock doesn't match what `akuapkg lock` would write''"

definition kind_mismatch_text :: "string \<Rightarrow> string" where
  "kind_mismatch_text alias =
     ''dep `'' @ alias @ ''` is referenced by `import '' @ alias @ ''` but resolves as a Helm chart '' @ em_dash
     @ '' only KCL / Akua-package deps can be imported. Either remove the import or change the dep declaration.''"

fun lock_verb_to_structured :: "dep_texts \<Rightarrow> lock_verb_error \<Rightarrow> structured_error" where
  "lock_verb_to_structured t (LkManifest e) = with_default_docs (structured_new E_MANIFEST_PARSE (lt_manifest_load t e))"
| "lock_verb_to_structured t (LkLock e) = with_default_docs (structured_new E_LOCK_PARSE (lt_lock_load t e))"
| "lock_verb_to_structured t (LkResolve e) = with_default_docs (structured_new (chart_error_code e) (lt_chart t e))"
| "lock_verb_to_structured t LkDrift = with_default_docs (structured_new ''E_LOCK_DRIFT'' lock_drift_text)"
| "lock_verb_to_structured t (LkKindMismatch a) =
     with_default_docs (with_suggestion
       ''Remove the `import` for this alias, or replace the dep with a path/OCI reference to a KCL or Akua package (akua.toml + package.k, or kcl.mod).''
       (structured_new ''E_DEP_KIND_MISMATCH'' (kind_mismatch_text a)))"
| "lock_verb_to_structured t (LkStdoutWrite e) = with_default_docs (structured_new E_IO (io_msg e))"

fun lock_verb_is_system :: "lock_verb_error \<Rightarrow> bool" where
  "lock_verb_is_system (LkStdoutWrite _) = True"
| "lock_verb_is_system _ = False"

definition lock_verb_exit_code :: "lock_verb_error \<Rightarrow> exit_code" where
  "lock_verb_exit_code e = (if lock_verb_is_system e then SystemError else UserError)"

definition locked_summary_of :: "resolved_chart \<Rightarrow> locked_summary" where
  "locked_summary_of c = \<lparr>ls_name = rc_name c, ls_version = chart_version c, ls_digest = rc_sha256 c,
     ls_source_kind = kind_str (rc_source c)\<rparr>"

definition lock_output_of :: "bool \<Rightarrow> bool \<Rightarrow> resolved_charts \<Rightarrow> lock_output" where
  "lock_output_of wrote drift resolved =
     \<lparr>lo_wrote = wrote, lo_drift = drift,
      lo_locked = sort_key ls_name (map (locked_summary_of \<circ> snd) resolved)\<rparr>"

definition lock_to_canonical_toml ::
  "('vk, 'sk, 'sg, 'v, 'r, 'g) dep_env \<Rightarrow> akua_lock \<Rightarrow> ('e, string) outcome"
where
  "lock_to_canonical_toml env l = expect_ok (dv_lock_to_toml env (sort_lock l))"

definition check_imports ::
  "path \<Rightarrow> resolved_charts \<Rightarrow> world \<Rightarrow> (lock_verb_error, unit) outcome"
where
  "check_imports workspace resolved w =
     (case read_to_string w (path_join workspace (path_of ''package.k'')) of
        Ok source_text \<Rightarrow>
          (case validate_import_kinds source_text resolved of
             [] \<Rightarrow> Ok ()
           | mismatch # _ \<Rightarrow> Err (LkKindMismatch (im_alias mismatch)))
      | Err _ \<Rightarrow> Ok ()
      | Panic \<Rightarrow> Panic)"

text \<open>
  The run up to the output that is emitted. Under \<open>--check\<close> a drift is emitted first and then reported as an
  error by \<open>lock_verdict\<close>.
\<close>

definition lock_verb ::
  "('vk, 'sk, 'sg, 'v::linorder, 'r, 'g) dep_env \<Rightarrow> path \<Rightarrow> bool \<Rightarrow> dep_state
     \<Rightarrow> ((lock_verb_error, lock_output) outcome \<times> dep_state) option"
where
  "lock_verb env workspace check_only =
     rbind (dep_read (dep_manifest env LkManifest workspace)) (\<lambda>m.
     rbind (dep_read (lock_or_empty env workspace)) (\<lambda>prior.
     rbind (dep_map_err LkResolve (dep_resolve env m workspace (oci_pins prior))) (\<lambda>resolved.
     rbind (dep_read (check_imports workspace resolved)) (\<lambda>_.
     rbind (rpure (merge_into_lock prior resolved)) (\<lambda>new_lock.
     rbind (rpure (lock_to_canonical_toml env prior)) (\<lambda>prior_bytes.
     rbind (rpure (lock_to_canonical_toml env new_lock)) (\<lambda>new_bytes.
     rbind (if check_only then rpure (Ok ()) else dep_write (write_lock env LkLock workspace new_lock)) (\<lambda>_.
     rpure (Ok (lock_output_of (\<not> check_only) (prior_bytes \<noteq> new_bytes) resolved))))))))))"

definition lock_verdict :: "bool \<Rightarrow> lock_output \<Rightarrow> (lock_verb_error, unit) outcome" where
  "lock_verdict check_only out = (if check_only \<and> lo_drift out then Err LkDrift else Ok ())"

definition lock_text :: "lock_output \<Rightarrow> string \<Rightarrow> string" where
  "lock_text out buf =
     buf
     @ (if lo_locked out = [] then ''no dependencies to lock\<newline>''
        else ''locked '' @ show_nat (length (lo_locked out)) @ '' package(s):\<newline>''
          @ concat (map (\<lambda>p. ''  ['' @ ls_source_kind p @ ''] '' @ ls_name p @ '' '' @ ls_version p @ ''  ''
              @ ls_digest p @ ''\<newline>'') (lo_locked out)))
     @ (if lo_drift out \<and> \<not> lo_wrote out
        then ''DRIFT '' @ em_dash @ '' akua.lock is out of date with akua.toml\<newline>''
        else if lo_wrote out \<and> lo_drift out then ''updated akua.lock\<newline>''
        else if lo_wrote out then ''akua.lock up to date\<newline>'' else [])"

section \<open>\<open>akua update\<close>\<close>

record updated_entry =
  ue_name :: string
  ue_version :: string
  ue_from :: "string option"
  ue_to :: string
  ue_source_kind :: string

record update_output =
  uo_updated :: "updated_entry list"
  uo_unchanged :: "string list"
  uo_skipped :: "string list"

datatype update_error =
  UdManifest manifest_load_error
| UdLock lock_load_error
| UdResolve chart_error
| UdUnknownDep string
| UdStdoutWrite io_error

fun update_to_structured :: "dep_texts \<Rightarrow> update_error \<Rightarrow> structured_error" where
  "update_to_structured t (UdManifest e) = with_default_docs (structured_new E_MANIFEST_PARSE (lt_manifest_load t e))"
| "update_to_structured t (UdLock e) = with_default_docs (structured_new E_LOCK_PARSE (lt_lock_load t e))"
| "update_to_structured t (UdResolve e) = with_default_docs (structured_new (chart_error_code e) (lt_chart t e))"
| "update_to_structured t (UdUnknownDep name) =
     with_default_docs (structured_new ''E_ADD_INVALID_DEP'' (''no dep named `'' @ name @ ''` declared in akua.toml''))"
| "update_to_structured t (UdStdoutWrite e) = with_default_docs (structured_new E_IO (io_msg e))"

fun update_is_system :: "update_error \<Rightarrow> bool" where
  "update_is_system (UdStdoutWrite _) = True"
| "update_is_system _ = False"

definition update_exit_code :: "update_error \<Rightarrow> exit_code" where
  "update_exit_code e = (if update_is_system e then SystemError else UserError)"

text \<open>What one resolved chart adds to the report: the loop over the resolved charts.\<close>

definition update_step :: "akua_lock \<Rightarrow> string option \<Rightarrow> update_output \<Rightarrow> resolved_chart \<Rightarrow> update_output" where
  "update_step prior dep out c =
     (if dep \<noteq> None \<and> dep \<noteq> Some (rc_name c) then out\<lparr>uo_skipped := uo_skipped out @ [rc_name c]\<rparr>
      else let prior_digest = map_option lp_digest (find_locked prior (rc_name c))
           in if prior_digest = Some (rc_sha256 c) then out\<lparr>uo_unchanged := uo_unchanged out @ [rc_name c]\<rparr>
              else out\<lparr>uo_updated := uo_updated out @
                     [\<lparr>ue_name = rc_name c, ue_version = chart_version c, ue_from = prior_digest,
                       ue_to = rc_sha256 c, ue_source_kind = kind_str (rc_source c)\<rparr>]\<rparr>)"

definition sort_update :: "update_output \<Rightarrow> update_output" where
  "sort_update out = \<lparr>uo_updated = sort_key ue_name (uo_updated out), uo_unchanged = sort (uo_unchanged out),
     uo_skipped = sort (uo_skipped out)\<rparr>"

definition update_report :: "akua_lock \<Rightarrow> string option \<Rightarrow> resolved_charts \<Rightarrow> update_output" where
  "update_report prior dep resolved =
     sort_update (foldl (update_step prior dep) \<lparr>uo_updated = [], uo_unchanged = [], uo_skipped = []\<rparr> (map snd resolved))"

definition retained :: "string option \<Rightarrow> resolved_charts \<Rightarrow> resolved_charts" where
  "retained dep resolved = (case dep of None \<Rightarrow> resolved | Some target \<Rightarrow> filter (\<lambda>(k, _). k = target) resolved)"

definition update_verb ::
  "('vk, 'sk, 'sg, 'v::linorder, 'r, 'g) dep_env \<Rightarrow> path \<Rightarrow> string option \<Rightarrow> dep_state
     \<Rightarrow> ((update_error, update_output) outcome \<times> dep_state) option"
where
  "update_verb env workspace dep =
     rbind (dep_read (dep_manifest env UdManifest workspace)) (\<lambda>m.
     rbind (rpure (case dep of
         Some name \<Rightarrow> if bt_get (m_dependencies m) name = None then Err (UdUnknownDep name) else Ok ()
       | None \<Rightarrow> Ok ())) (\<lambda>_.
     rbind (dep_read (lock_or_empty env workspace)) (\<lambda>prior.
     rbind (dep_map_err UdResolve (dep_resolve env m workspace [])) (\<lambda>resolved.
     rbind (rpure (merge_into_lock prior (retained dep resolved))) (\<lambda>new_lock.
     rbind (dep_write (write_lock env UdLock workspace new_lock)) (\<lambda>_.
     rpure (Ok (update_report prior dep resolved))))))))"

definition update_text :: "update_output \<Rightarrow> string \<Rightarrow> string" where
  "update_text out buf =
     buf
     @ (if uo_updated out = [] \<and> uo_unchanged out = [] \<and> uo_skipped out = [] then ''no dependencies declared\<newline>''
        else
          (if uo_updated out = [] then []
           else ''updated '' @ show_nat (length (uo_updated out)) @ '' package(s):\<newline>''
             @ concat (map (\<lambda>u. ''  ['' @ ue_source_kind u @ ''] '' @ ue_name u @ '' '' @ ue_version u @ ''  ''
                 @ (case ue_from u of Some d \<Rightarrow> d | None \<Rightarrow> ''(new)'') @ '' '' @ [CHR 0xE2, CHR 0x86, CHR 0x92] @ '' ''
                 @ ue_to u @ ''\<newline>'') (uo_updated out)))
          @ (if uo_unchanged out = [] then [] else ''unchanged: '' @ join_with '', '' (uo_unchanged out) @ ''\<newline>'')
          @ (if uo_skipped out = [] then []
             else ''skipped (--dep filter): '' @ join_with '', '' (uo_skipped out) @ ''\<newline>''))"

section \<open>\<open>akua add\<close>\<close>

datatype add_source =
  AddOci string
| AddGit string
| AddPath string
| AddRepo string string

record add_args =
  aa_workspace :: path
  aa_name :: string
  aa_source :: add_source
  aa_version :: "string option"
  aa_tag :: "string option"
  aa_rev :: "string option"
  aa_force :: bool

record add_output =
  ao_name :: string
  ao_source :: string
  ao_source_ref :: string
  ao_version :: "string option"
  ao_replaced :: bool

datatype add_error =
  AdLoad manifest_load_error
| AdExists string
| AdValidate manifest_error
| AdIo path io_error
| AdResolve chart_error
| AdLockSave lock_load_error
| AdStdoutWrite io_error

fun add_to_structured :: "dep_texts \<Rightarrow> add_error \<Rightarrow> structured_error" where
  "add_to_structured t (AdLoad (ManifestMissing p)) =
     with_suggestion ''run `akuapkg init` first'' (manifest_load_to_structured (lt_manifest t) (ManifestMissing p))"
| "add_to_structured t (AdLoad e) = manifest_load_to_structured (lt_manifest t) e"
| "add_to_structured t (AdExists name) =
     with_default_docs (with_suggestion ''pass --force to replace the existing entry''
       (structured_new ''E_ADD_DEP_EXISTS''
         (''dep `'' @ name @ ''` already declared in akua.toml; pass --force to replace'')))"
| "add_to_structured t (AdValidate e) = with_default_docs (structured_new ''E_ADD_INVALID_DEP'' (lt_manifest t e))"
| "add_to_structured t (AdIo p e) = with_default_docs (with_path (path_str p) (structured_new E_IO (io_msg e)))"
| "add_to_structured t (AdResolve e) = with_default_docs (structured_new (chart_error_code e) (lt_chart t e))"
| "add_to_structured t (AdLockSave e) = lock_load_to_structured (lt_lock t) e"
| "add_to_structured t (AdStdoutWrite e) = with_default_docs (structured_new E_IO (io_msg e))"

fun add_is_system :: "add_error \<Rightarrow> bool" where
  "add_is_system (AdLoad e) = manifest_load_is_system e"
| "add_is_system (AdLockSave e) = lock_load_is_system e"
| "add_is_system (AdIo _ _) = True"
| "add_is_system (AdStdoutWrite _) = True"
| "add_is_system _ = False"

definition add_exit_code :: "add_error \<Rightarrow> exit_code" where
  "add_exit_code e = (if add_is_system e then SystemError else UserError)"

fun is_digest_drift :: "chart_error \<Rightarrow> bool" where
  "is_digest_drift (OciFetchFailed _ (LockDigestMismatch _ _ _ _)) = True"
| "is_digest_drift _ = False"

definition bare_dependency :: "string option \<Rightarrow> string option \<Rightarrow> string option \<Rightarrow> dependency" where
  "bare_dependency version tag commit = \<lparr>dep_oci = None, dep_git = None, dep_path = None, dep_repo = None,
     dep_chart = None, dep_version = version, dep_tag = tag, dep_rev = commit, dep_replace = None\<rparr>"

definition build_dependency ::
  "add_source \<Rightarrow> string option \<Rightarrow> string option \<Rightarrow> string option \<Rightarrow> dependency"
where
  "build_dependency src version tag commit =
     (let dep = bare_dependency version tag commit
      in case src of
           AddOci s \<Rightarrow> dep\<lparr>dep_oci := Some s\<rparr>
         | AddGit s \<Rightarrow> dep\<lparr>dep_git := Some s\<rparr>
         | AddPath s \<Rightarrow> dep\<lparr>dep_path := Some s\<rparr>
         | AddRepo repo chart \<Rightarrow> dep\<lparr>dep_repo := Some repo, dep_chart := Some chart\<rparr>)"

fun source_label :: "add_source \<Rightarrow> string" where
  "source_label (AddOci _) = ''oci''"
| "source_label (AddGit _) = ''git''"
| "source_label (AddPath _) = ''path''"
| "source_label (AddRepo _ _) = ''helm''"

fun source_ref :: "add_source \<Rightarrow> string" where
  "source_ref (AddOci s) = s"
| "source_ref (AddGit s) = s"
| "source_ref (AddPath s) = s"
| "source_ref (AddRepo repo _) = repo"

definition lock_unless_missing ::
  "('vk, 'sk, 'sg, 'v, 'r, 'g) dep_env \<Rightarrow> path \<Rightarrow> world \<Rightarrow> (add_error, akua_lock) outcome"
where
  "lock_unless_missing env workspace w =
     (case load_lock (dv_lock_of_toml env) w workspace of
        Err (LockMissing _) \<Rightarrow> Ok empty_lock
      | r \<Rightarrow> omap_err AdLockSave r)"

text \<open>The part that resolves and locks: only a digest that differs from the locked one is an error.\<close>

definition add_lock ::
  "('vk, 'sk, 'sg, 'v::linorder, 'r, 'g) dep_env \<Rightarrow> path \<Rightarrow> manifest \<Rightarrow> akua_lock \<Rightarrow> dep_state
     \<Rightarrow> ((add_error, unit) outcome \<times> dep_state) option"
where
  "add_lock env workspace m prior s =
     (case dep_resolve env m workspace (oci_pins prior) s of
        None \<Rightarrow> None
      | Some (Ok resolved, s1) \<Rightarrow>
          rbind (rpure (merge_into_lock prior resolved)) (\<lambda>lock. dep_write (write_lock env AdLockSave workspace lock)) s1
      | Some (Err e, s1) \<Rightarrow> Some (if is_digest_drift e then Err (AdResolve e) else Ok (), s1)
      | Some (Panic, s1) \<Rightarrow> Some (Panic, s1))"

definition add_verb ::
  "('vk, 'sk, 'sg, 'v::linorder, 'r, 'g) dep_env \<Rightarrow> add_args \<Rightarrow> dep_state
     \<Rightarrow> ((add_error, add_output) outcome \<times> dep_state) option"
where
  "add_verb env args =
     rbind (dep_read (dep_manifest env AdLoad (aa_workspace args))) (\<lambda>m.
     let already = (bt_get (m_dependencies m) (aa_name args) \<noteq> None);
         dep = build_dependency (aa_source args) (aa_version args) (aa_tag args) (aa_rev args);
         m' = m\<lparr>m_dependencies := bt_insert (aa_name args) dep (m_dependencies m)\<rparr>
     in rbind (rpure (if already \<and> \<not> aa_force args then Err (AdExists (aa_name args)) else Ok ())) (\<lambda>_.
        rbind (rpure (omap_err AdValidate (validate_dep (aa_name args) dep))) (\<lambda>_.
        rbind (dep_write (write_manifest env AdValidate AdIo (aa_workspace args) m')) (\<lambda>_.
        rbind (dep_read (lock_unless_missing env (aa_workspace args))) (\<lambda>prior.
        rbind (add_lock env (aa_workspace args) m' prior) (\<lambda>_.
        rpure (Ok \<lparr>ao_name = aa_name args, ao_source = source_label (aa_source args),
                   ao_source_ref = source_ref (aa_source args), ao_version = aa_version args,
                   ao_replaced = already\<rparr>)))))))"

definition add_text :: "add_output \<Rightarrow> string \<Rightarrow> string" where
  "add_text out buf =
     buf @ (if ao_replaced out then ''replaced'' else ''added'') @ '' '' @ ao_name out
     @ (case ao_version out of Some v \<Rightarrow> CHR ''@'' # v | None \<Rightarrow> [])
     @ '' ('' @ ao_source out @ '': '' @ ao_source_ref out @ '')\<newline>''"

section \<open>\<open>akua remove\<close>\<close>

record remove_args =
  ra_workspace :: path
  ra_name :: string
  ra_ignore_missing :: bool

record remove_output =
  ro_name :: string
  ro_removed :: bool

datatype remove_error =
  RmLoad manifest_load_error
| RmSerialize manifest_error
| RmNotFound string
| RmIo path io_error
| RmLock lock_load_error
| RmStdoutWrite io_error

fun remove_to_structured :: "dep_texts \<Rightarrow> remove_error \<Rightarrow> structured_error" where
  "remove_to_structured t (RmLoad e) = manifest_load_to_structured (lt_manifest t) e"
| "remove_to_structured t (RmSerialize e) = with_default_docs (structured_new E_MANIFEST_PARSE (lt_manifest t e))"
| "remove_to_structured t (RmNotFound name) =
     with_default_docs (with_suggestion ''pass --ignore-missing to make this a no-op''
       (structured_new ''E_REMOVE_NOT_FOUND'' (''dep `'' @ name @ ''` not present in akua.toml'')))"
| "remove_to_structured t (RmIo p e) = with_default_docs (with_path (path_str p) (structured_new E_IO (io_msg e)))"
| "remove_to_structured t (RmLock e) = lock_load_to_structured (lt_lock t) e"
| "remove_to_structured t (RmStdoutWrite e) = with_default_docs (structured_new E_IO (io_msg e))"

fun remove_is_system :: "remove_error \<Rightarrow> bool" where
  "remove_is_system (RmLoad e) = manifest_load_is_system e"
| "remove_is_system (RmLock e) = lock_load_is_system e"
| "remove_is_system (RmIo _ _) = True"
| "remove_is_system (RmStdoutWrite _) = True"
| "remove_is_system _ = False"

definition remove_exit_code :: "remove_error \<Rightarrow> exit_code" where
  "remove_exit_code e = (if remove_is_system e then SystemError else UserError)"

definition prune :: "string \<Rightarrow> akua_lock \<Rightarrow> akua_lock" where
  "prune name l = l\<lparr>packages := filter (\<lambda>p. lp_name p \<noteq> name) (packages l)\<rparr>"

definition prune_lock ::
  "('vk, 'sk, 'sg, 'v, 'r, 'g) dep_env \<Rightarrow> remove_args \<Rightarrow> world \<Rightarrow> (remove_error, world) outcome"
where
  "prune_lock env args w =
     (case load_lock (dv_lock_of_toml env) w (ra_workspace args) of
        Ok l \<Rightarrow>
          (if length (packages (prune (ra_name args) l)) \<noteq> length (packages l)
           then write_lock env RmLock (ra_workspace args) (prune (ra_name args) l) w
           else Ok w)
      | Err (LockMissing _) \<Rightarrow> Ok w
      | Err e \<Rightarrow> Err (RmLock e)
      | Panic \<Rightarrow> Panic)"

definition remove_verb ::
  "('vk, 'sk, 'sg, 'v, 'r, 'g) dep_env \<Rightarrow> remove_args \<Rightarrow> dep_state
     \<Rightarrow> ((remove_error, remove_output) outcome \<times> dep_state) option"
where
  "remove_verb env args =
     rbind (dep_read (dep_manifest env RmLoad (ra_workspace args))) (\<lambda>m.
     let removed = (bt_get (m_dependencies m) (ra_name args) \<noteq> None);
         m' = m\<lparr>m_dependencies := bt_remove (ra_name args) (m_dependencies m)\<rparr>
     in rbind (rpure (if \<not> removed \<and> \<not> ra_ignore_missing args then Err (RmNotFound (ra_name args)) else Ok ())) (\<lambda>_.
        rbind (if removed then dep_write (write_manifest env RmSerialize RmIo (ra_workspace args) m')
               else rpure (Ok ())) (\<lambda>_.
        rbind (if removed then dep_write (prune_lock env args) else rpure (Ok ())) (\<lambda>_.
        rpure (Ok \<lparr>ro_name = ra_name args, ro_removed = removed\<rparr>)))))"

definition remove_text :: "remove_output \<Rightarrow> string \<Rightarrow> string" where
  "remove_text out buf =
     buf @ (if ro_removed out then ''removed '' @ ro_name out @ ''\<newline>''
            else ''no-op (dep `'' @ ro_name out @ ''` was already absent)\<newline>'')"

section \<open>How their errors are reported\<close>

lemmas dep_reports = structured_defs lock_verb_exit_code_def update_exit_code_def add_exit_code_def remove_exit_code_def

interpretation lock_verb_errors: reported_error "lock_verb_to_structured t" lock_verb_is_system lock_verb_exit_code for t
proof unfold_locales
  fix e
  show "docs (lock_verb_to_structured t e) = Some (error_docs_base @ ''/'' @ code (lock_verb_to_structured t e))"
    "level (lock_verb_to_structured t e) = Error" by (cases e; simp add: dep_reports)+
qed (simp_all add: dep_reports)

interpretation update_errors: reported_error "update_to_structured t" update_is_system update_exit_code for t
proof unfold_locales
  fix e
  show "docs (update_to_structured t e) = Some (error_docs_base @ ''/'' @ code (update_to_structured t e))"
    "level (update_to_structured t e) = Error" by (cases e; simp add: dep_reports)+
qed (simp_all add: dep_reports)

lemma manifest_load_reported:
  "docs (manifest_load_to_structured d e) = Some (error_docs_base @ ''/'' @ code (manifest_load_to_structured d e))"
  "level (manifest_load_to_structured d e) = Error"
  by (cases e; simp add: structured_defs)+

lemma lock_load_reported:
  "docs (lock_load_to_structured d e) = Some (error_docs_base @ ''/'' @ code (lock_load_to_structured d e))"
  "level (lock_load_to_structured d e) = Error"
  by (cases e; simp add: structured_defs)+

interpretation add_errors: reported_error "add_to_structured t" add_is_system add_exit_code for t
proof unfold_locales
  fix e
  show "docs (add_to_structured t e) = Some (error_docs_base @ ''/'' @ code (add_to_structured t e))"
    by (cases "(t, e)" rule: add_to_structured.cases)
      (simp_all add: dep_reports manifest_load_reported lock_load_reported)
  show "level (add_to_structured t e) = Error"
    by (cases "(t, e)" rule: add_to_structured.cases)
      (simp_all add: dep_reports manifest_load_reported lock_load_reported)
qed (simp_all add: dep_reports)

interpretation remove_errors: reported_error "remove_to_structured t" remove_is_system remove_exit_code for t
proof unfold_locales
  fix e
  show "docs (remove_to_structured t e) = Some (error_docs_base @ ''/'' @ code (remove_to_structured t e))"
    "level (remove_to_structured t e) = Error"
    by (cases e; simp add: dep_reports manifest_load_reported lock_load_reported)+
qed (simp_all add: dep_reports)

end
