(* ===== verification/LockVerbsSpec.thy ===== *)
theory LockVerbsSpec
  imports LockVerbs ResolverSpec
begin

text \<open>
  What the verbs that edit \<open>akua.toml\<close> and \<open>akua.lock\<close> guarantee: what is on disk afterwards, that locking is
  stable, what an update leaves alone; and where an old entry of the lock binds a new version.
\<close>

section \<open>Steps\<close>

lemma dep_read_Ok [outcome_simps]: "dep_read f s = Some (Ok a, s') \<longleftrightarrow> f (fst s) = Ok a \<and> s' = s"
  by (auto simp: dep_read_def)

lemma dep_read_Err: "dep_read f s = Some (Err e, s') \<longleftrightarrow> f (fst s) = Err e \<and> s' = s"
  by (auto simp: dep_read_def)

lemma dep_write_Ok [outcome_simps]:
  "dep_write f s = Some (Ok u, s') \<longleftrightarrow> (\<exists>w. f (fst s) = Ok w \<and> s' = (w, snd s))"
  by (auto simp: dep_write_def split: outcome.splits)

lemma dep_write_Err: "dep_write f s = Some (Err e, s') \<longleftrightarrow> f (fst s) = Err e \<and> s' = s"
  by (auto simp: dep_write_def split: outcome.splits)

lemma dep_map_err_Ok [outcome_simps]: "dep_map_err g m s = Some (Ok a, s') \<longleftrightarrow> m s = Some (Ok a, s')"
  by (auto simp: dep_map_err_def outcome_simps split: prod.splits)

lemma dep_map_err_Err: "dep_map_err g m s = Some (Err e, s') \<longleftrightarrow> (\<exists>e'. m s = Some (Err e', s') \<and> e = g e')"
  by (auto simp: dep_map_err_def outcome_simps split: prod.splits)

lemma dep_resolve_Ok:
  "dep_resolve env m ws pins s = Some (Ok cs, s') \<longleftrightarrow>
     resolve_with_options (dv_resolver env) m ws (online_with (fst s) pins) (fst s) (snd s) = Some (Ok (cs, fst s'), snd s')"
proof (cases "resolve_with_options (dv_resolver env) m ws (online_with (fst s) pins) (fst s) (snd s)")
  case (Some rn)
  then show ?thesis
    by (cases s'; cases rn; cases "fst rn") (auto simp: dep_resolve_def)
qed (simp add: dep_resolve_def)

lemma dep_rbind_Err:
  "rbind m f s = Some (Err e, s') \<longleftrightarrow>
     m s = Some (Err e, s') \<or> (\<exists>a s1. m s = Some (Ok a, s1) \<and> f a s1 = Some (Err e, s'))"
  by (auto simp: rbind_def split: option.splits prod.splits outcome.splits)

lemma dep_rpure_Err: "rpure r s = Some (Err e, s') \<longleftrightarrow> r = Err e \<and> s' = s"
  by (auto simp: rpure_def)

lemmas dep_errors = dep_rbind_Err dep_rpure_Err dep_read_Err dep_write_Err dep_map_err_Err

lemma lock_or_empty_Ok:
  "lock_or_empty env ws w = Ok l \<longleftrightarrow>
     load_lock (dv_lock_of_toml env) w ws = Ok l
     \<or> ((\<exists>e. load_lock (dv_lock_of_toml env) w ws = Err e) \<and> l = empty_lock)"
  by (auto simp: lock_or_empty_def split: outcome.splits)

lemma resolved_names:
  assumes "bt_inv (m_dependencies m)" "resolve_with_options R m ws opts w n = Some (Ok (cs, w'), n')"
  shows "bt_inv cs" "\<forall>(k, c) \<in> set cs. rc_name c = k"
proof -
  note steps = resolve_with_options_steps [OF assms]
  show "bt_inv cs" using assms(1) steps(2) by (simp add: bt_inv_def)
  from steps(1) have "\<forall>kc \<in> set cs. \<exists>x. step_result R ws opts x kc"
    by (induction rule: list_all2_induct) auto
  then show "\<forall>(k, c) \<in> set cs. rc_name c = k"
    by (auto simp: step_result_def sound_chart_def dest!: resolve_dep_sound)
qed

lemma resolved_one:
  assumes "bt_inv (m_dependencies m)" "resolve_with_options R m ws opts w n = Some (Ok (cs, w'), n')"
    and "(name, dep) \<in> set (m_dependencies m)"
  obtains c w1 where "(name, c) \<in> set cs" "w1 \<in> set (step_worlds R ws opts (m_dependencies m) w n)"
    "sound_chart w1 ws opts name dep c"
proof -
  note steps = resolve_with_options_steps [OF assms(1,2)]
  from assms(3) obtain i where i: "i < length (m_dependencies m)" "m_dependencies m ! i = (name, dep)"
    by (auto simp: in_set_conv_nth)
  from steps(2) have len: "length cs = length (m_dependencies m)" by (metis length_map)
  let ?ws = "step_worlds R ws opts (m_dependencies m) w n"
  from steps(1) i len steps(3) have step: "step_result R ws opts ((name, dep), ?ws ! i) (cs ! i)"
    unfolding list_all2_conv_all_nth by (metis length_zip min.idem nth_zip)
  then obtain c where "cs ! i = (name, c)" "sound_chart (?ws ! i) ws opts name dep c"
    by (cases "cs ! i") (auto simp: step_result_def dest: resolve_dep_sound)
  with that [of c "?ws ! i"] i len steps(3) show thesis by (metis nth_mem)
qed

lemma write_lock_Ok:
  "write_lock env mk ws l w = Ok w' \<longleftrightarrow>
     (\<exists>body. dv_lock_to_toml env (sort_lock l) = Ok body \<and> fs_write (lock_path ws) (lock_header @ body) w = Ok w')"
  by (auto simp: write_lock_def save_lock_def Let_def outcome_simps)

lemma merge_sorted:
  assumes "bt_inv cs" "\<forall>(k, c) \<in> set cs. rc_name c = k" "(merge_into_lock l cs :: ('e, akua_lock) outcome) = Ok l'"
  shows "sort_lock l' = l'"
  using assms(3) by (simp add: merge_into_lock_fold [OF chart_keys_distinct [OF assms(1,2)]])
    (metis sort_lock_idem)

section \<open>Locking\<close>

lemma expect_ok_eq: "expect_ok r = Ok a \<longleftrightarrow> r = Ok a"
  by (cases r) auto

lemma lock_verb_Ok:
  assumes "lock_verb env ws check_only s = Some (Ok out, s')"
  obtains m prior resolved s1 new_lock a b where
    "load_manifest (dv_manifest_of_toml env) (fst s) ws = Ok m"
    "(lock_or_empty env ws (fst s) :: (lock_verb_error, akua_lock) outcome) = Ok prior"
    "dep_resolve env m ws (oci_pins prior) s = Some (Ok resolved, s1)"
    "check_imports ws resolved (fst s1) = Ok ()"
    "(merge_into_lock prior resolved :: (lock_verb_error, akua_lock) outcome) = Ok new_lock"
    "dv_lock_to_toml env (sort_lock prior) = Ok a" "dv_lock_to_toml env (sort_lock new_lock) = Ok b"
    "if check_only then s' = s1 else \<exists>w. write_lock env LkLock ws new_lock (fst s1) = Ok w \<and> s' = (w, snd s1)"
    "out = lock_output_of (\<not> check_only) (a \<noteq> b) resolved"
proof -
  from assms that show thesis
    by (cases check_only) (auto simp: lock_verb_def dep_manifest_def lock_to_canonical_toml_def expect_ok_eq outcome_simps)
qed

text \<open>The lock on disk after a run that wrote it, where what is written can be read.\<close>

definition lock_codec :: "('vk, 'sk, 'sg, 'v, 'r, 'g) dep_env \<Rightarrow> bool" where
  "lock_codec env \<longleftrightarrow>
     (\<forall>l body. dv_lock_to_toml env l = Ok body \<longrightarrow> dv_lock_of_toml env (lock_header @ body) = Ok l)"

lemma written_lock_loads:
  assumes "write_lock env mk ws l w = Ok w'" "lock_codec env"
    and "load_lock (dv_lock_of_toml env) w' ws = Ok l'"
  shows "l' = sort_lock l"
proof -
  from assms(1) obtain body where body: "dv_lock_to_toml env (sort_lock l) = Ok body"
    "fs_write (lock_path ws) (lock_header @ body) w = Ok w'" unfolding write_lock_Ok by blast
  from fs_write_read [OF body(2)] assms(2,3) body(1) show ?thesis
    by (auto simp: load_lock_def parse_lock_def lock_codec_def outcome_simps)
qed

text \<open>
  C4. Locking is stable: right after \<open>akua lock\<close> has written the lock, \<open>akua lock --check\<close> of the same manifest
  finds no drift, as long as the dependencies still resolve to the same charts; it writes nothing.
\<close>

theorem lock_then_check_clean:
  assumes locked: "lock_verb env ws False s = Some (Ok out, s')"
    and m: "load_manifest (dv_manifest_of_toml env) (fst s) ws = Ok m" "bt_inv (m_dependencies m)"
    and prior: "(lock_or_empty env ws (fst s) :: (lock_verb_error, akua_lock) outcome) = Ok prior"
    and run: "dep_resolve env m ws (oci_pins prior) s = Some (Ok resolved, s1)"
    and codec: "lock_codec env"
    and later: "load_manifest (dv_manifest_of_toml env) (fst t) ws = Ok m"
      "load_lock (dv_lock_of_toml env) (fst s') ws = Ok l" "load_lock (dv_lock_of_toml env) (fst t) ws = Ok l"
    and again: "dep_resolve env m ws (oci_pins l) t = Some (Ok resolved, t1)"
      "check_imports ws resolved (fst t1) = Ok ()"
  shows "\<exists>out2. lock_verb env ws True t = Some (Ok out2, t1) \<and> \<not> lo_drift out2 \<and> lock_verdict True out2 = Ok ()
    \<and> lo_locked out2 = lo_locked out"
proof -
  from locked obtain m' prior' resolved' s1' new_lock a b where
    "load_manifest (dv_manifest_of_toml env) (fst s) ws = Ok m'"
    "(lock_or_empty env ws (fst s) :: (lock_verb_error, akua_lock) outcome) = Ok prior'"
    "dep_resolve env m' ws (oci_pins prior') s = Some (Ok resolved', s1')"
    and f: "check_imports ws resolved' (fst s1') = Ok ()"
    "(merge_into_lock prior' resolved' :: (lock_verb_error, akua_lock) outcome) = Ok new_lock"
    "dv_lock_to_toml env (sort_lock prior') = Ok a" "dv_lock_to_toml env (sort_lock new_lock) = Ok b"
    "if False then s' = s1' else \<exists>w. write_lock env LkLock ws new_lock (fst s1') = Ok w \<and> s' = (w, snd s1')"
    and out: "out = lock_output_of (\<not> False) (a \<noteq> b) resolved'"
    by (rule lock_verb_Ok)
  with m prior run have [simp]: "m' = m" "prior' = prior" "resolved' = resolved" "s1' = s1" by auto
  from f(5) obtain w where w: "write_lock env LkLock ws new_lock (fst s1) = Ok w" "fst s' = w" by auto
  note names = resolved_names [OF m(2) run [unfolded dep_resolve_Ok]]
  have sorted: "sort_lock new_lock = new_lock" using merge_sorted [OF names f(2) [simplified]] .
  have l: "l = new_lock"
    using written_lock_loads [OF w(1) codec later(2) [unfolded w(2)]] sorted by simp
  have idem: "(merge_into_lock l resolved :: (lock_verb_error, akua_lock) outcome) = Ok l"
    using merge_into_lock_idem [OF names f(2) [simplified]] l by simp
  have "lock_verb env ws True t = Some (Ok (lock_output_of False False resolved), t1)"
    using later again idem f(4) sorted l
    by (simp add: lock_verb_def rbind_def dep_read_def dep_manifest_def lock_or_empty_def dep_map_err_def rpure_def
        lock_to_canonical_toml_def)
  then show ?thesis by (simp add: lock_verdict_def lock_output_of_def out)
qed

lemma fold_upserted_fresh:
  "distinct (map lp_key es) \<Longrightarrow> lp_key ` set es \<inter> lp_key ` set (packages k) = {} \<Longrightarrow>
     fold upserted es k = k\<lparr>packages := packages k @ es\<rparr>"
proof (induction es arbitrary: k)
  case (Cons e es)
  from Cons.prems(2) have "lp_key e \<notin> lp_key ` set (packages k)" by simp
  then have "position (\<lambda>p. lp_key p = lp_key e) (packages k) = None"
    unfolding position_None_iff by (metis image_eqI)
  then have "upserted e k = k\<lparr>packages := packages k @ [e]\<rparr>" by (simp add: upserted_def)
  with Cons.prems Cons.IH [of "upserted e k"] show ?case by auto
qed simp

text \<open>
  A lock that cannot be loaded is replaced without a word. Whatever is wrong with \<open>akua.lock\<close>, an entry out of
  order, an unknown digest, an i/o error, \<open>akua lock\<close> takes it as no lock at all: no digest is enforced, and the
  lock that it writes carries no signature and no attestation.
\<close>

theorem lock_forgets_bad_lock:
  assumes locked: "lock_verb env ws False s = Some (Ok out, s')"
    and bad: "load_lock (dv_lock_of_toml env) (fst s) ws = Err e"
    and m: "load_manifest (dv_manifest_of_toml env) (fst s) ws = Ok m" "bt_inv (m_dependencies m)"
    and codec: "lock_codec env" "load_lock (dv_lock_of_toml env) (fst s') ws = Ok l"
  shows "(\<exists>resolved s1. dep_resolve env m ws [] s = Some (Ok resolved, s1)
       \<and> lp_key ` set (packages l) = chart_key ` snd ` set resolved)
    \<and> (\<forall>p \<in> set (packages l). lp_signature p = None \<and> lp_attestation p = None)"
proof -
  from locked obtain m' prior resolved s1 new_lock a b where
    f: "load_manifest (dv_manifest_of_toml env) (fst s) ws = Ok m'"
    "(lock_or_empty env ws (fst s) :: (lock_verb_error, akua_lock) outcome) = Ok prior"
    "dep_resolve env m' ws (oci_pins prior) s = Some (Ok resolved, s1)"
    "check_imports ws resolved (fst s1) = Ok ()"
    "(merge_into_lock prior resolved :: (lock_verb_error, akua_lock) outcome) = Ok new_lock"
    "dv_lock_to_toml env (sort_lock prior) = Ok a" "dv_lock_to_toml env (sort_lock new_lock) = Ok b"
    "if False then s' = s1 else \<exists>w. write_lock env LkLock ws new_lock (fst s1) = Ok w \<and> s' = (w, snd s1)"
    and "out = lock_output_of (\<not> False) (a \<noteq> b) resolved"
    by (rule lock_verb_Ok)
  from f(1) m(1) have [simp]: "m' = m" by simp
  from f(2) bad have [simp]: "prior = empty_lock" by (simp add: lock_or_empty_def)
  have [simp]: "oci_pins empty_lock = []" by (simp add: oci_pins_def empty_lock_def)
  from f(8) obtain w where w: "write_lock env LkLock ws new_lock (fst s1) = Ok w" "fst s' = w" by auto
  note names = resolved_names [OF m(2) f(3) [unfolded dep_resolve_Ok, simplified]]
  note dist = chart_keys_distinct [OF names]
  let ?es = "map (locked_of empty_lock \<circ> snd) resolved"
  have new: "new_lock = sort_lock (fold upserted ?es empty_lock)"
    using f(5) by (simp add: merge_into_lock_fold [OF dist])
  have l: "l = sort_lock new_lock" by (rule written_lock_loads [OF w(1) codec(1) codec(2) [unfolded w(2)]])
  have "set (packages l) = set ?es"
    using fold_upserted_fresh [of ?es empty_lock] dist by (simp add: l new sort_lock_def empty_lock_def comp_def)
  moreover have "lp_signature (locked_of empty_lock c) = None \<and> lp_attestation (locked_of empty_lock c) = None" for c
    by (simp add: locked_of_def locked_entry_def same_digest_def lock_get_def empty_lock_def split: prod.split)
  ultimately show ?thesis
    using f(3) by (force simp: image_image)
qed

section \<open>Old pins and new versions\<close>

lemma pins_foldl:
  "bt_get (foldl (\<lambda>m p. bt_insert (lp_name p) (lp_digest p) m) acc ps) name =
     (case find (\<lambda>p. lp_name p = name) (rev ps) of Some p \<Rightarrow> Some (lp_digest p) | None \<Rightarrow> bt_get acc name)"
  by (induction ps rule: rev_induct) (auto simp: bt_get_insert)

lemma find_rev_last:
  assumes "sorted (map f xs)" "x \<in> set xs" "P x" "\<And>y. y \<in> set xs \<Longrightarrow> P y \<Longrightarrow> y \<noteq> x \<Longrightarrow> f y < f x"
  shows "find P (rev xs) = Some x"
  using assms
proof (induction xs rule: rev_induct)
  case (snoc y xs)
  show ?case
  proof (cases "P y")
    case True
    have "y = x"
    proof (rule ccontr)
      assume "y \<noteq> x"
      with snoc.prems have "x \<in> set xs" "f y < f x" using True by auto
      with snoc.prems(1) show False by (force simp: sorted_append)
    qed
    with True show ?thesis by simp
  next
    case False
    with snoc.prems snoc.IH show ?thesis by (auto simp: sorted_append)
  qed
qed simp

lemma oci_pins_last:
  assumes "sorted (map lp_key (packages l))" "p \<in> set (packages l)" "lp_is_oci p" "lp_name p = name"
    and "\<And>q. q \<in> set (packages l) \<Longrightarrow> lp_name q = name \<Longrightarrow> q \<noteq> p \<Longrightarrow> lp_key q < lp_key p"
  shows "bt_get (oci_pins l) name = Some (lp_digest p)"
proof -
  have "find (\<lambda>p. lp_name p = name) (rev (filter lp_is_oci (packages l))) = Some p"
    by (rule find_rev_last [where f = lp_key]) (use assms in \<open>auto simp: sorted_filter\<close>)
  then show ?thesis by (simp add: oci_pins_def pins_foldl)
qed

lemma lock_get_distinct: "lock_distinct l \<Longrightarrow> q \<in> set (packages l) \<longleftrightarrow> lock_get l (lp_key q) = Some q"
proof -
  assume "lock_distinct l"
  then have d: "inj_on lp_key (set (packages l))" by (simp add: lock_distinct_def distinct_map)
  show ?thesis
  proof
    assume q: "q \<in> set (packages l)"
    then obtain r where r: "find (\<lambda>p. lp_key p = lp_key q) (packages l) = Some r"
      by (cases "find (\<lambda>p. lp_key p = lp_key q) (packages l)") (auto simp: find_None_iff)
    then have "r \<in> set (packages l)" "lp_key r = lp_key q" by (auto simp: find_Some_iff)
    with d q have "r = q" by (auto dest: inj_onD)
    with r show "lock_get l (lp_key q) = Some q" by (simp add: lock_get_def)
  qed (auto simp: lock_get_def find_Some_iff)
qed

lemma merged_distinct:
  assumes "bt_inv cs" "\<forall>(k, c) \<in> set cs. rc_name c = k" "(merge_into_lock l cs :: ('e, akua_lock) outcome) = Ok l'"
    and "lock_distinct l"
  shows "lock_distinct l'"
proof -
  have "lock_distinct (fold upserted es l)" if "lock_distinct l" for es l
    using that by (induction es arbitrary: l) (auto intro: lock_distinct_upserted)
  with assms(3,4) show ?thesis by (auto simp: merge_into_lock_fold [OF chart_keys_distinct [OF assms(1,2)]])
qed

lemma retained_names:
  assumes "bt_inv cs" "\<forall>(k, c) \<in> set cs. rc_name c = k"
  shows "bt_inv (retained dep cs)" "\<forall>(k, c) \<in> set (retained dep cs). rc_name c = k"
proof -
  have "sorted_wrt (<) (map fst (filter P cs))" if "sorted_wrt (<) (map fst cs)" for P :: "string \<times> resolved_chart \<Rightarrow> bool"
    using that by (induction cs) auto
  with assms show "bt_inv (retained dep cs)" by (simp add: retained_def bt_inv_def split: option.split)
  show "\<forall>(k, c) \<in> set (retained dep cs). rc_name c = k"
    using assms(2) by (auto simp: retained_def split: option.splits)
qed

lemma update_verb_Ok:
  assumes "update_verb env ws dep s = Some (Ok out, s')"
  obtains m prior resolved s1 new_lock w where
    "load_manifest (dv_manifest_of_toml env) (fst s) ws = Ok m"
    "\<forall>name. dep = Some name \<longrightarrow> bt_get (m_dependencies m) name \<noteq> None"
    "(lock_or_empty env ws (fst s) :: (update_error, akua_lock) outcome) = Ok prior"
    "dep_resolve env m ws [] s = Some (Ok resolved, s1)"
    "(merge_into_lock prior (retained dep resolved) :: (update_error, akua_lock) outcome) = Ok new_lock"
    "write_lock env UdLock ws new_lock (fst s1) = Ok w" "s' = (w, snd s1)"
    "out = update_report prior dep resolved"
  using assms that
  by (cases dep) (auto simp: update_verb_def dep_manifest_def outcome_simps split: if_splits)

text \<open>
  C35. An update keeps what it replaces. When a dependency goes from a version to one whose text is smaller
  (say from 9.0.0 to 10.0.0), \<open>akua update\<close> adds an entry for the new version and keeps the old one, and
  of the two the old digest is the one that \<open>lock\<close>, \<open>add\<close>, \<open>pack\<close> and \<open>publish\<close> enforce on the new
  version from then on.
\<close>

theorem update_keeps_old_pin:
  assumes run: "update_verb env ws dep s = Some (Ok out, s')"
    and m: "load_manifest (dv_manifest_of_toml env) (fst s) ws = Ok m" "bt_inv (m_dependencies m)"
    and prior: "load_lock (dv_lock_of_toml env) (fst s) ws = Ok prior" "lock_distinct prior"
      "p \<in> set (packages prior)" "lp_is_oci p" "\<forall>q \<in> set (packages prior). lp_name q = lp_name p \<longrightarrow> q = p"
    and resolved: "dep_resolve env m ws [] s = Some (Ok resolved, s1)" "(lp_name p, c) \<in> set resolved"
      "chart_version c < lp_version p"
    and codec: "lock_codec env" "load_lock (dv_lock_of_toml env) (fst s') ws = Ok l"
  shows "p \<in> set (packages l) \<and> bt_get (oci_pins l) (lp_name p) = Some (lp_digest p)"
proof -
  from run obtain m' prior' resolved' s1' new_lock w where
    "load_manifest (dv_manifest_of_toml env) (fst s) ws = Ok m'"
    "(lock_or_empty env ws (fst s) :: (update_error, akua_lock) outcome) = Ok prior'"
    "dep_resolve env m' ws [] s = Some (Ok resolved', s1')"
    and merge: "(merge_into_lock prior' (retained dep resolved') :: (update_error, akua_lock) outcome) = Ok new_lock"
    and w: "write_lock env UdLock ws new_lock (fst s1') = Ok w" "s' = (w, snd s1')"
    by (rule update_verb_Ok)
  with m prior(1) resolved(1) have [simp]: "m' = m" "prior' = prior" "resolved' = resolved"
    by (auto simp: lock_or_empty_def)
  note names = resolved_names [OF m(2) resolved(1) [unfolded dep_resolve_Ok]]
  note kept = retained_names [OF names, of dep]
  note dist = chart_keys_distinct [OF kept]
  have sorted: "sort_lock new_lock = new_lock" using merge_sorted [OF kept merge [simplified]] .
  have l: "l = new_lock" using written_lock_loads [OF w(1) codec(1)] codec(2) w(2) sorted by simp
  have ld: "lock_distinct l" unfolding l by (rule merged_distinct [OF kept merge [simplified] prior(2)])
  have keys: "chart_key c' = (lp_name p, chart_version c)"
    if "c' \<in> snd ` set (retained dep resolved)" "rc_name c' = lp_name p" for c'
  proof -
    from that(1) have "c' \<in> snd ` set resolved" by (auto simp: retained_def split: option.splits)
    with that(2) names(2) have "(lp_name p, c') \<in> set resolved" by force
    with resolved(2) names(1) have "c' = c"
      by (metis bt_get_Some_iff option.inject)
    with that(2) show ?thesis by (simp add: chart_key_def chart_version_def)
  qed
  have l': "l = sort_lock (fold upserted (map (locked_of prior \<circ> snd) (retained dep resolved)) prior)"
    using merge by (simp add: l merge_into_lock_fold [OF dist])
  note got = lock_get_merged [OF dist l']
  have "lp_key p \<notin> chart_key ` snd ` set (retained dep resolved)"
  proof
    assume "lp_key p \<in> chart_key ` snd ` set (retained dep resolved)"
    then obtain c' where c': "c' \<in> snd ` set (retained dep resolved)" "lp_key p = chart_key c'" by blast
    then have "rc_name c' = lp_name p" by (simp add: chart_key_def lp_key_def)
    from keys [OF c'(1) this] c'(2) resolved(3) show False by (simp add: lp_key_def)
  qed
  from got(2) [OF this] prior(2,3) have "lock_get l (lp_key p) = Some p" by (simp add: lock_get_distinct)
  then have pl: "p \<in> set (packages l)" using lock_get_distinct [OF ld] by simp
  have "lp_key q < lp_key p" if "q \<in> set (packages l)" "lp_name q = lp_name p" "q \<noteq> p" for q
  proof -
    from that(1) have q: "lock_get l (lp_key q) = Some q" using lock_get_distinct [OF ld] by simp
    show ?thesis
    proof (cases "lp_key q \<in> chart_key ` snd ` set (retained dep resolved)")
      case True
      then obtain c' where c': "c' \<in> snd ` set (retained dep resolved)" "lp_key q = chart_key c'" by blast
      then have "rc_name c' = lp_name p" using that(2) by (simp add: chart_key_def lp_key_def)
      from keys [OF c'(1) this] c'(2) resolved(3) that(2) show ?thesis by (simp add: lp_key_def)
    next
      case False
      from got(2) [OF this] q have "q \<in> set (packages prior)" by (simp add: lock_get_distinct [OF prior(2)])
      with prior(5) that show ?thesis by blast
    qed
  qed
  moreover have "sorted (map lp_key (packages l))" unfolding l' by (simp add: sort_lock_def)
  ultimately show ?thesis using oci_pins_last [OF _ pl prior(4) refl] pl by blast
qed

text \<open>
  The digest of an old version binds a new one: while the lock has an OCI entry of a name,
  \<open>akua lock\<close> of a manifest that asks for another version of it succeeds only if the new version has the bytes
  of the old. The new version is then locked with the old digest.
\<close>

theorem new_version_needs_old_bytes:
  assumes run: "lock_verb env ws check_only s = Some (Ok out, s')"
    and m: "load_manifest (dv_manifest_of_toml env) (fst s) ws = Ok m" "bt_inv (m_dependencies m)"
      "(name, dep) \<in> set (m_dependencies m)"
    and fetched: "dep_replace dep = None" "dep_path dep = None" "dep_git dep = None"
      "\<forall>w \<in> set (step_worlds (dv_resolver env) ws (online_with (fst s) (oci_pins prior)) (m_dependencies m)
          (fst s) (snd s)). \<not> is_dir w (vendor_path ws name)"
    and prior: "load_lock (dv_lock_of_toml env) (fst s) ws = Ok prior" "bt_get (oci_pins prior) name = Some d"
  shows "\<exists>p \<in> set (lo_locked out). ls_name p = name \<and> ls_digest p = d"
proof -
  from run obtain m' prior' resolved s1 where
    "load_manifest (dv_manifest_of_toml env) (fst s) ws = Ok m'"
    "(lock_or_empty env ws (fst s) :: (lock_verb_error, akua_lock) outcome) = Ok prior'"
    and res: "dep_resolve env m' ws (oci_pins prior') s = Some (Ok resolved, s1)"
    and out: "lo_locked out = sort_key ls_name (map (locked_summary_of \<circ> snd) resolved)"
    by (rule lock_verb_Ok) (simp add: lock_output_of_def)
  with m prior have [simp]: "m' = m" "prior' = prior" by (auto simp: lock_or_empty_def)
  from resolved_one [OF m(2) res [unfolded dep_resolve_Ok, simplified] m(3)] obtain c w1 where
    c: "(name, c) \<in> set resolved"
      "w1 \<in> set (step_worlds (dv_resolver env) ws (online_with (fst s) (oci_pins prior)) (m_dependencies m)
          (fst s) (snd s))"
      "sound_chart w1 ws (online_with (fst s) (oci_pins prior)) name dep c" by metis
  have "rc_name c = name" "rc_sha256 c = d"
    using c(2,3) fetched prior(2) by (auto simp: sound_chart_def is_vendored_def online_with_def)
  then show ?thesis
    using c(1) by (intro bexI [of _ "locked_summary_of c"]) (force simp: out locked_summary_of_def)+
qed

section \<open>Updating one dependency\<close>

lemma update_steps_parts:
  "mset (map ue_name (uo_updated (foldl (update_step prior dep) acc cs)))
     + mset (uo_unchanged (foldl (update_step prior dep) acc cs)) + mset (uo_skipped (foldl (update_step prior dep) acc cs))
   = mset (map ue_name (uo_updated acc)) + mset (uo_unchanged acc) + mset (uo_skipped acc) + mset (map rc_name cs)"
proof (induction cs arbitrary: acc)
  case (Cons c cs)
  show ?case unfolding foldl_Cons Cons.IH by (simp add: update_step_def Let_def)
qed simp

lemma update_steps_skipped:
  "uo_skipped (foldl (update_step prior dep) acc cs)
     = uo_skipped acc @ filter (\<lambda>n. dep \<noteq> None \<and> dep \<noteq> Some n) (map rc_name cs)"
proof (induction cs arbitrary: acc)
  case (Cons c cs)
  show ?case unfolding foldl_Cons Cons.IH by (simp add: update_step_def Let_def)
qed simp

lemma update_steps_changed:
  "\<forall>u \<in> set (uo_updated acc). ue_from u \<noteq> Some (ue_to u) \<Longrightarrow>
     \<forall>u \<in> set (uo_updated (foldl (update_step prior dep) acc cs)). ue_from u \<noteq> Some (ue_to u)"
proof (induction cs arbitrary: acc)
  case (Cons c cs)
  from Cons.prems have "\<forall>u \<in> set (uo_updated (update_step prior dep acc c)). ue_from u \<noteq> Some (ue_to u)"
    by (auto simp: update_step_def Let_def)
  from Cons.IH [OF this] show ?case by simp
qed simp

text \<open>
  C25. \<open>akua update --dep\<close> changes the entries of one name only: what the lock says about every other dependency is
  kept, entry by entry. The report names every resolved dependency once, as updated (with another digest than
  before), unchanged, or skipped, and skipped are exactly those that \<open>--dep\<close> leaves out.
\<close>

theorem update_dep_frame:
  assumes run: "update_verb env ws dep s = Some (Ok out, s')"
    and m: "load_manifest (dv_manifest_of_toml env) (fst s) ws = Ok m" "bt_inv (m_dependencies m)"
    and prior: "(lock_or_empty env ws (fst s) :: (update_error, akua_lock) outcome) = Ok prior"
    and codec: "lock_codec env" "load_lock (dv_lock_of_toml env) (fst s') ws = Ok l"
  shows "(\<forall>k. dep \<noteq> None \<and> dep \<noteq> Some (fst k) \<longrightarrow> lock_get l k = lock_get prior k)
    \<and> mset (map ue_name (uo_updated out)) + mset (uo_unchanged out) + mset (uo_skipped out)
       = mset (map fst (m_dependencies m))
    \<and> set (uo_skipped out) = {n. n \<in> fst ` set (m_dependencies m) \<and> dep \<noteq> None \<and> dep \<noteq> Some n}
    \<and> (\<forall>u \<in> set (uo_updated out). ue_from u \<noteq> Some (ue_to u))"
proof -
  from run obtain m' prior' resolved s1 new_lock w where
    "load_manifest (dv_manifest_of_toml env) (fst s) ws = Ok m'"
    "(lock_or_empty env ws (fst s) :: (update_error, akua_lock) outcome) = Ok prior'"
    and res: "dep_resolve env m' ws [] s = Some (Ok resolved, s1)"
    and merge: "(merge_into_lock prior' (retained dep resolved) :: (update_error, akua_lock) outcome) = Ok new_lock"
    and w: "write_lock env UdLock ws new_lock (fst s1) = Ok w" "s' = (w, snd s1)"
    and out: "out = update_report prior' dep resolved"
    by (rule update_verb_Ok)
  with m prior have [simp]: "m' = m" "prior' = prior" by simp_all
  note run' = res [unfolded dep_resolve_Ok, simplified]
  note names = resolved_names [OF m(2) run']
  note kept = retained_names [OF names, of dep]
  note dist = chart_keys_distinct [OF kept]
  have l: "l = sort_lock (fold upserted (map (locked_of prior \<circ> snd) (retained dep resolved)) prior)"
    using written_lock_loads [OF w(1) codec(1)] codec(2) w(2) merge_sorted [OF kept merge [simplified]] merge
    by (simp add: merge_into_lock_fold [OF dist])
  have frame: "lock_get l k = lock_get prior k" if k: "dep \<noteq> None" "dep \<noteq> Some (fst k)" for k
  proof (rule lock_get_merged(2) [OF dist l])
    show "k \<notin> chart_key ` snd ` set (retained dep resolved)"
    proof
      assume "k \<in> chart_key ` snd ` set (retained dep resolved)"
      then obtain n c where c: "(n, c) \<in> set (retained dep resolved)" "k = chart_key c" by auto
      with kept(2) have "fst k = n" by (auto simp: chart_key_def)
      with c(1) k show False by (auto simp: retained_def split: option.splits)
    qed
  qed
  have "map rc_name (map snd resolved) = map fst resolved" using names(2) by auto
  also have "\<dots> = map fst (m_dependencies m)" by (rule resolve_with_options_steps(2) [OF m(2) run'])
  finally have ns: "map rc_name (map snd resolved) = map fst (m_dependencies m)" .
  let ?z = "\<lparr>uo_updated = [], uo_unchanged = [], uo_skipped = []\<rparr>"
  have parts: "mset (map ue_name (uo_updated out)) + mset (uo_unchanged out) + mset (uo_skipped out)
       = mset (map fst (m_dependencies m))"
    using update_steps_parts [of prior dep ?z "map snd resolved"] unfolding ns by (simp add: out update_report_def sort_update_def mset_map)
  have skipped: "set (uo_skipped out) = {n. n \<in> fst ` set (m_dependencies m) \<and> dep \<noteq> None \<and> dep \<noteq> Some n}"
    using update_steps_skipped [of prior dep ?z "map snd resolved"] unfolding ns by (auto simp: out update_report_def sort_update_def)
  have "\<forall>u \<in> set (uo_updated out). ue_from u \<noteq> Some (ue_to u)"
    using update_steps_changed [of ?z prior dep "map snd resolved"] by (simp add: out update_report_def sort_update_def)
  with frame parts skipped show ?thesis by blast
qed

section \<open>Editing the manifest\<close>

definition manifest_codec :: "('vk, 'sk, 'sg, 'v, 'r, 'g) dep_env \<Rightarrow> bool" where
  "manifest_codec env \<longleftrightarrow> (\<forall>m body. dv_manifest_to_toml env m = Ok body \<longrightarrow> dv_manifest_of_toml env body = Ok m)"

lemma names_of_files: "path_of ''akua.toml'' = [Normal ''akua.toml'']" "path_of ''akua.lock'' = [Normal ''akua.lock'']"
  by code_simp+

lemma manifest_is_not_lock: "path_join ws (path_of ''akua.toml'') \<noteq> lock_path ws"
  by (simp add: lock_path_def names_of_files path_join_name)

lemma write_manifest_Ok:
  assumes "write_manifest env f g ws m w = Ok w'"
  shows "manifest_codec env \<Longrightarrow> validate_manifest m = Ok () \<Longrightarrow> load_manifest (dv_manifest_of_toml env) w' ws = Ok m"
    and "load_lock of_toml w' ws = load_lock of_toml w ws"
proof -
  from assms obtain body where body: "dv_manifest_to_toml env m = Ok body"
    "fs_write (path_join ws (path_of ''akua.toml'')) body w = Ok w'"
    by (auto simp: write_manifest_def manifest_to_toml_def Let_def outcome_simps)
  show "load_manifest (dv_manifest_of_toml env) w' ws = Ok m"
    if "manifest_codec env" "validate_manifest m = Ok ()"
    using that body(1) fs_write_read [OF body(2)]
    by (auto simp: load_manifest_def parse_manifest_def manifest_codec_def Let_def)
  show "load_lock of_toml w' ws = load_lock of_toml w ws"
    using fs_write_frame [OF body(2), of "lock_path ws"] manifest_is_not_lock [of ws] by (simp add: load_lock_def)
qed

lemma write_lock_keeps_manifest:
  "write_lock env mk ws l w = Ok w' \<Longrightarrow> load_manifest of_toml w' ws = load_manifest of_toml w ws"
  unfolding write_lock_Ok using fs_write_frame manifest_is_not_lock by (fastforce simp: load_manifest_def Let_def)

lemma validate_without: "validate_manifest m = Ok () \<Longrightarrow> validate_manifest (m\<lparr>m_dependencies := bt_remove name (m_dependencies m)\<rparr>) = Ok ()"
  by (auto simp: validate_manifest_Ok_iff bt_remove_def)


abbreviation without_dep :: "string \<Rightarrow> manifest \<Rightarrow> manifest" where
  "without_dep name m \<equiv> m\<lparr>m_dependencies := bt_remove name (m_dependencies m)\<rparr>"

lemma bt_remove_absent: "bt_get d name = None \<Longrightarrow> bt_remove name d = d"
  unfolding bt_get_None_iff bt_remove_def by (force simp: filter_id_conv)

lemma filter_same_length: "length (filter P xs) = length xs \<Longrightarrow> filter P xs = xs"
  by (metis filter_id_conv length_filter_less less_irrefl)

text \<open>
  C26. A dependency that is removed is gone from both files: the manifest reads back without it and otherwise as it
  was, and a lock that loads afterwards has lost exactly the entries of that name, in all versions. Where the
  dependency was not declared nothing changes.
\<close>

theorem remove_correct:
  assumes run: "remove_verb env args s = Some (Ok out, s')"
    and m: "load_manifest (dv_manifest_of_toml env) (fst s) (ra_workspace args) = Ok m"
    and codec: "manifest_codec env" "lock_codec env"
  shows "load_manifest (dv_manifest_of_toml env) (fst s') (ra_workspace args) = Ok (without_dep (ra_name args) m)
    \<and> ro_removed out = (bt_get (m_dependencies m) (ra_name args) \<noteq> None) \<and> (\<not> ro_removed out \<longrightarrow> s' = s)
    \<and> (\<forall>l. ro_removed out \<and> load_lock (dv_lock_of_toml env) (fst s') (ra_workspace args) = Ok l \<longrightarrow>
         (\<exists>prior. load_lock (dv_lock_of_toml env) (fst s) (ra_workspace args) = Ok prior
            \<and> mset (packages l) = filter_mset (\<lambda>p. lp_name p \<noteq> ra_name args) (mset (packages prior))))"
proof (cases "bt_get (m_dependencies m) (ra_name args)")
  case None
  with run m show ?thesis
    by (auto simp: remove_verb_def dep_manifest_def Let_def outcome_simps bt_remove_absent split: if_splits)
next
  case (Some d)
  let ?m = "without_dep (ra_name args) m" and ?ws = "ra_workspace args"
  from run m Some obtain w1 w2 where
    w1: "write_manifest env RmSerialize RmIo ?ws ?m (fst s) = Ok w1"
    and w2: "prune_lock env args w1 = Ok w2" "s' = (w2, snd s)" and out: "ro_removed out"
    by (auto simp: remove_verb_def dep_manifest_def Let_def outcome_simps split: if_splits)
  have valid: "validate_manifest ?m = Ok ()" by (rule validate_without [OF load_manifest_valid [OF m]])
  note written = write_manifest_Ok [OF w1]
  from w2(1) have same: "load_manifest (dv_manifest_of_toml env) w2 ?ws = load_manifest (dv_manifest_of_toml env) w1 ?ws"
    by (auto simp: prune_lock_def split: outcome.splits lock_load_error.splits if_splits dest: write_lock_keeps_manifest)
  have pruned: "\<exists>prior. load_lock (dv_lock_of_toml env) (fst s) ?ws = Ok prior
      \<and> mset (packages l) = filter_mset (\<lambda>p. lp_name p \<noteq> ra_name args) (mset (packages prior))"
    if l: "load_lock (dv_lock_of_toml env) w2 ?ws = Ok l" for l
  proof (cases "load_lock (dv_lock_of_toml env) w1 ?ws")
    case (Ok prior)
    show ?thesis
    proof (cases "length (packages (prune (ra_name args) prior)) = length (packages prior)")
      case True
      then have "filter (\<lambda>p. lp_name p \<noteq> ra_name args) (packages prior) = packages prior"
        using filter_same_length [of "\<lambda>p. lp_name p \<noteq> ra_name args"] by (simp add: prune_def)
      then have "filter_mset (\<lambda>p. lp_name p \<noteq> ra_name args) (mset (packages prior)) = mset (packages prior)"
        by (metis mset_filter)
      moreover from True w2(1) Ok have "w2 = w1" by (simp add: prune_lock_def)
      moreover from this l Ok have "l = prior" by simp
      ultimately show ?thesis using Ok written(2) by (intro exI [of _ prior]) simp
    next
      case False
      with w2(1) Ok have "write_lock env RmLock ?ws (prune (ra_name args) prior) w1 = Ok w2" by (simp add: prune_lock_def)
      from written_lock_loads [OF this codec(2) l] Ok written(2) show ?thesis
        by (auto simp: sort_lock_def prune_def mset_filter)
    qed
  next
    case (Err e)
    with w2(1) have "w2 = w1" by (auto simp: prune_lock_def split: lock_load_error.splits)
    with l Err show ?thesis by simp
  qed (use w2(1) in \<open>simp add: prune_lock_def\<close>)
  have w: "fst s' = w2" by (simp add: w2(2))
  show ?thesis
    unfolding w using out Some same written(1) [OF codec(1) valid]
    by (intro conjI allI impI) (simp_all add: pruned)
qed

text \<open>
  A removal that fails on the lock cannot be repeated. By the time the lock is reported as broken, the
  dependency is gone from the manifest; after the lock is repaired the same command answers that there is no such
  dependency (or, with \<open>--ignore-missing\<close>, does nothing), and the entry stays in the lock.
\<close>

theorem remove_not_repeatable:
  assumes run: "remove_verb env args s = Some (Err (RmLock e), s')"
    and m: "load_manifest (dv_manifest_of_toml env) (fst s) (ra_workspace args) = Ok m"
    and codec: "manifest_codec env"
  shows "load_manifest (dv_manifest_of_toml env) (fst s') (ra_workspace args) = Ok (without_dep (ra_name args) m)
    \<and> (\<forall>t. load_manifest (dv_manifest_of_toml env) (fst t) (ra_workspace args) = Ok (without_dep (ra_name args) m) \<longrightarrow>
         remove_verb env args t = Some (if ra_ignore_missing args
           then Ok \<lparr>ro_name = ra_name args, ro_removed = False\<rparr> else Err (RmNotFound (ra_name args)), t))"
proof
  let ?m = "without_dep (ra_name args) m" and ?ws = "ra_workspace args"
  from run m obtain w1 where w1: "write_manifest env RmSerialize RmIo ?ws ?m (fst s) = Ok w1"
    and s': "s' = (w1, snd s)"
    by (auto simp: remove_verb_def dep_manifest_def Let_def outcome_simps dep_errors write_manifest_def
        split: if_splits)
  show "load_manifest (dv_manifest_of_toml env) (fst s') ?ws = Ok ?m"
    using write_manifest_Ok(1) [OF w1 codec validate_without [OF load_manifest_valid [OF m]]] by (simp add: s')
  have "bt_get (bt_remove (ra_name args) (m_dependencies m)) (ra_name args) = None" by (simp add: bt_get_remove)
  then show "\<forall>t. load_manifest (dv_manifest_of_toml env) (fst t) ?ws = Ok ?m \<longrightarrow>
         remove_verb env args t = Some (if ra_ignore_missing args
           then Ok \<lparr>ro_name = ra_name args, ro_removed = False\<rparr> else Err (RmNotFound (ra_name args)), t)"
    by (simp add: remove_verb_def dep_manifest_def dep_read_def rbind_def rpure_def)
qed



section \<open>Instances\<close>

definition web_lock_of :: "string \<Rightarrow> string \<Rightarrow> string \<Rightarrow> akua_lock" where
  "web_lock_of version src digest = \<lparr>lock_version = 1, packages = [\<lparr>lp_name = ''web'', lp_version = version,
     lp_source = src, lp_digest = digest, lp_vendor_digest = None, lp_signature = None, lp_dependencies = [],
     lp_attestation = None, lp_replaced = None, lp_yanked = None, lp_kyverno_source_digest = None,
     lp_converter_version = None\<rparr>]\<rparr>"

text \<open>One lock that can be written, another that is on disk before.\<close>

definition toy_dep_env :: "manifest \<Rightarrow> manifest \<Rightarrow> (string, akua_lock) outcome \<Rightarrow> akua_lock
    \<Rightarrow> (unit, unit, string, nat, nat, unit) dep_env" where
  "toy_dep_env m m2 before l = \<lparr>dv_resolver = toy_resolver,
     dv_manifest_of_toml = (\<lambda>s. if s = ''M'' then Ok m2 else Ok m),
     dv_manifest_to_toml = (\<lambda>k. if k = m2 then Ok ''M'' else Err []),
     dv_lock_of_toml = (\<lambda>s. if s = [] then before else if last s = CHR ''L'' then Ok l else Ok empty_lock),
     dv_lock_to_toml = (\<lambda>k. if k = l then Ok ''L'' else if k = empty_lock then Ok ''E'' else Err [])\<rparr>"

lemma toy_codecs: "lock_codec (toy_dep_env m m2 before l)" "manifest_codec (toy_dep_env m m2 before l)"
  by (auto simp: lock_codec_def manifest_codec_def toy_dep_env_def split: if_splits)

abbreviation local_manifest :: manifest where
  "local_manifest \<equiv> manifest_with [(''web'', path_dep ''web'')]"

definition local_env :: "(unit, unit, string, nat, nat, unit) dep_env" where
  "local_env = toy_dep_env local_manifest local_manifest (Err []) (web_lock_of ''local'' ''path+file://web'' ''sha256:'')"

definition start :: dep_state where "start = (text_world [], fresh_net)"

lemma run_OkE:
  assumes "case r of Some (Ok a, s) \<Rightarrow> P a s | _ \<Rightarrow> False"
  obtains a s where "r = Some (Ok a, s)" "P a s"
  using assms by (cases r; cases "fst (the r)"; cases "the r") auto

abbreviation written_local_lock :: akua_lock where
  "written_local_lock \<equiv> web_lock_of ''local'' ''path+file://web'' ''sha256:''"

lemma local_lock_runs:
  obtains out s' resolved s1 t1 where
    "lock_verb local_env ws_root False start = Some (Ok out, s')"
    "load_lock (dv_lock_of_toml local_env) (fst s') ws_root = Ok written_local_lock"
    "dep_resolve local_env local_manifest ws_root [] start = Some (Ok resolved, s1)"
    "load_manifest (dv_manifest_of_toml local_env) (fst s') ws_root = Ok local_manifest"
    "dep_resolve local_env local_manifest ws_root [] s' = Some (Ok resolved, t1)"
    "check_imports ws_root resolved (fst t1) = Ok ()"
proof -
  let ?P = "\<lambda>s'. load_lock (dv_lock_of_toml local_env) (fst s') ws_root = Ok written_local_lock
      \<and> load_manifest (dv_manifest_of_toml local_env) (fst s') ws_root = Ok local_manifest"
  have "case lock_verb local_env ws_root False start of
      Some (Ok _, s') \<Rightarrow> ?P s'
        \<and> (case dep_resolve local_env local_manifest ws_root [] s' of
             Some (Ok cs, t1) \<Rightarrow> check_imports ws_root cs (fst t1) = Ok ()
               \<and> (case dep_resolve local_env local_manifest ws_root [] start of Some (Ok cs', _) \<Rightarrow> cs = cs' | _ \<Rightarrow> False)
           | _ \<Rightarrow> False)
    | _ \<Rightarrow> False" by code_simp
  then obtain out s' where 1: "lock_verb local_env ws_root False start = Some (Ok out, s')" and
    2: "?P s' \<and> (case dep_resolve local_env local_manifest ws_root [] s' of
             Some (Ok cs, t1) \<Rightarrow> check_imports ws_root cs (fst t1) = Ok ()
               \<and> (case dep_resolve local_env local_manifest ws_root [] start of Some (Ok cs', _) \<Rightarrow> cs = cs' | _ \<Rightarrow> False)
           | _ \<Rightarrow> False)" by (rule run_OkE)
  from conjunct2 [OF 2] obtain cs t1 where 3: "dep_resolve local_env local_manifest ws_root [] s' = Some (Ok cs, t1)"
    "check_imports ws_root cs (fst t1) = Ok ()
       \<and> (case dep_resolve local_env local_manifest ws_root [] start of Some (Ok cs', _) \<Rightarrow> cs = cs' | _ \<Rightarrow> False)"
    by (rule run_OkE)
  from conjunct2 [OF 3(2)] obtain cs' s1 where 4: "dep_resolve local_env local_manifest ws_root [] start = Some (Ok cs', s1)"
    "cs = cs'" by (rule run_OkE)
  show thesis
    by (rule that [OF 1 _ 4(1) _ 3(1) [unfolded 4(2)]]) (use 2 3(2) 4(2) in simp_all)
qed

lemma toy_env_simps [simp]:
  "dv_manifest_of_toml (toy_dep_env m m2 before l) b = (if b = ''M'' then Ok m2 else Ok m)"
  "dv_lock_of_toml (toy_dep_env m m2 before l) b
     = (if b = [] then before else if last b = CHR ''L'' then Ok l else Ok empty_lock)"
  by (simp_all add: toy_dep_env_def)

lemma manifest_with_valid:
  "validate_manifest (manifest_with deps) = Ok () \<longleftrightarrow> (\<forall>(n, d) \<in> set deps. dep_well_formed d)"
proof -
  have "prefix ''akua.dev/'' ''akua.dev/v1alpha1''" "is_valid_package_name ''p''" by code_simp+
  then show ?thesis by (simp add: validate_manifest_Ok_iff manifest_with_def)
qed

lemma path_dep_valid: "dep_well_formed (path_dep p)"
  by (simp add: dep_well_formed_def path_dep_def source_count_def)

lemma local_valid: "validate_manifest local_manifest = Ok ()"
  by (simp add: manifest_with_valid path_dep_valid)

lemma local_facts:
  "load_manifest (dv_manifest_of_toml local_env) (fst start) ws_root = Ok local_manifest"
  "bt_inv (m_dependencies local_manifest)"
  "(lock_or_empty local_env ws_root (fst start) :: (lock_verb_error, akua_lock) outcome) = Ok empty_lock"
  "oci_pins empty_lock = []" "oci_pins written_local_lock = []"
  "\<exists>e. load_lock (dv_lock_of_toml local_env) (fst start) ws_root = Err e"
proof -
  show "bt_inv (m_dependencies local_manifest)" by (simp add: manifest_with_def bt_inv_def)
qed (simp_all add: local_env_def start_def text_world_def load_manifest_def parse_manifest_def local_valid
    lock_or_empty_def load_lock_def parse_lock_def oci_pins_def empty_lock_def web_lock_of_def lp_is_oci_def)

lemma lock_forgets_bad_lock_witness:
  "\<exists>out s'. lock_verb local_env ws_root False start = Some (Ok out, s')
     \<and> load_lock (dv_lock_of_toml local_env) (fst s') ws_root = Ok written_local_lock
     \<and> (\<forall>p \<in> set (packages written_local_lock). lp_signature p = None)"
proof -
  obtain out s' where run: "lock_verb local_env ws_root False start = Some (Ok out, s')"
    and after: "load_lock (dv_lock_of_toml local_env) (fst s') ws_root = Ok written_local_lock" by (rule local_lock_runs)
  from local_facts(6) obtain e where bad: "load_lock (dv_lock_of_toml local_env) (fst start) ws_root = Err e" by blast
  have codec: "lock_codec local_env" unfolding local_env_def by (rule toy_codecs)
  note none = conjunct2 [OF lock_forgets_bad_lock [OF run bad local_facts(1,2) codec after]]
  show ?thesis by (intro exI conjI) (rule run, rule after, use none in blast)
qed

lemma lock_then_check_clean_witness:
  "\<exists>out s' out2 t1. lock_verb local_env ws_root False start = Some (Ok out, s')
     \<and> lock_verb local_env ws_root True s' = Some (Ok out2, t1) \<and> lock_verdict True out2 = Ok ()"
proof -
  obtain out s' resolved s1 t1 where run: "lock_verb local_env ws_root False start = Some (Ok out, s')"
    and after: "load_lock (dv_lock_of_toml local_env) (fst s') ws_root = Ok written_local_lock"
    and res: "dep_resolve local_env local_manifest ws_root [] start = Some (Ok resolved, s1)"
    and again: "load_manifest (dv_manifest_of_toml local_env) (fst s') ws_root = Ok local_manifest"
      "dep_resolve local_env local_manifest ws_root [] s' = Some (Ok resolved, t1)"
      "check_imports ws_root resolved (fst t1) = Ok ()"
    by (rule local_lock_runs)
  have codec: "lock_codec local_env" unfolding local_env_def by (rule toy_codecs)
  have pins: "dep_resolve local_env local_manifest ws_root (oci_pins empty_lock) start = Some (Ok resolved, s1)"
    "dep_resolve local_env local_manifest ws_root (oci_pins written_local_lock) s' = Some (Ok resolved, t1)"
    unfolding local_facts(4,5) by (rule res, rule again(2))
  from lock_then_check_clean [OF run local_facts(1-3) pins(1) codec again(1) after after pins(2) again(3)]
  obtain out2 where "lock_verb local_env ws_root True s' = Some (Ok out2, t1)" "lock_verdict True out2 = Ok ()" by blast
  with run show ?thesis by (intro exI conjI)
qed

text \<open>A dependency that goes from 9.0.0 to 10.0.0.\<close>

definition web_dep :: dependency where
  "web_dep = \<lparr>dep_oci = Some ''oci://r/web'', dep_git = None, dep_path = None, dep_repo = None, dep_chart = None,
     dep_version = Some ''10.0.0'', dep_tag = None, dep_rev = None, dep_replace = None\<rparr>"

abbreviation web_manifest10 :: manifest where
  "web_manifest10 \<equiv> manifest_with [(''web'', web_dep)]"

definition old_web_lock :: akua_lock where
  "old_web_lock = web_lock_of ''9.0.0'' ''oci://r/web'' ''sha256:78''"

definition both_web_lock :: akua_lock where
  "both_web_lock = \<lparr>lock_version = 1,
     packages = packages (web_lock_of ''10.0.0'' ''oci://r/web'' ''sha256:'') @ packages old_web_lock\<rparr>"

definition bump_env :: "(unit, unit, string, nat, nat, unit) dep_env" where
  "bump_env = toy_dep_env web_manifest10 web_manifest10 (Ok old_web_lock) both_web_lock"

text \<open>The new version has been vendored.\<close>

definition vendored_start :: dep_state where
  "vendored_start = ((text_world [])\<lparr>is_dir := (\<lambda>_. True)\<rparr>, fresh_net)"

definition vendored_web_chart :: resolved_chart where
  "vendored_web_chart = \<lparr>rc_name = ''web'', abs_path = vendor_path ws_root ''web'', rc_sha256 = ''sha256:'',
     rc_kind = HelmChart, rc_source = ResolvedOci ''oci://r/web'' ''10.0.0'' ''sha256:''\<rparr>"

lemma bump_resolves:
  "dep_resolve bump_env web_manifest10 ws_root [] vendored_start = Some (Ok [(''web'', vendored_web_chart)], vendored_start)"
proof -
  let ?w = "fst vendored_start" and ?c = "vendored_web_chart\<lparr>rc_source := ResolvedOci ''oci://r/web'' ''10.0.0'' []\<rparr>"
  have s: "dep_replace web_dep = None" "dep_spec web_dep = Ok (SpecOci ''oci://r/web'' ''10.0.0'')"
    "vendor_kind_of (SpecOci ''oci://r/web'' ''10.0.0'') = Some (VendorOci ''oci://r/web'' ''10.0.0'')"
    "is_dir ?w (vendor_path ws_root ''web'')"
    by (simp_all add: web_dep_def spec_def vendored_start_def text_world_def)
  have "case resolve_path toy_resolver ?w ''web'' (path_str (vendor_path ws_root ''web'')) ws_root
      (vendor_placeholder (VendorOci ''oci://r/web'' ''10.0.0'')) Internal of Ok c \<Rightarrow> c = ?c | _ \<Rightarrow> False" by code_simp
  then have "resolve_path toy_resolver ?w ''web'' (path_str (vendor_path ws_root ''web'')) ws_root
      (vendor_placeholder (VendorOci ''oci://r/web'' ''10.0.0'')) Internal = Ok ?c" by (auto split: outcome.splits)
  moreover have "patch_vendored ?c = vendored_web_chart" by (simp add: patch_vendored_def vendored_web_chart_def)
  ultimately have "resolve_dep toy_resolver ws_root opts ''web'' web_dep ?w n = Some (Ok (vendored_web_chart, ?w), n)" for opts n
    by (simp add: resolve_dep_vendored [OF s])
  then show ?thesis
    by (cases vendored_start)
      (simp add: dep_resolve_def resolve_with_options_def manifest_with_def bump_env_def toy_dep_env_def)
qed

lemma bump_merges:
  "(merge_into_lock old_web_lock (retained (Some ''web'') [(''web'', vendored_web_chart)])
     :: (update_error, akua_lock) outcome) = Ok both_web_lock"
  "sort_lock both_web_lock = both_web_lock" "chart_version vendored_web_chart = ''10.0.0''"
  "validate_lock both_web_lock = Ok ()"
  by code_simp+

lemma web_dep_valid: "validate_manifest web_manifest10 = Ok ()"
proof -
  have "\<not> url_has_userinfo ''oci://r/web''" by code_simp
  then show ?thesis
    by (simp add: manifest_with_valid dep_well_formed_def web_dep_def source_count_def)
qed

lemma bump_facts:
  "load_manifest (dv_manifest_of_toml bump_env) (fst vendored_start) ws_root = Ok web_manifest10"
  "bt_inv (m_dependencies web_manifest10)"
  "load_lock (dv_lock_of_toml bump_env) (fst vendored_start) ws_root = Ok old_web_lock"
  "(lock_or_empty bump_env ws_root (fst vendored_start) :: (update_error, akua_lock) outcome) = Ok old_web_lock"
  "lock_codec bump_env"
proof -
  have valid: "validate_lock old_web_lock = Ok ()" by code_simp
  show "bt_inv (m_dependencies web_manifest10)" by (simp add: manifest_with_def bt_inv_def)
  show "lock_codec bump_env" unfolding bump_env_def by (rule toy_codecs)
  show "load_manifest (dv_manifest_of_toml bump_env) (fst vendored_start) ws_root = Ok web_manifest10"
    by (simp add: bump_env_def vendored_start_def text_world_def load_manifest_def parse_manifest_def web_dep_valid)
  show lock: "load_lock (dv_lock_of_toml bump_env) (fst vendored_start) ws_root = Ok old_web_lock"
    by (simp add: bump_env_def vendored_start_def text_world_def load_lock_def parse_lock_def valid)
  then show "(lock_or_empty bump_env ws_root (fst vendored_start) :: (update_error, akua_lock) outcome) = Ok old_web_lock"
    by (simp add: lock_or_empty_def)
qed

lemma bump_runs:
  obtains out s' where
    "update_verb bump_env ws_root (Some ''web'') vendored_start = Some (Ok out, s')"
    "load_lock (dv_lock_of_toml bump_env) (fst s') ws_root = Ok both_web_lock"
proof -
  obtain w where w: "fs_write (lock_path ws_root) (lock_header @ ''L'') (fst vendored_start) = Ok w"
    by (simp add: fs_write_def vendored_start_def text_world_def)
  then have "write_lock bump_env UdLock ws_root both_web_lock (fst vendored_start) = Ok w"
    by (simp add: write_lock_Ok bump_merges(2)) (simp add: bump_env_def toy_dep_env_def)
  moreover have "bt_get (m_dependencies web_manifest10) ''web'' = Some web_dep"
    by (simp add: manifest_with_def bt_get_def)
  ultimately obtain out where "update_verb bump_env ws_root (Some ''web'') vendored_start = Some (Ok out, (w, snd vendored_start))"
    using bump_facts(1,4) bump_resolves bump_merges(1)
    by (simp add: update_verb_def rbind_def dep_read_def dep_manifest_def dep_map_err_def dep_write_def rpure_def)
  moreover have "load_lock (dv_lock_of_toml bump_env) w ws_root = Ok both_web_lock"
    using fs_write_read [OF w] by (simp add: load_lock_def parse_lock_def bump_env_def bump_merges(4))
  ultimately show thesis using that by simp
qed

lemma update_keeps_old_pin_witness:
  "\<exists>out s'. update_verb bump_env ws_root (Some ''web'') vendored_start = Some (Ok out, s')
     \<and> load_lock (dv_lock_of_toml bump_env) (fst s') ws_root = Ok both_web_lock
     \<and> bt_get (oci_pins both_web_lock) ''web'' = Some ''sha256:78''"
proof -
  obtain out s' where run: "update_verb bump_env ws_root (Some ''web'') vendored_start = Some (Ok out, s')"
    and after: "load_lock (dv_lock_of_toml bump_env) (fst s') ws_root = Ok both_web_lock" by (rule bump_runs)
  let ?p = "hd (packages old_web_lock)"
  have p: "?p \<in> set (packages old_web_lock)" "lp_is_oci ?p" "lock_distinct old_web_lock"
    "\<forall>q \<in> set (packages old_web_lock). lp_name q = lp_name ?p \<longrightarrow> q = ?p"
    "lp_name ?p = ''web''" "lp_version ?p = ''9.0.0''" "lp_digest ?p = ''sha256:78''"
    by (simp_all add: old_web_lock_def web_lock_of_def lp_is_oci_def lock_distinct_def)
  have "''10.0.0'' < ''9.0.0''" by code_simp
  with bump_merges(3) p(6) have less: "chart_version vendored_web_chart < lp_version ?p" by simp
  have mem: "(lp_name ?p, vendored_web_chart) \<in> set [(''web'', vendored_web_chart)]" by (simp add: p(5))
  from update_keeps_old_pin [OF run bump_facts(1-3) p(3,1,2,4) bump_resolves mem less bump_facts(5) after]
  have "bt_get (oci_pins both_web_lock) ''web'' = Some ''sha256:78''" unfolding p(5,7) by blast
  with run after show ?thesis by (intro exI conjI)
qed

lemma update_dep_frame_witness:
  "\<exists>out s'. update_verb bump_env ws_root (Some ''web'') vendored_start = Some (Ok out, s')
     \<and> mset (map ue_name (uo_updated out)) + mset (uo_unchanged out) + mset (uo_skipped out) = {#''web''#}"
proof -
  obtain out s' where run: "update_verb bump_env ws_root (Some ''web'') vendored_start = Some (Ok out, s')"
    and after: "load_lock (dv_lock_of_toml bump_env) (fst s') ws_root = Ok both_web_lock"
    by (rule bump_runs)
  have "mset (map fst (m_dependencies web_manifest10)) = {#''web''#}" by (simp add: manifest_with_def)
  with update_dep_frame [OF run bump_facts(1,2,4,5) after] run show ?thesis
    by (intro exI conjI) (assumption, simp)
qed

text \<open>The digest of 9.0.0 is in the cache, 10.0.0 is what the manifest asks for.\<close>

definition cached_start :: dep_state where
  "cached_start = ((text_world [])\<lparr>is_file := (\<lambda>_. True)\<rparr>, fresh_net)"

definition cached_env :: "(unit, unit, string, nat, nat, unit) dep_env" where
  "cached_env = bump_env\<lparr>dv_lock_to_toml := (\<lambda>_. Ok ''L'')\<rparr>"

lemma new_version_needs_old_bytes_witness:
  "\<exists>out s'. lock_verb cached_env ws_root False cached_start = Some (Ok out, s')
     \<and> (\<exists>p \<in> set (lo_locked out). ls_name p = ''web'' \<and> ls_digest p = ''sha256:78'')"
proof -
  have "case lock_verb cached_env ws_root False cached_start of
      Some (Ok _, s') \<Rightarrow> list_all (\<lambda>w. \<not> is_dir w (vendor_path ws_root ''web''))
          (step_worlds toy_resolver ws_root (online_with (fst cached_start) (oci_pins old_web_lock))
            [(''web'', web_dep)] (fst cached_start) (snd cached_start))
    | _ \<Rightarrow> False" by code_simp
  then obtain out s' where run: "lock_verb cached_env ws_root False cached_start = Some (Ok out, s')"
    and steps: "list_all (\<lambda>w. \<not> is_dir w (vendor_path ws_root ''web''))
          (step_worlds toy_resolver ws_root (online_with (fst cached_start) (oci_pins old_web_lock))
            [(''web'', web_dep)] (fst cached_start) (snd cached_start))" by (rule run_OkE)
  have same: "dv_manifest_of_toml cached_env = dv_manifest_of_toml bump_env"
    "dv_lock_of_toml cached_env = dv_lock_of_toml bump_env" "dv_resolver cached_env = toy_resolver"
    "m_dependencies web_manifest10 = [(''web'', web_dep)]"
    by (simp_all add: cached_env_def bump_env_def toy_dep_env_def manifest_with_def)
  have read: "read_to_string (fst cached_start) = read_to_string (fst vendored_start)"
    by (simp add: cached_start_def vendored_start_def text_world_def)
  have m: "load_manifest (dv_manifest_of_toml cached_env) (fst cached_start) ws_root = Ok web_manifest10"
    "load_lock (dv_lock_of_toml cached_env) (fst cached_start) ws_root = Ok old_web_lock"
    using bump_facts(1,3) by (simp_all add: same load_manifest_def load_lock_def read)
  have dep: "(''web'', web_dep) \<in> set (m_dependencies web_manifest10)" "dep_replace web_dep = None"
    "dep_path web_dep = None" "dep_git web_dep = None"
    by (simp_all add: manifest_with_def web_dep_def)
  have pin: "bt_get (oci_pins old_web_lock) ''web'' = Some ''sha256:78''"
    by (simp add: old_web_lock_def web_lock_of_def oci_pins_def lp_is_oci_def bt_get_def)
  have nv: "\<forall>w \<in> set (step_worlds (dv_resolver cached_env) ws_root (online_with (fst cached_start) (oci_pins old_web_lock))
      (m_dependencies web_manifest10) (fst cached_start) (snd cached_start)). \<not> is_dir w (vendor_path ws_root ''web'')"
    using steps unfolding same list_all_iff .
  from new_version_needs_old_bytes [OF run m(1) bump_facts(2) dep nv m(2) pin] run show ?thesis
    by (intro exI conjI)
qed

text \<open>A manifest before and after its dependency is removed.\<close>

abbreviation bare_manifest :: manifest where
  "bare_manifest \<equiv> manifest_with []"

definition remove_args_web :: remove_args where
  "remove_args_web = \<lparr>ra_workspace = ws_root, ra_name = ''web'', ra_ignore_missing = False\<rparr>"

definition remove_env :: "(string, akua_lock) outcome \<Rightarrow> (unit, unit, string, nat, nat, unit) dep_env" where
  "remove_env before = toy_dep_env local_manifest bare_manifest before empty_lock"

lemma remove_facts:
  "load_manifest (dv_manifest_of_toml (remove_env before)) (fst start) ws_root = Ok local_manifest"
  "bt_get (m_dependencies local_manifest) ''web'' \<noteq> None"
  "without_dep ''web'' local_manifest = bare_manifest"
  "write_manifest (remove_env before) RmSerialize RmIo ws_root bare_manifest (fst start)
     = omap_err (RmIo (ws_root @ [Normal ''akua.toml''])) (fs_write (ws_root @ [Normal ''akua.toml'']) ''M'' (fst start))"
  "lock_path ws_root = ws_root @ [Normal ''akua.lock'']"
proof -
  show "write_manifest (remove_env before) RmSerialize RmIo ws_root bare_manifest (fst start)
     = omap_err (RmIo (ws_root @ [Normal ''akua.toml''])) (fs_write (ws_root @ [Normal ''akua.toml'']) ''M'' (fst start))"
    by (simp add: write_manifest_def remove_env_def toy_dep_env_def manifest_to_toml_def start_def fs_write_def
        text_world_def names_of_files path_join_name Let_def)
qed (simp_all add: remove_env_def start_def text_world_def load_manifest_def parse_manifest_def local_valid
    lock_path_def names_of_files path_join_name, simp_all add: manifest_with_def bt_get_def bt_remove_def)

lemma remove_correct_witness:
  "\<exists>out s'. remove_verb (remove_env (Ok written_local_lock)) remove_args_web start = Some (Ok out, s')
     \<and> load_manifest (dv_manifest_of_toml (remove_env (Ok written_local_lock))) (fst s') ws_root = Ok bare_manifest"
proof -
  let ?env = "remove_env (Ok written_local_lock)"
  have valid: "validate_lock written_local_lock = Ok ()" by code_simp
  obtain w1 where w1: "fs_write (ws_root @ [Normal ''akua.toml'']) ''M'' (fst start) = Ok w1"
    "read_to_string w1 (lock_path ws_root) = Ok []" "write_error w1 = (\<lambda>_. None)"
    by (simp add: fs_write_def start_def text_world_def remove_facts)
  have lock: "load_lock (dv_lock_of_toml ?env) w1 ws_root = Ok written_local_lock"
    by (simp add: load_lock_def w1(2) remove_env_def parse_lock_def valid)
  have gone: "prune ''web'' written_local_lock = empty_lock" "length (packages written_local_lock) = 1"
    by (simp_all add: prune_def web_lock_of_def empty_lock_def CURRENT_VERSION_def)
  have "sort_lock empty_lock = empty_lock" by (simp add: sort_lock_def empty_lock_def)
  then have "\<exists>w2. write_lock ?env RmLock ws_root empty_lock w1 = Ok w2"
    by (simp add: write_lock_Ok remove_env_def toy_dep_env_def fs_write_def w1(3))
  then obtain w2 where "prune_lock ?env remove_args_web w1 = Ok w2"
    using gone by (auto simp: prune_lock_def remove_args_web_def lock empty_lock_def)
  then have "\<exists>out s'. remove_verb ?env remove_args_web start = Some (Ok out, s')"
    using remove_facts(1-4) w1(1)
    by (simp add: remove_verb_def dep_manifest_def dep_read_def dep_write_def rbind_def rpure_def Let_def remove_args_web_def)
  then obtain out s' where run: "remove_verb ?env remove_args_web start = Some (Ok out, s')" by blast
  have ws: "ra_workspace remove_args_web = ws_root" "ra_name remove_args_web = ''web''"
    by (simp_all add: remove_args_web_def)
  have codec: "manifest_codec ?env" "lock_codec ?env" unfolding remove_env_def by (rule toy_codecs)+
  from remove_correct [OF run remove_facts(1) [folded ws(1)] codec] run show ?thesis
    unfolding ws remove_facts(3) by (intro exI conjI) (assumption, blast)
qed

lemma remove_not_repeatable_witness:
  "\<exists>e s'. remove_verb (remove_env (Err [])) remove_args_web start = Some (Err (RmLock e), s')
     \<and> remove_verb (remove_env (Err [])) remove_args_web s' = Some (Err (RmNotFound ''web''), s')"
proof -
  let ?env = "remove_env (Err [])"
  obtain w1 where w1: "fs_write (ws_root @ [Normal ''akua.toml'']) ''M'' (fst start) = Ok w1"
    "read_to_string w1 (lock_path ws_root) = Ok []"
    by (simp add: fs_write_def start_def text_world_def remove_facts)
  have "load_lock (dv_lock_of_toml ?env) w1 ws_root = Err (LockBad (lock_path ws_root) (LockParse []))"
    by (simp add: load_lock_def w1(2) remove_env_def parse_lock_def)
  then have "\<exists>e s'. remove_verb ?env remove_args_web start = Some (Err (RmLock e), s')"
    using remove_facts(1-4) w1(1)
    by (simp add: remove_verb_def dep_manifest_def dep_read_def dep_write_def rbind_def rpure_def Let_def remove_args_web_def
        prune_lock_def)
  then obtain e s' where run: "remove_verb ?env remove_args_web start = Some (Err (RmLock e), s')" by blast
  have args: "ra_workspace remove_args_web = ws_root" "ra_name remove_args_web = ''web''"
    "ra_ignore_missing remove_args_web = False"
    by (simp_all add: remove_args_web_def)
  have codec: "manifest_codec ?env" unfolding remove_env_def by (rule toy_codecs)
  note stuck = remove_not_repeatable [OF run remove_facts(1) [folded args(1)] codec, unfolded args remove_facts(3) if_False]
  from conjunct2 [OF stuck, rule_format, OF conjunct1 [OF stuck]] run show ?thesis by (intro exI conjI)
qed


end
