(* ===== verification/CacheInventory.thy ===== *)
theory CacheInventory
  imports TreeFs Resolver "HOL-Library.Word"
begin

text \<open>
  \<open>cache_inventory.rs\<close> and the verb \<open>cache\<close> (\<open>verbs/cache.rs\<close>): what the caches of the fetchers hold, and wiping
  them. Sizes are \<open>u64\<close>, which wrap in a release build. A file that cannot be opened still has a length: \<open>bad_len\<close>
  gives what \<open>metadata\<close> answers for it. \<open>human\<close> stands for \<open>human_bytes\<close>, which prints a float.
\<close>

section \<open>The listing\<close>

record cache_entry =
  ce_kind :: string
  ce_id :: string
  ce_path :: path
  ce_size :: "64 word"

record cache_listing =
  ci_oci_root :: path
  ci_git_root :: path
  ci_helm_root :: path
  ci_entries :: "cache_entry list"
  ci_total :: "64 word"

datatype cache_error = CacheIo path io_error

fun cache_error_text :: "cache_error \<Rightarrow> string" where
  "cache_error_text (CacheIo p e) = ''i/o at `'' @ path_str p @ ''`: '' @ io_msg e"

type_synonym bad_len = "io_error \<Rightarrow> (io_error, nat) outcome"

fun entry_len :: "bad_len \<Rightarrow> node \<Rightarrow> (io_error, 64 word) outcome" where
  "entry_len bad_len (File bytes) = Ok (of_nat (length bytes))"
| "entry_len bad_len (BadFile e) = obind (bad_len e) (\<lambda>n. Ok (of_nat n))"
| "entry_len bad_len _ = Ok 0"

fun sum_ok :: "('e, 64 word) outcome list \<Rightarrow> ('e, 64 word) outcome" where
  "sum_ok [] = Ok 0"
| "sum_ok (x # xs) = obind x (\<lambda>a. obind (sum_ok xs) (\<lambda>b. Ok (a + b)))"

fun walk_for_size :: "bad_len \<Rightarrow> node \<Rightarrow> (io_error, 64 word) outcome" where
  "walk_for_size bad_len (Dir es) =
     sum_ok (map (\<lambda>(_, n). if is_directory n then walk_for_size bad_len n else entry_len bad_len n) es)"
| "walk_for_size bad_len (BadDir e) = (if io_kind e = NotFound then Ok 0 else Err e)"
| "walk_for_size bad_len _ = Err not_a_directory"

definition dir_size :: "bad_len \<Rightarrow> world \<Rightarrow> path \<Rightarrow> (io_error, 64 word) outcome" where
  "dir_size bad_len w dir =
     (case tree_at w dir of
        Ok n \<Rightarrow> walk_for_size bad_len n
      | Err e \<Rightarrow> if io_kind e = NotFound then Ok 0 else Err e
      | Panic \<Rightarrow> Panic)"

text \<open>The loop that the three caches share. A directory that cannot be listed holds nothing.\<close>

definition collect_entry ::
  "bad_len \<Rightarrow> world \<Rightarrow> path \<Rightarrow> string \<Rightarrow> string option \<Rightarrow> string \<Rightarrow> (cache_error, cache_entry list) outcome"
where
  "collect_entry bad_len w dir kind id_prefix name =
     (let p = child dir name
      in if \<not> is_dir w p \<or> \<not> utf8_valid name then Ok []
         else obind (omap_err (CacheIo p) (dir_size bad_len w p)) (\<lambda>size_bytes.
           Ok [\<lparr>ce_kind = kind, ce_id = (case id_prefix of Some p \<Rightarrow> p @ name | None \<Rightarrow> name),
                ce_path = p, ce_size = size_bytes\<rparr>]))"

definition collect_git_subdir ::
  "bad_len \<Rightarrow> world \<Rightarrow> path \<Rightarrow> string \<Rightarrow> string option \<Rightarrow> (cache_error, cache_entry list) outcome"
where
  "collect_git_subdir bad_len w dir kind id_prefix =
     (case fs_read_dir w dir of
        Ok es \<Rightarrow> concat_ok (map (\<lambda>(name, _). collect_entry bad_len w dir kind id_prefix name) es)
      | Err _ \<Rightarrow> Ok []
      | Panic \<Rightarrow> Panic)"

definition collect_oci :: "bad_len \<Rightarrow> world \<Rightarrow> path \<Rightarrow> (cache_error, cache_entry list) outcome" where
  "collect_oci bad_len w root =
     collect_git_subdir bad_len w (path_join root (path_of ''sha256'')) ''oci-blob'' (Some ''sha256:'')"

definition collect_git :: "bad_len \<Rightarrow> world \<Rightarrow> path \<Rightarrow> (cache_error, cache_entry list) outcome" where
  "collect_git bad_len w root =
     obind (collect_git_subdir bad_len w (path_join root (path_of ''repos'')) ''git-repo'' None) (\<lambda>a.
     obind (collect_git_subdir bad_len w (path_join root (path_of ''checkouts'')) ''git-checkout'' (Some ''git:'')) (\<lambda>b.
     Ok (a @ b)))"

definition collect_helm :: "bad_len \<Rightarrow> world \<Rightarrow> path \<Rightarrow> (cache_error, cache_entry list) outcome" where
  "collect_helm bad_len w root = collect_git_subdir bad_len w root ''helm-chart'' (Some ''helm:'')"

definition list_at_roots ::
  "bad_len \<Rightarrow> path \<Rightarrow> path \<Rightarrow> path \<Rightarrow> world \<Rightarrow> (cache_error, cache_listing) outcome"
where
  "list_at_roots bad_len oci_root git_root helm_root w =
     obind (collect_oci bad_len w oci_root) (\<lambda>a.
     obind (collect_git bad_len w git_root) (\<lambda>b.
     obind (collect_helm bad_len w helm_root) (\<lambda>c.
     let found = sort_key ce_path (a @ b @ c)
     in Ok \<lparr>ci_oci_root = oci_root, ci_git_root = git_root, ci_helm_root = helm_root, ci_entries = found,
            ci_total = sum_list (map ce_size found)\<rparr>)))"

definition cache_list :: "bad_len \<Rightarrow> world \<Rightarrow> (cache_error, cache_listing) outcome" where
  "cache_list bad_len w =
     list_at_roots bad_len (default_cache_root w ''oci'') (default_cache_root w ''git'') (default_cache_root w ''helm'') w"

section \<open>Wiping\<close>

record clear_report =
  cr_removed :: nat
  cr_freed :: "64 word"

datatype clear_scope = ScopeAll | OciOnly | GitOnly | HelmOnly

definition includes_oci :: "clear_scope \<Rightarrow> bool" where
  "includes_oci sc \<longleftrightarrow> sc \<in> {ScopeAll, OciOnly}"

definition includes_git :: "clear_scope \<Rightarrow> bool" where
  "includes_git sc \<longleftrightarrow> sc \<in> {ScopeAll, GitOnly}"

definition includes_helm :: "clear_scope \<Rightarrow> bool" where
  "includes_helm sc \<longleftrightarrow> sc \<in> {ScopeAll, HelmOnly}"

fun scope_label :: "clear_scope \<Rightarrow> string" where
  "scope_label ScopeAll = ''all''"
| "scope_label OciOnly = ''oci''"
| "scope_label GitOnly = ''git''"
| "scope_label HelmOnly = ''helm''"

definition reap ::
  "path \<Rightarrow> cache_entry list \<Rightarrow> clear_report \<Rightarrow> world \<Rightarrow> (cache_error, clear_report) outcome \<times> world"
where
  "reap root found report w =
     (if \<not> exists w root then (Ok report, w)
      else let report' = foldl (\<lambda>r e. r\<lparr>cr_removed := cr_removed r + 1, cr_freed := cr_freed r + ce_size e\<rparr>) report found
           in case remove_dir_all root w of
                Ok w' \<Rightarrow> (Ok report', w')
              | Err e \<Rightarrow> (Err (CacheIo root e), w)
              | Panic \<Rightarrow> (Panic, w))"

definition reap_if ::
  "bool \<Rightarrow> (world \<Rightarrow> path \<Rightarrow> (cache_error, cache_entry list) outcome) \<Rightarrow> path \<Rightarrow> clear_report
     \<Rightarrow> world \<Rightarrow> (cache_error, clear_report) outcome \<times> world"
where
  "reap_if wanted collect root report =
     (if wanted then nbind (\<lambda>w. (collect w root, w)) (\<lambda>found. reap root found report) else nret (Ok report))"

definition clear_at_roots ::
  "bad_len \<Rightarrow> clear_scope \<Rightarrow> path \<Rightarrow> path \<Rightarrow> path \<Rightarrow> world \<Rightarrow> (cache_error, clear_report) outcome \<times> world"
where
  "clear_at_roots bad_len sc oci_root git_root helm_root =
     nbind (reap_if (includes_oci sc) (collect_oci bad_len) oci_root \<lparr>cr_removed = 0, cr_freed = 0\<rparr>) (\<lambda>r.
     nbind (reap_if (includes_git sc) (collect_git bad_len) git_root r) (\<lambda>r.
     reap_if (includes_helm sc) (collect_helm bad_len) helm_root r))"

definition cache_clear :: "bad_len \<Rightarrow> clear_scope \<Rightarrow> world \<Rightarrow> (cache_error, clear_report) outcome \<times> world" where
  "cache_clear bad_len sc w =
     clear_at_roots bad_len sc (default_cache_root w ''oci'') (default_cache_root w ''git'')
       (default_cache_root w ''helm'') w"

section \<open>\<open>akua cache\<close>\<close>

datatype cache_action = CacheList | CacheClear clear_scope | CachePath

record clear_output_body =
  cb_scope :: string
  cb_oci_root :: path
  cb_git_root :: path
  cb_helm_root :: path
  cb_removed :: nat
  cb_freed :: "64 word"

record path_output_body =
  cp_oci_root :: path
  cp_git_root :: path
  cp_helm_root :: path

datatype cache_output =
  CacheListed cache_listing
| CacheCleared clear_output_body
| CachePaths path_output_body

datatype cache_verb_error = CvCache cache_error | CvStdoutWrite io_error

fun cache_verb_error_text :: "cache_verb_error \<Rightarrow> string" where
  "cache_verb_error_text (CvCache e) = cache_error_text e"
| "cache_verb_error_text (CvStdoutWrite e) = ''write to stdout failed: '' @ io_msg e"

definition cache_to_structured :: "cache_verb_error \<Rightarrow> structured_error" where
  "cache_to_structured e = with_default_docs (structured_new E_IO (cache_verb_error_text e))"

definition cache_is_system :: "cache_verb_error \<Rightarrow> bool" where
  "cache_is_system e = True"

definition cache_exit_code :: "cache_verb_error \<Rightarrow> exit_code" where
  "cache_exit_code e = (case e of CvStdoutWrite _ \<Rightarrow> SystemError | CvCache _ \<Rightarrow> SystemError)"

definition cache_verb :: "bad_len \<Rightarrow> cache_action \<Rightarrow> world \<Rightarrow> (cache_verb_error, cache_output) outcome \<times> world" where
  "cache_verb bad_len action w =
     (let o_root = default_cache_root w ''oci'';
          g_root = default_cache_root w ''git'';
          h_root = default_cache_root w ''helm''
      in case action of
           CacheList \<Rightarrow> (obind (omap_err CvCache (cache_list bad_len w)) (\<lambda>listing. Ok (CacheListed listing)), w)
         | CacheClear sc \<Rightarrow>
             nbind (nmap_err CvCache (cache_clear bad_len sc)) (\<lambda>report.
               nret (Ok (CacheCleared \<lparr>cb_scope = scope_label sc, cb_oci_root = o_root, cb_git_root = g_root,
                 cb_helm_root = h_root, cb_removed = cr_removed report, cb_freed = cr_freed report\<rparr>))) w
         | CachePath \<Rightarrow> (Ok (CachePaths \<lparr>cp_oci_root = o_root, cp_git_root = g_root, cp_helm_root = h_root\<rparr>), w))"

definition roots_text :: "path \<Rightarrow> path \<Rightarrow> path \<Rightarrow> string" where
  "roots_text a b c =
     ''oci: '' @ path_str a @ ''\<newline>'' @ ''git: '' @ path_str b @ ''\<newline>'' @ ''helm: '' @ path_str c @ ''\<newline>''"

definition cache_entry_text :: "(64 word \<Rightarrow> string) \<Rightarrow> cache_entry \<Rightarrow> string" where
  "cache_entry_text human e =
     ''  ['' @ ce_kind e @ ''] '' @ ce_id e @ ''  '' @ human (ce_size e) @ ''  '' @ path_str (ce_path e) @ ''\<newline>''"

definition cache_listing_text :: "(64 word \<Rightarrow> string) \<Rightarrow> cache_listing \<Rightarrow> string" where
  "cache_listing_text human listing =
     (if ci_entries listing = []
      then ''no cache entries\<newline>'' @ roots_text (ci_oci_root listing) (ci_git_root listing) (ci_helm_root listing)
      else show_nat (length (ci_entries listing)) @ '' entries, '' @ human (ci_total listing) @ '' total\<newline>''
        @ concat (map (cache_entry_text human) (ci_entries listing)))"

fun cache_text :: "(64 word \<Rightarrow> string) \<Rightarrow> cache_output \<Rightarrow> string \<Rightarrow> string" where
  "cache_text human (CacheListed listing) buf = buf @ cache_listing_text human listing"
| "cache_text human (CacheCleared b) buf =
     buf @ ''cleared '' @ cb_scope b @ '' cache: '' @ show_nat (cb_removed b) @ '' entries, ''
     @ human (cb_freed b) @ '' freed\<newline>''"
| "cache_text human (CachePaths b) buf = buf @ roots_text (cp_oci_root b) (cp_git_root b) (cp_helm_root b)"

interpretation cache_errors: reported_error cache_to_structured cache_is_system cache_exit_code
proof unfold_locales
  fix e
  show "docs (cache_to_structured e) = Some (error_docs_base @ ''/'' @ code (cache_to_structured e))"
    "level (cache_to_structured e) = Error" by (simp_all add: structured_defs cache_to_structured_def)
qed (auto simp: cache_exit_code_def cache_is_system_def split: cache_verb_error.splits)

end
