(* ===== verification/CacheInventorySpec.thy ===== *)
theory CacheInventorySpec
  imports CacheInventory
begin

text \<open>
  Wiping the caches. Each cache is a branch of the inventory: its entries lie below its root, so removing one
  root leaves the listing of the others alone. A wipe splits the listing in what it removed and what is left.
\<close>

section \<open>Branches\<close>

definition apart :: "path \<Rightarrow> path \<Rightarrow> bool" where
  "apart p q \<longleftrightarrow> \<not> prefix p q \<and> \<not> prefix q p"

lemma apart_sym: "apart p q \<Longrightarrow> apart q p"
  by (simp add: apart_def)

lemma apart_append: "apart p q \<Longrightarrow> apart p (q @ x)"
  by (auto simp: apart_def prefix_def append_eq_append_conv2)

text \<open>A root that does not exist has nothing below it.\<close>

definition absent_is_empty :: "world \<Rightarrow> path \<Rightarrow> bool" where
  "absent_is_empty w root \<longleftrightarrow>
     exists w root \<or> (\<forall>q. prefix root q \<longrightarrow> \<not> is_file w q \<and> \<not> is_dir w q \<and> (\<exists>e. tree_at w q = Err e))"

definition wipe :: "bool \<Rightarrow> path \<Rightarrow> world \<Rightarrow> world" where
  "wipe wanted root w = (if wanted \<and> exists w root then put root None w else w)"

lemma wipe_apart:
  assumes "apart root q"
  shows "exists (wipe b root w) q = exists w q" "absent_is_empty (wipe b root w) q = absent_is_empty w q"
proof -
  have "apart root (q @ x)" for x using assms by (rule apart_append)
  then have same: "tree_at (wipe b root w) (q @ x) = tree_at w (q @ x)" "is_dir (wipe b root w) (q @ x) = is_dir w (q @ x)"
    "is_file (wipe b root w) (q @ x) = is_file w (q @ x)" "exists (wipe b root w) (q @ x) = exists w (q @ x)" for x
    by (simp_all add: wipe_def apart_def put_elsewhere)
  from same(4) [of "[]"] show "exists (wipe b root w) q = exists w q" by simp
  have all: "(\<forall>q'. prefix q q' \<longrightarrow> P q') = (\<forall>x. P (q @ x))" for P :: "path \<Rightarrow> bool" by (auto simp: prefix_def)
  show "absent_is_empty (wipe b root w) q = absent_is_empty w q"
    unfolding absent_is_empty_def all same same(4) [of "[]", simplified] by (rule refl)
qed

lemma wipe_empties:
  assumes "absent_is_empty w root" "prefix root q"
  shows "\<not> exists (wipe True root w) root \<and> \<not> is_file (wipe True root w) q \<and> \<not> is_dir (wipe True root w) q
    \<and> (\<exists>e. tree_at (wipe True root w) q = Err e)"
  using assms by (auto simp: wipe_def absent_is_empty_def put_def)

locale cache_branch =
  fixes collect :: "world \<Rightarrow> path \<Rightarrow> (cache_error, cache_entry list) outcome"
    and kinds :: "string set"
  assumes elsewhere: "apart p root \<Longrightarrow> collect (put p n w) root = collect w root"
    and absent: "(\<And>q. prefix root q \<Longrightarrow> \<exists>e. tree_at w q = Err e) \<Longrightarrow> collect w root = Ok []"
    and kind_of: "collect w root = Ok es \<Longrightarrow> e \<in> set es \<Longrightarrow> ce_kind e \<in> kinds"
begin

lemma collect_wipe_apart: "apart p root \<Longrightarrow> collect (wipe b p w) root = collect w root"
  by (simp add: wipe_def elsewhere)

lemma collect_wiped: "absent_is_empty w root \<Longrightarrow> collect (wipe True root w) root = Ok []"
  by (rule absent) (use wipe_empties in blast)

text \<open>Reaping a branch removes its root and counts what was listed there, once.\<close>

lemma reap_counts:
  assumes "reap_if wanted collect root rep w = (Ok rep', w')" "absent_is_empty w root"
  obtains found where "if wanted then collect w root = Ok found else found = []"
    "w' = wipe wanted root w"
    "rep' = \<lparr>cr_removed = cr_removed rep + length found, cr_freed = cr_freed rep + sum_list (map ce_size found)\<rparr>"
proof (cases wanted)
  case False
  with assms(1) that [of "[]"] show thesis by (simp add: reap_if_def nret_def wipe_def)
next
  case True
  with assms(1) obtain found where c: "collect w root = Ok found" and r: "reap root found rep w = (Ok rep', w')"
    by (auto simp: reap_if_def nbind_def split: outcome.splits)
  have "foldl (\<lambda>r e. r\<lparr>cr_removed := cr_removed r + 1, cr_freed := cr_freed r + ce_size e\<rparr>) rep found
    = \<lparr>cr_removed = cr_removed rep + length found, cr_freed = cr_freed rep + sum_list (map ce_size found)\<rparr>"
    by (induction found arbitrary: rep) (simp_all add: algebra_simps)
  moreover have "found = []" if "\<not> exists w root"
  proof -
    from that assms(2) have "\<exists>e. tree_at w q = Err e" if "prefix root q" for q
      using that by (auto simp: absent_is_empty_def)
    then have "collect w root = Ok []" by (rule absent)
    with c show ?thesis by simp
  qed
  ultimately show thesis
    using c r True that [of found]
    by (auto simp: reap_def wipe_def remove_dir_all_def split: if_splits outcome.splits option.splits)
qed

end

lemma subdir_elsewhere:
  assumes "apart p dir"
  shows "collect_git_subdir b (put p n w) dir k i = collect_git_subdir b w dir k i"
proof -
  have "collect_entry b (put p n w) dir k i = collect_entry b w dir k i"
  proof
    fix name
    have "child dir name = dir @ [Normal name]" by (simp add: child_def path_join_def is_absolute_def)
    with apart_append [OF assms, of "[Normal name]"]
    show "collect_entry b (put p n w) dir k i name = collect_entry b w dir k i name"
      by (simp only: collect_entry_def Let_def dir_size_def apart_def put_elsewhere not_False_eq_True)
  qed
  note entry = this
  have listing: "fs_read_dir (put p n w) dir = fs_read_dir w dir"
    using assms by (simp add: fs_read_dir_def apart_def put_elsewhere)
  show ?thesis unfolding collect_git_subdir_def entry listing by (rule refl)
qed

lemma subdir_absent: "\<exists>e. tree_at w dir = Err e \<Longrightarrow> collect_git_subdir b w dir k i = Ok []"
  by (auto simp: collect_git_subdir_def fs_read_dir_def)

lemma entry_kind: "collect_entry b w dir k i name = Ok es \<Longrightarrow> e \<in> set es \<Longrightarrow> ce_kind e = k"
  by (auto simp: collect_entry_def Let_def outcome_simps split: if_splits)

lemma subdir_kind:
  assumes "collect_git_subdir b w dir k i = Ok es" "e \<in> set es"
  shows "ce_kind e = k"
proof -
  from assms obtain l where "concat_ok (map (\<lambda>(name, _ :: node). collect_entry b w dir k i name) l) = Ok es"
    by (auto simp: collect_git_subdir_def split: outcome.splits)
  from concat_ok_mapD [OF this] assms(2) show ?thesis
    by (auto simp: is_Ok_iff split: outcome.splits dest: entry_kind [OF sym])
qed

lemma branch_dirs:
  "path_join root (path_of ''sha256'') = root @ [Normal ''sha256'']"
  "path_join root (path_of ''repos'') = root @ [Normal ''repos'']"
  "path_join root (path_of ''checkouts'') = root @ [Normal ''checkouts'']"
proof -
  have "path_of ''sha256'' = [Normal ''sha256'']" "path_of ''repos'' = [Normal ''repos'']"
    "path_of ''checkouts'' = [Normal ''checkouts'']" by code_simp+
  then show "path_join root (path_of ''sha256'') = root @ [Normal ''sha256'']"
    "path_join root (path_of ''repos'') = root @ [Normal ''repos'']"
    "path_join root (path_of ''checkouts'') = root @ [Normal ''checkouts'']"
    by (simp_all add: path_join_def is_absolute_def)
qed

interpretation oci_branch: cache_branch "collect_oci b" "{''oci-blob''}" for b
  by unfold_locales
    (auto simp: collect_oci_def branch_dirs subdir_elsewhere apart_append intro: subdir_absent dest: subdir_kind)

interpretation git_branch: cache_branch "collect_git b" "{''git-repo'', ''git-checkout''}" for b
proof unfold_locales
  fix w :: world and root assume "\<And>q. prefix root q \<Longrightarrow> \<exists>e. tree_at w q = Err e"
  then have "\<exists>e. tree_at w (root @ [Normal s]) = Err e" for s by simp
  then show "collect_git b w root = Ok []"
    by (simp add: collect_git_def branch_dirs subdir_absent)
qed (auto simp: collect_git_def branch_dirs subdir_elsewhere apart_append outcome_simps dest: subdir_kind)

interpretation helm_branch: cache_branch "collect_helm b" "{''helm-chart''}" for b
  by unfold_locales
    (auto simp: collect_helm_def subdir_elsewhere intro: subdir_absent dest: subdir_kind)

section \<open>The listing is split\<close>

definition kind_in_scope :: "clear_scope \<Rightarrow> string \<Rightarrow> bool" where
  "kind_in_scope sc k \<longleftrightarrow>
     (includes_oci sc \<and> k = ''oci-blob'') \<or> (includes_git sc \<and> k \<in> {''git-repo'', ''git-checkout''})
     \<or> (includes_helm sc \<and> k = ''helm-chart'')"

text \<open>The parts of a listing that a wipe with a scope removes and keeps.\<close>

lemma filter_all: "(\<And>e. e \<in> set es \<Longrightarrow> P e = b) \<Longrightarrow> filter P es = (if b then es else [])"
  by (induction es) auto

lemma sum_sizes_sorted: "sum_list (map ce_size (sort_key ce_path es)) = sum_list (map ce_size es)"
  by (metis mset_map mset_sort sum_mset_sum_list)

lemma roots_apart:
  assumes "a \<noteq> b" "path_of a = [Normal a]" "path_of b = [Normal b]"
  shows "apart (default_cache_root w a) (default_cache_root w b)"
  using assms by (auto simp: default_cache_root_def path_join_def is_absolute_def apart_def split: option.splits)

lemma default_roots_apart:
  "apart (default_cache_root w ''oci'') (default_cache_root w ''git'')"
  "apart (default_cache_root w ''oci'') (default_cache_root w ''helm'')"
  "apart (default_cache_root w ''git'') (default_cache_root w ''helm'')"
  by (rule roots_apart; code_simp)+

lemma default_root_wipe: "default_cache_root (wipe b p w) s = default_cache_root w s"
  by (simp add: wipe_def default_cache_root_def env_nonempty_def cong: option.case_cong)

definition caches_consistent :: "world \<Rightarrow> bool" where
  "caches_consistent w \<longleftrightarrow> (\<forall>s \<in> {''oci'', ''git'', ''helm''}. absent_is_empty w (default_cache_root w s))"

definition wiped :: "clear_scope \<Rightarrow> world \<Rightarrow> world" where
  "wiped sc w = wipe (includes_helm sc) (default_cache_root w ''helm'')
     (wipe (includes_git sc) (default_cache_root w ''git'') (wipe (includes_oci sc) (default_cache_root w ''oci'') w))"

lemma cache_clear_Ok:
  assumes "cache_clear b sc w = (Ok rep, w')" "caches_consistent w"
  obtains xs ys zs where
    "if includes_oci sc then collect_oci b w (default_cache_root w ''oci'') = Ok xs else xs = []"
    "if includes_git sc then collect_git b w (default_cache_root w ''git'') = Ok ys else ys = []"
    "if includes_helm sc then collect_helm b w (default_cache_root w ''helm'') = Ok zs else zs = []"
    "w' = wiped sc w"
    "cr_removed rep = length (xs @ ys @ zs)" "cr_freed rep = sum_list (map ce_size (xs @ ys @ zs))"
proof -
  let ?o = "default_cache_root w ''oci''" and ?g = "default_cache_root w ''git''" and ?h = "default_cache_root w ''helm''"
  note ap = default_roots_apart [of w]
  from assms(1) obtain r1 w1 r2 w2 where
    1: "reap_if (includes_oci sc) (collect_oci b) ?o \<lparr>cr_removed = 0, cr_freed = 0\<rparr> w = (Ok r1, w1)" and
    2: "reap_if (includes_git sc) (collect_git b) ?g r1 w1 = (Ok r2, w2)" and
    3: "reap_if (includes_helm sc) (collect_helm b) ?h r2 w2 = (Ok rep, w')"
    by (auto simp: cache_clear_def clear_at_roots_def nbind_def split: prod.splits outcome.splits)
  have e: "absent_is_empty w ?o" "absent_is_empty w ?g" "absent_is_empty w ?h"
    using assms(2) by (simp_all add: caches_consistent_def)
  from oci_branch.reap_counts [OF 1 e(1)] obtain xs where
    x: "if includes_oci sc then collect_oci b w ?o = Ok xs else xs = []" "w1 = wipe (includes_oci sc) ?o w"
      "r1 = \<lparr>cr_removed = length xs, cr_freed = sum_list (map ce_size xs)\<rparr>" by auto
  have "absent_is_empty w1 ?g" using e(2) ap(1) by (simp add: x(2) wipe_apart)
  from git_branch.reap_counts [OF 2 this] obtain ys where
    y: "if includes_git sc then collect_git b w1 ?g = Ok ys else ys = []" "w2 = wipe (includes_git sc) ?g w1"
      "r2 = \<lparr>cr_removed = cr_removed r1 + length ys, cr_freed = cr_freed r1 + sum_list (map ce_size ys)\<rparr>" by metis
  have "absent_is_empty w2 ?h" using e(3) ap(2,3) by (simp add: x(2) y(2) wipe_apart)
  from helm_branch.reap_counts [OF 3 this] obtain zs where
    z: "if includes_helm sc then collect_helm b w2 ?h = Ok zs else zs = []" "w' = wipe (includes_helm sc) ?h w2"
      "rep = \<lparr>cr_removed = cr_removed r2 + length zs, cr_freed = cr_freed r2 + sum_list (map ce_size zs)\<rparr>" by metis
  show thesis
  proof (rule that [of xs ys zs])
    show "if includes_git sc then collect_git b w ?g = Ok ys else ys = []"
      using y(1) ap(1) by (auto simp: x(2) git_branch.collect_wipe_apart split: if_splits)
    show "if includes_helm sc then collect_helm b w ?h = Ok zs else zs = []"
      using z(1) ap(2,3) by (auto simp: x(2) y(2) helm_branch.collect_wipe_apart split: if_splits)
  qed (use x y z in \<open>auto simp: wiped_def\<close>)
qed

lemma collect_after_wipe:
  assumes "caches_consistent w"
  shows "collect_oci b (wiped sc w) (default_cache_root w ''oci'')
      = (if includes_oci sc then Ok [] else collect_oci b w (default_cache_root w ''oci''))"
    "collect_git b (wiped sc w) (default_cache_root w ''git'')
      = (if includes_git sc then Ok [] else collect_git b w (default_cache_root w ''git''))"
    "collect_helm b (wiped sc w) (default_cache_root w ''helm'')
      = (if includes_helm sc then Ok [] else collect_helm b w (default_cache_root w ''helm''))"
proof -
  let ?o = "default_cache_root w ''oci''" and ?g = "default_cache_root w ''git''" and ?h = "default_cache_root w ''helm''"
  note ap = default_roots_apart [of w] and sy = default_roots_apart [of w, THEN apart_sym]
  have e: "absent_is_empty w ?o" "absent_is_empty w ?g" "absent_is_empty w ?h"
    using assms by (simp_all add: caches_consistent_def)
  have off: "wipe False r v = v" for r v by (simp add: wipe_def)
  show "collect_oci b (wiped sc w) ?o = (if includes_oci sc then Ok [] else collect_oci b w ?o)"
    using e sy oci_branch.collect_wiped [OF e(1)]
    by (simp add: wiped_def oci_branch.collect_wipe_apart) (simp add: off)
  show "collect_git b (wiped sc w) ?g = (if includes_git sc then Ok [] else collect_git b w ?g)"
  proof (cases "includes_git sc")
    case True
    have "absent_is_empty (wipe (includes_oci sc) ?o w) ?g" using e(2) ap by (simp add: wipe_apart)
    from git_branch.collect_wiped [OF this] True sy(3) show ?thesis
      by (simp add: wiped_def git_branch.collect_wipe_apart)
  qed (simp add: wiped_def git_branch.collect_wipe_apart ap sy off)
  show "collect_helm b (wiped sc w) ?h = (if includes_helm sc then Ok [] else collect_helm b w ?h)"
  proof (cases "includes_helm sc")
    case True
    have "absent_is_empty (wipe (includes_git sc) ?g (wipe (includes_oci sc) ?o w)) ?h"
      using e(3) ap by (simp add: wipe_apart)
    from helm_branch.collect_wiped [OF this] True show ?thesis by (simp add: wiped_def)
  qed (simp add: wiped_def helm_branch.collect_wipe_apart ap off)
qed

text \<open>
  C28. Wiping is bookkeeping without loss: \<open>akua cache clear\<close> with a scope leaves exactly the entries of the listing
  that the scope does not cover, in their order, and its report says how many went and how many bytes: what was
  removed and what is left add up to what was listed.
\<close>

theorem clear_splits_listing:
  assumes listed: "cache_list b w = Ok before" and ok: "caches_consistent w"
    and clear: "cache_clear b sc w = (Ok rep, w')"
  shows "\<exists>after. cache_list b w' = Ok after
    \<and> ci_entries after = filter (\<lambda>e. \<not> kind_in_scope sc (ce_kind e)) (ci_entries before)
    \<and> cr_removed rep + length (ci_entries after) = length (ci_entries before)
    \<and> cr_freed rep + ci_total after = ci_total before"
proof -
  let ?o = "default_cache_root w ''oci''" and ?g = "default_cache_root w ''git''" and ?h = "default_cache_root w ''helm''"
  from listed obtain A B C where
    l: "collect_oci b w ?o = Ok A" "collect_git b w ?g = Ok B" "collect_helm b w ?h = Ok C"
    and before: "ci_entries before = sort_key ce_path (A @ B @ C)" "ci_total before = sum_list (map ce_size (A @ B @ C))"
    by (auto simp: cache_list_def list_at_roots_def Let_def outcome_simps sum_sizes_sorted)
  from cache_clear_Ok [OF clear ok] obtain xs ys zs where
    c: "if includes_oci sc then collect_oci b w ?o = Ok xs else xs = []"
      "if includes_git sc then collect_git b w ?g = Ok ys else ys = []"
      "if includes_helm sc then collect_helm b w ?h = Ok zs else zs = []"
    and w': "w' = wiped sc w"
    and rep: "cr_removed rep = length (xs @ ys @ zs)" "cr_freed rep = sum_list (map ce_size (xs @ ys @ zs))" .
  let ?A = "if includes_oci sc then [] else A" and ?B = "if includes_git sc then [] else B"
    and ?C = "if includes_helm sc then [] else C"
  have gone: "xs = (if includes_oci sc then A else [])" "ys = (if includes_git sc then B else [])"
    "zs = (if includes_helm sc then C else [])" using c l by (auto split: if_splits)
  have roots: "default_cache_root (wiped sc w) s = default_cache_root w s" for s
    by (simp add: wiped_def default_root_wipe)
  have "cache_list b w' = Ok \<lparr>ci_oci_root = ?o, ci_git_root = ?g, ci_helm_root = ?h,
      ci_entries = sort_key ce_path (?A @ ?B @ ?C), ci_total = sum_list (map ce_size (?A @ ?B @ ?C))\<rparr>" (is "_ = Ok ?after")
    unfolding w' cache_list_def roots list_at_roots_def collect_after_wipe [OF ok]
    by (simp add: l if_distrib [of "\<lambda>x. obind x f" for f] Let_def sum_sizes_sorted)
  moreover have "filter (\<lambda>e. \<not> kind_in_scope sc (ce_kind e)) (A @ B @ C) = ?A @ ?B @ ?C"
  proof -
    have "filter (\<lambda>e. \<not> kind_in_scope sc (ce_kind e)) A = ?A"
      using oci_branch.kind_of [OF l(1)] by (subst filter_all [where b = "\<not> includes_oci sc"]) (auto simp: kind_in_scope_def)
    moreover have "filter (\<lambda>e. \<not> kind_in_scope sc (ce_kind e)) B = ?B"
      using git_branch.kind_of [OF l(2)]
      by (subst filter_all [where b = "\<not> includes_git sc"]) (fastforce simp: kind_in_scope_def)+
    moreover have "filter (\<lambda>e. \<not> kind_in_scope sc (ce_kind e)) C = ?C"
      using helm_branch.kind_of [OF l(3)] by (subst filter_all [where b = "\<not> includes_helm sc"]) (auto simp: kind_in_scope_def)
    ultimately show ?thesis by simp
  qed
  moreover have "cr_removed rep + length (?A @ ?B @ ?C) = length (A @ B @ C)"
    "cr_freed rep + sum_list (map ce_size (?A @ ?B @ ?C)) = sum_list (map ce_size (A @ B @ C))"
    using rep by (auto simp: gone algebra_simps)
  ultimately show ?thesis
    by (intro exI [of _ ?after]) (simp add: before filter_sort)
qed

text \<open>
  Nothing wiped is served: after \<open>akua cache clear\<close> of everything, or of the OCI cache alone, an offline
  resolution finds no artifact in the default cache, whatever digest the lock names, as long as the digest is no absolute path.
\<close>

theorem cleared_cache_serves_nothing:
  assumes clear: "cache_clear b sc w = (Ok rep, w')" and ok: "caches_consistent w" and oci: "includes_oci sc"
    and digest: "strip_prefix ''sha256:'' digest = Some hex" "\<not> is_absolute (path_of hex)"
  shows "oci_fetch_from_cache w' (default_cache_root w' ''oci'') digest = None"
proof -
  let ?o = "default_cache_root w ''oci''"
  from cache_clear_Ok [OF clear ok] have w': "w' = wiped sc w" by blast
  have root: "default_cache_root w' ''oci'' = ?o" by (simp add: w' wiped_def default_root_wipe)
  have e: "absent_is_empty w ?o" using ok by (simp add: caches_consistent_def)
  have gone: "\<not> is_file w' (?o @ x) \<and> (\<exists>er. tree_at w' (?o @ x) = Err er)" for x
  proof -
    note ap = default_roots_apart(1,2) [of w, THEN apart_sym, THEN apart_append, of x]
    from wipe_empties [OF e, of "?o @ x"] ap oci show ?thesis
      by (simp add: w' wiped_def wipe_def apart_def put_elsewhere split: if_splits)
  qed
  have cached: "\<exists>x. oci_cache_dir_for ?o digest = ?o @ x"
    unfolding oci_cache_dir_for_def Let_def digest(1) branch_dirs using digest(2) by (auto simp: path_join_def)
  then obtain x where x: "oci_cache_dir_for ?o digest = ?o @ x" ..
  have c: "child (?o @ x) m = ?o @ x @ [Normal m]" for m
    by (simp add: child_def path_join_def is_absolute_def)
  have "detect_kind_at w' (?o @ x) ms k = None" if "ms \<noteq> []" for ms k
  proof -
    obtain er where "fs_read_dir w' (?o @ x) = Err er" using gone [of x] by (auto simp: fs_read_dir_def)
    with gone [of "x @ [Normal (hd ms)]"] that show ?thesis by (cases ms) (simp_all add: detect_kind_at_def c)
  qed
  then have "detect_kind w' (?o @ x) = None" by (simp add: detect_kind_def)
  then show ?thesis by (simp add: oci_fetch_from_cache_def root x)
qed

section \<open>Instances\<close>

text \<open>A cache under \<open>/c\<close> that holds one artifact and one checkout.\<close>

definition cache_tree :: node where
  "cache_tree = Dir [(''akua'', Dir [
      (''oci'', Dir [(''sha256'', Dir [(''d'', Dir [(''Chart.yaml'', File ''name: a'')])])]),
      (''git'', Dir [(''checkouts'', Dir [(''c'', Dir [(''f'', File ''12'')])])])])]"

definition toy_cache_world :: world where
  "toy_cache_world = put [RootDir, Normal ''c''] (Some cache_tree)
     ((text_world [])\<lparr>exists := (\<lambda>_. False), tree_at := (\<lambda>_. Err not_found),
        env_var := (\<lambda>v. if v = ''XDG_CACHE_HOME'' then Some ''/c'' else None)\<rparr>)"

lemma toy_cache_consistent: "caches_consistent toy_cache_world"
proof -
  have "exists toy_cache_world (default_cache_root toy_cache_world ''oci'')"
    "exists toy_cache_world (default_cache_root toy_cache_world ''git'')" by code_simp+
  moreover have "absent_is_empty toy_cache_world (default_cache_root toy_cache_world ''helm'')"
  proof -
    have root: "default_cache_root toy_cache_world ''helm'' = [RootDir, Normal ''c'', Normal ''akua'', Normal ''helm'']"
      by code_simp
    have "\<not> is_file toy_cache_world ([RootDir, Normal ''c'', Normal ''akua'', Normal ''helm''] @ x)
      \<and> \<not> is_dir toy_cache_world ([RootDir, Normal ''c'', Normal ''akua'', Normal ''helm''] @ x)
      \<and> tree_at toy_cache_world ([RootDir, Normal ''c'', Normal ''akua'', Normal ''helm''] @ x) = Err not_found" for x
      by (simp add: toy_cache_world_def put_def cache_tree_def)
    then show ?thesis unfolding absent_is_empty_def root by (auto simp: prefix_def)
  qed
  ultimately show ?thesis by (auto simp: caches_consistent_def absent_is_empty_def)
qed

lemma clear_splits_listing_witness:
  "\<exists>rep w' after. cache_clear Err OciOnly toy_cache_world = (Ok rep, w') \<and> cache_list Err w' = Ok after
     \<and> map ce_id (ci_entries after) = [''git:c''] \<and> cr_removed rep = 1 \<and> cr_freed rep = 7"
proof -
  have l: "case cache_list Err toy_cache_world of Ok l \<Rightarrow> map (\<lambda>e. (ce_kind e, ce_id e, ce_size e)) (ci_entries l)
      = [(''git-checkout'', ''git:c'', 2), (''oci-blob'', ''sha256:d'', 7)] \<and> ci_total l = 9 | _ \<Rightarrow> False"
    by code_simp
  then obtain before where before: "cache_list Err toy_cache_world = Ok before"
    "map (\<lambda>e. (ce_kind e, ce_id e, ce_size e)) (ci_entries before)
      = [(''git-checkout'', ''git:c'', 2), (''oci-blob'', ''sha256:d'', 7)]" by (auto split: outcome.splits)
  have "case cache_clear Err OciOnly toy_cache_world of (Ok r, _) \<Rightarrow> cr_freed r = 7 | _ \<Rightarrow> False" by code_simp
  then obtain rep w' where c: "cache_clear Err OciOnly toy_cache_world = (Ok rep, w')" "cr_freed rep = 7"
    by (auto split: outcome.splits prod.splits)
  from clear_splits_listing [OF before(1) toy_cache_consistent c(1)] obtain after where
    "cache_list Err w' = Ok after" "ci_entries after = filter (\<lambda>e. \<not> kind_in_scope OciOnly (ce_kind e)) (ci_entries before)"
    "cr_removed rep + length (ci_entries after) = length (ci_entries before)" by blast
  with before(2) c show ?thesis
    by (intro exI [of _ rep] exI [of _ w'] exI [of _ after])
      (auto simp: kind_in_scope_def includes_oci_def includes_git_def includes_helm_def)
qed

lemma cleared_cache_serves_nothing_witness:
  "\<exists>rep w'. oci_fetch_from_cache toy_cache_world (default_cache_root toy_cache_world ''oci'') ''sha256:d'' \<noteq> None
     \<and> cache_clear Err OciOnly toy_cache_world = (Ok rep, w')
     \<and> oci_fetch_from_cache w' (default_cache_root w' ''oci'') ''sha256:d'' = None"
proof -
  have "case cache_clear Err OciOnly toy_cache_world of (Ok r, _) \<Rightarrow> True | _ \<Rightarrow> False" by code_simp
  then obtain rep w' where c: "cache_clear Err OciOnly toy_cache_world = (Ok rep, w')"
    by (auto split: outcome.splits prod.splits)
  have "includes_oci OciOnly" "strip_prefix ''sha256:'' ''sha256:d'' = Some ''d''" "\<not> is_absolute (path_of ''d'')"
    "case oci_fetch_from_cache toy_cache_world (default_cache_root toy_cache_world ''oci'') ''sha256:d'' of
       None \<Rightarrow> False | Some _ \<Rightarrow> True" by code_simp+
  with cleared_cache_serves_nothing [OF c toy_cache_consistent] c show ?thesis
    by (cases "oci_fetch_from_cache toy_cache_world (default_cache_root toy_cache_world ''oci'') ''sha256:d''") auto
qed

end
