(* ===== verification/VerifyTarball.thy ===== *)
theory VerifyTarball
  imports Distribute
begin

text \<open>
  \<open>akua verify --tarball\<close> (\<open>verbs/verify_tarball.rs\<close>): checking an archive against its signature file without a
  registry. The checks are made in the order of the code; a check that could not be made is skipped.
\<close>

section \<open>The verb\<close>

record verify_tarball_args =
  vt_tarball :: path
  vt_sig :: "path option"
  vt_public_key :: "path option"
  vt_workspace :: path

datatype verify_check =
  SidecarReadable string "string option"
| DigestMatch string "string option" "string option"
| SignatureVerify string "string option"

record verify_tarball_output =
  vto_status :: string
  vto_tarball :: path
  vto_sidecar :: path
  vto_oci_ref :: "string option"
  vto_tag :: "string option"
  vto_checks :: "verify_check list"

fun check_status :: "verify_check \<Rightarrow> string" where
  "check_status (SidecarReadable status _) = status"
| "check_status (DigestMatch status _ _) = status"
| "check_status (SignatureVerify status _) = status"

datatype verify_tarball_error =
  VtReadTarball path io_error
| VtReadPublicKey path io_error
| VtManifest manifest_load_error
| VtStdoutWrite io_error

fun verify_tarball_error_text :: "dist_texts \<Rightarrow> verify_tarball_error \<Rightarrow> string" where
  "verify_tarball_error_text t (VtReadTarball p e) = ''reading tarball '' @ backquoted p @ '': '' @ io_msg e"
| "verify_tarball_error_text t (VtReadPublicKey p e) = ''reading public key '' @ backquoted p @ '': '' @ io_msg e"
| "verify_tarball_error_text t (VtManifest e) = dt_manifest_load t e"
| "verify_tarball_error_text t (VtStdoutWrite e) = ''write to stdout failed: '' @ io_msg e"

definition verify_tarball_to_structured :: "dist_texts \<Rightarrow> verify_tarball_error \<Rightarrow> structured_error" where
  "verify_tarball_to_structured t e =
     with_default_docs (structured_new (case e of VtManifest _ \<Rightarrow> E_MANIFEST_PARSE | _ \<Rightarrow> E_IO)
       (verify_tarball_error_text t e))"

fun verify_tarball_is_system :: "verify_tarball_error \<Rightarrow> bool" where
  "verify_tarball_is_system (VtStdoutWrite _) = True"
| "verify_tarball_is_system _ = False"

definition verify_tarball_exit_code :: "verify_tarball_error \<Rightarrow> exit_code" where
  "verify_tarball_exit_code e = (case e of VtStdoutWrite _ \<Rightarrow> SystemError | _ \<Rightarrow> UserError)"

text \<open>The text of a cosign error; the two kinds the verb words itself.\<close>

definition describe_cosign_err :: "dist_texts \<Rightarrow> cosign_error \<Rightarrow> string" where
  "describe_cosign_err t e =
     (case e of
        VerifyFailed msg \<Rightarrow> ''signature does not verify: '' @ msg
      | CosignDigestMismatch claimed actual \<Rightarrow>
          ''payload digest `'' @ claimed @ ''` doesn'' @ [CHR 0x27] @ ''t match manifest digest `'' @ actual @ ''`''
      | other \<Rightarrow> dt_cosign t other)"

definition resolve_sidecar_path :: "verify_tarball_args \<Rightarrow> path" where
  "resolve_sidecar_path args =
     (case vt_sig args of Some p \<Rightarrow> p | None \<Rightarrow> default_sidecar_path (vt_tarball args))"

definition load_public_key ::
  "('vk, 'sk, 'sg, 'v, 'r, 'g, 'b) dist_env \<Rightarrow> verify_tarball_args \<Rightarrow> world \<Rightarrow> (verify_tarball_error, string option) outcome"
where
  "load_public_key env args w =
     (case vt_public_key args of
        Some p \<Rightarrow> obind (omap_err (VtReadPublicKey p) (read_to_string w p)) (\<lambda>pem. Ok (Some pem))
      | None \<Rightarrow>
          (case dist_manifest env (vt_workspace args) w of
             Err (ManifestMissing _) \<Rightarrow> Ok None
           | Err e \<Rightarrow> Err (VtManifest e)
           | Panic \<Rightarrow> Panic
           | Ok m \<Rightarrow>
               (case Option.bind (m_signing m) cosign_public_key of
                  None \<Rightarrow> Ok None
                | Some rel \<Rightarrow>
                    let key_path = path_join (vt_workspace args) (path_of rel)
                    in obind (omap_err (VtReadPublicKey key_path) (read_to_string w key_path)) (\<lambda>pem. Ok (Some pem)))))"

definition no_public_key_text :: string where
  "no_public_key_text =
     ''no public key configured (pass --public-key or set akua.toml [signing].cosign_public_key)''"

definition digest_check ::
  "('vk, 'sk, 'sg, 'v, 'r, 'g, 'b) dist_env \<Rightarrow> string \<Rightarrow> sign_sidecar option \<Rightarrow> (verify_tarball_error, verify_check) outcome"
where
  "digest_check env bytes sidecar =
     (case sidecar of
        None \<Rightarrow> Ok (DigestMatch ''skip'' None None)
      | Some sc \<Rightarrow>
          obind (compute_publish_digests (de_push env) bytes) (\<lambda>d.
          Ok (if sc_manifest_digest sc = pd_manifest_digest d then DigestMatch ''pass'' None None
              else DigestMatch ''fail'' (Some (pd_manifest_digest d)) (Some (sc_manifest_digest sc)))))"

definition signature_check ::
  "('vk, 'sk, 'sg, 'v, 'r, 'g, 'b) dist_env \<Rightarrow> sign_sidecar option \<Rightarrow> string option \<Rightarrow> (verify_tarball_error, verify_check) outcome"
where
  "signature_check env sidecar public_key_pem =
     (case (sidecar, public_key_pem) of
        (Some sc, Some pem) \<Rightarrow>
          (case verify_keyed (dist_crypto env) pem (sc_payload sc) (sc_signature_b64 sc) (sc_manifest_digest sc) of
             Ok _ \<Rightarrow> Ok (SignatureVerify ''pass'' None)
           | Err e \<Rightarrow> Ok (SignatureVerify ''fail'' (Some (describe_cosign_err (de_texts env) e)))
           | Panic \<Rightarrow> Panic)
      | _ \<Rightarrow> Ok (SignatureVerify ''skip'' (Some no_public_key_text)))"

definition verify_tarball_check ::
  "('vk, 'sk, 'sg, 'v, 'r, 'g, 'b) dist_env \<Rightarrow> verify_tarball_args \<Rightarrow> world
     \<Rightarrow> (verify_tarball_error, verify_tarball_output) outcome"
where
  "verify_tarball_check env args w =
     obind (omap_err (VtReadTarball (vt_tarball args)) (fs_read (vt_tarball args) w)) (\<lambda>bytes.
     let sidecar_path = resolve_sidecar_path args;
         parsed = sidecar_read_from (de_sidecar_of_json env) sidecar_path w;
         sidecar = (case parsed of Ok sc \<Rightarrow> Some sc | _ \<Rightarrow> None);
         readable = (case parsed of Err e \<Rightarrow> SidecarReadable ''fail'' (Some (dt_sidecar (de_texts env) e))
                     | _ \<Rightarrow> SidecarReadable ''pass'' None)
     in if parsed = Panic then Panic
        else obind (digest_check env bytes sidecar) (\<lambda>digest_match.
             obind (load_public_key env args w) (\<lambda>public_key_pem.
             obind (signature_check env sidecar public_key_pem) (\<lambda>signature_verify.
             let checks = [readable, digest_match, signature_verify]
             in Ok \<lparr>vto_status = (if list_ex (\<lambda>c. check_status c = ''fail'') checks then ''fail'' else ''ok''),
                    vto_tarball = vt_tarball args, vto_sidecar = sidecar_path,
                    vto_oci_ref = map_option sc_oci_ref sidecar, vto_tag = map_option sc_tag sidecar,
                    vto_checks = checks\<rparr>))))"

definition verify_tarball ::
  "('vk, 'sk, 'sg, 'v, 'r, 'g, 'b) dist_env \<Rightarrow> verify_tarball_args \<Rightarrow> world
     \<Rightarrow> (verify_tarball_error, exit_code \<times> verify_tarball_output) outcome"
where
  "verify_tarball env args w =
     obind (verify_tarball_check env args w) (\<lambda>out. Ok (if vto_status out = ''ok'' then Success else UserError, out))"

definition detail_line :: "string option \<Rightarrow> string" where
  "detail_line d = (case d of Some s \<Rightarrow> ''        '' @ s @ ''\<newline>'' | None \<Rightarrow> [])"

fun check_text :: "verify_check \<Rightarrow> string" where
  "check_text (SidecarReadable status detail) = ''  ['' @ status @ ''] sidecar readable\<newline>'' @ detail_line detail"
| "check_text (DigestMatch status expected actual) =
     ''  ['' @ status @ ''] manifest digest match\<newline>''
     @ (case (expected, actual) of
          (Some e, Some a) \<Rightarrow> ''        expected '' @ e @ ''\<newline>'' @ ''        sidecar  '' @ a @ ''\<newline>''
        | _ \<Rightarrow> [])"
| "check_text (SignatureVerify status detail) = ''  ['' @ status @ ''] signature verify\<newline>'' @ detail_line detail"

definition verify_tarball_text :: "verify_tarball_output \<Rightarrow> string \<Rightarrow> string" where
  "verify_tarball_text out buf =
     buf @ ''verify: '' @ path_str (vto_tarball out) @ ''\<newline>''
     @ ''  sidecar '' @ path_str (vto_sidecar out) @ ''\<newline>''
     @ (case (vto_oci_ref out, vto_tag out) of
          (Some r, Some t) \<Rightarrow> ''  target  '' @ r @ '':'' @ t @ ''\<newline>'' | _ \<Rightarrow> [])
     @ concat (map check_text (vto_checks out))
     @ ''status: '' @ vto_status out @ ''\<newline>''"

interpretation verify_tarball_errors:
  reported_error "verify_tarball_to_structured t" verify_tarball_is_system verify_tarball_exit_code for t
  by unfold_locales
    (auto simp: structured_defs verify_tarball_to_structured_def verify_tarball_exit_code_def
      elim!: verify_tarball_is_system.elims split: verify_tarball_error.splits)

end
