(* ===== verification/VerifyTarballSpec.thy ===== *)
theory VerifyTarballSpec
  imports VerifyTarball DistributeSpec
begin

text \<open>
  What \<open>akua verify --tarball\<close> promises: its verdict is exact, it accepts what \<open>akua sign\<close> made of the
  archive, and an unreadable signature file is a failure.
\<close>

section \<open>The checks\<close>

lemma digest_check_Ok:
  "digest_check env bytes sidecar = Ok c \<longleftrightarrow>
     (case sidecar of None \<Rightarrow> c = DigestMatch ''skip'' None None
      | Some sc \<Rightarrow> \<exists>d. (compute_publish_digests (de_push env) bytes :: (verify_tarball_error, publish_digests) outcome) = Ok d
          \<and> c = (if sc_manifest_digest sc = pd_manifest_digest d then DigestMatch ''pass'' None None
               else DigestMatch ''fail'' (Some (pd_manifest_digest d)) (Some (sc_manifest_digest sc))))"
  by (auto simp: digest_check_def outcome_simps split: option.splits)

lemma signature_check_Ok:
  "signature_check env sidecar key = Ok c \<Longrightarrow>
     (check_status c = ''fail'' \<longleftrightarrow> (\<exists>sc pem. sidecar = Some sc \<and> key = Some pem
        \<and> verify_keyed (dist_crypto env) pem (sc_payload sc) (sc_signature_b64 sc) (sc_manifest_digest sc) \<noteq> Ok ()))"
  by (auto simp: signature_check_def split: option.splits outcome.splits)

lemma verify_tarball_check_Ok:
  assumes "verify_tarball_check env args w = Ok out"
  obtains bytes parsed c1 c2 key c3 where
    "fs_read (vt_tarball args) w = Ok bytes"
    "parsed = sidecar_read_from (de_sidecar_of_json env) (resolve_sidecar_path args) w" "parsed \<noteq> Panic"
    "c1 = (case parsed of Err e \<Rightarrow> SidecarReadable ''fail'' (Some (dt_sidecar (de_texts env) e)) | _ \<Rightarrow> SidecarReadable ''pass'' None)"
    "digest_check env bytes (case parsed of Ok sc \<Rightarrow> Some sc | _ \<Rightarrow> None) = Ok c2"
    "load_public_key env args w = Ok key"
    "signature_check env (case parsed of Ok sc \<Rightarrow> Some sc | _ \<Rightarrow> None) key = Ok c3"
    "vto_checks out = [c1, c2, c3]"
    "vto_status out = (if check_status c1 = ''fail'' \<or> check_status c2 = ''fail'' \<or> check_status c3 = ''fail'' then ''fail'' else ''ok'')"
proof -
  let ?parsed = "sidecar_read_from (de_sidecar_of_json env) (resolve_sidecar_path args) w"
  let ?sidecar = "case ?parsed of Ok sc \<Rightarrow> Some sc | _ \<Rightarrow> None"
  let ?c1 = "case ?parsed of Err e \<Rightarrow> SidecarReadable ''fail'' (Some (dt_sidecar (de_texts env) e)) | _ \<Rightarrow> SidecarReadable ''pass'' None"
  from assms obtain bytes c2 key c3 where
    "fs_read (vt_tarball args) w = Ok bytes" "?parsed \<noteq> Panic" "digest_check env bytes ?sidecar = Ok c2"
    "load_public_key env args w = Ok key" "signature_check env ?sidecar key = Ok c3"
    "out = \<lparr>vto_status = (if list_ex (\<lambda>c. check_status c = ''fail'') [?c1, c2, c3] then ''fail'' else ''ok''),
       vto_tarball = vt_tarball args, vto_sidecar = resolve_sidecar_path args,
       vto_oci_ref = map_option sc_oci_ref ?sidecar, vto_tag = map_option sc_tag ?sidecar, vto_checks = [?c1, c2, c3]\<rparr>"
    unfolding verify_tarball_check_def Let_def
    by (cases "?parsed = Panic") (auto simp only: obind_Ok_iff omap_err_iff simp_thms if_True if_False outcome.simps)
  then show thesis by (intro that [of bytes ?parsed ?c1 c2 key c3]) simp_all
qed

text \<open>
  C18. The verdict is exact. The verb succeeds just where the signature file parses, names the digest of the manifest
  that a push of this archive would store, and, where a public key is configured, carries a signature that the key
  verifies over a payload that names that digest. Without a key the signature counts for nothing.
\<close>

theorem verify_tarball_exact:
  assumes run: "verify_tarball env args w = Ok (exit, out)"
    and key: "load_public_key env args w = Ok key" and bytes: "fs_read (vt_tarball args) w = Ok bytes"
    and digests: "(compute_publish_digests (de_push env) bytes :: (verify_tarball_error, publish_digests) outcome) = Ok d"
  shows "exit = Success \<longleftrightarrow>
    (\<exists>sc. sidecar_read_from (de_sidecar_of_json env) (resolve_sidecar_path args) w = Ok sc
       \<and> sc_manifest_digest sc = pd_manifest_digest d
       \<and> (\<forall>pem. key = Some pem \<longrightarrow>
            (\<exists>k. public_key_of_pem (dist_crypto env) pem = Ok k
               \<and> digest_from_json (dist_crypto env) (sc_payload sc) = Ok (pd_manifest_digest d)
               \<and> signed_by (dist_crypto env) k (sc_payload sc) (trim (sc_signature_b64 sc)))))"
proof -
  from run have chk: "verify_tarball_check env args w = Ok out"
    and ex: "exit = (if vto_status out = ''ok'' then Success else UserError)"
    by (auto simp: verify_tarball_def outcome_simps)
  from chk obtain bytes' parsed c1 c2 key' c3 where
    f: "fs_read (vt_tarball args) w = Ok bytes'"
      "parsed = sidecar_read_from (de_sidecar_of_json env) (resolve_sidecar_path args) w" "parsed \<noteq> Panic"
      "c1 = (case parsed of Err e \<Rightarrow> SidecarReadable ''fail'' (Some (dt_sidecar (de_texts env) e)) | _ \<Rightarrow> SidecarReadable ''pass'' None)"
      "digest_check env bytes' (case parsed of Ok sc \<Rightarrow> Some sc | _ \<Rightarrow> None) = Ok c2"
      "load_public_key env args w = Ok key'"
      "signature_check env (case parsed of Ok sc \<Rightarrow> Some sc | _ \<Rightarrow> None) key' = Ok c3"
      "vto_status out = (if check_status c1 = ''fail'' \<or> check_status c2 = ''fail'' \<or> check_status c3 = ''fail'' then ''fail'' else ''ok'')"
    by (rule verify_tarball_check_Ok)
  have same: "bytes' = bytes" "key' = key" using f(1,6) bytes key by simp_all
  have exit: "exit = Success \<longleftrightarrow> check_status c1 \<noteq> ''fail'' \<and> check_status c2 \<noteq> ''fail'' \<and> check_status c3 \<noteq> ''fail''"
    by (simp add: ex f(8))
  show ?thesis
  proof (cases parsed)
    case (Err e)
    then show ?thesis using f(2) by (simp add: exit f(4))
  next
    case (Ok sc)
    have c2: "check_status c2 \<noteq> ''fail'' \<longleftrightarrow> sc_manifest_digest sc = pd_manifest_digest d"
      using f(5) digests by (auto simp: Ok same digest_check_Ok)
    have c3: "check_status c3 \<noteq> ''fail'' \<longleftrightarrow> (\<forall>pem. key = Some pem \<longrightarrow>
        verify_keyed (dist_crypto env) pem (sc_payload sc) (sc_signature_b64 sc) (sc_manifest_digest sc) = Ok ())"
      using signature_check_Ok [OF f(7)] by (simp add: Ok same)
    show ?thesis
      unfolding exit c2 c3 f(2) [symmetric] Ok
      by (auto simp: f(4) Ok cosign_verify_sound [THEN conjunct2])
  qed (use f(3) in simp)
qed

text \<open>
  Offline the loop closes: what \<open>akua sign\<close> made of an archive is accepted by \<open>akua verify --tarball\<close> of the same
  archive under the public key of the pair, with all three checks passed.
\<close>

theorem signed_tarball_verifies:
  assumes signed: "make_sidecar env sargs pass w = Ok sc" "sign_load_key env sargs w = Ok pem"
    and keys: "key_pair (dist_crypto env) pem public_pem" "codecs_invert (dist_crypto env)" "\<not> is_encrypted_pem pem"
    and moved: "fs_read (sa_tarball sargs) w = Ok bytes" "fs_read (vt_tarball args) w2 = Ok bytes"
      "sidecar_read_from (de_sidecar_of_json env) (resolve_sidecar_path args) w2 = Ok sc"
      "load_public_key env args w2 = Ok (Some public_pem)"
  shows "\<exists>out. verify_tarball env args w2 = Ok (Success, out) \<and> map check_status (vto_checks out) = [''pass'', ''pass'', ''pass'']"
proof -
  from signed(1) obtain bytes' d pem' where
    m: "read_tarball (SgReadInput ''tarball'') SgEmptyTarball (sa_tarball sargs) w = Ok bytes'"
      "(compute_publish_digests (de_push env) bytes' :: (sign_error, publish_digests) outcome) = Ok d"
      "sign_load_key env sargs w = Ok pem'"
      "(build_simple_signing_payload (dist_crypto env) (without_scheme (sa_oci_ref sargs)) (pd_manifest_digest d)
        :: (sign_error, string) outcome) = Ok (sc_payload sc)"
      "sign_keyed (dist_crypto env) pem' (sc_payload sc) pass = Ok (sc_signature_b64 sc)"
      "sc_manifest_digest sc = pd_manifest_digest d"
    by (rule make_sidecar_Ok)
  have same: "bytes' = bytes" "pem' = pem" using m(1,3) moved(1) signed(2) by (auto simp: read_tarball_Ok)
  have d: "(compute_publish_digests (de_push env) bytes :: (verify_tarball_error, publish_digests) outcome) = Ok d"
    using m(2) by (simp add: same compute_publish_digests_Ok)
  have v: "verify_keyed (dist_crypto env) public_pem (sc_payload sc) (sc_signature_b64 sc) (sc_manifest_digest sc) = Ok ()"
    using signed_payload_verifies [OF keys m(4)] m(5,6) same by simp
  have checks: "digest_check env bytes (Some sc) = Ok (DigestMatch ''pass'' None None)"
    "signature_check env (Some sc) (Some public_pem) = Ok (SignatureVerify ''pass'' None)"
    using d v by (simp_all add: digest_check_def signature_check_def m(6))
  show ?thesis
    by (simp add: verify_tarball_def verify_tarball_check_def Let_def moved checks)
qed

text \<open>
  A signature file that does not parse fails the verification, and the report blames the wrong thing: the
  skipped signature check says that no public key is configured, also where one is.
\<close>

theorem unreadable_sidecar_fails:
  assumes read: "fs_read (vt_tarball args) w = Ok bytes"
    and bad: "sidecar_read_from (de_sidecar_of_json env) (resolve_sidecar_path args) w = Err e"
    and key: "load_public_key env args w = Ok (Some pem)"
  shows "\<exists>out. verify_tarball env args w = Ok (UserError, out) \<and> vto_status out = ''fail''
    \<and> vto_checks out = [SidecarReadable ''fail'' (Some (dt_sidecar (de_texts env) e)), DigestMatch ''skip'' None None,
         SignatureVerify ''skip'' (Some no_public_key_text)]"
  by (simp add: verify_tarball_def verify_tarball_check_def Let_def read bad key digest_check_def signature_check_def)

section \<open>Instances\<close>

definition toy_verify_args :: verify_tarball_args where
  "toy_verify_args = \<lparr>vt_tarball = [Normal ''t''], vt_sig = Some [Normal ''s''], vt_public_key = Some [Normal ''k''],
     vt_workspace = []\<rparr>"

lemma toy_verify_inputs:
  "load_public_key env toy_verify_args (dx_world toy_tarball_state) = Ok (Some [])"
  "fs_read (vt_tarball toy_verify_args) (dx_world toy_tarball_state) = Ok ''{}''"
  "sidecar_read_from of_json (resolve_sidecar_path toy_verify_args) (dx_world toy_tarball_state)
     = omap_err (SidecarParse [Normal ''s'']) (of_json [])"
  by (simp_all add: load_public_key_def toy_verify_args_def toy_tarball_state_def text_world_def fs_read_def
      sidecar_read_from_def resolve_sidecar_path_def)

lemma verify_tarball_exact_witness:
  "\<exists>out. verify_tarball toy_dist_env toy_verify_args (dx_world toy_tarball_state) = Ok (Success, out)
     \<and> (\<exists>k. public_key_of_pem (dist_crypto toy_dist_env) [] = Ok k
          \<and> signed_by (dist_crypto toy_dist_env) k (sc_payload toy_sidecar) (trim (sc_signature_b64 toy_sidecar)))"
proof -
  have "case verify_tarball toy_dist_env toy_verify_args (dx_world toy_tarball_state) of Ok (Success, _) \<Rightarrow> True | _ \<Rightarrow> False"
    by code_simp
  then obtain out where run: "verify_tarball toy_dist_env toy_verify_args (dx_world toy_tarball_state) = Ok (Success, out)"
    by (auto split: outcome.splits exit_code.splits)
  have "case compute_publish_digests (de_push toy_dist_env) ''{}'' :: (verify_tarball_error, publish_digests) outcome of
      Ok _ \<Rightarrow> True | _ \<Rightarrow> False" by code_simp
  then obtain d where d: "(compute_publish_digests (de_push toy_dist_env) ''{}'' :: (verify_tarball_error, publish_digests) outcome) = Ok d"
    by (auto split: outcome.splits)
  have sc: "sidecar_read_from (de_sidecar_of_json toy_dist_env) (resolve_sidecar_path toy_verify_args)
      (dx_world toy_tarball_state) = Ok toy_sidecar"
    by (simp add: toy_verify_inputs toy_dist_env_def)
  from verify_tarball_exact [OF run toy_verify_inputs(1,2) d, THEN iffD1, OF refl, unfolded sc] run show ?thesis by blast
qed

lemma signed_tarball_verifies_witness:
  "\<exists>sc out. make_sidecar toy_dist_env toy_sign_args None (dx_world toy_tarball_state) = Ok sc
     \<and> verify_tarball (toy_dist_env\<lparr>de_sidecar_of_json := (\<lambda>_. Ok sc)\<rparr>) toy_verify_args (dx_world toy_tarball_state)
         = Ok (Success, out)"
proof -
  let ?w = "dx_world toy_tarball_state"
  have "case make_sidecar toy_dist_env toy_sign_args None ?w of Ok _ \<Rightarrow> True | _ \<Rightarrow> False" by code_simp
  then obtain sc where sc: "make_sidecar toy_dist_env toy_sign_args None ?w = Ok sc" by (auto split: outcome.splits)
  let ?env = "toy_dist_env\<lparr>de_sidecar_of_json := (\<lambda>_. Ok sc)\<rparr>"
  have same: "de_push ?env = de_push toy_dist_env" "dist_crypto ?env = toy_crypto" "de_version ?env = de_version toy_dist_env"
    "de_tar ?env = de_tar toy_dist_env" "dist_crypto toy_dist_env = toy_crypto"
    by (simp_all add: toy_dist_env_def dist_crypto_def toy_push_env_def toy_oci_env_def)
  have key: "sign_load_key env toy_sign_args ?w = Ok []" for env :: "(unit, unit, string, nat, nat, unit, tar_entry list) dist_env"
    by (simp add: sign_load_key_def toy_sign_args_def toy_tarball_state_def text_world_def)
  have made: "make_sidecar ?env toy_sign_args None ?w = Ok sc"
    using sc by (simp add: make_sidecar_def key same)
  have pair: "key_pair (dist_crypto ?env) [] []" unfolding same by (simp add: key_pair_def toy_crypto_def)
  have inv: "codecs_invert (dist_crypto ?env)" unfolding same by (rule toy_codecs_invert)
  have rest: "\<not> is_encrypted_pem []" "fs_read (sa_tarball toy_sign_args) ?w = Ok ''{}''" by code_simp+
  have read: "sidecar_read_from (de_sidecar_of_json ?env) (resolve_sidecar_path toy_verify_args) ?w = Ok sc"
    by (simp add: toy_verify_inputs)
  from signed_tarball_verifies [OF made key pair inv rest(1,2) toy_verify_inputs(2) read toy_verify_inputs(1)] sc
  show ?thesis by blast
qed

lemma unreadable_sidecar_fails_witness:
  "\<exists>out. verify_tarball (toy_dist_env\<lparr>de_sidecar_of_json := (\<lambda>_. Err ''x'')\<rparr>) toy_verify_args (dx_world toy_tarball_state)
       = Ok (UserError, out)
     \<and> SignatureVerify ''skip'' (Some no_public_key_text) \<in> set (vto_checks out)"
proof -
  let ?env = "toy_dist_env\<lparr>de_sidecar_of_json := (\<lambda>_. Err ''x'')\<rparr>"
  have "sidecar_read_from (de_sidecar_of_json ?env) (resolve_sidecar_path toy_verify_args) (dx_world toy_tarball_state)
      = Err (SidecarParse [Normal ''s''] ''x'')" by (simp add: toy_verify_inputs)
  from unreadable_sidecar_fails [OF toy_verify_inputs(2) this toy_verify_inputs(1)] show ?thesis by auto
qed

end
