(* ===== verification/WorkspaceVerbs.thy ===== *)
theory WorkspaceVerbs
  imports Distribute PackageK
begin

text \<open>
  The verbs that look at a workspace or start one: \<open>tree\<close> (\<open>tree.rs\<close>, \<open>verbs/tree.rs\<close>), \<open>check\<close>
  (\<open>check.rs\<close>, \<open>verbs/check.rs\<close>), \<open>lint\<close> (\<open>verbs/lint.rs\<close>), \<open>diff\<close> (\<open>verbs/diff.rs\<close>) and
  \<open>init\<close> (\<open>verbs/init.rs\<close>). The parser of KCL and the \<open>toml\<close> crate are parameters, and so are the texts of the errors
  of other modules.
\<close>

record ws_texts =
  wt_manifest :: "manifest_error \<Rightarrow> string"
  wt_lock :: "lock_error \<Rightarrow> string"

record ws_env =
  we_manifest_of_toml :: "string \<Rightarrow> (string, manifest) outcome"
  we_lock_of_toml :: "string \<Rightarrow> (string, akua_lock) outcome"
  we_parse_program :: "string \<Rightarrow> string \<Rightarrow> (string, kcl_error list) outcome"
  we_texts :: ws_texts

definition manifest_file :: "path \<Rightarrow> path" where
  "manifest_file workspace = path_join workspace (path_of ''akua.toml'')"

section \<open>\<open>akua tree\<close>\<close>

record package_info =
  pi_name :: string
  pi_version :: string
  pi_edition :: string

record locked_info =
  li_digest :: string
  li_signature :: "string option"
  li_replaced_by :: "string option"

record dep_row =
  dr_name :: string
  dr_source :: string
  dr_source_ref :: string
  dr_version :: "string option"
  dr_locked :: "locked_info option"

record tree_output =
  to_package :: package_info
  to_dependencies :: "dep_row list"

definition unwrap_or_default :: "string option \<Rightarrow> string" where
  "unwrap_or_default s = (case s of Some x \<Rightarrow> x | None \<Rightarrow> [])"

definition tree_source_of :: "dependency \<Rightarrow> string \<times> string" where
  "tree_source_of d =
     (case source d of
        Some SourceOci \<Rightarrow> (''oci'', unwrap_or_default (dep_oci d))
      | Some SourceGit \<Rightarrow> (''git'', unwrap_or_default (dep_git d))
      | Some SourcePath \<Rightarrow> (''path'', unwrap_or_default (dep_path d))
      | Some SourceHelm \<Rightarrow> (''helm'', unwrap_or_default (dep_repo d))
      | None \<Rightarrow> (''unknown'', []))"

definition locked_info_of :: "locked_package \<Rightarrow> locked_info" where
  "locked_info_of p =
     \<lparr>li_digest = lp_digest p, li_signature = lp_signature p, li_replaced_by = map_option replaced_path (lp_replaced p)\<rparr>"

definition tree_row :: "akua_lock option \<Rightarrow> string \<times> dependency \<Rightarrow> dep_row" where
  "tree_row lock = (\<lambda>(name, dep).
     \<lparr>dr_name = name, dr_source = fst (tree_source_of dep), dr_source_ref = snd (tree_source_of dep),
      dr_version = dep_version dep,
      dr_locked = (case lock of
          None \<Rightarrow> None
        | Some l \<Rightarrow> map_option locked_info_of (find (\<lambda>p. lp_name p = name) (packages l)))\<rparr>)"

definition tree_from_parsed :: "manifest \<Rightarrow> akua_lock option \<Rightarrow> tree_output" where
  "tree_from_parsed m lock =
     \<lparr>to_package = \<lparr>pi_name = pkg_name (m_package m), pi_version = pkg_version (m_package m),
        pi_edition = pkg_edition (m_package m)\<rparr>,
      to_dependencies = map (tree_row lock) (m_dependencies m)\<rparr>"

datatype tree_source_error = TsManifest manifest_error | TsLock lock_error

definition tree_from_sources :: "ws_env \<Rightarrow> string \<Rightarrow> string option \<Rightarrow> (tree_source_error, tree_output) outcome" where
  "tree_from_sources env manifest_toml lock_toml =
     obind (omap_err TsManifest (parse_manifest (we_manifest_of_toml env) manifest_toml)) (\<lambda>m.
     obind (case lock_toml of
              None \<Rightarrow> Ok None
            | Some toml \<Rightarrow> obind (omap_err TsLock (parse_lock (we_lock_of_toml env) toml)) (\<lambda>l. Ok (Some l))) (\<lambda>lock.
     Ok (tree_from_parsed m lock)))"

datatype tree_error =
  TrManifest manifest_load_error
| TrLock lock_load_error
| TrManifestParse manifest_error
| TrLockParse lock_error
| TrStdoutWrite io_error

fun tree_to_structured :: "ws_texts \<Rightarrow> tree_error \<Rightarrow> structured_error" where
  "tree_to_structured t (TrManifest e) = manifest_load_to_structured (wt_manifest t) e"
| "tree_to_structured t (TrLock e) = lock_load_to_structured (wt_lock t) e"
| "tree_to_structured t (TrManifestParse e) = with_default_docs (structured_new E_MANIFEST_PARSE (wt_manifest t e))"
| "tree_to_structured t (TrLockParse e) = with_default_docs (structured_new E_LOCK_PARSE (wt_lock t e))"
| "tree_to_structured t (TrStdoutWrite e) = with_default_docs (structured_new E_IO (io_msg e))"

fun tree_is_system :: "tree_error \<Rightarrow> bool" where
  "tree_is_system (TrManifest e) = manifest_load_is_system e"
| "tree_is_system (TrLock e) = lock_load_is_system e"
| "tree_is_system (TrStdoutWrite _) = True"
| "tree_is_system _ = False"

definition tree_exit_code :: "tree_error \<Rightarrow> exit_code" where
  "tree_exit_code e = (if tree_is_system e then SystemError else UserError)"

fun map_source_error :: "tree_source_error \<Rightarrow> tree_error" where
  "map_source_error (TsManifest e) = TrManifestParse e"
| "map_source_error (TsLock e) = TrLockParse e"

definition read_optional :: "(io_error \<Rightarrow> 'e) \<Rightarrow> path \<Rightarrow> world \<Rightarrow> ('e, string option) outcome" where
  "read_optional mk p w =
     (case read_to_string w p of
        Ok s \<Rightarrow> Ok (Some s)
      | Err e \<Rightarrow> if io_kind e = NotFound then Ok None else Err (mk e)
      | Panic \<Rightarrow> Panic)"

definition tree_verb :: "ws_env \<Rightarrow> path \<Rightarrow> world \<Rightarrow> (tree_error, tree_output) outcome" where
  "tree_verb env workspace w =
     obind (omap_err (\<lambda>e. TrManifest (ManifestIo (manifest_file workspace) e)) (read_to_string w (manifest_file workspace)))
       (\<lambda>manifest_source.
     obind (read_optional (\<lambda>e. TrLock (LockIo (lock_path workspace) e)) (lock_path workspace) w) (\<lambda>lock_source.
     omap_err map_source_error (tree_from_sources env manifest_source lock_source)))"

definition short_digest :: "string \<Rightarrow> string" where
  "short_digest d = take_chars 8 (case strip_prefix ''sha256:'' d of Some rest \<Rightarrow> rest | None \<Rightarrow> d)"

definition tree_row_text :: "dep_row \<Rightarrow> string" where
  "tree_row_text d =
     ''  - '' @ dr_name d @ (case dr_version d of Some v \<Rightarrow> ''@'' @ v | None \<Rightarrow> [])
     @ '' ('' @ dr_source d @ '' '' @ dr_source_ref d @ '')''
     @ (case dr_locked d of
          Some l \<Rightarrow> '' [locked '' @ short_digest (li_digest l) @ '' (''
            @ (if li_signature l \<noteq> None then ''signed'' else ''unsigned'') @ '')]''
        | None \<Rightarrow> [])
     @ (case Option.bind (dr_locked d) li_replaced_by of Some p \<Rightarrow> '' [replace -> '' @ p @ '']'' | None \<Rightarrow> [])
     @ ''\<newline>''"

definition tree_text :: "tree_output \<Rightarrow> string \<Rightarrow> string" where
  "tree_text out buf =
     buf @ pi_name (to_package out) @ ''@'' @ pi_version (to_package out) @ '' ('' @ show_nat (length (to_dependencies out))
     @ '' deps, edition='' @ pi_edition (to_package out) @ '')\<newline>''
     @ (if to_dependencies out = [] then ''  (no dependencies)\<newline>''
        else concat (map tree_row_text (to_dependencies out)))"

section \<open>\<open>akua check\<close>\<close>

record check_result =
  ck_name :: string
  ck_ok :: bool
  ck_error :: "string option"
  ck_issues :: "lint_issue list"

record check_output =
  co_status :: string
  co_checks :: "check_result list"

definition check_pass :: "string \<Rightarrow> check_result" where
  "check_pass name = \<lparr>ck_name = name, ck_ok = True, ck_error = None, ck_issues = []\<rparr>"

definition check_fail :: "string \<Rightarrow> string \<Rightarrow> check_result" where
  "check_fail name e = \<lparr>ck_name = name, ck_ok = False, ck_error = Some e, ck_issues = []\<rparr>"

definition verdict_of :: "string \<Rightarrow> ('e \<Rightarrow> string) \<Rightarrow> ('e, 'a) outcome \<Rightarrow> ('f, check_result) outcome" where
  "verdict_of name disp r =
     (case r of Ok _ \<Rightarrow> Ok (check_pass name) | Err e \<Rightarrow> Ok (check_fail name (disp e)) | Panic \<Rightarrow> Panic)"

definition check_manifest :: "ws_env \<Rightarrow> string \<Rightarrow> ('e, check_result) outcome" where
  "check_manifest env toml =
     verdict_of ''manifest'' (wt_manifest (we_texts env)) (parse_manifest (we_manifest_of_toml env) toml)"

definition check_lockfile :: "ws_env \<Rightarrow> string \<Rightarrow> ('e, check_result) outcome" where
  "check_lockfile env toml = verdict_of ''lockfile'' (wt_lock (we_texts env)) (parse_lock (we_lock_of_toml env) toml)"

definition lint_kcl_source :: "ws_env \<Rightarrow> string \<Rightarrow> string \<Rightarrow> (package_error, lint_issue list) outcome" where
  "lint_kcl_source env filename src = run_parse_program (we_parse_program env filename src)"

definition check_package :: "ws_env \<Rightarrow> string \<Rightarrow> string \<Rightarrow> ('e, check_result) outcome" where
  "check_package env filename src =
     (case lint_kcl_source env filename src of
        Ok issues \<Rightarrow>
          Ok (if issues = [] then check_pass ''package''
              else \<lparr>ck_name = ''package'', ck_ok = False,
                ck_error = Some (show_nat (length issues) @ '' lint issue(s)''), ck_issues = issues\<rparr>)
      | Err e \<Rightarrow> Ok (check_fail ''package'' (show_package_error e))
      | Panic \<Rightarrow> Panic)"

definition when_some :: "'a option \<Rightarrow> ('a \<Rightarrow> ('e, 'b) outcome) \<Rightarrow> ('e, 'b list) outcome" where
  "when_some x f = (case x of None \<Rightarrow> Ok [] | Some a \<Rightarrow> obind (f a) (\<lambda>b. Ok [b]))"

definition status_of :: "check_result list \<Rightarrow> string" where
  "status_of checks = (if list_all ck_ok checks then ''ok'' else ''fail'')"

definition check_from_sources ::
  "ws_env \<Rightarrow> string option \<Rightarrow> string option \<Rightarrow> (string \<times> string) option \<Rightarrow> ('e, check_output) outcome"
where
  "check_from_sources env manifest_toml lock_toml package =
     obind (when_some manifest_toml (check_manifest env)) (\<lambda>a.
     obind (when_some lock_toml (check_lockfile env)) (\<lambda>b.
     obind (when_some package (\<lambda>(filename, src). check_package env filename src)) (\<lambda>c.
     Ok \<lparr>co_status = status_of (a @ b @ c), co_checks = a @ b @ c\<rparr>)))"

definition read_opt :: "world \<Rightarrow> path \<Rightarrow> string option" where
  "read_opt w p = (case read_to_string w p of Ok s \<Rightarrow> Some s | _ \<Rightarrow> None)"

definition resolve_package_path :: "path \<Rightarrow> path \<Rightarrow> path" where
  "resolve_package_path workspace package = (if is_absolute package then package else path_join workspace package)"

definition required_missing :: "string \<Rightarrow> path \<Rightarrow> string option \<Rightarrow> check_result list" where
  "required_missing name p src = (if src = None then [check_fail name (path_str p @ '' not found'')] else [])"

definition check_verb :: "ws_env \<Rightarrow> path \<Rightarrow> path \<Rightarrow> world \<Rightarrow> ('e, exit_code \<times> check_output) outcome" where
  "check_verb env workspace package_path w =
     (let pkg_path = resolve_package_path workspace package_path;
          manifest_source = read_opt w (manifest_file workspace);
          lock_source = read_opt w (lock_path workspace);
          pkg_source = read_opt w pkg_path
      in obind (check_from_sources env manifest_source lock_source (map_option (\<lambda>src. (path_str pkg_path, src)) pkg_source))
         (\<lambda>out.
           let checks = required_missing ''manifest'' (manifest_file workspace) manifest_source @ co_checks out
                 @ required_missing ''package'' pkg_path pkg_source;
               status = status_of checks
           in Ok (if status = ''ok'' then Success else UserError, \<lparr>co_status = status, co_checks = checks\<rparr>)))"

definition check_result_text :: "check_result \<Rightarrow> string" where
  "check_result_text c =
     (let marker = (if ck_ok c then [CHR 0xE2, CHR 0x9C, CHR 0x93] else [CHR 0xE2, CHR 0x9C, CHR 0x97])
      in (case ck_error c of
            Some msg \<Rightarrow> ''  '' @ marker @ '' '' @ ck_name c @ '': '' @ msg @ ''\<newline>''
          | None \<Rightarrow> ''  '' @ marker @ '' '' @ ck_name c @ ''\<newline>'')
         @ concat (map (\<lambda>i. ''      ['' @ li_level i @ ''] '' @ li_code i @ '': '' @ li_message i @ ''\<newline>'')
             (ck_issues c)))"

definition check_output_text :: "check_output \<Rightarrow> string \<Rightarrow> string" where
  "check_output_text out buf = buf @ concat (map check_result_text (co_checks out)) @ co_status out @ ''\<newline>''"

datatype check_verb_error = CkStdoutWrite io_error

fun check_to_structured :: "check_verb_error \<Rightarrow> structured_error" where
  "check_to_structured (CkStdoutWrite e) = with_default_docs (structured_new E_IO (io_msg e))"

definition check_exit_code :: "check_verb_error \<Rightarrow> exit_code" where
  "check_exit_code e = SystemError"

section \<open>\<open>akua lint\<close>\<close>

record lint_output =
  lt_status :: string
  lt_issues :: "lint_issue list"

datatype lint_error =
  LnIo path io_error
| LnKcl package_error
| LnStdoutWrite io_error

fun lint_to_structured :: "ws_texts \<Rightarrow> lint_error \<Rightarrow> structured_error" where
  "lint_to_structured t (LnIo p e) =
     with_default_docs (with_path (path_str p)
       (structured_new (if io_kind e = NotFound then ''E_PACKAGE_MISSING'' else E_IO) (io_msg e)))"
| "lint_to_structured t (LnKcl e) = with_default_docs (structured_new ''E_LINT_FAIL'' (show_package_error e))"
| "lint_to_structured t (LnStdoutWrite e) = with_default_docs (structured_new E_IO (io_msg e))"

fun lint_is_system :: "lint_error \<Rightarrow> bool" where
  "lint_is_system (LnIo _ e) = (io_kind e \<noteq> NotFound)"
| "lint_is_system (LnStdoutWrite _) = True"
| "lint_is_system _ = False"

definition lint_exit_code :: "lint_error \<Rightarrow> exit_code" where
  "lint_exit_code e = (if lint_is_system e then SystemError else UserError)"

definition lint_verb :: "ws_env \<Rightarrow> path \<Rightarrow> world \<Rightarrow> (lint_error, exit_code \<times> lint_output) outcome" where
  "lint_verb env p w =
     (if \<not> exists w p then Err (LnIo p \<lparr>io_kind = NotFound, io_msg = path_str p @ '' not found''\<rparr>)
      else obind (omap_err LnKcl (lint_kcl w (we_parse_program env) p)) (\<lambda>issues.
        let out = \<lparr>lt_status = (if issues = [] then ''ok'' else ''fail''), lt_issues = issues\<rparr>
        in Ok (if lt_issues out = [] then Success else UserError, out)))"

definition issue_location :: "lint_issue \<Rightarrow> string" where
  "issue_location i =
     (case (li_file i, li_line i, li_column i) of
        (Some f, Some l, Some c) \<Rightarrow> f @ '':'' @ show_nat (nat l) @ '':'' @ show_nat (nat c)
      | (Some f, Some l, None) \<Rightarrow> f @ '':'' @ show_nat (nat l)
      | (Some f, None, None) \<Rightarrow> f
      | _ \<Rightarrow> [])"

definition lint_text :: "lint_output \<Rightarrow> string \<Rightarrow> string" where
  "lint_text out buf =
     (if lt_issues out = [] then buf @ ''ok: no lint issues\<newline>''
      else buf @ ''fail: '' @ show_nat (length (lt_issues out)) @ '' issue(s)\<newline>''
        @ concat (map (\<lambda>i. ''  ['' @ li_level i @ ''] '' @ li_code i @ '': '' @ li_message i
            @ (if issue_location i = [] then [] else ''  at '' @ issue_location i) @ ''\<newline>'') (lt_issues out)))"

section \<open>\<open>akua diff\<close>\<close>

datatype diff_verb_error = DvDirDiff dir_diff_error | DvStdoutWrite io_error

fun diff_to_structured :: "diff_verb_error \<Rightarrow> structured_error" where
  "diff_to_structured (DvDirDiff (NotDir p)) =
     with_default_docs (with_path (path_str p) (structured_new ''E_DIFF_NOT_DIR'' (backquoted p @ '' is not a directory'')))"
| "diff_to_structured (DvDirDiff (DiffIo p e)) =
     with_default_docs (with_path (path_str p)
       (structured_new (if io_kind e = NotFound then ''E_PACKAGE_MISSING'' else E_IO) (io_msg e)))"
| "diff_to_structured (DvStdoutWrite e) = with_default_docs (structured_new E_IO (io_msg e))"

fun diff_is_system :: "diff_verb_error \<Rightarrow> bool" where
  "diff_is_system (DvDirDiff (DiffIo _ e)) = (io_kind e \<noteq> NotFound)"
| "diff_is_system (DvStdoutWrite _) = True"
| "diff_is_system _ = False"

definition diff_exit_code :: "diff_verb_error \<Rightarrow> exit_code" where
  "diff_exit_code e = (if diff_is_system e then SystemError else UserError)"

definition diff_verb ::
  "(string \<Rightarrow> string) \<Rightarrow> path \<Rightarrow> path \<Rightarrow> world \<Rightarrow> (diff_verb_error, exit_code \<times> dir_diff) outcome"
where
  "diff_verb sha256 before after w =
     obind (omap_err DvDirDiff (diff sha256 w before after)) (\<lambda>d. Ok (if is_clean d then Success else UserError, d))"

definition short_hash :: "string \<Rightarrow> string" where
  "short_hash h = (case strip_prefix ''sha256:'' h of Some rest \<Rightarrow> take_chars 12 rest | None \<Rightarrow> h)"

definition skipped_text :: "dir_diff \<Rightarrow> string" where
  "skipped_text d =
     (if skipped d = [] then [] else ''  ('' @ show_nat (length (skipped d)) @ '' non-file entries skipped)\<newline>'')"

definition diff_text :: "dir_diff \<Rightarrow> string \<Rightarrow> string" where
  "diff_text d buf =
     (if is_clean d then buf @ ''no differences\<newline>'' @ skipped_text d
      else buf @ concat (map (\<lambda>p. ''+ '' @ path_str p @ ''\<newline>'') (added d))
        @ concat (map (\<lambda>p. ''- '' @ path_str p @ ''\<newline>'') (removed d))
        @ concat (map (\<lambda>c. ''~ '' @ path_str (fc_path c) @ ''  ('' @ short_hash (fc_before c) @ '' '' @ right_arrow @ '' ''
            @ short_hash (fc_after c) @ '')\<newline>'') (changed d))
        @ skipped_text d)"

section \<open>\<open>akua init\<close>\<close>

record init_args =
  in_target :: path
  in_package_name :: string
  in_force :: bool

record init_output =
  io_name :: string
  io_path :: path
  io_files :: "string list"

datatype init_error =
  InExists path
| InIo path io_error
| InEmptyName
| InStdoutWrite io_error

fun init_to_structured :: "init_error \<Rightarrow> structured_error" where
  "init_to_structured (InExists p) =
     with_default_docs (with_suggestion ''pass --force to overwrite, or pick a different directory''
       (with_path (path_str p) (structured_new ''E_INIT_EXISTS'' ''target directory already contains scaffold files'')))"
| "init_to_structured (InIo p e) = with_default_docs (with_path (path_str p) (structured_new E_IO (io_msg e)))"
| "init_to_structured InEmptyName =
     with_default_docs (with_suggestion ''pass `akuapkg init <name>` or run from a named directory''
       (structured_new ''E_INIT_EMPTY_NAME'' ''package name must be non-empty''))"
| "init_to_structured (InStdoutWrite e) = with_default_docs (structured_new E_IO (io_msg e))"

fun init_is_system :: "init_error \<Rightarrow> bool" where
  "init_is_system (InIo _ _) = True"
| "init_is_system (InStdoutWrite _) = True"
| "init_is_system _ = False"

definition init_exit_code :: "init_error \<Rightarrow> exit_code" where
  "init_exit_code e = (if init_is_system e then SystemError else UserError)"

definition quoted_text :: "string \<Rightarrow> string" where
  "quoted_text s = CHR 0x22 # s @ [CHR 0x22]"

definition akua_toml :: "string \<Rightarrow> string" where
  "akua_toml name =
     ''[package]\<newline>name    = '' @ quoted_text name @ ''\<newline>version = '' @ quoted_text ''0.1.0''
     @ ''\<newline>edition = '' @ quoted_text ''akua.dev/v1alpha1'' @ ''\<newline>\<newline>[dependencies]\<newline>''"

definition doc_string :: "string \<Rightarrow> string" where
  "doc_string s = ''    '' @ replicate 3 (CHR 0x22) @ s @ replicate 3 (CHR 0x22) @ ''\<newline>''"

definition PACKAGE_K :: string where
  "PACKAGE_K =
     ''# Minimal Package.k '' @ em_dash @ '' edit me.\<newline>#\<newline>''
     @ ''# See docs/package-format.md for the full authoring reference.\<newline>\<newline>import akua.ctx\<newline>\<newline>schema Input:\<newline>''
     @ doc_string ''Public inputs for this Package.'' @ ''\<newline>    appName: str\<newline>''
     @ doc_string ''Application name. Used as resource-name prefix.'' @ ''\<newline>    replicas: int = 2\<newline>''
     @ doc_string ''Number of replicas.'' @ ''\<newline>    check:\<newline>        replicas >= 1, ''
     @ quoted_text ''replicas must be at least 1'' @ ''\<newline>\<newline>input: Input = ctx.input()\<newline>\<newline>resources = [{\<newline>''
     @ ''    apiVersion: '' @ quoted_text ''v1'' @ ''\<newline>    kind: '' @ quoted_text ''ConfigMap''
     @ ''\<newline>    metadata.name: input.appName\<newline>    data.replicas: str(input.replicas)\<newline>}]\<newline>''"

definition INPUTS_EXAMPLE :: string where
  "INPUTS_EXAMPLE = ''appName: hello\<newline>replicas: 3\<newline>''"

definition scaffold :: "string \<Rightarrow> (string \<times> string) list" where
  "scaffold name = [(''akua.toml'', akua_toml name), (''package.k'', PACKAGE_K), (''inputs.example.yaml'', INPUTS_EXAMPLE)]"

definition scaffold_path :: "path \<Rightarrow> string \<Rightarrow> path" where
  "scaffold_path target filename = path_join target (path_of filename)"

definition refuse_existing :: "init_args \<Rightarrow> world \<Rightarrow> (init_error, unit) outcome" where
  "refuse_existing args w =
     for_each (\<lambda>(filename, _).
       let p = scaffold_path (in_target args) filename
       in if exists w p \<and> \<not> in_force args then Err (InExists p) else Ok ()) (scaffold (in_package_name args))"

fun write_scaffold :: "path \<Rightarrow> (string \<times> string) list \<Rightarrow> world \<Rightarrow> (init_error, unit) outcome \<times> world" where
  "write_scaffold target [] w = (Ok (), w)"
| "write_scaffold target ((filename, contents) # rest) w =
     (case fs_write (scaffold_path target filename) contents w of
        Ok w' \<Rightarrow> write_scaffold target rest w'
      | Err e \<Rightarrow> (Err (InIo (scaffold_path target filename) e), w)
      | Panic \<Rightarrow> (Panic, w))"

definition absolute :: "world \<Rightarrow> path \<Rightarrow> path" where
  "absolute w p = (case canonicalize w p of Ok q \<Rightarrow> q | _ \<Rightarrow> p)"

definition init_verb :: "init_args \<Rightarrow> world \<Rightarrow> (init_error, init_output) outcome \<times> world" where
  "init_verb args w =
     (if in_package_name args = [] then (Err InEmptyName, w)
      else case fs_create_dir_all (in_target args) w of
        Err e \<Rightarrow> (Err (InIo (in_target args) e), w)
      | Panic \<Rightarrow> (Panic, w)
      | Ok w' \<Rightarrow>
          nbind (nret (refuse_existing args w')) (\<lambda>_.
          nbind (write_scaffold (in_target args) (scaffold (in_package_name args))) (\<lambda>_ w'.
          nret (Ok \<lparr>io_name = in_package_name args, io_path = absolute w' (in_target args),
            io_files = map fst (scaffold (in_package_name args))\<rparr>) w')) w')"

definition init_text :: "init_output \<Rightarrow> string \<Rightarrow> string" where
  "init_text out buf =
     buf @ ''scaffolded '' @ io_name out @ '' at '' @ path_str (io_path out) @ ''\<newline>''
     @ concat (map (\<lambda>f. ''  + '' @ f @ ''\<newline>'') (io_files out))"

section \<open>How their errors are reported\<close>

interpretation tree_errors: reported_error "tree_to_structured t" tree_is_system tree_exit_code for t
proof unfold_locales
  fix e
  show "docs (tree_to_structured t e) = Some (error_docs_base @ ''/'' @ code (tree_to_structured t e))"
    by (cases e) (simp_all add: structured_defs manifest_errors.docs_of_code lock_errors.docs_of_code)
  show "level (tree_to_structured t e) = Error"
    by (cases e) (simp_all add: structured_defs manifest_errors.level_error lock_errors.level_error)
qed (simp_all add: tree_exit_code_def)

interpretation check_errors: reported_error check_to_structured "\<lambda>_. True" check_exit_code
proof unfold_locales
  fix e
  show "docs (check_to_structured e) = Some (error_docs_base @ ''/'' @ code (check_to_structured e))"
    "level (check_to_structured e) = Error" by (cases e; simp add: structured_defs)+
qed (simp_all add: check_exit_code_def)

interpretation lint_errors: reported_error "lint_to_structured t" lint_is_system lint_exit_code for t
proof unfold_locales
  fix e
  show "docs (lint_to_structured t e) = Some (error_docs_base @ ''/'' @ code (lint_to_structured t e))"
    "level (lint_to_structured t e) = Error" by (cases e; simp add: structured_defs)+
qed (simp_all add: lint_exit_code_def)

interpretation diff_errors: reported_error diff_to_structured diff_is_system diff_exit_code
proof unfold_locales
  fix e
  show "docs (diff_to_structured e) = Some (error_docs_base @ ''/'' @ code (diff_to_structured e))"
    "level (diff_to_structured e) = Error"
    by (cases e rule: diff_to_structured.cases; simp add: structured_defs)+
qed (simp_all add: diff_exit_code_def)

interpretation init_errors: reported_error init_to_structured init_is_system init_exit_code
proof unfold_locales
  fix e
  show "docs (init_to_structured e) = Some (error_docs_base @ ''/'' @ code (init_to_structured e))"
    "level (init_to_structured e) = Error" by (cases e; simp add: structured_defs)+
qed (simp_all add: init_exit_code_def)

end
