(* ===== verification/WorkspaceVerbsSpec.thy ===== *)
theory WorkspaceVerbsSpec
  imports WorkspaceVerbs
begin

text \<open>
  What the verbs that look at a workspace report: the verdict of \<open>check\<close>, the rows of \<open>tree\<close>, the exit
  code of \<open>diff\<close>, the errors of \<open>lint\<close>, and what \<open>init\<close> leaves on disk.
\<close>

section \<open>\<open>akua check\<close>\<close>

lemma verdict_of_Ok: "verdict_of name disp r = Ok c \<Longrightarrow> (ck_ok c \<longleftrightarrow> (\<exists>a. r = Ok a)) \<and> r \<noteq> Panic"
  by (auto simp: verdict_of_def check_pass_def check_fail_def split: outcome.splits)

lemma check_package_Ok:
  "check_package env filename src = Ok c \<Longrightarrow> ck_ok c \<longleftrightarrow> lint_kcl_source env filename src = Ok []"
  by (auto simp: check_package_def check_pass_def check_fail_def split: outcome.splits if_splits)

lemma when_some_Ok: "when_some x f = Ok bs \<longleftrightarrow> (case x of None \<Rightarrow> bs = [] | Some a \<Rightarrow> \<exists>b. f a = Ok b \<and> bs = [b])"
  by (auto simp: when_some_def outcome_simps split: option.splits)

lemma required_missing_ok: "list_all ck_ok (required_missing name p src) \<longleftrightarrow> src \<noteq> None"
  by (simp add: required_missing_def check_fail_def)

lemma status_of_ok: "status_of cs = ''ok'' \<longleftrightarrow> list_all ck_ok cs"
  by (simp add: status_of_def)

lemma read_opt_Some: "read_opt w p = Some s \<longleftrightarrow> read_to_string w p = Ok s"
  by (auto simp: read_opt_def split: outcome.splits)

text \<open>
  C32. The verdict of \<open>akua check\<close> is exact: it is a success just where the manifest loads, \<open>package.k\<close> can be read and the
  parser has nothing to say about it, and \<open>akua.lock\<close> parses, if it can be read. A lock that is there and cannot
  be read counts as none, so the gate passes where every verb that loads the lock fails. No dependency is
  resolved or compared with the lock, and the gate on \<open>package.k\<close> is that of \<open>akua lint\<close>, although the
  documentation of the command calls it a dependency check and stricter than lint.
\<close>

theorem check_exact:
  assumes run: "check_verb env workspace package_path w = (Ok (exit, out) :: ('e, _) outcome)"
  shows "exit = Success \<longleftrightarrow>
     (\<exists>m. load_manifest (we_manifest_of_toml env) w workspace = Ok m)
     \<and> (\<forall>s. read_to_string w (lock_path workspace) = Ok s \<longrightarrow> (\<exists>l. parse_lock (we_lock_of_toml env) s = Ok l))
     \<and> (let p = resolve_package_path workspace package_path
        in \<exists>src. read_to_string w p = Ok src \<and> lint_kcl_source env (path_str p) src = Ok [])"
proof -
  let ?m = "read_opt w (manifest_file workspace)" and ?l = "read_opt w (lock_path workspace)"
  let ?p = "resolve_package_path workspace package_path"
  let ?s = "read_opt w ?p"
  from run obtain a b c where
    abc: "when_some ?m (check_manifest env) = (Ok a :: ('e, _) outcome)"
      "when_some ?l (check_lockfile env) = (Ok b :: ('e, _) outcome)"
      "when_some (map_option (\<lambda>src. (path_str ?p, src)) ?s) (\<lambda>(f, src). check_package env f src) = (Ok c :: ('e, _) outcome)"
    and exit: "exit = (if status_of (required_missing ''manifest'' (manifest_file workspace) ?m @ (a @ b @ c)
        @ required_missing ''package'' ?p ?s) = ''ok'' then Success else UserError)"
    by (auto simp: check_verb_def check_from_sources_def Let_def outcome_simps)
  have m: "list_all ck_ok (required_missing ''manifest'' (manifest_file workspace) ?m @ a)
      \<longleftrightarrow> (\<exists>m. load_manifest (we_manifest_of_toml env) w workspace = Ok m)"
  proof (cases ?m)
    case None
    then have "\<nexists>s. read_to_string w (manifest_file workspace) = Ok s" by (metis option.distinct(1) read_opt_Some)
    with None show ?thesis
      by (auto simp: required_missing_ok load_manifest_def manifest_file_def [symmetric] Let_def split: outcome.splits if_splits)
  next
    case (Some s)
    with abc(1) obtain v where "check_manifest env s = (Ok v :: ('e, _) outcome)" "a = [v]" by (auto simp: when_some_Ok)
    with verdict_of_Ok Some show ?thesis
      by (fastforce simp: check_manifest_def required_missing_ok read_opt_Some load_manifest_def manifest_file_def [symmetric]
          Let_def outcome_simps)
  qed
  have l: "list_all ck_ok b \<longleftrightarrow>
      (\<forall>s. read_to_string w (lock_path workspace) = Ok s \<longrightarrow> (\<exists>l. parse_lock (we_lock_of_toml env) s = Ok l))"
  proof (cases ?l)
    case None
    with abc(2) show ?thesis by (auto simp: when_some_Ok read_opt_Some [symmetric])
  next
    case (Some s)
    with abc(2) obtain v where "check_lockfile env s = (Ok v :: ('e, _) outcome)" "b = [v]" by (auto simp: when_some_Ok)
    with verdict_of_Ok Some show ?thesis by (fastforce simp: check_lockfile_def read_opt_Some)
  qed
  have c: "list_all ck_ok (c @ required_missing ''package'' ?p ?s)
      \<longleftrightarrow> (\<exists>src. read_to_string w ?p = Ok src \<and> lint_kcl_source env (path_str ?p) src = Ok [])"
  proof (cases ?s)
    case None
    then show ?thesis by (simp add: required_missing_ok read_opt_Some [symmetric])
  next
    case (Some src)
    with abc(3) obtain v where "check_package env (path_str ?p) src = (Ok v :: ('e, _) outcome)" "c = [v]"
      by (auto simp: when_some_Ok)
    with Some show ?thesis by (simp add: check_package_Ok required_missing_ok read_opt_Some)
  qed
  have "exit = Success \<longleftrightarrow> list_all ck_ok (required_missing ''manifest'' (manifest_file workspace) ?m @ a)
      \<and> list_all ck_ok b \<and> list_all ck_ok (c @ required_missing ''package'' ?p ?s)"
    by (simp add: exit status_of_ok conj_assoc)
  then show ?thesis unfolding m l c Let_def .
qed

section \<open>\<open>akua tree\<close>\<close>

text \<open>
  The rows are the dependencies of the manifest, in its order, each with the first entry of its name in the lock, whatever version
  is declared: where the lock holds two versions of a name the row shows the digest of the first one.
\<close>

theorem tree_shows_first_entry:
  assumes run: "tree_verb env workspace w = Ok out"
    and lock: "read_to_string w (lock_path workspace) = Ok text" "parse_lock (we_lock_of_toml env) text = Ok l"
  shows "\<exists>m. load_manifest (we_manifest_of_toml env) w workspace = Ok m
    \<and> map dr_name (to_dependencies out) = bt_keys (m_dependencies m)
    \<and> (\<forall>pre p post name d. packages l = pre @ p # post \<longrightarrow> lp_name p = name \<longrightarrow> name \<notin> lp_name ` set pre
         \<longrightarrow> (name, d) \<in> set (m_dependencies m)
         \<longrightarrow> (\<exists>r \<in> set (to_dependencies out). dr_name r = name \<and> dr_version r = dep_version d
               \<and> dr_locked r = Some (locked_info_of p)))"
proof -
  from run lock obtain src m where m: "read_to_string w (manifest_file workspace) = Ok src"
    "parse_manifest (we_manifest_of_toml env) src = Ok m" and out: "out = tree_from_parsed m (Some l)"
    by (auto simp: tree_verb_def read_optional_def tree_from_sources_def outcome_simps)
  have load: "load_manifest (we_manifest_of_toml env) w workspace = Ok m"
    using m by (simp add: load_manifest_def manifest_file_def [symmetric] Let_def outcome_simps)
  have names: "map dr_name (to_dependencies out) = bt_keys (m_dependencies m)"
    by (simp add: out tree_from_parsed_def tree_row_def bt_keys_def split_def o_def)
  have row: "\<exists>r \<in> set (to_dependencies out). dr_name r = name \<and> dr_version r = dep_version d
      \<and> dr_locked r = Some (locked_info_of p)"
    if l: "packages l = pre @ p # post" "lp_name p = name" "name \<notin> lp_name ` set pre" and d: "(name, d) \<in> set (m_dependencies m)"
    for pre p post name d
  proof -
    have "find (\<lambda>p. lp_name p = name) pre = None" using l(3) by (auto simp: find_None_iff)
    then have "find (\<lambda>p. lp_name p = name) (packages l) = Some p" by (simp add: l(1,2) find_append)
    then have "tree_row (Some l) (name, d) \<in> set (to_dependencies out)"
      "dr_locked (tree_row (Some l) (name, d)) = Some (locked_info_of p)"
      using d by (auto simp: out tree_from_parsed_def) (simp add: tree_row_def)
    then show ?thesis by (auto simp: tree_row_def intro!: bexI [of _ "tree_row (Some l) (name, d)"])
  qed
  show ?thesis using load names row by blast
qed

text \<open>A workspace without a manifest is reported as a failure of the system, not as the missing manifest that other verbs report.\<close>

theorem tree_misreports_missing_manifest:
  assumes "read_to_string w (manifest_file workspace) = Err e" "io_kind e = NotFound"
  shows "load_manifest (we_manifest_of_toml env) w workspace = Err (ManifestMissing (manifest_file workspace))
    \<and> (\<exists>te. tree_verb env workspace w = Err te \<and> code (tree_to_structured t te) = E_IO \<and> tree_exit_code te = SystemError)"
  using assms
  by (auto simp: tree_verb_def load_manifest_def manifest_file_def [symmetric] Let_def tree_exit_code_def structured_defs)

section \<open>\<open>akua lint\<close> and \<open>akua diff\<close>\<close>

text \<open>
  The read error of \<open>akua lint\<close> is never reported as one: a file that is there and cannot be read is a lint failure of the
  user, and the branch that reports an i/o error of the system is dead.
\<close>

theorem lint_io_misreported:
  assumes "exists w p" "read_to_string w p = Err e"
  shows "\<exists>le. lint_verb env p w = Err le \<and> code (lint_to_structured t le) = ''E_LINT_FAIL'' \<and> lint_exit_code le = UserError"
  using assms by (simp add: lint_verb_def lint_kcl_def lint_exit_code_def structured_defs)

text \<open>
  \<open>akua diff\<close> follows \<open>diff(1)\<close>: it exits with success exactly for trees with the same regular files, short of a
  collision of SHA-256; what it skips does not count.
\<close>

theorem diff_exit_exact:
  assumes "diff_verb sha256 before after w = Ok (exit, d)"
    and "tree_at w before = Ok nb" "wf_node nb" "tree_at w after = Ok na" "wf_node na"
  shows "((\<forall>p f. file_at nb p f \<longleftrightarrow> file_at na p f) \<longrightarrow> exit = Success)
    \<and> (exit = Success \<longrightarrow> (\<forall>p f. file_at nb p f \<longleftrightarrow> file_at na p f) \<or> (\<exists>s s'. s \<noteq> s' \<and> sha256 s = sha256 s'))"
proof -
  from assms(1) have d: "diff sha256 w before after = Ok d" and ex: "exit = Success \<longleftrightarrow> is_clean d"
    by (auto simp: diff_verb_def outcome_simps split: if_splits)
  show ?thesis unfolding ex by (rule diff_is_clean [OF d assms(2-5)])
qed

section \<open>\<open>akua init\<close>\<close>

lemma scaffold_paths:
  "scaffold_path t ''akua.toml'' = path_join t [Normal ''akua.toml'']"
  "scaffold_path t ''package.k'' = path_join t [Normal ''package.k'']"
  "scaffold_path t ''inputs.example.yaml'' = path_join t [Normal ''inputs.example.yaml'']"
proof -
  have "path_of ''akua.toml'' = [Normal ''akua.toml'']" "path_of ''package.k'' = [Normal ''package.k'']"
    "path_of ''inputs.example.yaml'' = [Normal ''inputs.example.yaml'']" by code_simp+
  then show "scaffold_path t ''akua.toml'' = path_join t [Normal ''akua.toml'']"
    "scaffold_path t ''package.k'' = path_join t [Normal ''package.k'']"
    "scaffold_path t ''inputs.example.yaml'' = path_join t [Normal ''inputs.example.yaml'']" by (simp_all add: scaffold_path_def)
qed

lemma join_name: "path_join t [Normal s] = path_join t [Normal s'] \<longleftrightarrow> s = s'"
  by (auto simp: path_join_def is_absolute_def)

text \<open>What the files of a list are after writing them, and what is left alone.\<close>

lemma write_scaffold_Ok:
  assumes "write_scaffold t fs w = (Ok (), w')" "distinct (map (scaffold_path t \<circ> fst) fs)"
  shows "(\<forall>(f, c) \<in> set fs. read_to_string w' (scaffold_path t f) = Ok c)
    \<and> (\<forall>q. q \<notin> scaffold_path t ` fst ` set fs \<longrightarrow> read_to_string w' q = read_to_string w q)"
  using assms
proof (induction fs arbitrary: w)
  case (Cons fc fs)
  obtain f c where fc: "fc = (f, c)" by (cases fc)
  from Cons.prems(1) obtain w1 where w1: "fs_write (scaffold_path t f) c w = Ok w1" "write_scaffold t fs w1 = (Ok (), w')"
    by (auto simp: fc split: outcome.splits)
  from Cons.IH [OF w1(2)] Cons.prems(2) have IH: "\<forall>(f, c) \<in> set fs. read_to_string w' (scaffold_path t f) = Ok c"
    "\<forall>q. q \<notin> scaffold_path t ` fst ` set fs \<longrightarrow> read_to_string w' q = read_to_string w1 q" by auto
  have "scaffold_path t f \<notin> scaffold_path t ` fst ` set fs"
    using Cons.prems(2) by (auto simp: fc image_iff)
  with IH fs_write_read [OF w1(1)] have "read_to_string w' (scaffold_path t f) = Ok c" by simp
  with IH fs_write_frame [OF w1(1)] show ?case by (auto simp: fc)
qed simp

lemma refuse_existing_Ok:
  "refuse_existing args w = Ok () \<longleftrightarrow>
     (in_force args \<or> (\<forall>(f, c) \<in> set (scaffold (in_package_name args)). \<not> exists w (scaffold_path (in_target args) f)))"
  by (auto simp: refuse_existing_def for_each_Ok_iff Let_def split: if_splits)

lemma create_dir_reads: "fs_create_dir_all p w = Ok w' \<Longrightarrow> read_to_string w' q = read_to_string w q"
  by (auto simp: fs_create_dir_all_def split: option.splits)

lemma init_written:
  assumes run: "init_verb args w = (Ok out, w')"
  shows "\<forall>(f, c) \<in> set (scaffold (in_package_name args)). read_to_string w' (scaffold_path (in_target args) f) = Ok c"
    and "q \<notin> scaffold_path (in_target args) ` set (io_files out) \<Longrightarrow> read_to_string w' q = read_to_string w q"
proof -
  let ?t = "in_target args" and ?fs = "scaffold (in_package_name args)"
  from run obtain w1 where w1: "fs_create_dir_all ?t w = Ok w1" "write_scaffold ?t ?fs w1 = (Ok (), w')"
    and out: "io_files out = map fst ?fs"
    by (auto simp: init_verb_def nbind_def nret_def split: if_splits outcome.splits prod.splits)
  have "distinct (map (scaffold_path ?t \<circ> fst) ?fs)"
    by (simp add: scaffold_def scaffold_paths join_name)
  note written = write_scaffold_Ok [OF w1(2) this]
  from written show "\<forall>(f, c) \<in> set ?fs. read_to_string w' (scaffold_path ?t f) = Ok c" by blast
  assume "q \<notin> scaffold_path ?t ` set (io_files out)"
  with written out have "read_to_string w' q = read_to_string w1 q" by auto
  then show "read_to_string w' q = read_to_string w q" by (simp add: create_dir_reads [OF w1(1)])
qed

lemma write_scaffold_no_refusal: "write_scaffold t fs v \<noteq> (Err (InExists p), v')"
  by (induction t fs v rule: write_scaffold.induct) (auto split: outcome.splits)

lemma init_refused:
  assumes run: "init_verb args w = (Err (InExists p), w')"
  shows "\<not> in_force args \<and> read_to_string w' = read_to_string w"
proof -
  from run obtain w1 where w1: "fs_create_dir_all (in_target args) w = Ok w1" "w' = w1" "refuse_existing args w1 = Err (InExists p)"
    using write_scaffold_no_refusal
    by (auto simp: init_verb_def nbind_def nret_def split: if_splits outcome.splits prod.splits)
  from w1(3) have "\<not> in_force args" using refuse_existing_Ok [of args w1] by auto
  with w1 show ?thesis by (auto simp: create_dir_reads [OF w1(1)])
qed

text \<open>
  \<open>akua init\<close> overwrites nothing without \<open>--force\<close>: where one of the three files exists it refuses and no
  file is changed, not even one that comes before it in the list; where it succeeds the three files hold the scaffold
  and every other file is what it was.
\<close>

theorem init_all_or_nothing:
  assumes run: "init_verb args w = (r, w')"
  shows "(\<forall>p. r = Err (InExists p) \<longrightarrow> \<not> in_force args \<and> read_to_string w' = read_to_string w)
    \<and> (\<forall>out. r = Ok out \<longrightarrow>
         (\<forall>(f, c) \<in> set (scaffold (in_package_name args)). read_to_string w' (scaffold_path (in_target args) f) = Ok c)
         \<and> (\<forall>q. q \<notin> scaffold_path (in_target args) ` set (io_files out) \<longrightarrow> read_to_string w' q = read_to_string w q))"
  using assms init_refused init_written by blast

text \<open>
  The name is written as it is given, whatever it is: with a name that the manifest does not admit, which any directory may have,
  \<open>akua init\<close> succeeds and the workspace it made cannot be loaded, as soon as the parser reads back the name that was written.
\<close>

theorem init_accepts_bad_name:
  assumes run: "init_verb args w = (Ok out, w')"
    and parsed: "of_toml (akua_toml (in_package_name args)) = Ok m" "pkg_name (m_package m) = in_package_name args"
    and bad: "\<not> is_valid_package_name (in_package_name args)"
  shows "\<exists>e. load_manifest of_toml w' (in_target args) = Err (ManifestBad (manifest_file (in_target args)) e)"
proof -
  have "(''akua.toml'', akua_toml (in_package_name args)) \<in> set (scaffold (in_package_name args))"
    by (simp add: scaffold_def)
  with init_written(1) [OF run] have
    "read_to_string w' (scaffold_path (in_target args) ''akua.toml'') = Ok (akua_toml (in_package_name args))" by auto
  moreover have "\<exists>e. parse_manifest of_toml (akua_toml (in_package_name args)) = Err e"
    using parsed bad by (auto simp: parse_manifest_def validate_manifest_def)
  ultimately show ?thesis
    by (auto simp: load_manifest_def manifest_file_def scaffold_path_def Let_def outcome_simps)
qed

section \<open>Instances\<close>

definition toy_ws_env :: ws_env where
  "toy_ws_env = \<lparr>we_manifest_of_toml = (\<lambda>_. Ok toy_manifest), we_lock_of_toml = (\<lambda>_. Ok \<lparr>lock_version = 1, packages = []\<rparr>),
     we_parse_program = (\<lambda>_ _. Ok []), we_texts = \<lparr>wt_manifest = (\<lambda>_. []), wt_lock = (\<lambda>_. [])\<rparr>\<rparr>"

text \<open>A lock that is there and cannot be read: the gate passes.\<close>

definition locked_out_world :: world where
  "locked_out_world = (text_world ''x'')\<lparr>read_to_string := (\<lambda>p. if p = lock_path [] then
     Err \<lparr>io_kind = OtherKind, io_msg = ''Permission denied (os error 13)''\<rparr> else Ok ''x'')\<rparr>"

lemma check_exact_witness:
  "\<exists>out. check_verb toy_ws_env [] [Normal ''package.k''] locked_out_world = (Ok (Success, out) :: (unit, _) outcome)
     \<and> (\<exists>m. load_manifest (we_manifest_of_toml toy_ws_env) locked_out_world [] = Ok m)"
proof -
  have "case check_verb toy_ws_env [] [Normal ''package.k''] locked_out_world :: (unit, _) outcome of
      Ok (Success, _) \<Rightarrow> True | _ \<Rightarrow> False" by code_simp
  then obtain out where run:
    "check_verb toy_ws_env [] [Normal ''package.k''] locked_out_world = (Ok (Success, out) :: (unit, _) outcome)"
    by (auto split: outcome.splits exit_code.splits)
  from check_exact [OF run, THEN iffD1, OF refl] run show ?thesis by blast
qed

definition nginx_entry :: "string \<Rightarrow> string \<Rightarrow> locked_package" where
  "nginx_entry v d =
     \<lparr>lp_name = ''nginx'', lp_version = v, lp_source = ''oci://r/n'', lp_digest = d, lp_vendor_digest = None,
      lp_signature = None, lp_dependencies = [], lp_attestation = None, lp_replaced = None, lp_yanked = None,
      lp_kyverno_source_digest = None, lp_converter_version = None\<rparr>"

definition two_versions :: akua_lock where
  "two_versions = \<lparr>lock_version = 1,
     packages = [nginx_entry ''1.0.0'' ''sha256:old'', nginx_entry ''2.0.0'' ''sha256:new'']\<rparr>"

definition two_versions_env :: ws_env where
  "two_versions_env = toy_ws_env\<lparr>we_manifest_of_toml := (\<lambda>_. Ok (blog_manifest\<lparr>m_dependencies :=
     [(''nginx'', nginx_dep\<lparr>dep_version := Some ''2.0.0''\<rparr>)]\<rparr>)), we_lock_of_toml := (\<lambda>_. Ok two_versions)\<rparr>"

lemma tree_shows_first_entry_witness:
  "\<exists>out r. tree_verb two_versions_env [] (text_world []) = Ok out \<and> r \<in> set (to_dependencies out)
     \<and> dr_version r = Some ''2.0.0'' \<and> map_option li_digest (dr_locked r) = Some ''sha256:old''"
proof -
  have "case tree_verb two_versions_env [] (text_world []) of Ok _ \<Rightarrow> True | _ \<Rightarrow> False" by code_simp
  then obtain out where run: "tree_verb two_versions_env [] (text_world []) = Ok out" by (auto split: outcome.splits)
  have r: "read_to_string (text_world []) (lock_path []) = Ok []" by (simp add: text_world_def)
  have l: "parse_lock (we_lock_of_toml two_versions_env) [] = Ok two_versions" by code_simp
  obtain p q where p: "packages two_versions = [] @ p # [q]" "lp_name p = ''nginx''" "lp_digest p = ''sha256:old''"
    by (simp add: two_versions_def nginx_entry_def)
  from tree_shows_first_entry [OF run r l] obtain m where
    m: "load_manifest (we_manifest_of_toml two_versions_env) (text_world []) [] = Ok m"
    and rows: "\<And>d. (''nginx'', d) \<in> set (m_dependencies m) \<Longrightarrow> \<exists>r \<in> set (to_dependencies out).
      dr_version r = dep_version d \<and> dr_locked r = Some (locked_info_of p)" using p(1,2) by fastforce
  have "m_dependencies m = [(''nginx'', nginx_dep\<lparr>dep_version := Some ''2.0.0''\<rparr>)]"
    using m by (auto simp: load_manifest_def parse_manifest_def text_world_def two_versions_env_def Let_def outcome_simps)
  with rows [of "nginx_dep\<lparr>dep_version := Some ''2.0.0''\<rparr>"] obtain r where "r \<in> set (to_dependencies out)"
    "dr_version r = Some ''2.0.0''" "dr_locked r = Some (locked_info_of p)" by auto
  with run p(3) show ?thesis by (auto simp: locked_info_of_def)
qed

definition bare_world :: world where
  "bare_world = (text_world [])\<lparr>read_to_string := (\<lambda>_. Err not_found), exists := (\<lambda>_. False)\<rparr>"

lemma tree_misreports_missing_manifest_witness:
  "\<exists>te. tree_verb toy_ws_env [] bare_world = Err te \<and> tree_exit_code te = SystemError"
  using tree_misreports_missing_manifest [of bare_world "[]" not_found toy_ws_env]
  by (auto simp: bare_world_def not_found_def)

lemma lint_io_misreported_witness:
  "\<exists>le. lint_verb toy_ws_env (lock_path []) locked_out_world = Err le \<and> lint_exit_code le = UserError"
proof -
  have "exists locked_out_world (lock_path [])" "read_to_string locked_out_world (lock_path [])
      = Err \<lparr>io_kind = OtherKind, io_msg = ''Permission denied (os error 13)''\<rparr>"
    by (simp_all add: locked_out_world_def text_world_def)
  from lint_io_misreported [OF this] show ?thesis by blast
qed

lemma diff_exit_exact_witness:
  "\<exists>d. diff_verb (\<lambda>s. s) [Normal ''before''] [Normal ''after''] clean_world = Ok (Success, d)
     \<and> (\<forall>p f. file_at (Dir [(''b'', File ''2''), (''a'', File ''1''), (''l'', Special)]) p f
          \<longleftrightarrow> file_at (Dir [(''a'', File ''1''), (''e'', Dir []), (''b'', File ''2'')]) p f)"
proof -
  have "case diff_verb (\<lambda>s. s) [Normal ''before''] [Normal ''after''] clean_world of Ok (Success, _) \<Rightarrow> True | _ \<Rightarrow> False"
    by code_simp
  then obtain d where run: "diff_verb (\<lambda>s. s) [Normal ''before''] [Normal ''after''] clean_world = Ok (Success, d)"
    by (auto split: outcome.splits exit_code.splits)
  let ?nb = "Dir [(''b'', File ''2''), (''a'', File ''1''), (''l'', Special)]"
  let ?na = "Dir [(''a'', File ''1''), (''e'', Dir []), (''b'', File ''2'')]"
  have at: "tree_at clean_world [Normal ''before''] = Ok ?nb" "wf_node ?nb"
    "tree_at clean_world [Normal ''after''] = Ok ?na" "wf_node ?na"
    by (simp_all add: clean_world_def)
  from diff_exit_exact [OF run at] run show ?thesis by auto
qed

definition toy_init :: init_args where
  "toy_init = \<lparr>in_target = [Normal ''d''], in_package_name = ''my pkg'', in_force = False\<rparr>"

lemma toy_init_runs: "\<exists>out w'. init_verb toy_init bare_world = (Ok out, w')"
proof -
  have "case init_verb toy_init bare_world of (Ok _, _) \<Rightarrow> True | _ \<Rightarrow> False" by code_simp
  then show ?thesis by (auto split: prod.splits outcome.splits)
qed

lemma init_all_or_nothing_witness:
  "\<exists>out w'. init_verb toy_init bare_world = (Ok out, w')
     \<and> read_to_string w' (scaffold_path [Normal ''d''] ''inputs.example.yaml'') = Ok INPUTS_EXAMPLE"
proof -
  from toy_init_runs obtain out w' where run: "init_verb toy_init bare_world = (Ok out, w')" by blast
  have "(''inputs.example.yaml'', INPUTS_EXAMPLE) \<in> set (scaffold (in_package_name toy_init))" by (simp add: scaffold_def)
  with init_all_or_nothing [OF run, THEN conjunct2, rule_format, OF refl] run show ?thesis by (auto simp: toy_init_def)
qed

lemma init_accepts_bad_name_witness:
  "\<exists>out w' e. init_verb toy_init bare_world = (Ok out, w')
     \<and> load_manifest (\<lambda>_. Ok (toy_manifest\<lparr>m_package := (m_package toy_manifest)\<lparr>pkg_name := ''my pkg''\<rparr>\<rparr>)) w' [Normal ''d'']
         = Err e"
proof -
  from toy_init_runs obtain out w' where run: "init_verb toy_init bare_world = (Ok out, w')" by blast
  have "\<not> is_valid_package_name (in_package_name toy_init)" by code_simp
  from init_accepts_bad_name [OF run _ _ this, of "\<lambda>_. Ok (toy_manifest\<lparr>m_package := (m_package toy_manifest)\<lparr>pkg_name := ''my pkg''\<rparr>\<rparr>)"]
    run show ?thesis by (auto simp: toy_init_def)
qed

end
