(* ===== verification/Spec2Isabelle.thy ===== *)
theory Spec2Isabelle
  imports Prelude HostAuth Contract Duration Manifest Lockfile FileTree TreeHash DirDiff
    OciFetcher HelmRepo GitFetcher ResolverSpec RenderSpec PackageRender RenderVerbSpec VerifySpec VendorSpec DistributeSpec LockVerbsSpec
    CacheInventorySpec VerifyTarballSpec WorkspaceVerbsSpec
begin

text \<open>
  A model of akua, a packaging and rendering tool for Kubernetes: the library crate \<open>akua-core\<close> and the verbs of
  \<open>akuapkg-cli\<close> (both under \<open>src/crates\<close>; file names below are relative to their \<open>src\<close> directories). A
  package is a directory with \<open>akua.toml\<close>, which declares dependencies, \<open>akua.lock\<close>, which pins them, and
  \<open>package.k\<close>, a KCL program that is evaluated to manifests.

  \<^bold>\<open>How the parts work together.\<close> A verb loads the manifest and the lock, resolves every dependency to a directory
  with a digest (from the workspace, from \<open>.akua/vendor\<close>, or through one of three fetchers and their caches), checks
  what it got against the lock, and then renders, edits, vendors, packs, signs or moves the package. Rendering
  evaluates \<open>package.k\<close>, which calls back into plugins; \<open>pkg.render\<close> renders another package within the budget and
  the posture of the first. Publishing packs the workspace, pushes it to a registry and attaches a signature and an
  attestation, which \<open>akua verify\<close> looks for.

  \<^bold>\<open>Conventions.\<close> A Rust \<open>Result\<close> that may also panic is the type \<open>outcome\<close> of \<open>Prelude\<close>. Strings are lists of bytes;
  where the code works on characters the model follows the UTF-8 encoding. \<open>BTreeMap\<close> is an ordered association list
  (\<open>btree\<close>). The file system and the environment are a \<open>world\<close> (\<open>StdFs\<close>; \<open>TreeFs\<close> for calls that
  create, copy and remove trees), the network a server function with a log of the requests that were sent. Verbs are functions
  from a state to an optional pair of an outcome and the new state. What is not in the repository is an
  argument, collected in one record per component (\<open>oci_env\<close>, \<open>gix\<close>, \<open>crypto\<close>, \<open>codecs\<close>, \<open>tar_env\<close>, ...):
  HTTP clients, the \<open>toml\<close>, \<open>serde\<close>, \<open>tar\<close>, \<open>gix\<close>, \<open>p256\<close>, \<open>sha2\<close> and \<open>semver\<close> crates, the KCL evaluator and the embedded engines.
  Theorems name what they need of them (that what is written is read back, that a primitive verifies what it signed); the
  witnesses instantiate them with concrete functions.

  \<^bold>\<open>Theories.\<close>
  \<^item> Foundations: \<open>Prelude\<close>, \<open>StdFs\<close>, \<open>TreeFs\<close>, \<open>Lines\<close>; \<open>Contract\<close> for exit codes, structured errors and
    the context of a run (\<open>cli_contract\<close>, \<open>contract\<close>), with the locale \<open>reported_error\<close> that every error type
    of the program is shown to satisfy; \<open>Duration\<close> (\<open>duration_parse.rs\<close>).
  \<^item> Data: \<open>Manifest\<close> (\<open>mod_file.rs\<close>), \<open>Lockfile\<close> (\<open>lock_file.rs\<close>), \<open>FileTree\<close>, \<open>TreeHash\<close> and \<open>DirDiff\<close>
    (\<open>walk.rs\<close>, the hash of \<open>chart_resolver.rs\<close>, \<open>dir_diff.rs\<close>): validation is exact, locks are read back in canonical form, hashes
    determine trees up to a collision.
  \<^item> Network and signatures: \<open>HostAuth\<close>, \<open>OciAuth\<close>, \<open>OciTransport\<close>, \<open>Cosign\<close>, \<open>Slsa\<close>: credentials go where
    they belong, bodies are bounded, what is signed verifies.
  \<^item> Fetchers: \<open>Fetch\<close> (the locale \<open>pinned_fetcher\<close>), \<open>OciFetcher\<close>, \<open>HelmRepo\<close>, \<open>GitFetcher\<close>: a pinned fetch returns the
    pinned artifact; a checkout stays in its directory.
  \<^item> Resolution: \<open>Resolved\<close>, \<open>Resolver\<close>, \<open>ResolverSpec\<close> (\<open>chart_resolver.rs\<close>): one chart per dependency, inside
    the workspace or pinned, and no effect offline.
  \<^item> Rendering: \<open>Decorators\<close>, \<open>PkgStub\<close>, \<open>Stdlib\<close>, \<open>RenderStack\<close>, \<open>Plugins\<close>, \<open>PackageK\<close>, \<open>PkgRender\<close>, \<open>RenderSpec\<close>, \<open>PackageRender\<close>,
    \<open>RenderVerb\<close>, \<open>RenderVerbSpec\<close>: nested renders form no endless chain, keep the budget and the posture, and write one file per resource.
  \<^item> Distribution: \<open>PackageTar\<close>, \<open>OciPusher\<close>, \<open>OciPuller\<close>, \<open>Distribute\<close>, \<open>DistributeSpec\<close> (\<open>pack\<close>, \<open>sign\<close>,
    \<open>push\<close>, \<open>publish\<close>, \<open>pull\<close>), \<open>VerifyTarball\<close> and \<open>VerifyTarballSpec\<close>, \<open>Verify\<close> and \<open>VerifySpec\<close>: what is pushed is
    pulled, offline signatures fit, verdicts mean what they say.
  \<^item> The workspace: \<open>LockVerbs\<close> and \<open>LockVerbsSpec\<close> (\<open>lock\<close>, \<open>update\<close>, \<open>add\<close>, \<open>remove\<close>), \<open>Vendor\<close> and
    \<open>VendorSpec\<close>, \<open>CacheInventory\<close> and \<open>CacheInventorySpec\<close>, \<open>WorkspaceVerbs\<close> and \<open>WorkspaceVerbsSpec\<close> (\<open>tree\<close>, \<open>check\<close>,
    \<open>lint\<close>, \<open>diff\<close>, \<open>init\<close>).
  A theory \<open>X\<close> holds the definitions in the order of the code and the interpretations of the locales; \<open>XSpec\<close> the
  theorems and their instances.

  \<^bold>\<open>Bounds.\<close> Only two recursions are bounded. A git checkout descends into trees that the object database gives it, so it
  takes \<open>r_git_depth\<close>; copying a vendored tree takes \<open>vn_copy_depth\<close>. Where the bound is reached the result of a verb is
  \<open>None\<close>; the theorems on success that produce a result assume trees no deeper than the bound, so any bound above
  the height of the tree gives it (\<open>write_tree_total\<close>, \<open>copy_tree_put\<close>). The one other way to have no result is a KCL
  evaluator that spins: its runs are a codatatype (\<open>kcl_run\<close>) and \<open>exec\<close> is a partial function, which returns offline for every
  run that \<open>halts\<close> (\<open>exec_returns\<close>) and not for one that spins (\<open>spinning_run_never_returns\<close>). Everything else is total by
  construction. Nested renders need no bound: they are a well-founded relation on the depth budget of the code.
  The temporary directories of a render are not part of the \<open>world\<close>: those of generated packages are listed in its state
  (\<open>rs_temp\<close>) while they exist, and the copy of the embedded standard library, which the program never removes, is a flag.
  Integers are natural numbers or integers where they cannot overflow in a run; durations and cache sizes are 64-bit words.

  \<^bold>\<open>Not modelled.\<close> Argument parsing, dispatch and logging (\<open>entrypoint.rs\<close>); the worker process and its sandbox
  (\<open>render_worker.rs\<close>, \<open>akua-render-worker\<close>) and the engines in WebAssembly, which consist of calls into wasmtime and
  foreign functions; the bindings for Node; the client of the hosted API; translation of KCL types to JSON Schema
  (\<open>values_schema.rs\<close>, \<open>export.rs\<close>), whose input is the data of a library; the loops around the KCL evaluator (\<open>test\<close>, \<open>dev\<close>,
  \<open>repl\<close>, \<open>fmt\<close>); archive extraction by the \<open>tar\<close> crate, which is a parameter; JSON output, whose text is a
  parameter. Concurrent runs over one cache are not considered: a run sees no change of the world but its own.
\<close>

end
